(* ===== verification/Python_Numbers.thy ===== *)
theory Python_Numbers
  imports Json_Values
begin

text \<open>
  \<open>int(v)\<close>, \<open>float(v)\<close> and \<open>Decimal(str(v))\<close> on the values the source applies
  them to. Texts are read in decimal notation with an optional sign, fraction and exponent and
  surrounding white space; the special values (\<open>NaN\<close>, \<open>Infinity\<close>), digit-group
  underscores and digits outside ASCII are not modelled and count as malformed.
\<close>

text \<open>\<open>f"{q:.nf}"\<close>.\<close>

definition str_fixed :: "nat \<Rightarrow> rat \<Rightarrow> string" where
  "str_fixed n q =
     (let k = nat \<bar>round_half_even (\<bar>q\<bar> * 10 ^ n)\<bar>; frac = str_nat (k mod 10 ^ n)
      in (if q < 0 then ''-'' else []) @ str_nat (k div 10 ^ n) @ ''.'' @ replicate (n - length frac) CHR ''0'' @ frac)"

text \<open>\<open>int(q)\<close> truncates toward zero.\<close>

definition py_trunc :: "rat \<Rightarrow> int" where
  "py_trunc q = (if 0 \<le> q then \<lfloor>q\<rfloor> else \<lceil>q\<rceil>)"

definition split_sign :: "string \<Rightarrow> bool \<times> string" where
  "split_sign s = (case s of [] \<Rightarrow> (False, [])
     | c # r \<Rightarrow> if c = CHR ''-'' then (True, r) else if c = CHR ''+'' then (False, r) else (False, s))"

definition parse_int :: "string \<Rightarrow> int option" where
  "parse_int s = (case split_sign (str_strip s) of (neg, r) \<Rightarrow>
     if str_isdigit r then Some (if neg then - int (nat_of_digits r) else int (nat_of_digits r)) else None)"

definition parse_exponent :: "string \<Rightarrow> int option" where
  "parse_exponent s = (case s of [] \<Rightarrow> Some 0
     | c # r \<Rightarrow> if c = CHR ''e'' \<or> c = CHR ''E''
               then (case split_sign r of (neg, d) \<Rightarrow>
                  if str_isdigit d then Some (if neg then - int (nat_of_digits d) else int (nat_of_digits d)) else None)
               else None)"

definition split_fraction :: "string \<Rightarrow> string \<times> string" where
  "split_fraction s = (case s of [] \<Rightarrow> ([], [])
     | c # r \<Rightarrow> if c = CHR ''.'' then (takeWhile is_digit r, dropWhile is_digit r) else ([], s))"

definition scale10 :: "rat \<Rightarrow> int \<Rightarrow> rat" where
  "scale10 q e = (if 0 \<le> e then q * 10 ^ nat e else q / 10 ^ nat (- e))"

definition parse_decimal :: "string \<Rightarrow> rat option" where
  "parse_decimal s =
     (case split_sign (str_strip s) of (neg, r) \<Rightarrow>
        let ip = takeWhile is_digit r in
        case split_fraction (dropWhile is_digit r) of (fp, r') \<Rightarrow>
          if ip = [] \<and> fp = [] then None
          else case parse_exponent r' of None \<Rightarrow> None
               | Some e \<Rightarrow>
                   let m = scale10 (of_nat (nat_of_digits (ip @ fp))) (e - int (length fp))
                   in Some (if neg then - m else m))"

text \<open>\<open>Decimal(str(v))\<close> and \<open>float(v)\<close>; \<open>None\<close> where Python raises.\<close>

fun decimal_of_json :: "json \<Rightarrow> rat option" where
  "decimal_of_json (JInt i) = Some (of_int i)"
| "decimal_of_json (JFloat q) = Some q"
| "decimal_of_json (JStr s) = parse_decimal s"
| "decimal_of_json _ = None"

fun float_of_json :: "json \<Rightarrow> rat option" where
  "float_of_json (JInt i) = Some (of_int i)"
| "float_of_json (JFloat q) = Some q"
| "float_of_json (JStr s) = parse_decimal s"
| "float_of_json (JBool b) = Some (if b then 1 else 0)"
| "float_of_json _ = None"

fun int_of_json :: "json \<Rightarrow> int option" where
  "int_of_json (JInt i) = Some i"
| "int_of_json (JFloat q) = Some (py_trunc q)"
| "int_of_json (JStr s) = parse_int s"
| "int_of_json (JBool b) = Some (if b then 1 else 0)"
| "int_of_json _ = None"

section \<open>Reading back what was printed\<close>

lemma is_digit_not_space: "is_digit c \<Longrightarrow> \<not> is_space c"
  by (auto simp: is_digit_def is_space_def Let_def)

lemma str_nat_hd: "is_digit (hd (str_nat n))"
  using str_nat_digits [of n] by (cases "str_nat n") auto

lemma str_nat_last: "is_digit (last (str_nat n))"
  using str_nat_digits [of n] by (simp add: list_all_iff)

lemma str_strip_id:
  assumes "s \<noteq> []" "\<not> is_space (hd s)" "\<not> is_space (last s)"
  shows "str_strip s = s"
proof -
  have d: "dropWhile P xs = xs" if "xs \<noteq> []" "\<not> P (hd xs)" for P and xs :: "char list"
    using that by (cases xs) auto
  have "dropWhile is_space s = s" by (rule d) (use assms in auto)
  moreover have "dropWhile is_space (rev s) = rev s" by (rule d) (use assms in \<open>auto simp: hd_rev\<close>)
  ultimately show ?thesis by (simp add: str_strip_def)
qed

lemma split_sign_digit: "s \<noteq> [] \<Longrightarrow> is_digit (hd s) \<Longrightarrow> split_sign s = (False, s)"
  by (cases s) (auto simp: split_sign_def is_digit_def)

lemma parse_int_str_nat: "parse_int (str_nat n) = Some (int n)"
proof -
  have "str_strip (str_nat n) = str_nat n"
    by (rule str_strip_id) (simp_all add: str_nat_hd str_nat_last is_digit_not_space)
  then show ?thesis
    by (simp add: parse_int_def split_sign_digit str_nat_hd str_nat_isdigit nat_of_digits_str_nat)
qed

lemma parse_decimal_str_nat: "parse_decimal (str_nat n) = Some (of_nat n)"
proof -
  have "str_strip (str_nat n) = str_nat n"
    by (rule str_strip_id) (simp_all add: str_nat_hd str_nat_last is_digit_not_space)
  moreover have "takeWhile is_digit (str_nat n) = str_nat n" "dropWhile is_digit (str_nat n) = []"
    using str_nat_digits [of n] by (auto simp: list_all_iff)
  ultimately show ?thesis
    by (simp del: takeWhile_eq_all_conv dropWhile_eq_Nil_conv add: Let_def parse_decimal_def split_sign_digit str_nat_hd split_fraction_def parse_exponent_def
        scale10_def nat_of_digits_str_nat)
qed

lemma parse_decimal_zero: "parse_decimal ''0'' = Some 0"
  by code_simp

lemma py_trunc_nonneg: "0 \<le> q \<Longrightarrow> 0 \<le> py_trunc q"
  by (simp add: py_trunc_def)

end
