(* ===== verification/Contracts.thy ===== *)
theory Contracts
  imports Json_Values
begin

text \<open>
  The typed contracts that the pipeline's stages exchange (\<open>src/src/contracts\<close>) and the
  pipeline's configuration sections (\<open>src/src/pipeline/config.py\<close>): every enumeration is a
  datatype with a function to its string value, every model a record with the source's fields
  under a prefix that names the record. The record \<open>lib\<close> collects the third-party code
  the stages call (pydantic's dump and validation, JSON text, digests); every definition that
  uses one of these takes it as an argument.
\<close>

section \<open>Common contracts\<close>

datatype stage_name = INGEST | RESEARCH | ANALYSIS | EXECUTION | APPROVAL | OUTCOME

fun stage_value :: "stage_name \<Rightarrow> string" where
  "stage_value INGEST = ''ingest''"
| "stage_value RESEARCH = ''research''"
| "stage_value ANALYSIS = ''analysis''"
| "stage_value EXECUTION = ''execution''"
| "stage_value APPROVAL = ''approval''"
| "stage_value OUTCOME = ''outcome''"

record pipeline_envelope =
  env_message_id :: uuid
  env_trace_id :: uuid
  env_source_alert_id :: string
  env_parent_message_id :: "uuid option"
  env_stage :: stage_name
  env_schema_version :: string
  env_idempotency_key :: string
  env_created_at :: timestamp
  env_payload :: json

record stage_audit =
  audit_message_id :: uuid
  audit_model_name :: "string option"
  audit_prompt_version :: "string option"
  audit_tool_calls :: "json list"
  audit_token_input :: int
  audit_token_output :: int
  audit_latency_ms :: int
  audit_cost_usd :: rat
  audit_error :: "string option"

definition stage_audit_default :: "uuid \<Rightarrow> stage_audit" where
  "stage_audit_default message_id =
     \<lparr>audit_message_id = message_id, audit_model_name = None, audit_prompt_version = None,
      audit_tool_calls = [], audit_token_input = 0, audit_token_output = 0, audit_latency_ms = 0,
      audit_cost_usd = 0, audit_error = None\<rparr>"

record portfolio_snapshot =
  snapshot_id :: uuid
  captured_at :: timestamp
  account_id :: string
  equity :: rat
  cash :: rat
  buying_power :: rat
  gross_exposure :: rat
  net_exposure :: rat
  sector_exposure :: "rat dict"
  positions :: "json list"

section \<open>Scout contracts\<close>

record signal_quality_model =
  sqm_signal_source :: string
  sqm_best_bid :: "rat option"
  sqm_best_ask :: "rat option"
  sqm_spread :: "rat option"
  sqm_quote_age_sec :: "rat option"
  sqm_liquidity_bucket :: string
  sqm_confidence :: string

record shift_summary_model =
  ssm_direction :: string
  ssm_delta_pct :: rat
  ssm_signed_delta_pct :: rat
  ssm_price_start :: rat
  ssm_price_end :: rat
  ssm_price_current :: rat
  ssm_window_sec :: int
  ssm_ticks_in_window :: int

record before_state_window_model =
  bwm_window_sec :: int
  bwm_price_start :: "rat option"
  bwm_price_end :: "rat option"
  bwm_net_delta_pct :: "rat option"
  bwm_high :: "rat option"
  bwm_low :: "rat option"
  bwm_range_pct :: "rat option"
  bwm_position_in_range :: "rat option"
  bwm_tick_count :: int
  bwm_avg_spread :: "rat option"

record before_state_activity_model =
  bam_last_5m_tick_count :: int
  bam_prior_30m_avg_5m_tick_count :: "rat option"
  bam_tick_activity_ratio :: "rat option"
  bam_last_5m_avg_spread :: "rat option"
  bam_prior_30m_avg_spread :: "rat option"
  bam_spread_change_pct :: "rat option"

record before_state_model =
  bsm_lookback_30m :: before_state_window_model
  bsm_lookback_60m :: before_state_window_model
  bsm_activity :: before_state_activity_model
  bsm_regime_label :: string

record shift_alert_mirror =
  mirror_alert_id :: string
  mirror_alert_level :: string
  mirror_alert_level_label :: string
  mirror_timestamp_iso :: string
  mirror_timestamp_ms :: int
  mirror_market :: "json dict"
  mirror_shift :: shift_summary_model
  mirror_signal_quality :: signal_quality_model
  mirror_before_state :: "before_state_model option"
  mirror_metadata :: "json dict"

section \<open>Research contracts\<close>

datatype research_status = RS_PASS | RS_DEFER | RS_INSUFFICIENT_EVIDENCE | RS_CONFLICTING_EVIDENCE

fun research_status_value :: "research_status \<Rightarrow> string" where
  "research_status_value RS_PASS = ''pass''"
| "research_status_value RS_DEFER = ''defer''"
| "research_status_value RS_INSUFFICIENT_EVIDENCE = ''insufficient_evidence''"
| "research_status_value RS_CONFLICTING_EVIDENCE = ''conflicting_evidence''"

datatype catalyst_type = CT_POLICY | CT_ECONOMIC_DATA | CT_GEOPOLITICAL | CT_CORPORATE | CT_LEGAL | CT_OTHER

datatype instrument_type = IT_EQUITY | IT_ETF

fun instrument_type_of :: "string \<Rightarrow> instrument_type option" where
  "instrument_type_of s = (if s = ''equity'' then Some IT_EQUITY else if s = ''etf'' then Some IT_ETF else None)"

datatype direction = BULLISH | BEARISH

fun direction_of :: "string \<Rightarrow> direction option" where
  "direction_of s = (if s = ''bullish'' then Some BULLISH else if s = ''bearish'' then Some BEARISH else None)"

datatype horizon = H_INTRADAY | H_SWING

fun horizon_of :: "string \<Rightarrow> horizon option" where
  "horizon_of s = (if s = ''intraday'' then Some H_INTRADAY else if s = ''swing'' then Some H_SWING else None)"

datatype source_tier = ST_PRIMARY | ST_MAJOR_PRESS | ST_SECONDARY

datatype linkage_type = LT_DIRECT | LT_SUPPLIER | LT_COMPETITOR | LT_SECTOR_PROXY | LT_MACRO_PROXY

fun linkage_type_of :: "string \<Rightarrow> linkage_type option" where
  "linkage_type_of s =
     (if s = ''direct'' then Some LT_DIRECT
      else if s = ''supplier'' then Some LT_SUPPLIER
      else if s = ''competitor'' then Some LT_COMPETITOR
      else if s = ''sector_proxy'' then Some LT_SECTOR_PROXY
      else if s = ''macro_proxy'' then Some LT_MACRO_PROXY
      else None)"

datatype confidence = C_HIGH | C_MEDIUM | C_LOW

fun confidence_of :: "string \<Rightarrow> confidence option" where
  "confidence_of s =
     (if s = ''high'' then Some C_HIGH
      else if s = ''medium'' then Some C_MEDIUM
      else if s = ''low'' then Some C_LOW
      else None)"

record ingested_alert =
  ing_shift_alert :: shift_alert_mirror
  ing_received_at :: timestamp
  ing_signature_verified :: bool
  ing_replay_source :: "string option"
  ing_priority :: int

record evidence_item =
  ev_url :: string
  ev_title :: string
  ev_publisher :: string
  ev_published_at :: "timestamp option"
  ev_retrieved_at :: timestamp
  ev_source_tier :: source_tier
  ev_relevance_score :: rat
  ev_claim_tag :: string

record asset_hypothesis =
  hyp_symbol :: string
  hyp_instrument_type :: instrument_type
  hyp_direction :: direction
  hyp_horizon :: horizon
  hyp_linkage_type :: linkage_type
  hyp_confidence :: confidence
  hyp_tradable_universe :: bool
  hyp_rationale_summary :: string

record research_report =
  rr_status :: research_status
  rr_catalyst_type :: catalyst_type
  rr_catalyst_summary :: string
  rr_catalyst_started_at :: "timestamp option"
  rr_freshness_sec :: "int option"
  rr_evidence :: "evidence_item list"
  rr_asset_hypotheses :: "asset_hypothesis list"
  rr_unsupported_claims :: "string list"
  rr_stage_summary :: string

section \<open>Analysis contracts\<close>

datatype analysis_status = AS_PASS | AS_REJECT | AS_NEEDS_REVIEW

fun analysis_status_value :: "analysis_status \<Rightarrow> string" where
  "analysis_status_value AS_PASS = ''pass''"
| "analysis_status_value AS_REJECT = ''reject''"
| "analysis_status_value AS_NEEDS_REVIEW = ''needs_review''"

datatype trade_side = BUY

fun trade_side_value :: "trade_side \<Rightarrow> string" where
  "trade_side_value BUY = ''buy''"

datatype thesis_horizon = TH_INTRADAY | TH_SWING

record filter_result =
  filter_name :: string
  filter_passed :: bool
  filter_value :: string
  filter_reason :: string

record trade_candidate =
  candidate_id :: uuid
  cand_symbol :: string
  cand_side :: trade_side
  cand_thesis_horizon :: thesis_horizon
  broker_eligible :: bool
  market_snapshot :: "json dict"
  features :: "json dict"
  filters :: "filter_result list"
  score :: rat
  max_notional :: rat
  stop_loss_pct :: rat
  expiry_at :: timestamp

record analysis_report =
  ar_status :: analysis_status
  ar_candidates :: "trade_candidate list"
  ar_rejected_candidates :: "trade_candidate list"
  ar_portfolio_snapshot_id :: uuid
  ar_stage_summary :: string

section \<open>Execution contracts\<close>

datatype execution_status =
    REJECTED_RISK | AWAITING_APPROVAL | APPROVED | SUBMITTED | PARTIALLY_FILLED | FILLED
  | CANCELLED | EXPIRED | ERROR

fun execution_status_value :: "execution_status \<Rightarrow> string" where
  "execution_status_value REJECTED_RISK = ''rejected_risk''"
| "execution_status_value AWAITING_APPROVAL = ''awaiting_approval''"
| "execution_status_value APPROVED = ''approved''"
| "execution_status_value SUBMITTED = ''submitted''"
| "execution_status_value PARTIALLY_FILLED = ''partially_filled''"
| "execution_status_value FILLED = ''filled''"
| "execution_status_value CANCELLED = ''cancelled''"
| "execution_status_value EXPIRED = ''expired''"
| "execution_status_value ERROR = ''error''"

datatype order_type = LIMIT

fun order_type_value :: "order_type \<Rightarrow> string" where
  "order_type_value LIMIT = ''limit''"

datatype time_in_force = DAY

fun time_in_force_value :: "time_in_force \<Rightarrow> string" where
  "time_in_force_value DAY = ''day''"

datatype outcome_horizon = T_PLUS_15M | T_PLUS_1H | NEXT_SESSION_CLOSE

record trade_intent =
  intent_candidate_id :: uuid
  intent_symbol :: string
  intent_side :: trade_side
  intent_order_type :: order_type
  intent_tif :: time_in_force
  intent_max_notional :: rat
  intent_limit_price :: rat
  intent_stop_loss_pct :: rat
  intent_max_slippage_bps :: int
  intent_thesis_horizon :: thesis_horizon

record risk_check_result =
  check_name :: string
  check_passed :: bool
  check_measured_value :: string
  check_threshold :: string
  check_reason :: string

record execution_decision =
  ed_status :: execution_status
  ed_selected_candidate_id :: "uuid option"
  ed_intent :: "trade_intent option"
  ed_risk_checks :: "risk_check_result list"
  ed_approval_id :: "uuid option"
  ed_broker_order_ids :: "string list"
  ed_stage_summary :: string

record outcome_observation =
  oo_trace_id :: uuid
  oo_symbol :: string
  oo_horizon :: outcome_horizon
  oo_scheduled_for :: timestamp
  oo_observed_at :: "timestamp option"
  oo_entry_price :: rat
  oo_exit_price :: "rat option"
  oo_return_pct :: "rat option"
  oo_benchmark_return_pct :: "rat option"
  oo_label :: "string option"

section \<open>Configuration sections\<close>

record queue_section =
  lease_sec :: int
  max_attempts :: int
  retry_backoff_sec :: int

record researcher_section =
  http_host :: string
  http_port :: int
  webhook_bearer_token :: string
  webhook_hmac_secret :: string
  rs_prompt_version :: string
  source_freshness_sec :: int

record analyst_section =
  ruleset_version :: string
  min_avg_dollar_volume :: rat
  max_spread_bps :: int
  min_price :: rat
  max_price :: rat

record executor_section =
  approval_mode :: string
  risk_ruleset_version :: string
  max_position_pct :: rat
  max_sector_exposure_pct :: rat
  max_gross_invested_pct :: rat
  max_daily_drawdown_pct :: rat
  consecutive_loss_limit :: int
  cooldown_minutes :: int
  stale_quote_sec :: int
  approval_timeout_minutes :: int

record pipeline_config =
  cfg_queue :: queue_section
  cfg_researcher :: researcher_section
  cfg_analyst :: analyst_section
  cfg_executor :: executor_section

section \<open>Library code the stages call\<close>

text \<open>
  \<open>py_repr\<close> renders floats, lists and dicts, \<open>str_decimal\<close> a \<open>Decimal\<close>,
  \<open>str_float\<close> a \<open>float\<close>, \<open>iso_time\<close> a \<open>datetime\<close>;
  \<open>json_dumps\<close>/\<open>json_loads\<close> are the canonical text form of a payload and its reader;
  \<open>dump_\<close> is \<open>model_dump(mode="json")\<close> and \<open>validate_\<close> is
  \<open>model_validate\<close>, which fails with \<open>None\<close> (a \<open>ValidationError\<close>).
\<close>

record lib =
  py_repr :: "json \<Rightarrow> string"
  str_decimal :: "rat \<Rightarrow> string"
  str_float :: "rat \<Rightarrow> string"
  iso_time :: "timestamp \<Rightarrow> string"
  json_dumps :: "json \<Rightarrow> string"
  json_loads :: "string \<Rightarrow> json option"
  sha256_hexdigest :: "string \<Rightarrow> string"
  hmac_sha256_hexdigest :: "string \<Rightarrow> string \<Rightarrow> string"
  dump_ingested :: "ingested_alert \<Rightarrow> json"
  validate_ingested :: "json \<Rightarrow> ingested_alert option"
  dump_research :: "research_report \<Rightarrow> json"
  validate_research :: "json \<Rightarrow> research_report option"
  dump_analysis :: "analysis_report \<Rightarrow> json"
  validate_analysis :: "json \<Rightarrow> analysis_report option"
  dump_decision :: "execution_decision \<Rightarrow> json"
  validate_decision :: "json \<Rightarrow> execution_decision option"
  validate_intent :: "json \<Rightarrow> trade_intent option"
  validate_mirror_json :: "string \<Rightarrow> shift_alert_mirror option"

lemma stage_value_inj [simp]: "stage_value a = stage_value b \<longleftrightarrow> a = b"
  by (cases a; cases b) simp_all

lemma execution_status_value_inj [simp]: "execution_status_value a = execution_status_value b \<longleftrightarrow> a = b"
  by (cases a; cases b) simp_all

end
