(* ===== verification/Pipeline_World.thy ===== *)
theory Pipeline_World
  imports Contracts
begin

text \<open>
  The state that the pipeline's processes act on, and the shape of their operations.

  The tables of the pipeline database (\<open>src/src/pipeline/migrations\<close>) are lists of row
  records in insertion order; the record \<open>world\<close> holds them together with what the code
  reads from outside (clock readings, \<open>uuid4\<close>, \<open>token_urlsafe\<close> and
  \<open>perf_counter\<close> values as arbitrary sequences with a position each) and the calls made to
  the broker. An operation takes the world to a result, an exception or a value, and the next
  world: \<open>'a op\<close>. Columns that hold ISO time texts hold the time itself, columns that
  hold an enumeration's text hold the enumeration, columns that hold \<open>str(Decimal)\<close> the
  number.
\<close>

section \<open>Tables\<close>

datatype job_state = Queued | Retry_Wait | Running | Succeeded | Dead_Letter

record trace_row =
  tr_trace_id :: uuid
  tr_source_alert_id :: string
  tr_market_asset_id :: "string option"
  tr_market_slug :: "string option"
  tr_event_slug :: "string option"
  tr_current_stage :: stage_name
  tr_status :: string
  tr_created_at :: timestamp
  tr_updated_at :: timestamp

record message_row =
  msg_message_id :: uuid
  msg_trace_id :: uuid
  msg_stage :: stage_name
  msg_parent_message_id :: "uuid option"
  msg_schema_version :: string
  msg_idempotency_key :: string
  msg_payload_jsonb :: string
  msg_payload_hash :: string
  msg_created_at :: timestamp

record job_row =
  job_id :: uuid
  job_trace_id :: uuid
  job_stage :: stage_name
  job_message_id :: uuid
  job_state :: job_state
  job_priority :: int
  job_attempt_count :: nat
  job_available_at :: timestamp
  job_leased_until :: "timestamp option"
  job_worker_id :: "string option"
  job_last_error :: "string option"
  job_created_at :: timestamp
  job_updated_at :: timestamp

record run_row =
  run_id :: uuid
  run_job_id :: uuid
  run_message_id :: uuid
  run_started_at :: timestamp
  run_finished_at :: "timestamp option"
  run_result_state :: job_state
  run_model_name :: "string option"
  run_prompt_version :: "string option"
  run_token_input :: int
  run_token_output :: int
  run_cost_usd :: rat
  run_latency_ms :: int
  run_tool_calls :: string
  run_error :: "string option"

record evidence_row =
  er_evidence_id :: uuid
  er_message_id :: uuid
  er_item :: evidence_item

record candidate_row =
  cr_message_id :: uuid
  cr_status :: string
  cr_item :: trade_candidate

record approval_row =
  ap_approval_id :: uuid
  ap_trace_id :: uuid
  ap_message_id :: uuid
  ap_candidate_id :: uuid
  ap_channel :: string
  ap_status :: string
  ap_requested_at :: timestamp
  ap_expires_at :: timestamp
  ap_decided_at :: "timestamp option"
  ap_approver_id :: "string option"
  ap_decision_reason :: "string option"
  ap_callback_token :: string

record order_row =
  ord_order_id :: uuid
  ord_trace_id :: uuid
  ord_candidate_id :: uuid
  ord_client_order_id :: string
  ord_broker :: string
  ord_broker_order_id :: "string option"
  ord_symbol :: string
  ord_side :: string
  ord_qty :: "rat option"
  ord_notional :: "rat option"
  ord_order_type :: string
  ord_tif :: string
  ord_submitted_at :: timestamp
  ord_status :: string
  ord_avg_fill_price :: "rat option"
  ord_stop_order_id :: "string option"
  ord_raw_response :: string

record dead_letter_row =
  dl_dead_letter_id :: uuid
  dl_job_id :: uuid
  dl_stage :: stage_name
  dl_reason :: string
  dl_payload_jsonb :: string
  dl_first_failed_at :: timestamp
  dl_last_failed_at :: timestamp
  dl_replay_count :: int
  dl_resolved_at :: "timestamp option"

record observation_row =
  ob_observation_id :: uuid
  ob_observation :: outcome_observation

record pdb =
  pipeline_traces :: "trace_row list"
  stage_messages :: "message_row list"
  stage_jobs :: "job_row list"
  stage_runs :: "run_row list"
  research_evidence :: "evidence_row list"
  analysis_candidates :: "candidate_row list"
  portfolio_snapshots :: "portfolio_snapshot list"
  approval_requests :: "approval_row list"
  broker_orders :: "order_row list"
  dead_letters :: "dead_letter_row list"
  outcome_observations :: "observation_row list"

definition empty_pdb :: pdb where
  "empty_pdb =
     \<lparr>pipeline_traces = [], stage_messages = [], stage_jobs = [], stage_runs = [],
      research_evidence = [], analysis_candidates = [], portfolio_snapshots = [],
      approval_requests = [], broker_orders = [], dead_letters = [], outcome_observations = []\<rparr>"

section \<open>The world and its operations\<close>

datatype dialect = Sqlite | Postgres

record world =
  clock :: "nat \<Rightarrow> timestamp"
  clock_reads :: nat
  uuid_source :: "nat \<Rightarrow> uuid"
  uuid_draws :: nat
  token_source :: "nat \<Rightarrow> string"
  token_draws :: nat
  perf_source :: "nat \<Rightarrow> rat"
  perf_reads :: nat
  dialect :: dialect
  conn_open :: bool
  db :: pdb
  broker_calls :: "(trade_intent \<times> string) list"

datatype py_error =
    KeyError string
  | RuntimeError string
  | ValueError string
  | IntegrityError string
  | ValidationError string
  | NotImplementedError
  | OtherError string

fun str_exc :: "py_error \<Rightarrow> string" where
  "str_exc (KeyError m) = '''' @ [CHR 0x27] @ m @ [CHR 0x27]"
| "str_exc (RuntimeError m) = m"
| "str_exc (ValueError m) = m"
| "str_exc (IntegrityError m) = m"
| "str_exc (ValidationError m) = m"
| "str_exc NotImplementedError = ''''"
| "str_exc (OtherError m) = m"

type_synonym 'a op = "world \<Rightarrow> (py_error + 'a) \<times> world"

definition ret :: "'a \<Rightarrow> 'a op" where
  "ret x = (\<lambda>s. (Inr x, s))"

definition raise :: "py_error \<Rightarrow> 'a op" where
  "raise e = (\<lambda>s. (Inl e, s))"

definition bindM :: "'a op \<Rightarrow> ('a \<Rightarrow> 'b op) \<Rightarrow> 'b op" where
  "bindM m f = (\<lambda>s. case m s of (Inl e, s') \<Rightarrow> (Inl e, s') | (Inr x, s') \<Rightarrow> f x s')"

text \<open>\<open>try: m; except Exception as exc: h(exc)\<close>.\<close>

definition tryM :: "'a op \<Rightarrow> (py_error \<Rightarrow> 'a op) \<Rightarrow> 'a op" where
  "tryM m h = (\<lambda>s. case m s of (Inl e, s') \<Rightarrow> h e s' | (Inr x, s') \<Rightarrow> (Inr x, s'))"

fun forM :: "'a list \<Rightarrow> ('a \<Rightarrow> unit op) \<Rightarrow> unit op" where
  "forM [] f = ret ()"
| "forM (x # xs) f = bindM (f x) (\<lambda>_. forM xs f)"

fun mapM :: "('a \<Rightarrow> 'b op) \<Rightarrow> 'a list \<Rightarrow> 'b list op" where
  "mapM f [] = ret []"
| "mapM f (x # xs) = bindM (f x) (\<lambda>y. bindM (mapM f xs) (\<lambda>ys. ret (y # ys)))"

definition from_option :: "py_error \<Rightarrow> 'a option \<Rightarrow> 'a op" where
  "from_option e x = (case x of None \<Rightarrow> raise e | Some v \<Rightarrow> ret v)"

definition asks :: "(world \<Rightarrow> 'a) \<Rightarrow> 'a op" where
  "asks f = (\<lambda>s. (Inr (f s), s))"

definition modify_db :: "(pdb \<Rightarrow> pdb) \<Rightarrow> unit op" where
  "modify_db f = (\<lambda>s. (Inr (), s\<lparr>db := f (db s)\<rparr>))"

definition utc_now :: "timestamp op" where
  "utc_now = (\<lambda>s. (Inr (clock s (clock_reads s)), s\<lparr>clock_reads := Suc (clock_reads s)\<rparr>))"

definition uuid4 :: "uuid op" where
  "uuid4 = (\<lambda>s. (Inr (uuid_source s (uuid_draws s)), s\<lparr>uuid_draws := Suc (uuid_draws s)\<rparr>))"

definition token_urlsafe :: "string op" where
  "token_urlsafe = (\<lambda>s. (Inr (token_source s (token_draws s)), s\<lparr>token_draws := Suc (token_draws s)\<rparr>))"

definition perf_counter :: "rat op" where
  "perf_counter = (\<lambda>s. (Inr (perf_source s (perf_reads s)), s\<lparr>perf_reads := Suc (perf_reads s)\<rparr>))"

text \<open>
  An \<open>INSERT\<close>: it raises where a primary key or \<open>UNIQUE\<close> constraint fails, and, on
  PostgreSQL, where a foreign key fails. SQLite connections do not enforce foreign keys unless
  \<open>PRAGMA foreign_keys\<close> is set, which the code does not do.
\<close>

definition insert_row :: "(pdb \<Rightarrow> bool) \<Rightarrow> (pdb \<Rightarrow> bool) \<Rightarrow> (pdb \<Rightarrow> pdb) \<Rightarrow> unit op" where
  "insert_row uniq fk upd = (\<lambda>s.
     if \<not> uniq (db s) then (Inl (IntegrityError ''UNIQUE constraint failed''), s)
     else if dialect s = Postgres \<and> \<not> fk (db s) then (Inl (IntegrityError ''FOREIGN KEY constraint failed''), s)
     else (Inr (), s\<lparr>db := upd (db s)\<rparr>))"

lemmas op_defs = ret_def raise_def bindM_def tryM_def asks_def modify_db_def utc_now_def uuid4_def
  token_urlsafe_def perf_counter_def from_option_def

declare op_defs [op_simps]

lemma bindM_ret [simp]: "bindM (ret x) f = f x"
  by (simp add: op_defs)

lemma bindM_raise [simp]: "bindM (raise e) f = raise e"
  by (simp add: op_defs)

section \<open>Keeping an invariant\<close>

text \<open>
  An operation keeps a property of the world when the property holds after it, whether it
  returned or raised. The rules follow the combinators, so that the invariants of the database
  reach the workers by composition.
\<close>

definition preserves :: "(world \<Rightarrow> bool) \<Rightarrow> 'a op \<Rightarrow> bool" where
  "preserves P m \<longleftrightarrow> (\<forall>s. P s \<longrightarrow> P (snd (m s)))"

lemma preservesI: "(\<And>s. P s \<Longrightarrow> P (snd (m s))) \<Longrightarrow> preserves P m"
  by (simp add: preserves_def)

lemma preservesD: "preserves P m \<Longrightarrow> P s \<Longrightarrow> m s = (r, s') \<Longrightarrow> P s'"
  by (metis preserves_def snd_conv)

lemma preserves_ret [keeps, intro!]: "preserves P (ret x)"
  by (simp add: preserves_def op_defs)

lemma preserves_raise [keeps, intro!]: "preserves P (raise e)"
  by (simp add: preserves_def op_defs)

lemma preserves_asks [keeps, intro!]: "preserves P (asks f)"
  by (simp add: preserves_def op_defs)

lemma preserves_from_option [keeps, intro!]: "preserves P (from_option e x)"
  by (simp add: preserves_def op_defs split: option.split)

lemma preserves_bindM [keeps]:
  assumes "preserves P m" and "\<And>x. preserves P (f x)"
  shows "preserves P (bindM m f)"
proof (rule preservesI)
  fix s assume P: "P s"
  obtain r s' where m: "m s = (r, s')" by fastforce
  with P assms(1) have "P s'" by (metis preservesD)
  with m assms(2) show "P (snd (bindM m f s))"
    by (cases r) (simp_all add: bindM_def preserves_def)
qed

lemma preserves_tryM [keeps]:
  assumes "preserves P m" and "\<And>e. preserves P (h e)"
  shows "preserves P (tryM m h)"
proof (rule preservesI)
  fix s assume P: "P s"
  obtain r s' where m: "m s = (r, s')" by fastforce
  with P assms(1) have "P s'" by (metis preservesD)
  with m assms(2) show "P (snd (tryM m h s))"
    by (cases r) (simp_all add: tryM_def preserves_def)
qed

lemma preserves_forM [keeps]:
  assumes "\<And>x. preserves P (f x)"
  shows "preserves P (forM xs f)"
  by (induction xs) (auto intro: keeps assms)

lemma preserves_mapM [keeps]:
  assumes "\<And>x. preserves P (f x)"
  shows "preserves P (mapM f xs)"
  by (induction xs) (auto intro!: keeps assms)

lemma preserves_if [keeps]:
  "(b \<Longrightarrow> preserves P m) \<Longrightarrow> (\<not> b \<Longrightarrow> preserves P n) \<Longrightarrow> preserves P (if b then m else n)"
  by simp

lemma preserves_option [keeps]:
  "(x = None \<Longrightarrow> preserves P m) \<Longrightarrow> (\<And>y. x = Some y \<Longrightarrow> preserves P (f y)) \<Longrightarrow>
   preserves P (case x of None \<Rightarrow> m | Some y \<Rightarrow> f y)"
  by (cases x) simp_all

lemma preserves_prod [keeps]:
  "(\<And>a b. x = (a, b) \<Longrightarrow> preserves P (f a b)) \<Longrightarrow> preserves P (case x of (a, b) \<Rightarrow> f a b)"
  by (cases x) simp

lemma preserves_let [keeps]: "preserves P (f x) \<Longrightarrow> preserves P (let y = x in f y)"
  by simp

end
