(* ===== verification/Pipeline_DB.thy ===== *)
theory Pipeline_DB
  imports Pipeline_World
begin

text \<open>
  \<open>PipelineDB\<close> (\<open>src/src/pipeline/db.py\<close>): the operations on the pipeline's tables,
  one definition per method, each in its transaction. Where the SQL leaves the order of equal
  rows open (\<open>ORDER BY \<dots> LIMIT 1\<close>) the model takes the row inserted first.
\<close>

section \<open>Connection and transactions\<close>

record db_target =
  target_dialect :: dialect
  target_location :: string

text \<open>The scheme that \<open>urllib.parse.urlparse\<close> finds: the text before the first colon, lower case.\<close>

definition is_alpha :: "char \<Rightarrow> bool" where
  "is_alpha c \<longleftrightarrow> (let n = of_char (lower_char c) :: nat in 97 \<le> n \<and> n \<le> 122)"

definition scheme_char :: "char \<Rightarrow> bool" where
  "scheme_char c \<longleftrightarrow> is_alpha c \<or> is_digit c \<or> c \<in> {CHR ''+'', CHR ''-'', CHR ''.''}"

definition url_scheme :: "string \<Rightarrow> string" where
  "url_scheme url =
     (let p = takeWhile (\<lambda>c. c \<noteq> CHR '':'') url
      in if p \<noteq> [] \<and> length p < length url \<and> is_alpha (hd p) \<and> list_all scheme_char p
         then str_lower p else [])"

definition parse_url :: "string \<Rightarrow> db_target" where
  "parse_url url =
     (if url = [] \<or> url = '':memory:'' then \<lparr>target_dialect = Sqlite, target_location = '':memory:''\<rparr>
      else if starts_with ''sqlite:///'' url
      then \<lparr>target_dialect = Sqlite, target_location = drop (length ''sqlite:///'') url\<rparr>
      else if url_scheme url \<in> {''postgres'', ''postgresql''}
      then \<lparr>target_dialect = Postgres, target_location = url\<rparr>
      else \<lparr>target_dialect = Sqlite, target_location = url\<rparr>)"

text \<open>
  \<open>initialize\<close> opens the connection once and creates the tables that do not exist;
  \<open>close\<close> drops the connection and leaves the stored tables alone.
\<close>

definition initialize :: "unit op" where
  "initialize = (\<lambda>s. (Inr (), if conn_open s then s else s\<lparr>conn_open := True\<rparr>))"

definition close :: "unit op" where
  "close = (\<lambda>s. (Inr (), s\<lparr>conn_open := False\<rparr>))"

definition tx :: "'a op \<Rightarrow> 'a op" where
  "tx m = (\<lambda>s.
     if \<not> conn_open s then (Inl (RuntimeError ''PipelineDB is not initialized''), s)
     else case m s of
            (Inl e, s') \<Rightarrow> (Inl e, s'\<lparr>db := db s\<rparr>)
          | (Inr x, s') \<Rightarrow> (Inr x, s'))"

section \<open>Traces\<close>

definition find_trace :: "uuid \<Rightarrow> pdb \<Rightarrow> trace_row option" where
  "find_trace trace_id d = List.find (\<lambda>r. tr_trace_id r = trace_id) (pipeline_traces d)"

definition update_trace :: "uuid \<Rightarrow> stage_name \<Rightarrow> string \<Rightarrow> timestamp \<Rightarrow> pdb \<Rightarrow> pdb" where
  "update_trace trace_id stage status now d =
     d\<lparr>pipeline_traces := map (\<lambda>r. if tr_trace_id r = trace_id
         then r\<lparr>tr_current_stage := stage, tr_status := status, tr_updated_at := now\<rparr> else r)
       (pipeline_traces d)\<rparr>"

definition ensure_trace ::
  "string \<Rightarrow> string option \<Rightarrow> string option \<Rightarrow> string option \<Rightarrow> stage_name \<Rightarrow> string \<Rightarrow> uuid op" where
  "ensure_trace source_alert_id market_asset_id market_slug event_slug current_stage status =
     bindM utc_now (\<lambda>now. tx (
       bindM (asks (\<lambda>s. List.find (\<lambda>r. tr_source_alert_id r = source_alert_id) (pipeline_traces (db s)))) (\<lambda>row.
       case row of
         Some r \<Rightarrow>
           bindM (modify_db (update_trace (tr_trace_id r) current_stage status now)) (\<lambda>_.
           ret (tr_trace_id r))
       | None \<Rightarrow>
           bindM uuid4 (\<lambda>trace_id.
           bindM (insert_row
             (\<lambda>d. \<forall>r\<in>set (pipeline_traces d). tr_trace_id r \<noteq> trace_id \<and> tr_source_alert_id r \<noteq> source_alert_id)
             (\<lambda>_. True)
             (\<lambda>d. d\<lparr>pipeline_traces := pipeline_traces d @
                [\<lparr>tr_trace_id = trace_id, tr_source_alert_id = source_alert_id,
                  tr_market_asset_id = market_asset_id, tr_market_slug = market_slug,
                  tr_event_slug = event_slug, tr_current_stage = current_stage, tr_status = status,
                  tr_created_at = now, tr_updated_at = now\<rparr>]\<rparr>)) (\<lambda>_.
           ret trace_id)))))"

definition source_alert_id_for_trace :: "uuid \<Rightarrow> string op" where
  "source_alert_id_for_trace trace_id =
     bindM (tx (asks (\<lambda>s. find_trace trace_id (db s)))) (\<lambda>row.
     case row of None \<Rightarrow> raise (KeyError (''trace not found: '' @ trace_id))
               | Some r \<Rightarrow> ret (tr_source_alert_id r))"

section \<open>Messages\<close>

definition find_message :: "uuid \<Rightarrow> pdb \<Rightarrow> message_row option" where
  "find_message message_id d = List.find (\<lambda>r. msg_message_id r = message_id) (stage_messages d)"

definition message_by_key :: "string \<Rightarrow> pdb \<Rightarrow> message_row option" where
  "message_by_key key d = List.find (\<lambda>r. msg_idempotency_key r = key) (stage_messages d)"

definition message_of :: "lib \<Rightarrow> pipeline_envelope \<Rightarrow> message_row" where
  "message_of L e =
     \<lparr>msg_message_id = env_message_id e, msg_trace_id = env_trace_id e, msg_stage = env_stage e,
      msg_parent_message_id = env_parent_message_id e, msg_schema_version = env_schema_version e,
      msg_idempotency_key = env_idempotency_key e, msg_payload_jsonb = json_dumps L (env_payload e),
      msg_payload_hash = sha256_hexdigest L (json_dumps L (env_payload e)),
      msg_created_at = env_created_at e\<rparr>"

definition upsert_message_conn :: "lib \<Rightarrow> pipeline_envelope \<Rightarrow> (uuid \<times> bool) op" where
  "upsert_message_conn L envelope =
     bindM (asks (\<lambda>s. message_by_key (env_idempotency_key envelope) (db s))) (\<lambda>existing.
     case existing of
       Some r \<Rightarrow> ret (msg_message_id r, False)
     | None \<Rightarrow>
         bindM (insert_row
           (\<lambda>d. \<forall>r\<in>set (stage_messages d). msg_message_id r \<noteq> env_message_id envelope
                  \<and> msg_idempotency_key r \<noteq> env_idempotency_key envelope)
           (\<lambda>d. find_trace (env_trace_id envelope) d \<noteq> None
                  \<and> (case env_parent_message_id envelope of None \<Rightarrow> True
                     | Some p \<Rightarrow> find_message p d \<noteq> None))
           (\<lambda>d. d\<lparr>stage_messages := stage_messages d @ [message_of L envelope]\<rparr>)) (\<lambda>_.
         ret (env_message_id envelope, True)))"

definition upsert_message :: "lib \<Rightarrow> pipeline_envelope \<Rightarrow> (uuid \<times> bool) op" where
  "upsert_message L envelope = tx (upsert_message_conn L envelope)"

definition get_message :: "lib \<Rightarrow> uuid \<Rightarrow> pipeline_envelope op" where
  "get_message L message_id =
     bindM (tx (asks (\<lambda>s. find_message message_id (db s)))) (\<lambda>row.
     case row of
       None \<Rightarrow> raise (KeyError (''message not found: '' @ message_id))
     | Some r \<Rightarrow>
         bindM (from_option (ValueError ''JSONDecodeError'') (json_loads L (msg_payload_jsonb r))) (\<lambda>payload.
         bindM (source_alert_id_for_trace (msg_trace_id r)) (\<lambda>source_alert_id.
         ret \<lparr>env_message_id = msg_message_id r, env_trace_id = msg_trace_id r,
              env_source_alert_id = source_alert_id,
              env_parent_message_id = msg_parent_message_id r, env_stage = msg_stage r,
              env_schema_version = msg_schema_version r,
              env_idempotency_key = msg_idempotency_key r,
              env_created_at = msg_created_at r, env_payload = payload\<rparr>)))"

text \<open>\<open>PipelineEnvelope.new\<close>.\<close>

definition new_envelope ::
  "uuid \<Rightarrow> string \<Rightarrow> uuid option \<Rightarrow> stage_name \<Rightarrow> string \<Rightarrow> string \<Rightarrow> json \<Rightarrow> pipeline_envelope op" where
  "new_envelope trace_id source_alert_id parent_message_id stage schema_version idempotency_key payload =
     bindM uuid4 (\<lambda>message_id. bindM utc_now (\<lambda>now.
     ret \<lparr>env_message_id = message_id, env_trace_id = trace_id,
          env_source_alert_id = source_alert_id, env_parent_message_id = parent_message_id,
          env_stage = stage, env_schema_version = schema_version,
          env_idempotency_key = idempotency_key, env_created_at = now, env_payload = payload\<rparr>))"

section \<open>The job queue\<close>

record job_lease =
  lease_job_id :: uuid
  lease_run_id :: uuid
  lease_trace_id :: uuid
  lease_stage :: stage_name
  lease_message_id :: uuid
  lease_attempt_count :: nat

definition queued_job :: "uuid \<Rightarrow> uuid \<Rightarrow> stage_name \<Rightarrow> uuid \<Rightarrow> int \<Rightarrow> timestamp \<Rightarrow> timestamp \<Rightarrow> job_row" where
  "queued_job jid trace_id stage message_id priority available now =
     \<lparr>job_id = jid, job_trace_id = trace_id, job_stage = stage, job_message_id = message_id,
      job_state = Queued, job_priority = priority, job_attempt_count = 0,
      job_available_at = available, job_leased_until = None, job_worker_id = None,
      job_last_error = None, job_created_at = now, job_updated_at = now\<rparr>"

definition enqueue_job_conn ::
  "uuid \<Rightarrow> stage_name \<Rightarrow> uuid \<Rightarrow> int \<Rightarrow> timestamp option \<Rightarrow> uuid op" where
  "enqueue_job_conn trace_id stage message_id priority available_at =
     bindM utc_now (\<lambda>now.
     let available = (case available_at of None \<Rightarrow> now | Some t \<Rightarrow> t) in
     bindM uuid4 (\<lambda>jid.
     bindM (asks (\<lambda>s. List.find (\<lambda>j. job_stage j = stage \<and> job_message_id j = message_id) (stage_jobs (db s)))) (\<lambda>existing.
     case existing of
       Some j \<Rightarrow> ret (job_id j)
     | None \<Rightarrow>
         bindM (insert_row
           (\<lambda>d. \<forall>j\<in>set (stage_jobs d). job_id j \<noteq> jid \<and> \<not> (job_stage j = stage \<and> job_message_id j = message_id))
           (\<lambda>d. find_trace trace_id d \<noteq> None \<and> find_message message_id d \<noteq> None)
           (\<lambda>d. d\<lparr>stage_jobs := stage_jobs d @
              [queued_job jid trace_id stage message_id priority available now]\<rparr>)) (\<lambda>_.
         ret jid))))"

definition enqueue_job :: "uuid \<Rightarrow> stage_name \<Rightarrow> uuid \<Rightarrow> int \<Rightarrow> timestamp option \<Rightarrow> uuid op" where
  "enqueue_job trace_id stage message_id priority available_at =
     tx (enqueue_job_conn trace_id stage message_id priority available_at)"

definition ready :: "stage_name \<Rightarrow> timestamp \<Rightarrow> job_row \<Rightarrow> bool" where
  "ready stage now j \<longleftrightarrow>
     job_stage j = stage \<and> job_state j \<in> {Queued, Retry_Wait} \<and> job_available_at j \<le> now"

definition next_ready :: "stage_name \<Rightarrow> timestamp \<Rightarrow> pdb \<Rightarrow> job_row option" where
  "next_ready stage now d =
     first_min (\<lambda>j. (job_priority j, job_created_at j)) (filter (ready stage now) (stage_jobs d))"

definition update_job :: "uuid \<Rightarrow> (job_row \<Rightarrow> job_row) \<Rightarrow> pdb \<Rightarrow> pdb" where
  "update_job jid f d = d\<lparr>stage_jobs := map (\<lambda>j. if job_id j = jid then f j else j) (stage_jobs d)\<rparr>"

definition update_run :: "uuid \<Rightarrow> (run_row \<Rightarrow> run_row) \<Rightarrow> pdb \<Rightarrow> pdb" where
  "update_run rid f d = d\<lparr>stage_runs := map (\<lambda>r. if run_id r = rid then f r else r) (stage_runs d)\<rparr>"

definition lease_update :: "job_row \<Rightarrow> timestamp \<Rightarrow> string \<Rightarrow> timestamp \<Rightarrow> job_row \<Rightarrow> job_row" where
  "lease_update j until w now = (\<lambda>r. r\<lparr>job_state := Running,
     job_attempt_count := Suc (job_attempt_count j), job_leased_until := Some until,
     job_worker_id := Some w, job_updated_at := now\<rparr>)"

definition started_run :: "uuid \<Rightarrow> job_row \<Rightarrow> timestamp \<Rightarrow> run_row" where
  "started_run rid j now =
     \<lparr>run_id = rid, run_job_id = job_id j, run_message_id = job_message_id j,
      run_started_at = now, run_finished_at = None, run_result_state = Running,
      run_model_name = None, run_prompt_version = None, run_token_input = 0,
      run_token_output = 0, run_cost_usd = 0, run_latency_ms = 0,
      run_tool_calls = ''[]'', run_error = None\<rparr>"

definition lease_of :: "uuid \<Rightarrow> job_row \<Rightarrow> job_lease" where
  "lease_of rid j =
     \<lparr>lease_job_id = job_id j, lease_run_id = rid, lease_trace_id = job_trace_id j,
      lease_stage = job_stage j, lease_message_id = job_message_id j,
      lease_attempt_count = Suc (job_attempt_count j)\<rparr>"

definition lease_next_job :: "stage_name \<Rightarrow> string \<Rightarrow> int \<Rightarrow> job_lease option op" where
  "lease_next_job stage worker_id lease_for =
     bindM utc_now (\<lambda>now.
     let leased_until = now + seconds lease_for in
     tx (bindM (asks (\<lambda>s. next_ready stage now (db s))) (\<lambda>row.
         case row of
           None \<Rightarrow> ret None
         | Some j \<Rightarrow>
             bindM (modify_db (update_job (job_id j) (lease_update j leased_until worker_id now))) (\<lambda>_.
             bindM uuid4 (\<lambda>rid.
             bindM (insert_row
               (\<lambda>d. \<forall>r\<in>set (stage_runs d). run_id r \<noteq> rid)
               (\<lambda>d. (\<exists>r\<in>set (stage_jobs d). job_id r = job_id j) \<and> find_message (job_message_id j) d \<noteq> None)
               (\<lambda>d. d\<lparr>stage_runs := stage_runs d @ [started_run rid j now]\<rparr>)) (\<lambda>_.
             ret (Some (lease_of rid j))))))))"

definition store_output ::
  "lib \<Rightarrow> pipeline_envelope \<Rightarrow> stage_name option \<Rightarrow> int \<Rightarrow> timestamp option \<Rightarrow> string \<Rightarrow> timestamp
    \<Rightarrow> uuid option op" where
  "store_output L env next_stage next_priority next_available_at trace_status now =
     bindM (upsert_message_conn L env) (\<lambda>(output_message_id, inserted).
     bindM (case next_stage of
         Some stage \<Rightarrow>
           if inserted then
             bindM (enqueue_job_conn (env_trace_id env) stage output_message_id next_priority next_available_at)
               (\<lambda>_. ret ())
           else ret ()
       | None \<Rightarrow> ret ()) (\<lambda>_.
     bindM (modify_db (update_trace (env_trace_id env) (env_stage env) trace_status now)) (\<lambda>_.
     ret (Some output_message_id))))"

definition succeeded_job :: "timestamp \<Rightarrow> job_row \<Rightarrow> job_row" where
  "succeeded_job now r = r\<lparr>job_state := Succeeded, job_leased_until := None, job_updated_at := now,
     job_last_error := None\<rparr>"

definition complete_job_success ::
  "lib \<Rightarrow> job_lease \<Rightarrow> pipeline_envelope option \<Rightarrow> stage_audit option \<Rightarrow> stage_name option \<Rightarrow> int
    \<Rightarrow> timestamp option \<Rightarrow> string \<Rightarrow> uuid option op" where
  "complete_job_success L lease output_envelope audit next_stage next_priority next_available_at trace_status =
     bindM utc_now (\<lambda>now. tx (
       bindM (case output_envelope of
           None \<Rightarrow> ret None
         | Some env \<Rightarrow> store_output L env next_stage next_priority next_available_at trace_status now) (\<lambda>output_message_id.
       bindM (modify_db (update_job (lease_job_id lease) (succeeded_job now))) (\<lambda>_.
       bindM (modify_db (update_run (lease_run_id lease) (\<lambda>r. r\<lparr>run_finished_at := Some now,
           run_result_state := Succeeded,
           run_model_name := (case audit of None \<Rightarrow> None | Some a \<Rightarrow> audit_model_name a),
           run_prompt_version := (case audit of None \<Rightarrow> None | Some a \<Rightarrow> audit_prompt_version a),
           run_token_input := (case audit of None \<Rightarrow> 0 | Some a \<Rightarrow> audit_token_input a),
           run_token_output := (case audit of None \<Rightarrow> 0 | Some a \<Rightarrow> audit_token_output a),
           run_cost_usd := (case audit of None \<Rightarrow> 0 | Some a \<Rightarrow> audit_cost_usd a),
           run_latency_ms := (case audit of None \<Rightarrow> 0 | Some a \<Rightarrow> audit_latency_ms a),
           run_tool_calls := json_dumps L (JList (case audit of None \<Rightarrow> [] | Some a \<Rightarrow> audit_tool_calls a)),
           run_error := (case audit of None \<Rightarrow> None | Some a \<Rightarrow>
               (case audit_error a of None \<Rightarrow> None
                | Some e \<Rightarrow> if e = [] then None else Some (json_dumps L (JDict [(''error'', JStr e)]))))\<rparr>))) (\<lambda>_.
       ret output_message_id)))))"

definition failed_run :: "lib \<Rightarrow> timestamp \<Rightarrow> job_state \<Rightarrow> string \<Rightarrow> run_row \<Rightarrow> run_row" where
  "failed_run L now result error r = r\<lparr>run_finished_at := Some now, run_result_state := result,
     run_error := Some (json_dumps L (JDict [(''error'', JStr error)]))\<rparr>"

definition dead_job :: "timestamp \<Rightarrow> string \<Rightarrow> job_row \<Rightarrow> job_row" where
  "dead_job now reason r = r\<lparr>job_state := Dead_Letter, job_leased_until := None, job_updated_at := now,
     job_last_error := Some reason\<rparr>"

definition retried_job :: "int \<Rightarrow> timestamp \<Rightarrow> string \<Rightarrow> job_row \<Rightarrow> job_row" where
  "retried_job delay_sec now error r = r\<lparr>job_state := Retry_Wait, job_leased_until := None,
     job_available_at := now + seconds delay_sec, job_updated_at := now, job_last_error := Some error\<rparr>"

definition dead_letter_of :: "lib \<Rightarrow> uuid \<Rightarrow> job_lease \<Rightarrow> string \<Rightarrow> json \<Rightarrow> timestamp \<Rightarrow> dead_letter_row" where
  "dead_letter_of L dlid lease reason payload now =
     \<lparr>dl_dead_letter_id = dlid, dl_job_id = lease_job_id lease, dl_stage = lease_stage lease,
      dl_reason = reason, dl_payload_jsonb = json_dumps L payload,
      dl_first_failed_at = now, dl_last_failed_at = now, dl_replay_count = 0,
      dl_resolved_at = None\<rparr>"

definition dead_letter_job :: "lib \<Rightarrow> job_lease \<Rightarrow> string \<Rightarrow> unit op" where
  "dead_letter_job L lease reason =
     bindM utc_now (\<lambda>now.
     bindM (get_message L (lease_message_id lease)) (\<lambda>envelope.
     tx (bindM (modify_db (update_job (lease_job_id lease) (dead_job now reason))) (\<lambda>_.
         bindM (modify_db (update_run (lease_run_id lease) (failed_run L now Dead_Letter reason))) (\<lambda>_.
         bindM uuid4 (\<lambda>dlid.
         insert_row
           (\<lambda>d. \<forall>r\<in>set (dead_letters d). dl_dead_letter_id r \<noteq> dlid)
           (\<lambda>d. \<exists>r\<in>set (stage_jobs d). job_id r = lease_job_id lease)
           (\<lambda>d. d\<lparr>dead_letters := dead_letters d @
              [dead_letter_of L dlid lease reason (env_payload envelope) now]\<rparr>)))))))"

definition complete_job_retry :: "lib \<Rightarrow> job_lease \<Rightarrow> string \<Rightarrow> int \<Rightarrow> int \<Rightarrow> unit op" where
  "complete_job_retry L lease error delay_sec attempt_limit =
     (if int (lease_attempt_count lease) \<ge> attempt_limit then dead_letter_job L lease error
      else
        bindM utc_now (\<lambda>now.
        tx (bindM (modify_db (update_job (lease_job_id lease) (retried_job delay_sec now error))) (\<lambda>_.
            modify_db (update_run (lease_run_id lease) (failed_run L now Retry_Wait error))))))"

text \<open>\<open>StageQueue\<close> (\<open>src/src/pipeline/queue.py\<close>).\<close>

definition queue_lease :: "queue_section \<Rightarrow> stage_name \<Rightarrow> string \<Rightarrow> job_lease option op" where
  "queue_lease cfg stage worker_id = lease_next_job stage worker_id (lease_sec cfg)"

definition queue_retry :: "lib \<Rightarrow> queue_section \<Rightarrow> job_lease \<Rightarrow> string \<Rightarrow> unit op" where
  "queue_retry L cfg lease error =
     complete_job_retry L lease error (retry_backoff_sec cfg) (max_attempts cfg)"

end
