(* ===== verification/Pipeline_Records.thy ===== *)
theory Pipeline_Records
  imports Pipeline_DB
begin

text \<open>
  The rest of \<open>PipelineDB\<close>: evidence, candidates, portfolio snapshots, approval requests,
  broker orders, outcome observations and dead letters; the approval service
  (\<open>src/src/pipeline/approvals.py\<close>) and the idempotency keys
  (\<open>src/src/pipeline/idempotency.py\<close>).
\<close>

section \<open>Evidence, candidates, snapshots\<close>

definition message_exists :: "uuid \<Rightarrow> pdb \<Rightarrow> bool" where
  "message_exists message_id d \<longleftrightarrow> find_message message_id d \<noteq> None"

definition save_research_evidence :: "uuid \<Rightarrow> evidence_item list \<Rightarrow> unit op" where
  "save_research_evidence message_id evidence =
     (if evidence = [] then ret ()
      else tx (forM evidence (\<lambda>item.
        bindM uuid4 (\<lambda>eid.
        insert_row
          (\<lambda>d. \<forall>r\<in>set (research_evidence d). er_evidence_id r \<noteq> eid)
          (message_exists message_id)
          (\<lambda>d. d\<lparr>research_evidence := research_evidence d @
             [\<lparr>er_evidence_id = eid, er_message_id = message_id, er_item = item\<rparr>]\<rparr>)))))"

definition insert_candidate :: "uuid \<Rightarrow> string \<Rightarrow> trade_candidate \<Rightarrow> unit op" where
  "insert_candidate message_id status item =
     insert_row
       (\<lambda>d. \<forall>r\<in>set (analysis_candidates d). candidate_id (cr_item r) \<noteq> candidate_id item)
       (message_exists message_id)
       (\<lambda>d. d\<lparr>analysis_candidates := analysis_candidates d @
          [\<lparr>cr_message_id = message_id, cr_status = status, cr_item = item\<rparr>]\<rparr>)"

definition save_analysis_candidates :: "uuid \<Rightarrow> trade_candidate list \<Rightarrow> trade_candidate list \<Rightarrow> unit op" where
  "save_analysis_candidates message_id candidates rejected_candidates =
     tx (forM [(''candidate'', candidates), (''rejected'', rejected_candidates)] (\<lambda>(status, items).
         forM items (\<lambda>item. insert_candidate message_id status item)))"

definition save_portfolio_snapshot :: "portfolio_snapshot \<Rightarrow> uuid op" where
  "save_portfolio_snapshot snapshot =
     bindM (tx (insert_row
       (\<lambda>d. \<forall>r\<in>set (portfolio_snapshots d). snapshot_id r \<noteq> snapshot_id snapshot)
       (\<lambda>_. True)
       (\<lambda>d. d\<lparr>portfolio_snapshots := portfolio_snapshots d @ [snapshot]\<rparr>))) (\<lambda>_.
     ret (snapshot_id snapshot))"

section \<open>Approval requests\<close>

definition create_approval_request ::
  "uuid \<Rightarrow> uuid \<Rightarrow> uuid \<Rightarrow> string \<Rightarrow> string \<Rightarrow> timestamp \<Rightarrow> uuid op" where
  "create_approval_request trace_id message_id candidate channel callback_token expires_at =
     bindM uuid4 (\<lambda>approval_id. bindM utc_now (\<lambda>now.
     bindM (tx (insert_row
       (\<lambda>d. \<forall>r\<in>set (approval_requests d). ap_approval_id r \<noteq> approval_id \<and> ap_callback_token r \<noteq> callback_token)
       (\<lambda>d. find_trace trace_id d \<noteq> None \<and> message_exists message_id d)
       (\<lambda>d. d\<lparr>approval_requests := approval_requests d @
          [\<lparr>ap_approval_id = approval_id, ap_trace_id = trace_id, ap_message_id = message_id,
            ap_candidate_id = candidate, ap_channel = channel, ap_status = ''requested'',
            ap_requested_at = now, ap_expires_at = expires_at, ap_decided_at = None,
            ap_approver_id = None, ap_decision_reason = None, ap_callback_token = callback_token\<rparr>]\<rparr>))) (\<lambda>_.
     ret approval_id)))"

definition approval_by_message :: "uuid \<Rightarrow> pdb \<Rightarrow> approval_row option" where
  "approval_by_message message_id d =
     first_max ap_requested_at (filter (\<lambda>r. ap_message_id r = message_id) (approval_requests d))"

definition get_approval_request_by_message :: "uuid \<Rightarrow> approval_row option op" where
  "get_approval_request_by_message message_id = tx (asks (\<lambda>s. approval_by_message message_id (db s)))"

definition update_approval :: "string \<Rightarrow> (approval_row \<Rightarrow> approval_row) \<Rightarrow> pdb \<Rightarrow> pdb" where
  "update_approval token f d =
     d\<lparr>approval_requests := map (\<lambda>r. if ap_callback_token r = token then f r else r) (approval_requests d)\<rparr>"

definition decide_approval :: "string \<Rightarrow> string \<Rightarrow> string \<Rightarrow> string option \<Rightarrow> uuid op" where
  "decide_approval callback_token status approver_id reason =
     bindM utc_now (\<lambda>now. tx (
       bindM (asks (\<lambda>s. List.find (\<lambda>r. ap_callback_token r = callback_token) (approval_requests (db s)))) (\<lambda>row.
       case row of
         None \<Rightarrow> raise (KeyError ''approval request not found'')
       | Some r \<Rightarrow>
           bindM (modify_db (update_approval callback_token (\<lambda>a. a\<lparr>ap_status := status,
             ap_decided_at := Some now, ap_approver_id := Some approver_id, ap_decision_reason := reason\<rparr>))) (\<lambda>_.
           ret (ap_approval_id r)))))"

record approval_decision =
  apd_approval_id :: uuid
  apd_status :: string
  apd_decided_at :: timestamp

definition approval_request_op ::
  "uuid \<Rightarrow> uuid \<Rightarrow> uuid \<Rightarrow> string \<Rightarrow> int \<Rightarrow> (uuid \<times> string \<times> timestamp) op" where
  "approval_request_op trace_id message_id candidate channel timeout_minutes =
     bindM utc_now (\<lambda>now.
     let expires_at = now + minutes timeout_minutes in
     bindM token_urlsafe (\<lambda>token.
     bindM (create_approval_request trace_id message_id candidate channel token expires_at) (\<lambda>approval_id.
     ret (approval_id, token, expires_at))))"

definition decide_with :: "string \<Rightarrow> string \<Rightarrow> string \<Rightarrow> string option \<Rightarrow> approval_decision op" where
  "decide_with status token approver_id reason =
     bindM (decide_approval token status approver_id reason) (\<lambda>approval_id.
     bindM utc_now (\<lambda>now.
     ret \<lparr>apd_approval_id = approval_id, apd_status = status, apd_decided_at = now\<rparr>))"

definition approve :: "string \<Rightarrow> string \<Rightarrow> string option \<Rightarrow> approval_decision op" where
  "approve token approver_id reason = decide_with ''approved'' token approver_id reason"

definition reject :: "string \<Rightarrow> string \<Rightarrow> string option \<Rightarrow> approval_decision op" where
  "reject token approver_id reason = decide_with ''rejected'' token approver_id reason"

section \<open>Broker orders\<close>

definition order_by_client_id :: "string \<Rightarrow> pdb \<Rightarrow> order_row option" where
  "order_by_client_id client_order_id d =
     List.find (\<lambda>r. ord_client_order_id r = client_order_id) (broker_orders d)"

definition get_broker_order_by_client_order_id :: "string \<Rightarrow> order_row option op" where
  "get_broker_order_by_client_order_id client_order_id =
     tx (asks (\<lambda>s. order_by_client_id client_order_id (db s)))"

text \<open>The row is given without the order id and the submission time, which the operation adds.\<close>

definition save_broker_order :: "order_row \<Rightarrow> uuid op" where
  "save_broker_order row =
     tx (bindM (asks (\<lambda>s. order_by_client_id (ord_client_order_id row) (db s))) (\<lambda>existing.
         case existing of
           Some r \<Rightarrow> ret (ord_order_id r)
         | None \<Rightarrow>
             bindM uuid4 (\<lambda>order_id. bindM utc_now (\<lambda>now.
             bindM (insert_row
               (\<lambda>d. \<forall>r\<in>set (broker_orders d). ord_order_id r \<noteq> order_id
                      \<and> ord_client_order_id r \<noteq> ord_client_order_id row
                      \<and> (ord_broker_order_id row = None \<or> ord_broker_order_id r \<noteq> ord_broker_order_id row))
               (\<lambda>d. find_trace (ord_trace_id row) d \<noteq> None)
               (\<lambda>d. d\<lparr>broker_orders := broker_orders d @
                  [row\<lparr>ord_order_id := order_id, ord_submitted_at := now\<rparr>]\<rparr>)) (\<lambda>_.
             ret order_id)))))"

section \<open>Outcome observations and dead letters\<close>

definition save_outcome_observation :: "outcome_observation \<Rightarrow> uuid op" where
  "save_outcome_observation observation =
     bindM uuid4 (\<lambda>oid.
     bindM (tx (insert_row
       (\<lambda>d. \<forall>r\<in>set (outcome_observations d). ob_observation_id r \<noteq> oid)
       (\<lambda>d. find_trace (oo_trace_id observation) d \<noteq> None)
       (\<lambda>d. d\<lparr>outcome_observations := outcome_observations d @
          [\<lparr>ob_observation_id = oid, ob_observation = observation\<rparr>]\<rparr>))) (\<lambda>_.
     ret oid))"

definition observations_of :: "uuid \<Rightarrow> pdb \<Rightarrow> observation_row list" where
  "observations_of trace_id d =
     sort_key (\<lambda>r. oo_scheduled_for (ob_observation r))
       (filter (\<lambda>r. oo_trace_id (ob_observation r) = trace_id) (outcome_observations d))"

definition list_outcome_observations :: "uuid \<Rightarrow> observation_row list op" where
  "list_outcome_observations trace_id = tx (asks (\<lambda>s. observations_of trace_id (db s)))"

definition update_observation :: "uuid \<Rightarrow> (outcome_observation \<Rightarrow> outcome_observation) \<Rightarrow> pdb \<Rightarrow> pdb" where
  "update_observation oid f d =
     d\<lparr>outcome_observations := map (\<lambda>r. if ob_observation_id r = oid
         then r\<lparr>ob_observation := f (ob_observation r)\<rparr> else r) (outcome_observations d)\<rparr>"

definition update_outcome_observation ::
  "uuid \<Rightarrow> timestamp \<Rightarrow> rat \<Rightarrow> rat \<Rightarrow> rat option \<Rightarrow> string \<Rightarrow> unit op" where
  "update_outcome_observation observation_id observed_at exit_price return_pct benchmark_return_pct label =
     tx (modify_db (update_observation observation_id (\<lambda>o'. o'\<lparr>oo_observed_at := Some observed_at,
       oo_exit_price := Some exit_price, oo_return_pct := Some return_pct,
       oo_benchmark_return_pct := benchmark_return_pct, oo_label := Some label\<rparr>)))"

definition get_dead_letters :: "dead_letter_row list op" where
  "get_dead_letters = tx (asks (\<lambda>s. sort_key dl_first_failed_at (dead_letters (db s))))"

section \<open>Idempotency keys\<close>

definition build_ingest_key :: "string \<Rightarrow> string" where
  "build_ingest_key alert_id = ''scout:'' @ alert_id"

definition build_research_key :: "uuid \<Rightarrow> string \<Rightarrow> string" where
  "build_research_key parent_message_id prompt_version =
     ''research:'' @ parent_message_id @ '':'' @ prompt_version"

definition build_analysis_key :: "uuid \<Rightarrow> string \<Rightarrow> string \<Rightarrow> string" where
  "build_analysis_key parent_message_id ruleset data_snapshot_ts =
     ''analysis:'' @ parent_message_id @ '':'' @ ruleset @ '':'' @ data_snapshot_ts"

definition build_execution_key :: "uuid \<Rightarrow> string \<Rightarrow> string \<Rightarrow> string" where
  "build_execution_key parent_message_id ruleset mode =
     ''execution:'' @ parent_message_id @ '':'' @ ruleset @ '':'' @ mode"

definition build_outcome_key :: "uuid \<Rightarrow> string \<Rightarrow> string" where
  "build_outcome_key trace_id horizon = ''outcome:'' @ trace_id @ '':'' @ horizon"

definition build_stable_order_id :: "lib \<Rightarrow> uuid \<Rightarrow> uuid \<Rightarrow> string \<Rightarrow> string" where
  "build_stable_order_id L trace_id candidate ruleset =
     ''sentinel-'' @ take 24 (sha256_hexdigest L (trace_id @ '':'' @ candidate @ '':'' @ ruleset))"

end
