(* ===== verification/Pipeline_Invariants.thy ===== *)
theory Pipeline_Invariants
  imports Pipeline_Records
begin

text \<open>
  What the operations of \<open>PipelineDB\<close> keep. The locale \<open>pdb_rows\<close> is the
  contract between the row changes the operations make and a property of the tables: its laws
  are one per kind of row change, and inside it every operation that neither stores a message, nor
  queues a job, nor leases one is shown to keep the property. \<open>pdb_unleased\<close> adds the laws
  of new messages and new jobs, \<open>pdb_leasing\<close> the law of leasing, and
  \<open>pdb_invariant\<close>, which joins the two, covers every operation. It is interpreted on the uniqueness of the keys (\<open>keys_ok\<close>), on the agreement
  of attempt counts with recorded runs (\<open>runs_ok\<close>) and on the agreement of job states with
  leases (\<open>leases_ok\<close>).
\<close>

section \<open>Transactions\<close>

lemma preserves_tx [keeps]:
  assumes "preserves (\<lambda>s. I (db s)) m"
  shows "preserves (\<lambda>s. I (db s)) (tx m)"
proof (rule preservesI)
  fix s :: world assume I: "I (db s)"
  obtain r s' where m: "m s = (r, s')" by fastforce
  with I have "I (db s')" using preservesD [OF assms] by blast
  with m I show "I (db (snd (tx m s)))"
    by (cases r) (simp_all add: tx_def)
qed

lemma preserves_tx_success:
  assumes "\<And>s x s'. I (db s) \<Longrightarrow> m s = (Inr x, s') \<Longrightarrow> I (db s')"
  shows "preserves (\<lambda>s. I (db s)) (tx m)"
proof (rule preservesI)
  fix s :: world assume I: "I (db s)"
  obtain r s' where "m s = (r, s')" by fastforce
  with I assms show "I (db (snd (tx m s)))"
    by (cases r) (auto simp: tx_def)
qed

lemma preserves_insert_row [keeps]:
  assumes "\<And>d. I d \<Longrightarrow> uniq d \<Longrightarrow> I (upd d)"
  shows "preserves (\<lambda>s. I (db s)) (insert_row uniq fk upd)"
  using assms by (simp add: preserves_def insert_row_def)

lemma preserves_modify_db [keeps]:
  assumes "\<And>d. I d \<Longrightarrow> I (f d)"
  shows "preserves (\<lambda>s. I (db s)) (modify_db f)"
  using assms by (simp add: preserves_def modify_db_def)

lemma preserves_env [keeps, intro!]:
  "preserves (\<lambda>s. I (db s)) utc_now"
  "preserves (\<lambda>s. I (db s)) uuid4"
  "preserves (\<lambda>s. I (db s)) token_urlsafe"
  "preserves (\<lambda>s. I (db s)) perf_counter"
  "preserves (\<lambda>s. I (db s)) initialize"
  "preserves (\<lambda>s. I (db s)) close"
  by (simp_all add: preserves_def op_defs initialize_def close_def)

section \<open>The contract\<close>

definition releases :: "(job_row \<Rightarrow> job_row) \<Rightarrow> bool" where
  "releases f \<longleftrightarrow> (\<forall>j. job_id (f j) = job_id j \<and> job_stage (f j) = job_stage j \<and>
     job_message_id (f j) = job_message_id j \<and> job_trace_id (f j) = job_trace_id j \<and>
     job_attempt_count (f j) = job_attempt_count j \<and>
     job_state (f j) \<noteq> Running \<and> job_leased_until (f j) = None)"

definition same_run :: "(run_row \<Rightarrow> run_row) \<Rightarrow> bool" where
  "same_run f \<longleftrightarrow> (\<forall>r. run_id (f r) = run_id r \<and> run_job_id (f r) = run_job_id r)"

locale pdb_rows =
  fixes I :: "pdb \<Rightarrow> bool"
  assumes new_trace: "I d \<Longrightarrow>
      \<forall>x\<in>set (pipeline_traces d). tr_trace_id x \<noteq> tr_trace_id r \<and> tr_source_alert_id x \<noteq> tr_source_alert_id r \<Longrightarrow>
      I (d\<lparr>pipeline_traces := pipeline_traces d @ [r]\<rparr>)"
    and upd_trace: "I d \<Longrightarrow> I (update_trace t st status now d)"
    and release_job: "I d \<Longrightarrow> releases f \<Longrightarrow> I (update_job jid f d)"
    and finish_run: "I d \<Longrightarrow> same_run g \<Longrightarrow> I (update_run rid g d)"
    and new_evidence: "I d \<Longrightarrow> I (d\<lparr>research_evidence := es\<rparr>)"
    and new_candidate: "I d \<Longrightarrow> I (d\<lparr>analysis_candidates := cs\<rparr>)"
    and new_snapshot: "I d \<Longrightarrow> I (d\<lparr>portfolio_snapshots := ps\<rparr>)"
    and new_approval: "I d \<Longrightarrow>
      \<forall>x\<in>set (approval_requests d). ap_approval_id x \<noteq> ap_approval_id a \<and> ap_callback_token x \<noteq> ap_callback_token a \<Longrightarrow>
      I (d\<lparr>approval_requests := approval_requests d @ [a]\<rparr>)"
    and upd_approval: "I d \<Longrightarrow> (\<And>a. ap_approval_id (h a) = ap_approval_id a \<and> ap_callback_token (h a) = ap_callback_token a) \<Longrightarrow>
      I (update_approval token h d)"
    and new_order: "I d \<Longrightarrow>
      \<forall>x\<in>set (broker_orders d). ord_order_id x \<noteq> ord_order_id b \<and> ord_client_order_id x \<noteq> ord_client_order_id b \<Longrightarrow>
      I (d\<lparr>broker_orders := broker_orders d @ [b]\<rparr>)"
    and new_dead_letter: "I d \<Longrightarrow> I (d\<lparr>dead_letters := ds\<rparr>)"
    and new_observation: "I d \<Longrightarrow> I (d\<lparr>outcome_observations := os\<rparr>)"
begin

abbreviation kept :: "'a op \<Rightarrow> bool" where
  "kept \<equiv> preserves (\<lambda>s. I (db s))"

lemma ensure_trace_kept: "kept (ensure_trace a b c d e f)"
  unfolding ensure_trace_def
  by (intro preserves_bindM preserves_tx preserves_option preserves_insert_row preserves_modify_db
      preserves_env preserves_asks preserves_ret) (auto intro: new_trace upd_trace)

lemma source_alert_kept: "kept (source_alert_id_for_trace t)"
  unfolding source_alert_id_for_trace_def
  by (intro preserves_bindM preserves_tx preserves_option preserves_asks preserves_ret preserves_raise)

lemma get_message_kept: "kept (get_message L m)"
  unfolding get_message_def
  by (intro preserves_bindM preserves_tx preserves_option preserves_asks preserves_ret preserves_raise
      preserves_from_option source_alert_kept)

lemma new_envelope_kept: "kept (new_envelope a b c d e f g)"
  unfolding new_envelope_def by (intro preserves_bindM preserves_env preserves_ret)

lemma dead_letter_job_kept: "kept (dead_letter_job L l r)"
  unfolding dead_letter_job_def
  by (intro preserves_bindM preserves_env preserves_tx preserves_modify_db preserves_insert_row
      get_message_kept release_job finish_run new_dead_letter)
    (simp_all add: releases_def same_run_def dead_job_def failed_run_def)

lemma complete_job_retry_kept: "kept (complete_job_retry L l e d m)"
  unfolding complete_job_retry_def Let_def
  by (intro preserves_if preserves_bindM preserves_env preserves_tx preserves_modify_db
      dead_letter_job_kept release_job finish_run)
    (simp_all add: releases_def same_run_def retried_job_def failed_run_def)

lemma save_research_evidence_kept: "kept (save_research_evidence m es)"
  unfolding save_research_evidence_def
  by (intro preserves_if preserves_ret preserves_tx preserves_forM preserves_bindM preserves_env
      preserves_insert_row new_evidence)

lemma save_analysis_candidates_kept: "kept (save_analysis_candidates m cs rs)"
  unfolding save_analysis_candidates_def insert_candidate_def
  by (intro preserves_tx preserves_forM preserves_prod preserves_insert_row new_candidate)

lemma save_portfolio_snapshot_kept: "kept (save_portfolio_snapshot p)"
  unfolding save_portfolio_snapshot_def
  by (intro preserves_bindM preserves_tx preserves_insert_row preserves_ret new_snapshot)

lemma create_approval_request_kept: "kept (create_approval_request a b c d e f)"
  unfolding create_approval_request_def
  by (intro preserves_bindM preserves_env preserves_tx preserves_insert_row preserves_ret new_approval) simp_all

lemma get_approval_kept: "kept (get_approval_request_by_message m)"
  unfolding get_approval_request_by_message_def by (intro preserves_tx preserves_asks)

lemma decide_approval_kept: "kept (decide_approval a b c d)"
  unfolding decide_approval_def
  by (intro preserves_bindM preserves_env preserves_tx preserves_asks preserves_option preserves_raise
      preserves_modify_db preserves_ret upd_approval) simp_all

lemma approval_request_kept: "kept (approval_request_op a b c d e)"
  unfolding approval_request_op_def Let_def
  by (intro preserves_bindM preserves_env preserves_ret create_approval_request_kept)

lemma decide_with_kept: "kept (decide_with a b c d)"
  unfolding decide_with_def by (intro preserves_bindM preserves_env preserves_ret decide_approval_kept)

lemma get_broker_order_kept: "kept (get_broker_order_by_client_order_id c)"
  unfolding get_broker_order_by_client_order_id_def by (intro preserves_tx preserves_asks)

lemma save_broker_order_kept: "kept (save_broker_order r)"
  unfolding save_broker_order_def
  by (intro preserves_tx preserves_bindM preserves_asks preserves_option preserves_ret preserves_env
      preserves_insert_row new_order) simp_all

lemma save_outcome_observation_kept: "kept (save_outcome_observation ob)"
  unfolding save_outcome_observation_def
  by (intro preserves_bindM preserves_env preserves_tx preserves_insert_row preserves_ret new_observation)

lemma list_outcome_observations_kept: "kept (list_outcome_observations t)"
  unfolding list_outcome_observations_def by (intro preserves_tx preserves_asks)

lemma update_outcome_observation_kept: "kept (update_outcome_observation a b c d e f)"
  unfolding update_outcome_observation_def update_observation_def
  by (intro preserves_tx preserves_modify_db new_observation)

lemma get_dead_letters_kept: "kept get_dead_letters"
  unfolding get_dead_letters_def by (intro preserves_tx preserves_asks)

lemmas rows_kept = ensure_trace_kept get_message_kept new_envelope_kept dead_letter_job_kept
  complete_job_retry_kept save_research_evidence_kept save_analysis_candidates_kept
  save_portfolio_snapshot_kept create_approval_request_kept get_approval_kept decide_approval_kept
  approval_request_kept decide_with_kept get_broker_order_kept save_broker_order_kept
  save_outcome_observation_kept list_outcome_observations_kept update_outcome_observation_kept
  get_dead_letters_kept

end

locale pdb_unleased = pdb_rows +
  assumes new_message: "I d \<Longrightarrow>
      \<forall>x\<in>set (stage_messages d). msg_message_id x \<noteq> msg_message_id m \<and> msg_idempotency_key x \<noteq> msg_idempotency_key m \<Longrightarrow>
      I (d\<lparr>stage_messages := stage_messages d @ [m]\<rparr>)"
    and new_job: "I d \<Longrightarrow>
      \<forall>x\<in>set (stage_jobs d). job_id x \<noteq> job_id j \<and> \<not> (job_stage x = job_stage j \<and> job_message_id x = job_message_id j) \<Longrightarrow>
      job_state j = Queued \<Longrightarrow> job_attempt_count j = 0 \<Longrightarrow> job_leased_until j = None \<Longrightarrow>
      I (d\<lparr>stage_jobs := stage_jobs d @ [j]\<rparr>)"
begin

lemma upsert_message_conn_kept: "kept (upsert_message_conn L e)"
  unfolding upsert_message_conn_def
  by (intro preserves_bindM preserves_option preserves_insert_row preserves_asks preserves_ret new_message)
    (simp_all add: message_of_def)

lemma upsert_message_kept: "kept (upsert_message L e)"
  unfolding upsert_message_def by (intro preserves_tx upsert_message_conn_kept)

lemma enqueue_job_conn_kept: "kept (enqueue_job_conn a b c d e)"
  unfolding enqueue_job_conn_def Let_def
  by (intro preserves_bindM preserves_option preserves_insert_row preserves_env preserves_asks
      preserves_ret new_job) (simp_all add: queued_job_def)

lemma enqueue_job_kept: "kept (enqueue_job a b c d e)"
  unfolding enqueue_job_def by (intro preserves_tx enqueue_job_conn_kept)

lemma store_output_kept: "kept (store_output L e ns p av ts now)"
  unfolding store_output_def
  by (intro preserves_bindM preserves_prod preserves_option preserves_if preserves_modify_db
      preserves_ret upsert_message_conn_kept enqueue_job_conn_kept upd_trace)

lemma complete_job_success_kept: "kept (complete_job_success L l oe au ns np na ts)"
  unfolding complete_job_success_def
  by (intro preserves_bindM preserves_env preserves_tx preserves_option preserves_modify_db
      preserves_ret store_output_kept release_job finish_run)
    (simp_all add: releases_def same_run_def succeeded_job_def)

lemmas calls_kept = rows_kept upsert_message_kept enqueue_job_kept complete_job_success_kept

end

locale pdb_leasing = pdb_rows +
  assumes lease_job: "I d \<Longrightarrow> j \<in> set (stage_jobs d) \<Longrightarrow> job_state j \<in> {Queued, Retry_Wait} \<Longrightarrow>
      \<forall>x\<in>set (stage_runs d). run_id x \<noteq> run_id rw \<Longrightarrow> run_job_id rw = job_id j \<Longrightarrow>
      I ((update_job (job_id j) (lease_update j until w now) d)\<lparr>stage_runs := stage_runs d @ [rw]\<rparr>)"
begin

lemma lease_next_job_kept: "kept (lease_next_job st w n)"
  unfolding lease_next_job_def Let_def
proof (intro preserves_bindM preserves_env preserves_tx_success, goal_cases)
  case (1 now s x s')
  show ?case
  proof (cases "next_ready st now (db s)")
    case None
    with 1 show ?thesis by (auto simp: op_defs)
  next
    case (Some j)
    then have "j \<in> set (stage_jobs (db s))" "job_state j \<in> {Queued, Retry_Wait}"
      by (auto simp: next_ready_def ready_def dest!: first_min_in)
    with 1 Some show ?thesis
      by (auto simp: op_defs insert_row_def update_job_def started_run_def split: if_splits
          intro!: lease_job [unfolded update_job_def, simplified])
  qed
qed

end

locale pdb_invariant = pdb_unleased + pdb_leasing
begin

lemmas db_ops_kept = calls_kept lease_next_job_kept

end

section \<open>The invariants\<close>

definition keys_ok :: "pdb \<Rightarrow> bool" where
  "keys_ok d \<longleftrightarrow>
     distinct (map tr_trace_id (pipeline_traces d)) \<and> distinct (map tr_source_alert_id (pipeline_traces d)) \<and>
     distinct (map msg_message_id (stage_messages d)) \<and> distinct (map msg_idempotency_key (stage_messages d)) \<and>
     distinct (map job_id (stage_jobs d)) \<and> distinct (map (\<lambda>j. (job_stage j, job_message_id j)) (stage_jobs d)) \<and>
     distinct (map run_id (stage_runs d)) \<and>
     distinct (map ap_callback_token (approval_requests d)) \<and>
     distinct (map ord_client_order_id (broker_orders d))"

definition runs_of :: "uuid \<Rightarrow> pdb \<Rightarrow> run_row list" where
  "runs_of jid d = filter (\<lambda>r. run_job_id r = jid) (stage_runs d)"

definition runs_ok :: "pdb \<Rightarrow> bool" where
  "runs_ok d \<longleftrightarrow>
     distinct (map job_id (stage_jobs d)) \<and>
     (\<forall>r\<in>set (stage_runs d). run_job_id r \<in> job_id ` set (stage_jobs d)) \<and>
     (\<forall>j\<in>set (stage_jobs d). job_attempt_count j = length (runs_of (job_id j) d))"

definition leases_ok :: "pdb \<Rightarrow> bool" where
  "leases_ok d \<longleftrightarrow> (\<forall>j\<in>set (stage_jobs d). job_state j = Running \<longleftrightarrow> job_leased_until j \<noteq> None)"

lemma keys_ok_update_trace: "keys_ok (update_trace t st status now d) = keys_ok d"
  by (simp add: keys_ok_def update_trace_def)

lemma update_job_keys:
  assumes "\<And>j. job_id (f j) = job_id j \<and> job_stage (f j) = job_stage j \<and> job_message_id (f j) = job_message_id j"
  shows "map job_id (stage_jobs (update_job jid f d)) = map job_id (stage_jobs d)"
    and "map (\<lambda>j. (job_stage j, job_message_id j)) (stage_jobs (update_job jid f d)) =
         map (\<lambda>j. (job_stage j, job_message_id j)) (stage_jobs d)"
  using assms by (simp_all add: update_job_def)

lemma update_job_other [simp]:
  "pipeline_traces (update_job jid f d) = pipeline_traces d"
  "stage_messages (update_job jid f d) = stage_messages d"
  "stage_runs (update_job jid f d) = stage_runs d"
  "approval_requests (update_job jid f d) = approval_requests d"
  "broker_orders (update_job jid f d) = broker_orders d"
  "dead_letters (update_job jid f d) = dead_letters d"
  "outcome_observations (update_job jid f d) = outcome_observations d"
  by (simp_all add: update_job_def)

lemma update_run_other [simp]:
  "pipeline_traces (update_run rid f d) = pipeline_traces d"
  "stage_messages (update_run rid f d) = stage_messages d"
  "stage_jobs (update_run rid f d) = stage_jobs d"
  "approval_requests (update_run rid f d) = approval_requests d"
  "broker_orders (update_run rid f d) = broker_orders d"
  "dead_letters (update_run rid f d) = dead_letters d"
  "outcome_observations (update_run rid f d) = outcome_observations d"
  by (simp_all add: update_run_def)

lemma update_trace_other [simp]:
  "stage_messages (update_trace t st status now d) = stage_messages d"
  "stage_jobs (update_trace t st status now d) = stage_jobs d"
  "stage_runs (update_trace t st status now d) = stage_runs d"
  "approval_requests (update_trace t st status now d) = approval_requests d"
  "broker_orders (update_trace t st status now d) = broker_orders d"
  "dead_letters (update_trace t st status now d) = dead_letters d"
  "outcome_observations (update_trace t st status now d) = outcome_observations d"
  by (simp_all add: update_trace_def)

interpretation keys: pdb_invariant keys_ok
proof (unfold_locales, goal_cases)
  case (2 d t st status now)
  then show ?case by (simp add: keys_ok_update_trace)
next
  case (15 d j r until w now)
  have "\<And>x. job_id (lease_update j until w now x) = job_id x \<and>
      job_stage (lease_update j until w now x) = job_stage x \<and>
      job_message_id (lease_update j until w now x) = job_message_id x"
    by (simp add: lease_update_def)
  with 15 show ?case by (auto simp: keys_ok_def update_job_keys)
next
  case (3 d f jid)
  then show ?case by (auto simp: keys_ok_def update_job_keys releases_def)
next
  case (4 d g rid)
  then have "map run_id (stage_runs (update_run rid g d)) = map run_id (stage_runs d)"
    by (simp add: update_run_def same_run_def)
  with 4 show ?case by (simp add: keys_ok_def)
next
  case (9 d h token)
  then have "map ap_callback_token (approval_requests (update_approval token h d)) =
      map ap_callback_token (approval_requests d)"
    by (simp add: update_approval_def)
  with 9 show ?case by (simp add: keys_ok_def update_approval_def)
qed (auto simp: keys_ok_def)

lemma leases_ok_lease:
  "leases_ok d \<Longrightarrow> leases_ok ((update_job jid (lease_update j until w now) d)\<lparr>stage_runs := rs\<rparr>)"
  by (auto simp: leases_ok_def update_job_def lease_update_def)

lemma leases_ok_release: "leases_ok d \<Longrightarrow> releases f \<Longrightarrow> leases_ok (update_job jid f d)"
  by (auto simp: leases_ok_def update_job_def releases_def)

interpretation leases: pdb_invariant leases_ok
  by unfold_locales
    (auto simp: leases_ok_release leases_ok_lease, auto simp: leases_ok_def update_approval_def)

lemma update_job_ids:
  assumes "\<And>j. job_id (f j) = job_id j"
  shows "job_id ` set (stage_jobs (update_job jid f d)) = job_id ` set (stage_jobs d)"
proof -
  have "map job_id (stage_jobs (update_job jid f d)) = map job_id (stage_jobs d)"
    using assms by (simp add: update_job_def)
  from arg_cong [OF this, of set] show ?thesis by (simp only: set_map)
qed

lemma update_job_mem:
  "x \<in> set (stage_jobs (update_job jid f d)) \<longleftrightarrow>
     (\<exists>j\<in>set (stage_jobs d). x = (if job_id j = jid then f j else j))"
  by (simp add: update_job_def image_iff del: if_image_distrib)

lemma runs_ok_new_job:
  assumes "runs_ok d" "\<forall>x\<in>set (stage_jobs d). job_id x \<noteq> job_id j" "job_attempt_count j = 0"
  shows "runs_ok (d\<lparr>stage_jobs := stage_jobs d @ [j]\<rparr>)"
proof -
  have "runs_of (job_id j) d = []"
    using assms(1,2) by (auto simp: runs_ok_def runs_of_def filter_empty_conv)
  with assms show ?thesis
    by (auto simp: runs_ok_def runs_of_def)
qed

lemma runs_ok_lease:
  assumes ok: "runs_ok d" and j: "j \<in> set (stage_jobs d)" and r: "run_job_id r = job_id j"
  shows "runs_ok ((update_job (job_id j) (lease_update j until w now) d)\<lparr>stage_runs := stage_runs d @ [r]\<rparr>)"
proof -
  have eq: "x = j" if "x \<in> set (stage_jobs d)" "job_id x = job_id j" for x
    using ok that j by (auto simp: runs_ok_def distinct_map dest: inj_onD)
  have ids: "job_id (lease_update j until w now x) = job_id x"
    "job_stage (lease_update j until w now x) = job_stage x"
    "job_message_id (lease_update j until w now x) = job_message_id x" for x
    by (simp_all add: lease_update_def)
  let ?d = "update_job (job_id j) (lease_update j until w now) d"
  have "job_attempt_count x = length (filter (\<lambda>y. run_job_id y = job_id x) (stage_runs d @ [r]))"
    if "x \<in> set (stage_jobs ?d)" for x
    using that ok j r by (auto simp: update_job_mem runs_ok_def runs_of_def lease_update_def dest: eq)
  with ok j r show ?thesis
    by (auto simp: runs_ok_def runs_of_def update_job_ids update_job_keys(1) ids)
qed

lemma runs_ok_release:
  assumes "runs_ok d" "releases f"
  shows "runs_ok (update_job jid f d)"
  using assms
  by (auto simp: runs_ok_def runs_of_def update_job_ids update_job_keys(1) update_job_mem releases_def)

lemma runs_ok_finish:
  assumes "runs_ok d" "same_run g"
  shows "runs_ok (update_run rid g d)"
proof -
  have "length (runs_of i (update_run rid g d)) = length (runs_of i d)" for i
    using assms(2) by (simp add: runs_of_def update_run_def same_run_def filter_map o_def if_distrib cong: if_cong)
  with assms show ?thesis
    by (auto simp: runs_ok_def update_run_def same_run_def)
qed

interpretation runs: pdb_invariant runs_ok
proof (unfold_locales, goal_cases)
  case (14 d j)
  then show ?case by (intro runs_ok_new_job) auto
qed (simp_all add: runs_ok_lease runs_ok_release runs_ok_finish,
  simp_all add: runs_ok_def runs_of_def update_approval_def)

end
