(* ===== verification/Demo_World.thy ===== *)
theory Demo_World
  imports Pipeline_World
begin

text \<open>
  A small concrete world for the evaluated examples that accompany the theorems: a clock that
  moves on by ten minutes at every reading, identifiers that are never drawn twice, an open
  SQLite connection, a library instance whose JSON text is read back as the empty object, and
  the default configuration of \<open>src/src/pipeline/config.py\<close>.
\<close>

definition demo_intent :: trade_intent where
  "demo_intent =
     \<lparr>intent_candidate_id = ''c1'', intent_symbol = ''XLE'', intent_side = BUY,
      intent_order_type = LIMIT, intent_tif = DAY, intent_max_notional = 100,
      intent_limit_price = 50, intent_stop_loss_pct = 1 / 50, intent_max_slippage_bps = 50,
      intent_thesis_horizon = TH_SWING\<rparr>"

definition demo_decision :: execution_decision where
  "demo_decision =
     \<lparr>ed_status = SUBMITTED, ed_selected_candidate_id = Some ''c1'', ed_intent = Some demo_intent,
      ed_risk_checks = [], ed_approval_id = None, ed_broker_order_ids = [''b1''], ed_stage_summary = []\<rparr>"

definition demo_lib :: lib where
  "demo_lib =
     \<lparr>py_repr = (\<lambda>_. ''?''), str_decimal = (\<lambda>_. ''1''), str_float = (\<lambda>_. ''1.0''),
      iso_time = str_int, json_dumps = (\<lambda>_. ''{}''), json_loads = (\<lambda>_. Some (JDict [])),
      sha256_hexdigest = id, hmac_sha256_hexdigest = (\<lambda>k m. k @ m),
      dump_ingested = (\<lambda>_. JDict []), validate_ingested = (\<lambda>_. None),
      dump_research = (\<lambda>_. JDict []), validate_research = (\<lambda>_. None),
      dump_analysis = (\<lambda>_. JDict []), validate_analysis = (\<lambda>_. None),
      dump_decision = (\<lambda>_. JDict []), validate_decision = (\<lambda>_. Some demo_decision),
      validate_intent = (\<lambda>_. Some demo_intent), validate_mirror_json = (\<lambda>_. None)\<rparr>"

definition demo_queue :: queue_section where
  "demo_queue = \<lparr>lease_sec = 60, max_attempts = 3, retry_backoff_sec = 30\<rparr>"

definition demo_config :: pipeline_config where
  "demo_config =
     \<lparr>cfg_queue = demo_queue,
      cfg_researcher = \<lparr>http_host = ''0.0.0.0'', http_port = 8001, webhook_bearer_token = [],
        webhook_hmac_secret = [], rs_prompt_version = ''v1'', source_freshness_sec = 21600\<rparr>,
      cfg_analyst = \<lparr>ruleset_version = ''v1'', min_avg_dollar_volume = 2000000, max_spread_bps = 50,
        min_price = 5, max_price = 500\<rparr>,
      cfg_executor = \<lparr>approval_mode = ''manual_all'', risk_ruleset_version = ''v1'',
        max_position_pct = 1 / 20, max_sector_exposure_pct = 1 / 5, max_gross_invested_pct = 4 / 5,
        max_daily_drawdown_pct = 1 / 50, consecutive_loss_limit = 3, cooldown_minutes = 60,
        stale_quote_sec = 30, approval_timeout_minutes = 15\<rparr>\<rparr>"

definition demo_world :: "pdb \<Rightarrow> world" where
  "demo_world d =
     \<lparr>clock = (\<lambda>n. minutes (10 * int n)), clock_reads = 0,
      uuid_source = (\<lambda>n. replicate (Suc n) CHR ''u''), uuid_draws = 0,
      token_source = (\<lambda>n. replicate (Suc n) CHR ''t''), token_draws = 0,
      perf_source = (\<lambda>n. of_nat n), perf_reads = 0,
      dialect = Sqlite, conn_open = True, db = d, broker_calls = []\<rparr>"

definition demo_trace :: trace_row where
  "demo_trace =
     \<lparr>tr_trace_id = ''t1'', tr_source_alert_id = ''a1'', tr_market_asset_id = None,
      tr_market_slug = None, tr_event_slug = None, tr_current_stage = INGEST,
      tr_status = ''queued'', tr_created_at = 0, tr_updated_at = 0\<rparr>"

definition demo_message :: message_row where
  "demo_message =
     \<lparr>msg_message_id = ''m1'', msg_trace_id = ''t1'', msg_stage = INGEST, msg_parent_message_id = None,
      msg_schema_version = ''1'', msg_idempotency_key = ''k1'', msg_payload_jsonb = ''{}'',
      msg_payload_hash = ''{}'', msg_created_at = 0\<rparr>"

definition demo_envelope :: pipeline_envelope where
  "demo_envelope =
     \<lparr>env_message_id = ''m2'', env_trace_id = ''t1'', env_source_alert_id = ''a1'',
      env_parent_message_id = Some ''m1'', env_stage = RESEARCH, env_schema_version = ''1'',
      env_idempotency_key = ''k2'', env_created_at = 0, env_payload = JDict []\<rparr>"

definition demo_job :: "stage_name \<Rightarrow> job_row" where
  "demo_job st =
     \<lparr>job_id = ''j1'', job_trace_id = ''t1'', job_stage = st, job_message_id = ''m1'',
      job_state = Queued, job_priority = 100, job_attempt_count = 0, job_available_at = 0,
      job_leased_until = None, job_worker_id = None, job_last_error = None,
      job_created_at = 0, job_updated_at = 0\<rparr>"

definition demo_db :: "stage_name \<Rightarrow> pdb" where
  "demo_db st = empty_pdb\<lparr>pipeline_traces := [demo_trace], stage_messages := [demo_message],
     stage_jobs := [demo_job st]\<rparr>"

lemma demo_uuid_inj: "inj (\<lambda>n. replicate (Suc n) CHR ''u'')"
proof (rule injI)
  fix x y assume "replicate (Suc x) CHR ''u'' = replicate (Suc y) CHR ''u''"
  from arg_cong [OF this, of length] show "x = y" by simp
qed

lemmas demo_defs = demo_world_def demo_db_def demo_job_def demo_message_def demo_trace_def
  demo_envelope_def demo_queue_def demo_config_def demo_lib_def demo_decision_def demo_intent_def empty_pdb_def

end
