(* ===== verification/Pipeline_Queue.thy ===== *)
theory Pipeline_Queue
  imports Pipeline_Invariants Demo_World
begin

text \<open>
  What the operations of the queue compute: messages are stored once per idempotency key and
  read back as they were written, jobs are leased in order of priority and age, a failed
  transaction leaves no trace, and a job that keeps failing is dead-lettered.
\<close>

section \<open>Evaluation lemmas\<close>

lemma tx_Inr:
  "conn_open s \<Longrightarrow> m s = (Inr x, s') \<Longrightarrow> tx m s = (Inr x, s')"
  by (simp add: tx_def)

lemma tx_InrD:
  "tx m s = (Inr x, s') \<Longrightarrow> conn_open s \<and> m s = (Inr x, s')"
  by (auto simp: tx_def split: if_splits prod.splits sum.splits)

lemma tx_InlD: "tx m s = (Inl e, s') \<Longrightarrow> db s' = db s"
  by (auto simp: tx_def split: if_splits prod.splits sum.splits)

lemma bindM_InrD:
  "bindM m f s = (Inr y, s') \<Longrightarrow> \<exists>x s1. m s = (Inr x, s1) \<and> f x s1 = (Inr y, s')"
  by (auto simp: bindM_def split: prod.splits sum.splits)

lemma insert_row_InrD:
  "insert_row u fk f s = (Inr x, s') \<Longrightarrow> u (db s) \<and> (dialect s = Postgres \<longrightarrow> fk (db s)) \<and> s' = s\<lparr>db := f (db s)\<rparr>"
  by (auto simp: insert_row_def split: if_splits)

lemma insert_row_Inr:
  "u (db s) \<Longrightarrow> dialect s = Postgres \<longrightarrow> fk (db s) \<Longrightarrow> insert_row u fk f s = (Inr (), s\<lparr>db := f (db s)\<rparr>)"
  by (auto simp: insert_row_def)

lemma find_unique:
  assumes "distinct (map f xs)" "x \<in> set xs"
  shows "List.find (\<lambda>y. f y = f x) xs = Some x"
  using assms by (induction xs) auto

section \<open>Leasing\<close>

definition leased_world :: "string \<Rightarrow> int \<Rightarrow> job_row \<Rightarrow> world \<Rightarrow> world" where
  "leased_world w n j s =
     (let now = clock s (clock_reads s); rid = uuid_source s (uuid_draws s) in
      s\<lparr>clock_reads := Suc (clock_reads s), uuid_draws := Suc (uuid_draws s),
        db := (update_job (job_id j) (lease_update j (now + seconds n) w now) (db s))
                \<lparr>stage_runs := stage_runs (db s) @ [started_run rid j now]\<rparr>\<rparr>)"

lemma lease_next_job_InrD:
  assumes "lease_next_job st w n s = (Inr r, s')"
  shows "case next_ready st (clock s (clock_reads s)) (db s) of
           None \<Rightarrow> r = None \<and> s' = s\<lparr>clock_reads := Suc (clock_reads s)\<rparr>
         | Some j \<Rightarrow> r = Some (lease_of (uuid_source s (uuid_draws s)) j) \<and> s' = leased_world w n j s"
proof -
  define now where "now = clock s (clock_reads s)"
  define s1 where "s1 = s\<lparr>clock_reads := Suc (clock_reads s)\<rparr>"
  have db1: "db s1 = db s" "conn_open s1 = conn_open s" by (simp_all add: s1_def)
  show ?thesis
  proof (cases "next_ready st now (db s)")
    case None
    then have "lease_next_job st w n s = tx (ret None) s1"
      by (simp add: lease_next_job_def op_defs tx_def db1 now_def [symmetric] s1_def [symmetric])
    with assms have "tx (ret None) s1 = (Inr r, s')" by simp
    from tx_InrD [OF this] None show ?thesis by (simp add: now_def s1_def ret_def)
  next
    case (Some j)
    from assms Some show ?thesis
      by (auto simp: lease_next_job_def op_defs tx_def db1 now_def leased_world_def Let_def
          insert_row_def update_job_def split: if_splits)
  qed
qed

text \<open>
  C6 (functional): which job is leased. A call that finds no job of the requested stage that waits
  (\<open>queued\<close> or \<open>retry_wait\<close>) and is due at the time of the call returns nothing and
  changes no table. Otherwise it leases a due job such that no other due job of the stage comes
  before it by priority and then by creation time: the lease names the job, its message and the
  attempt; the job is then \<open>running\<close> until the lease runs out, its attempt count is one
  higher, and one new \<open>running\<close> run is recorded for it; every other job is unchanged.
\<close>

theorem lease_next_job_correct:
  assumes "lease_next_job st w n s = (Inr r, s')"
  shows "let now = clock s (clock_reads s); jobs = stage_jobs (db s);
             due = (\<lambda>j. job_stage j = st \<and> (job_state j = Queued \<or> job_state j = Retry_Wait) \<and> job_available_at j \<le> now) in
    case r of
      None \<Rightarrow> (\<forall>j\<in>set jobs. \<not> due j) \<and> db s' = db s
    | Some l \<Rightarrow> \<exists>j\<in>set jobs. due j \<and>
        (\<forall>x\<in>set jobs. due x \<longrightarrow> (job_priority j, job_created_at j) \<le> (job_priority x, job_created_at x)) \<and>
        lease_job_id l = job_id j \<and> lease_trace_id l = job_trace_id j \<and> lease_stage l = st \<and>
        lease_message_id l = job_message_id j \<and> lease_attempt_count l = Suc (job_attempt_count j) \<and>
        stage_jobs (db s') = map (\<lambda>x. if job_id x = job_id j
            then x\<lparr>job_state := Running, job_attempt_count := Suc (job_attempt_count j),
                   job_leased_until := Some (now + seconds n), job_worker_id := Some w,
                   job_updated_at := now\<rparr>
            else x) jobs \<and>
        (\<exists>run. stage_runs (db s') = stage_runs (db s) @ [run] \<and> run_id run = lease_run_id l \<and>
           run_job_id run = job_id j \<and> run_started_at run = now \<and> run_result_state run = Running)"
proof (cases r)
  case None
  let ?now = "clock s (clock_reads s)"
  from lease_next_job_InrD [OF assms] None have "next_ready st ?now (db s) = None" "db s' = db s"
    by (auto split: option.splits)
  then show ?thesis using None by (auto simp: next_ready_def first_min_None filter_empty_conv ready_def Let_def)
next
  case (Some l)
  let ?now = "clock s (clock_reads s)"
  from lease_next_job_InrD [OF assms] Some obtain j
    where j: "next_ready st ?now (db s) = Some j"
      and l: "l = lease_of (uuid_source s (uuid_draws s)) j" and s': "s' = leased_world w n j s"
    by (auto split: option.splits)
  then have in_due: "j \<in> set (stage_jobs (db s))" "ready st ?now j"
    by (auto simp: next_ready_def dest!: first_min_in)
  moreover have "(job_priority j, job_created_at j) \<le> (job_priority x, job_created_at x)"
    if "x \<in> set (stage_jobs (db s))" "ready st ?now x" for x
    using first_min_least [OF j [unfolded next_ready_def]] that by simp
  ultimately show ?thesis
    using l s' unfolding Some Let_def option.case
    by (intro bexI [of _ j])
      (simp_all add: ready_def lease_of_def leased_world_def Let_def update_job_def lease_update_def started_run_def)
qed

definition lease_calls :: "(stage_name \<times> string \<times> int) list \<Rightarrow> world \<Rightarrow> world" where
  "lease_calls cs s = fold (\<lambda>(st, w, n) s. snd (lease_next_job st w n s)) cs s"

lemma lease_next_job_running:
  assumes "distinct (map job_id (stage_jobs (db s)))" "j \<in> set (stage_jobs (db s))" "job_state j = Running"
  shows "j \<in> set (stage_jobs (db (snd (lease_next_job st w n s))))"
proof (cases "fst (lease_next_job st w n s)")
  case (Inl e)
  then obtain s' where s': "lease_next_job st w n s = (Inl e, s')" by (metis prod.collapse)
  then have "db s' = db s"
    by (auto simp: lease_next_job_def Let_def bindM_def utc_now_def dest!: tx_InlD)
  with assms s' show ?thesis by simp
next
  case (Inr r)
  then obtain s' where s': "lease_next_job st w n s = (Inr r, s')" by (metis prod.collapse)
  show ?thesis
  proof (cases "next_ready st (clock s (clock_reads s)) (db s)")
    case None
    with lease_next_job_InrD [OF s'] s' assms show ?thesis by simp
  next
    case (Some k)
    then have k: "k \<in> set (stage_jobs (db s))" "job_state k \<noteq> Running"
      by (auto simp: next_ready_def ready_def dest!: first_min_in)
    with assms have "job_id j \<noteq> job_id k" by (metis distinct_map inj_onD)
    moreover have "s' = leased_world w n k s" using lease_next_job_InrD [OF s'] Some by simp
    ultimately show ?thesis using s' assms(2) by (auto simp: leased_world_def Let_def update_job_mem)
  qed
qed

lemma lease_next_job_ids:
  "distinct (map job_id (stage_jobs (db s))) \<Longrightarrow>
   distinct (map job_id (stage_jobs (db (snd (lease_next_job st w n s)))))"
proof -
  assume d: "distinct (map job_id (stage_jobs (db s)))"
  obtain r s' where eq: "lease_next_job st w n s = (r, s')" by fastforce
  show ?thesis
  proof (cases r)
    case (Inl e)
    with eq have "db s' = db s"
      by (auto simp: lease_next_job_def Let_def bindM_def utc_now_def dest!: tx_InlD)
    with eq d show ?thesis by simp
  next
    case (Inr x)
    with lease_next_job_InrD [of st w n s x s'] eq d show ?thesis
      by (auto simp: leased_world_def Let_def update_job_keys(1) lease_update_def split: option.splits)
  qed
qed

text \<open>
  A worker that stops while it holds a lease blocks its job for good. However many
  leases are asked for afterwards, by any worker, for any stage and at any time, a job that is
  \<open>running\<close> stays as it is: \<open>leased_until\<close> is written and never read, so an expired
  lease is not reclaimed.
\<close>

theorem stale_lease_not_reclaimed:
  assumes "distinct (map job_id (stage_jobs (db s)))"
    and "j \<in> set (stage_jobs (db s))" and "job_state j = Running"
  shows "j \<in> set (stage_jobs (db (lease_calls cs s)))"
  using assms
proof (induction cs arbitrary: s)
  case Nil
  then show ?case by (simp add: lease_calls_def)
next
  case (Cons c cs)
  obtain st w n where c: "c = (st, w, n)" by (cases c)
  from Cons.prems have "j \<in> set (stage_jobs (db (lease_calls cs (snd (lease_next_job st w n s)))))"
    by (intro Cons.IH lease_next_job_running lease_next_job_ids) auto
  then show ?case by (simp add: lease_calls_def c)
qed

section \<open>Messages\<close>

lemma message_by_key_snoc:
  "message_by_key k (d\<lparr>stage_messages := stage_messages d @ [m]\<rparr>) =
     (case message_by_key k d of None \<Rightarrow> if msg_idempotency_key m = k then Some m else None | Some r \<Rightarrow> Some r)"
  by (simp add: message_by_key_def find_append split: option.split)

lemma find_message_snoc:
  "find_message i (d\<lparr>stage_messages := stage_messages d @ [m]\<rparr>) =
     (case find_message i d of None \<Rightarrow> if msg_message_id m = i then Some m else None | Some r \<Rightarrow> Some r)"
  by (simp add: find_message_def find_append split: option.split)

lemma upsert_message_conn_InrD:
  assumes "upsert_message_conn L e s = (Inr (mid, inserted), s')"
  shows "case message_by_key (env_idempotency_key e) (db s) of
           Some r \<Rightarrow> mid = msg_message_id r \<and> \<not> inserted \<and> s' = s
         | None \<Rightarrow> mid = env_message_id e \<and> inserted \<and> find_message mid (db s) = None \<and>
             s' = s\<lparr>db := (db s)\<lparr>stage_messages := stage_messages (db s) @ [message_of L e]\<rparr>\<rparr>"
proof (cases "message_by_key (env_idempotency_key e) (db s)")
  case (Some r)
  with assms show ?thesis by (simp add: upsert_message_conn_def op_defs)
next
  case None
  with assms obtain s1 where
    "insert_row
       (\<lambda>d. \<forall>r\<in>set (stage_messages d). msg_message_id r \<noteq> env_message_id e \<and> msg_idempotency_key r \<noteq> env_idempotency_key e)
       (\<lambda>d. find_trace (env_trace_id e) d \<noteq> None \<and>
            (case env_parent_message_id e of None \<Rightarrow> True | Some p \<Rightarrow> find_message p d \<noteq> None))
       (\<lambda>d. d\<lparr>stage_messages := stage_messages d @ [message_of L e]\<rparr>) s = (Inr (), s1)"
    and "mid = env_message_id e" "inserted" "s' = s1"
    by (auto simp: upsert_message_conn_def asks_def ret_def bindM_def split: prod.splits sum.splits)
  with None show ?thesis
    by (auto dest!: insert_row_InrD simp: find_message_def find_None_all)
qed

lemma upsert_message_InrD:
  assumes "upsert_message L e s = (Inr (mid, inserted), s')"
  shows "conn_open s \<and> upsert_message_conn L e s = (Inr (mid, inserted), s')"
  using tx_InrD [OF assms [unfolded upsert_message_def]] .

text \<open>
  Storing a message under a key that was stored before changes nothing. The
  first call stores the message or finds it; a second call with any envelope that carries the
  same idempotency key returns the same message id, reports that nothing was inserted, and
  leaves the world as it was.
\<close>

theorem upsert_message_idempotent:
  assumes "upsert_message L e s = (Inr (mid, inserted), s')"
    and "env_idempotency_key e' = env_idempotency_key e"
  shows "upsert_message L e' s' = (Inr (mid, False), s')"
proof -
  from upsert_message_InrD [OF assms(1)] have c: "conn_open s"
    and u: "upsert_message_conn L e s = (Inr (mid, inserted), s')" by auto
  from upsert_message_conn_InrD [OF u]
  obtain r where "message_by_key (env_idempotency_key e) (db s') = Some r" "msg_message_id r = mid"
    and "conn_open s'"
    using c by (auto simp: message_by_key_snoc message_of_def split: option.splits)
  with assms(2) show ?thesis
    by (simp add: upsert_message_def tx_def upsert_message_conn_def op_defs)
qed

text \<open>
  A message that was inserted is read back as it was written, with what the reader makes of the
  payload's text.
\<close>

lemma get_message_after_upsert:
  assumes "upsert_message L e s = (Inr (mid, True), s')"
    and "find_trace (env_trace_id e) (db s) = Some t"
    and "env_source_alert_id e = tr_source_alert_id t"
    and "json_loads L (json_dumps L (env_payload e)) = Some payload"
  shows "get_message L mid s' = (Inr (e\<lparr>env_payload := payload\<rparr>), s')"
proof -
  from upsert_message_InrD [OF assms(1)] have c: "conn_open s"
    and u: "upsert_message_conn L e s = (Inr (mid, True), s')" by auto
  from upsert_message_conn_InrD [OF u] have mid: "mid = env_message_id e"
    and new: "find_message mid (db s) = None"
    and s': "s' = s\<lparr>db := (db s)\<lparr>stage_messages := stage_messages (db s) @ [message_of L e]\<rparr>\<rparr>"
    by (auto split: option.splits)
  from mid new s' have fm: "find_message mid (db s') = Some (message_of L e)"
    by (simp add: find_message_snoc message_of_def)
  have ft: "find_trace (env_trace_id e) (db s') = Some t"
    using assms(2) s' by (simp add: find_trace_def)
  from c s' have c': "conn_open s'" by simp
  show ?thesis
    using fm ft c' assms(3,4) mid
    by (simp add: get_message_def source_alert_id_for_trace_def tx_def op_defs message_of_def)
qed

section \<open>Completing a job\<close>

lemma enqueue_job_conn_InrD:
  assumes "enqueue_job_conn t st m p av s = (Inr jid, s')"
  shows "let now = clock s (clock_reads s);
             s1 = s\<lparr>clock_reads := Suc (clock_reads s), uuid_draws := Suc (uuid_draws s)\<rparr> in
         case List.find (\<lambda>j. job_stage j = st \<and> job_message_id j = m) (stage_jobs (db s)) of
           Some j \<Rightarrow> jid = job_id j \<and> s' = s1
         | None \<Rightarrow> jid = uuid_source s (uuid_draws s) \<and>
             s' = s1\<lparr>db := (db s)\<lparr>stage_jobs := stage_jobs (db s) @
                   [queued_job jid t st m p (case av of None \<Rightarrow> now | Some x \<Rightarrow> x) now]\<rparr>\<rparr>"
  using assms
  by (auto simp: enqueue_job_conn_def Let_def op_defs insert_row_def split: option.splits if_splits)

lemma message_by_key_run_job_trace [simp]:
  "message_by_key k (update_run rid f d) = message_by_key k d"
  "message_by_key k (update_job jid g d) = message_by_key k d"
  "message_by_key k (update_trace t st status now d) = message_by_key k d"
  "find_message i (update_run rid f d) = find_message i d"
  "find_message i (update_job jid g d) = find_message i d"
  "find_message i (update_trace t st status now d) = find_message i d"
  by (simp_all add: message_by_key_def find_message_def)

lemma store_output_InrD:
  assumes "store_output L e (Some st) p av status now s = (Inr r, s')"
  shows "(\<exists>m. r = Some (msg_message_id m) \<and> message_by_key (env_idempotency_key e) (db s') = Some m) \<and>
    (\<exists>new. stage_jobs (db s') = stage_jobs (db s) @ new \<and>
       (if message_by_key (env_idempotency_key e) (db s) = None
          \<and> (\<forall>j\<in>set (stage_jobs (db s)). \<not> (job_stage j = st \<and> job_message_id j = env_message_id e))
        then \<exists>j. new = [j] \<and> job_state j = Queued \<and> job_stage j = st \<and> job_message_id j = env_message_id e
        else new = []))"
proof -
  from bindM_InrD [OF assms [unfolded store_output_def]] obtain mid ins s1
    where u: "upsert_message_conn L e s = (Inr (mid, ins), s1)"
      and rest: "bindM (if ins then bindM (enqueue_job_conn (env_trace_id e) st mid p av) (\<lambda>_. ret ()) else ret ())
        (\<lambda>_. bindM (modify_db (update_trace (env_trace_id e) (env_stage e) status now)) (\<lambda>_. ret (Some mid))) s1 = (Inr r, s')"
    by fastforce
  show ?thesis
  proof (cases "message_by_key (env_idempotency_key e) (db s)")
    case (Some m)
    with upsert_message_conn_InrD [OF u] rest show ?thesis by (auto simp: op_defs)
  next
    case None
    with upsert_message_conn_InrD [OF u] have mid: "mid = env_message_id e" "ins"
      and s1: "s1 = s\<lparr>db := (db s)\<lparr>stage_messages := stage_messages (db s) @ [message_of L e]\<rparr>\<rparr>" by auto
    from bindM_InrD [OF rest] \<open>ins\<close> obtain jid s2
      where q: "enqueue_job_conn (env_trace_id e) st mid p av s1 = (Inr jid, s2)"
        and r: "r = Some mid" and s': "db s' = update_trace (env_trace_id e) (env_stage e) status now (db s2)"
      by (auto simp: modify_db_def ret_def bindM_def split: prod.splits sum.splits)
    have "message_by_key (env_idempotency_key e) (db s2) = Some (message_of L e)"
      using enqueue_job_conn_InrD [OF q] None s1
      by (auto simp: Let_def message_by_key_def find_append message_of_def split: option.splits)
    moreover have "\<exists>new. stage_jobs (db s2) = stage_jobs (db s) @ new \<and>
       (if \<forall>j\<in>set (stage_jobs (db s)). \<not> (job_stage j = st \<and> job_message_id j = env_message_id e)
        then \<exists>j. new = [j] \<and> job_state j = Queued \<and> job_stage j = st \<and> job_message_id j = env_message_id e
        else new = [])"
      using enqueue_job_conn_InrD [OF q] mid s1
      by (auto simp: Let_def find_None_all queued_job_def split: option.splits dest!: find_Some_in)
    ultimately show ?thesis
      using None r s' mid by (auto simp: message_of_def)
  qed
qed

text \<open>
  Completing a job with an output. When the call returns, the job is
  \<open>succeeded\<close> and free of its lease, the output is stored under its idempotency key with
  the id that is returned, and a job for the next stage waits on it if and only if the output
  was not stored before; when the call raises, no table has changed.
\<close>

theorem complete_job_success_correct:
  "case complete_job_success L l (Some e) au (Some st) p av status s of
     (Inl err, s') \<Rightarrow> db s' = db s
   | (Inr r, s') \<Rightarrow>
       (\<exists>m. r = Some (msg_message_id m) \<and> message_by_key (env_idempotency_key e) (db s') = Some m) \<and>
       (\<exists>new. stage_jobs (db s') =
          map (\<lambda>j. if job_id j = lease_job_id l then j\<lparr>job_state := Succeeded, job_leased_until := None,
              job_updated_at := clock s (clock_reads s), job_last_error := None\<rparr> else j)
            (stage_jobs (db s) @ new) \<and>
          (if message_by_key (env_idempotency_key e) (db s) = None
             \<and> (\<forall>j\<in>set (stage_jobs (db s)). \<not> (job_stage j = st \<and> job_message_id j = env_message_id e))
           then \<exists>j. new = [j] \<and> job_state j = Queued \<and> job_stage j = st \<and> job_message_id j = env_message_id e
           else new = []))"
proof -
  define s0 where "s0 = s\<lparr>clock_reads := Suc (clock_reads s)\<rparr>"
  let ?now = "clock s (clock_reads s)"
  obtain r s' where eq: "complete_job_success L l (Some e) au (Some st) p av status s = (r, s')" by fastforce
  show ?thesis
  proof (cases r)
    case (Inl err)
    with eq have "db s' = db s"
      by (auto simp: complete_job_success_def bindM_def utc_now_def dest!: tx_InlD)
    with eq Inl show ?thesis by simp
  next
    case (Inr x)
    with eq obtain s1 g where so: "store_output L e (Some st) p av status ?now s0 = (Inr x, s1)"
      and s': "db s' = update_run (lease_run_id l) g (update_job (lease_job_id l) (succeeded_job ?now) (db s1))"
      by (auto simp: complete_job_success_def s0_def utc_now_def modify_db_def ret_def bindM_def
          split: prod.splits sum.splits dest!: tx_InrD)
    have s0: "db s0 = db s" by (simp add: s0_def)
    from store_output_InrD [OF so, unfolded s0] obtain m new
      where m: "x = Some (msg_message_id m)" "message_by_key (env_idempotency_key e) (db s1) = Some m"
        and new: "stage_jobs (db s1) = stage_jobs (db s) @ new"
          "if message_by_key (env_idempotency_key e) (db s) = None
             \<and> (\<forall>j\<in>set (stage_jobs (db s)). \<not> (job_stage j = st \<and> job_message_id j = env_message_id e))
           then \<exists>j. new = [j] \<and> job_state j = Queued \<and> job_stage j = st \<and> job_message_id j = env_message_id e
           else new = []" by blast
    have "stage_jobs (db s') =
        map (\<lambda>j. if job_id j = lease_job_id l then j\<lparr>job_state := Succeeded, job_leased_until := None,
              job_updated_at := ?now, job_last_error := None\<rparr> else j) (stage_jobs (db s) @ new)"
      using s' new(1) by (simp add: update_job_def succeeded_job_def)
    moreover have "message_by_key (env_idempotency_key e) (db s') = Some m" using s' m(2) by simp
    ultimately show ?thesis unfolding eq Inr prod.case sum.case m(1) using new(2) by blast
  qed
qed

section \<open>Failing jobs\<close>

text \<open>
  One round of a worker whose stage raises: it leases the next job of its stage and hands it
  back with the error. \<open>waiting\<close> describes a queue in which the stage has one job, which
  is due, whose message can be read, and whose identifiers are not drawn again.
\<close>

definition failing_round :: "lib \<Rightarrow> queue_section \<Rightarrow> stage_name \<Rightarrow> string \<Rightarrow> string \<Rightarrow> unit op" where
  "failing_round L cfg st w err =
     bindM (queue_lease cfg st w) (\<lambda>l. case l of None \<Rightarrow> ret () | Some l \<Rightarrow> queue_retry L cfg l err)"

fun failing_rounds :: "nat \<Rightarrow> lib \<Rightarrow> queue_section \<Rightarrow> stage_name \<Rightarrow> string \<Rightarrow> string \<Rightarrow> unit op" where
  "failing_rounds 0 L cfg st w err = ret ()"
| "failing_rounds (Suc n) L cfg st w err =
     bindM (failing_round L cfg st w err) (\<lambda>_. failing_rounds n L cfg st w err)"

definition waiting :: "lib \<Rightarrow> queue_section \<Rightarrow> stage_name \<Rightarrow> job_row \<Rightarrow> world \<Rightarrow> bool" where
  "waiting L cfg st j s \<longleftrightarrow>
     conn_open s \<and> distinct (map job_id (stage_jobs (db s))) \<and>
     filter (\<lambda>x. job_stage x = st) (stage_jobs (db s)) = [j] \<and>
     job_state j \<in> {Queued, Retry_Wait} \<and> job_available_at j \<le> clock s (clock_reads s) \<and>
     (\<forall>i. clock s i + seconds (retry_backoff_sec cfg) \<le> clock s (Suc i)) \<and>
     inj (uuid_source s) \<and>
     (\<forall>r\<in>set (stage_runs (db s)). \<forall>i\<ge>uuid_draws s. run_id r \<noteq> uuid_source s i) \<and>
     (\<forall>r\<in>set (dead_letters (db s)). \<forall>i\<ge>uuid_draws s. dl_dead_letter_id r \<noteq> uuid_source s i) \<and>
     (\<exists>m t. find_message (job_message_id j) (db s) = Some m \<and>
        json_loads L (msg_payload_jsonb m) \<noteq> None \<and> find_trace (msg_trace_id m) (db s) = Some t)"

lemma waiting_mem:
  assumes "waiting L cfg st j s"
  shows "j \<in> set (stage_jobs (db s)) \<and> job_stage j = st"
proof -
  from assms have "j \<in> set (filter (\<lambda>x. job_stage x = st) (stage_jobs (db s)))" by (simp add: waiting_def)
  then show ?thesis by simp
qed

lemma update_job_id_ex:
  assumes "\<And>x. job_id (f x) = job_id x"
  shows "(\<exists>r\<in>set (stage_jobs (update_job jid f d)). job_id r = i) \<longleftrightarrow> (\<exists>r\<in>set (stage_jobs d). job_id r = i)"
  using update_job_ids [of f jid d, OF assms] by (metis image_iff)

lemma filter_update_job:
  assumes "\<And>x. job_stage (f x) = job_stage x"
  shows "filter (\<lambda>x. job_stage x = st) (stage_jobs (update_job jid f d)) =
    map (\<lambda>x. if job_id x = jid then f x else x) (filter (\<lambda>x. job_stage x = st) (stage_jobs d))"
  using assms by (induction "stage_jobs d") (auto simp: update_job_def filter_map o_def if_distrib cong: if_cong)

lemma waiting_leases:
  assumes "waiting L cfg st j s"
  shows "queue_lease cfg st w s =
    (Inr (Some (lease_of (uuid_source s (uuid_draws s)) j)), leased_world w (lease_sec cfg) j s)"
proof -
  let ?now = "clock s (clock_reads s)"
  have "filter (ready st ?now) (stage_jobs (db s)) =
      filter (ready st ?now) (filter (\<lambda>x. job_stage x = st) (stage_jobs (db s)))"
    by (auto simp: ready_def intro: filter_cong)
  also have "\<dots> = [j]" using assms waiting_mem [OF assms] by (auto simp: waiting_def ready_def)
  finally have "next_ready st ?now (db s) = Some j" by (simp add: next_ready_def)
  with assms waiting_mem [OF assms] show ?thesis
    by (auto simp: queue_lease_def lease_next_job_def op_defs tx_def insert_row_def leased_world_def
        waiting_def Let_def update_job_id_ex lease_update_def find_message_def)
qed

lemma waiting_fk:
  assumes "waiting L cfg st j s"
  shows "find_message (job_message_id j) (db s) \<noteq> None"
  using assms by (auto simp: waiting_def)

text \<open>A round below the limit leaves the same job waiting again, with one more attempt and one more run.\<close>

lemma complete_job_retry_eq:
  assumes "conn_open s" "int (lease_attempt_count l) < m"
  shows "complete_job_retry L l err delay m s =
    (Inr (), s\<lparr>clock_reads := Suc (clock_reads s),
       db := update_run (lease_run_id l) (failed_run L (clock s (clock_reads s)) Retry_Wait err)
              (update_job (lease_job_id l) (retried_job delay (clock s (clock_reads s)) err) (db s))\<rparr>)"
  using assms by (simp add: complete_job_retry_def op_defs tx_def)

lemma get_message_eq:
  assumes "conn_open s" "find_message i (db s) = Some m" "json_loads L (msg_payload_jsonb m) = Some p"
    "find_trace (msg_trace_id m) (db s) = Some t"
  shows "\<exists>e. get_message L i s = (Inr e, s) \<and> env_payload e = p \<and> env_trace_id e = msg_trace_id m \<and> env_message_id e = msg_message_id m"
  using assms by (simp add: get_message_def source_alert_id_for_trace_def tx_def op_defs)

lemma dead_letter_job_eq:
  assumes "conn_open s" "find_message (lease_message_id l) (db s) = Some m"
    "json_loads L (msg_payload_jsonb m) = Some p" "find_trace (msg_trace_id m) (db s) = Some t"
    "\<forall>r\<in>set (dead_letters (db s)). dl_dead_letter_id r \<noteq> uuid_source s (uuid_draws s)"
    "\<exists>j\<in>set (stage_jobs (db s)). job_id j = lease_job_id l"
  shows "dead_letter_job L l err s =
    (Inr (), s\<lparr>clock_reads := Suc (clock_reads s), uuid_draws := Suc (uuid_draws s),
       db := (update_run (lease_run_id l) (failed_run L (clock s (clock_reads s)) Dead_Letter err)
               (update_job (lease_job_id l) (dead_job (clock s (clock_reads s)) err) (db s)))
              \<lparr>dead_letters := dead_letters (db s) @
                 [dead_letter_of L (uuid_source s (uuid_draws s)) l err p (clock s (clock_reads s))]\<rparr>\<rparr>)"
proof -
  let ?s1 = "s\<lparr>clock_reads := Suc (clock_reads s)\<rparr>"
  obtain e where e: "get_message L (lease_message_id l) ?s1 = (Inr e, ?s1)" "env_payload e = p"
    using get_message_eq [of ?s1 "lease_message_id l" m L p t] assms by auto
  have "\<exists>j\<in>set (stage_jobs (update_job (lease_job_id l) (dead_job (clock s (clock_reads s)) err) (db s))).
      job_id j = lease_job_id l"
    using assms(6) by (simp add: update_job_id_ex dead_job_def)
  with e assms show ?thesis
    by (auto simp: dead_letter_job_def bindM_def utc_now_def tx_def modify_db_def uuid4_def insert_row_def)
qed

lemma run_added:
  assumes "map run_job_id (stage_runs d') = map run_job_id (stage_runs d) @ [i]"
  shows "length (runs_of i d') = Suc (length (runs_of i d))"
proof -
  have "length (filter (\<lambda>x. x = i) (map run_job_id (stage_runs d'))) = Suc (length (filter (\<lambda>x. x = i) (map run_job_id (stage_runs d))))"
    by (simp add: assms)
  then show ?thesis by (simp add: runs_of_def filter_map o_def)
qed

text \<open>A run drawn from the identifiers leaves the later identifiers unused.\<close>

lemma waiting_fresh:
  assumes w: "waiting L cfg st j s" and d: "map run_id (stage_runs d) = map run_id (stage_runs (db s)) @ [uuid_source s (uuid_draws s)]"
    and r: "r \<in> set (stage_runs d)" and i: "i \<ge> Suc (uuid_draws s)"
  shows "run_id r \<noteq> uuid_source s i"
proof -
  from arg_cong [OF d, of set] r have "run_id r = uuid_source s (uuid_draws s) \<or> run_id r \<in> run_id ` set (stage_runs (db s))"
    by auto
  then show ?thesis
  proof
    assume "run_id r = uuid_source s (uuid_draws s)"
    with w i show ?thesis by (auto simp: waiting_def dest: injD)
  next
    assume "run_id r \<in> run_id ` set (stage_runs (db s))"
    moreover from w have "\<forall>x\<in>set (stage_runs (db s)). \<forall>i\<ge>uuid_draws s. run_id x \<noteq> uuid_source s i"
      by (simp add: waiting_def)
    ultimately show ?thesis using i by (metis Suc_leD imageE)
  qed
qed

lemma failing_round_retry:
  assumes w: "waiting L cfg st j s" and lt: "int (Suc (job_attempt_count j)) < max_attempts cfg"
  shows "\<exists>s' j'. failing_round L cfg st w err s = (Inr (), s') \<and> waiting L cfg st j' s' \<and>
    job_id j' = job_id j \<and> job_message_id j' = job_message_id j \<and> job_state j' = Retry_Wait \<and>
    job_attempt_count j' = Suc (job_attempt_count j) \<and>
    stage_messages (db s') = stage_messages (db s) \<and> outcome_observations (db s') = outcome_observations (db s) \<and>
    length (runs_of (job_id j) (db s')) = Suc (length (runs_of (job_id j) (db s))) \<and>
    dead_letters (db s') = dead_letters (db s)"
proof -
  let ?now = "clock s (Suc (clock_reads s))" and ?rid = "uuid_source s (uuid_draws s)"
  let ?s1 = "leased_world w (lease_sec cfg) j s" and ?l = "lease_of ?rid j"
  let ?g = "failed_run L ?now Retry_Wait err" and ?h = "retried_job (retry_backoff_sec cfg) ?now err"
  define s' where "s' = ?s1\<lparr>clock_reads := Suc (Suc (clock_reads s)),
      db := update_run ?rid ?g (update_job (job_id j) ?h (db ?s1))\<rparr>"
  define f where "f = lease_update j (clock s (clock_reads s) + seconds (lease_sec cfg)) w (clock s (clock_reads s))"
  have same: "job_id (f x) = job_id x" "job_stage (f x) = job_stage x"
    "job_message_id (f x) = job_message_id x"
    "job_id (?h x) = job_id x" "job_stage (?h x) = job_stage x" "job_message_id (?h x) = job_message_id x" for x
    by (simp_all add: f_def lease_update_def retried_job_def)
  have jobs: "stage_jobs (db s') = stage_jobs (update_job (job_id j) ?h (update_job (job_id j) f (db s)))"
    by (simp add: s'_def leased_world_def f_def Let_def update_job_def)
  have runs: "stage_runs (db s') = map (\<lambda>r. if run_id r = ?rid then ?g r else r)
      (stage_runs (db s) @ [started_run ?rid j (clock s (clock_reads s))])"
    by (simp add: s'_def leased_world_def Let_def update_run_def update_job_def)
  have tables: "stage_messages (db s') = stage_messages (db s)" "outcome_observations (db s') = outcome_observations (db s)"
    by (simp_all add: s'_def leased_world_def Let_def)
  have other: "dead_letters (db s') = dead_letters (db s)" "find_message i (db s') = find_message i (db s)"
    "find_trace i (db s') = find_trace i (db s)" for i
    by (simp_all add: s'_def leased_world_def Let_def update_run_def update_job_def find_message_def find_trace_def)
  have env: "clock s' = clock s" "clock_reads s' = Suc (Suc (clock_reads s))" "uuid_source s' = uuid_source s"
    "uuid_draws s' = Suc (uuid_draws s)" "conn_open s' = conn_open s"
    by (simp_all add: s'_def leased_world_def Let_def)
  have c1: "conn_open ?s1" using w by (simp add: waiting_def leased_world_def Let_def)
  have run: "failing_round L cfg st w err s = (Inr (), s')"
    using waiting_leases [OF w, of w] complete_job_retry_eq [OF c1, of ?l "max_attempts cfg" L err "retry_backoff_sec cfg"] lt
    by (simp add: failing_round_def bindM_def queue_retry_def lease_of_def s'_def leased_world_def Let_def)
  let ?j = "?h (f j)"
  have one: "filter (\<lambda>x. job_stage x = st) (stage_jobs (db s')) = [?j]"
    using w unfolding jobs by (simp add: filter_update_job same waiting_def)
  have ids: "map job_id (stage_jobs (db s')) = map job_id (stage_jobs (db s))"
    unfolding jobs using same by (simp add: update_job_def)
  have "map run_id (stage_runs (db s')) = map run_id (stage_runs (db s)) @ [?rid]"
    unfolding runs by (simp add: failed_run_def started_run_def)
  note fresh = waiting_fresh [OF w this]
  have av: "job_available_at ?j \<le> clock s (Suc (Suc (clock_reads s)))"
    using w by (simp add: waiting_def retried_job_def)
  have w': "waiting L cfg st ?j s'"
    using w av one ids unfolding waiting_def env other
    by (auto simp: same retried_job_def fresh)
  have "length (runs_of (job_id j) (db s')) = Suc (length (runs_of (job_id j) (db s)))"
    by (rule run_added) (unfold runs, simp add: failed_run_def started_run_def)
  moreover have "job_attempt_count ?j = Suc (job_attempt_count j)" "job_state ?j = Retry_Wait" "job_id ?j = job_id j" "job_message_id ?j = job_message_id j"
    by (simp_all add: f_def retried_job_def lease_update_def)
  ultimately show ?thesis using run w' other(1) tables by blast
qed

text \<open>The round that reaches the limit moves the job to \<open>dead_letter\<close> and records why.\<close>

lemma failing_round_last:
  assumes w: "waiting L cfg st j s" and ge: "int (Suc (job_attempt_count j)) \<ge> max_attempts cfg"
  shows "\<exists>s' j'. failing_round L cfg st w err s = (Inr (), s') \<and> j' \<in> set (stage_jobs (db s')) \<and>
    job_id j' = job_id j \<and> job_state j' = Dead_Letter \<and>
    job_attempt_count j' = Suc (job_attempt_count j) \<and>
    outcome_observations (db s') = outcome_observations (db s) \<and>
    length (runs_of (job_id j) (db s')) = Suc (length (runs_of (job_id j) (db s))) \<and>
    map (\<lambda>d. (dl_job_id d, dl_reason d)) (dead_letters (db s')) =
      map (\<lambda>d. (dl_job_id d, dl_reason d)) (dead_letters (db s)) @ [(job_id j, err)]"
proof -
  let ?now = "clock s (Suc (clock_reads s))" and ?rid = "uuid_source s (uuid_draws s)"
  let ?s1 = "leased_world w (lease_sec cfg) j s" and ?l = "lease_of ?rid j"
  let ?g = "failed_run L ?now Dead_Letter err" and ?h = "dead_job ?now err"
  define f where "f = lease_update j (clock s (clock_reads s) + seconds (lease_sec cfg)) w (clock s (clock_reads s))"
  obtain m p t where m: "find_message (job_message_id j) (db s) = Some m"
      "json_loads L (msg_payload_jsonb m) = Some p" "find_trace (msg_trace_id m) (db s) = Some t"
    using w by (auto simp: waiting_def)
  have s1: "conn_open ?s1" "clock ?s1 = clock s" "clock_reads ?s1 = Suc (clock_reads s)"
    "uuid_source ?s1 = uuid_source s" "uuid_draws ?s1 = Suc (uuid_draws s)"
    "stage_jobs (db ?s1) = stage_jobs (update_job (job_id j) f (db s))"
    "stage_runs (db ?s1) = stage_runs (db s) @ [started_run ?rid j (clock s (clock_reads s))]"
    "dead_letters (db ?s1) = dead_letters (db s)" "find_message i (db ?s1) = find_message i (db s)"
    "find_trace i (db ?s1) = find_trace i (db s)" for i
    using w by (simp_all add: leased_world_def Let_def waiting_def f_def find_message_def find_trace_def update_job_def)
  have jin: "j \<in> set (stage_jobs (db s))" using waiting_mem [OF w] by simp
  have ex: "\<exists>x\<in>set (stage_jobs (db ?s1)). job_id x = job_id j"
    using jin unfolding s1(6) by (auto simp: update_job_id_ex f_def lease_update_def)
  have fr: "\<forall>r\<in>set (dead_letters (db ?s1)). dl_dead_letter_id r \<noteq> uuid_source ?s1 (uuid_draws ?s1)"
    using w unfolding s1 by (simp add: waiting_def)
  define s' where "s' = ?s1\<lparr>clock_reads := Suc (Suc (clock_reads s)), uuid_draws := Suc (Suc (uuid_draws s)),
      db := (update_run ?rid ?g (update_job (job_id j) ?h (db ?s1)))
        \<lparr>dead_letters := dead_letters (db s) @ [dead_letter_of L (uuid_source s (Suc (uuid_draws s))) ?l err p ?now]\<rparr>\<rparr>"
  have l: "lease_message_id ?l = job_message_id j" "lease_job_id ?l = job_id j" "lease_run_id ?l = ?rid"
    "lease_attempt_count ?l = Suc (job_attempt_count j)" by (simp_all add: lease_of_def)
  have "dead_letter_job L ?l err ?s1 = (Inr (), s')"
    using dead_letter_job_eq [of ?s1 ?l m L p t err] s1 m fr ex by (simp add: l s'_def)
  then have run: "failing_round L cfg st w err s = (Inr (), s')"
    using waiting_leases [OF w, of w] ge
    by (simp add: failing_round_def bindM_def queue_retry_def complete_job_retry_def l)
  have "?h (f j) \<in> set (stage_jobs (db s'))"
  proof -
    have "f j \<in> set (stage_jobs (db ?s1))"
      unfolding s1(6) update_job_mem using jin by (intro bexI [of _ j]) simp_all
    moreover have "job_id (f j) = job_id j" by (simp add: f_def lease_update_def)
    ultimately have "?h (f j) \<in> set (stage_jobs (update_job (job_id j) ?h (db ?s1)))"
      unfolding update_job_mem by (intro bexI [of _ "f j"]) simp_all
    then show ?thesis by (simp add: s'_def update_run_def)
  qed
  moreover have "length (runs_of (job_id j) (db s')) = Suc (length (runs_of (job_id j) (db s)))"
    by (rule run_added) (simp add: s'_def update_run_def s1 failed_run_def started_run_def)
  moreover have "map (\<lambda>d. (dl_job_id d, dl_reason d)) (dead_letters (db s')) =
      map (\<lambda>d. (dl_job_id d, dl_reason d)) (dead_letters (db s)) @ [(job_id j, err)]"
    by (simp add: s'_def dead_letter_of_def l)
  moreover have "outcome_observations (db s') = outcome_observations (db s)"
    by (simp add: s'_def leased_world_def Let_def)
  moreover have "job_attempt_count (?h (f j)) = Suc (job_attempt_count j)" "job_state (?h (f j)) = Dead_Letter"
    "job_id (?h (f j)) = job_id j"
    by (simp_all add: f_def dead_job_def lease_update_def)
  ultimately show ?thesis using run by blast
qed


section \<open>Evaluated examples\<close>

lemma demo_waiting: "waiting demo_lib demo_queue RESEARCH (demo_job RESEARCH) (demo_world (demo_db RESEARCH))"
  using demo_uuid_inj by (simp add: waiting_def demo_defs find_message_def find_trace_def minutes_def seconds_def)

lemma demo_lease:
  "lease_next_job RESEARCH ''w'' 60 (demo_world (demo_db RESEARCH)) =
     (Inr (Some (lease_of ''u'' (demo_job RESEARCH))),
      leased_world ''w'' 60 (demo_job RESEARCH) (demo_world (demo_db RESEARCH)))"
  using waiting_leases [OF demo_waiting, of "''w''"] by (simp add: queue_lease_def demo_defs)

lemma demo_upsert:
  "upsert_message demo_lib demo_envelope (demo_world (demo_db RESEARCH)) =
     (Inr (''m2'', True), (demo_world (demo_db RESEARCH))
        \<lparr>db := (demo_db RESEARCH)\<lparr>stage_messages := [demo_message, message_of demo_lib demo_envelope]\<rparr>\<rparr>)"
  by (simp add: demo_defs upsert_message_def tx_def upsert_message_conn_def op_defs message_by_key_def
      insert_row_def message_of_def)

theorem lease_next_job_correct_witness:
  "\<exists>j \<in> set (stage_jobs (demo_db RESEARCH)). job_stage j = RESEARCH \<and> job_available_at j \<le> 0 \<and>
     lease_job_id (lease_of ''u'' (demo_job RESEARCH)) = job_id j"
  using lease_next_job_correct [OF demo_lease] by (auto simp: demo_world_def Let_def minutes_def seconds_def)

theorem stale_lease_not_reclaimed_witness:
  "lease_update (demo_job RESEARCH) (minutes 1) ''w'' 0 (demo_job RESEARCH)
     \<in> set (stage_jobs (db (lease_calls [(RESEARCH, ''v'', 60), (RESEARCH, ''v'', 60)]
          (leased_world ''w'' 60 (demo_job RESEARCH) (demo_world (demo_db RESEARCH))))))"
  by (rule stale_lease_not_reclaimed)
    (simp_all add: demo_defs leased_world_def Let_def update_job_def lease_update_def minutes_def seconds_def)

theorem upsert_message_idempotent_witness:
  "fst (upsert_message demo_lib (demo_envelope\<lparr>env_message_id := ''m9''\<rparr>)
     (snd (upsert_message demo_lib demo_envelope (demo_world (demo_db RESEARCH))))) = Inr (''m2'', False)"
  using upsert_message_idempotent [OF demo_upsert, of "demo_envelope\<lparr>env_message_id := ''m9''\<rparr>"]
  by (simp add: demo_upsert)

lemma demo_complete:
  "fst (complete_job_success demo_lib (lease_of ''u'' (demo_job RESEARCH)) (Some demo_envelope) None (Some ANALYSIS) 100
     None ''ok'' (demo_world (demo_db RESEARCH))) = Inr (Some ''m2'')"
  by (simp add: complete_job_success_def store_output_def upsert_message_conn_def enqueue_job_conn_def Let_def
      demo_defs tx_def op_defs message_by_key_def insert_row_def message_of_def lease_of_def update_trace_def)

theorem complete_job_success_correct_witness:
  "\<exists>s' j. complete_job_success demo_lib (lease_of ''u'' (demo_job RESEARCH)) (Some demo_envelope) None (Some ANALYSIS) 100
     None ''ok'' (demo_world (demo_db RESEARCH)) = (Inr (Some ''m2''), s') \<and>
     job_state j = Queued \<and> job_stage j = ANALYSIS \<and> job_message_id j = ''m2'' \<and>
     stage_jobs (db s') = map (\<lambda>j. if job_id j = ''j1'' then j\<lparr>job_state := Succeeded, job_leased_until := None,
       job_updated_at := 0, job_last_error := None\<rparr> else j) [demo_job RESEARCH, j]"
proof -
  obtain s' where s': "complete_job_success demo_lib (lease_of ''u'' (demo_job RESEARCH)) (Some demo_envelope) None
      (Some ANALYSIS) 100 None ''ok'' (demo_world (demo_db RESEARCH)) = (Inr (Some ''m2''), s')"
    using demo_complete by (metis prod.collapse)
  from complete_job_success_correct [where L = demo_lib and l = "lease_of ''u'' (demo_job RESEARCH)"
      and e = demo_envelope and au = None and st = ANALYSIS and p = 100 and av = None and status = "''ok''"
      and s = "demo_world (demo_db RESEARCH)"] s'
  show ?thesis by (fastforce simp: demo_defs message_by_key_def lease_of_def minutes_def seconds_def)
qed


end
