(* ===== verification/Executor_Risk.thy ===== *)
theory Executor_Risk
  imports Python_Numbers Pipeline_Queue
begin

text \<open>
  The executor's deterministic risk checks: \<open>RiskEngine.evaluate\<close>
  (\<open>src/src/executor/risk/limits.py\<close>) and \<open>CircuitBreakerState\<close>
  (\<open>src/src/executor/risk/circuit_breaker.py\<close>), with the limits they enforce stated on the
  portfolio that the trade would leave behind.
\<close>

section \<open>Circuit breaker\<close>

record circuit_breaker_state =
  daily_drawdown_pct :: rat
  consecutive_losses :: int
  cooldown_until :: "timestamp option"

definition breaker_default :: circuit_breaker_state where
  "breaker_default = \<lparr>daily_drawdown_pct = 0, consecutive_losses = 0, cooldown_until = None\<rparr>"

definition is_halted :: "circuit_breaker_state \<Rightarrow> timestamp \<Rightarrow> rat \<Rightarrow> int \<Rightarrow> bool" where
  "is_halted b now drawdown_limit loss_limit =
     (if (case cooldown_until b of None \<Rightarrow> False | Some t \<Rightarrow> now < t) then True
      else if daily_drawdown_pct b \<ge> drawdown_limit then True
      else if consecutive_losses b \<ge> loss_limit then True
      else False)"

section \<open>Risk engine\<close>

definition check :: "string \<Rightarrow> bool \<Rightarrow> string \<Rightarrow> string \<Rightarrow> string \<Rightarrow> string \<Rightarrow> risk_check_result" where
  "check name passed measured threshold yes no =
     \<lparr>check_name = name, check_passed = passed, check_measured_value = measured,
      check_threshold = threshold, check_reason = (if passed then yes else no)\<rparr>"

definition last_price_of :: "trade_candidate \<Rightarrow> rat option" where
  "last_price_of c = decimal_of_json (jor (jget (market_snapshot c) ''last_price'') (JStr ''0''))"

definition sector_of :: "lib \<Rightarrow> trade_candidate \<Rightarrow> string" where
  "sector_of L c = py_str (py_repr L) (jor (jget (market_snapshot c) ''sector'') (JStr ''unknown''))"

definition quote_age_of :: "trade_candidate \<Rightarrow> int option" where
  "quote_age_of c = int_of_json (jor (jget (market_snapshot c) ''quote_age_sec'') (JInt 0))"

definition sector_exposure_of :: "portfolio_snapshot \<Rightarrow> string \<Rightarrow> rat" where
  "sector_exposure_of p sector = (case dict_get (sector_exposure p) sector of None \<Rightarrow> 0 | Some x \<Rightarrow> x)"

definition risk_checks ::
  "lib \<Rightarrow> executor_section \<Rightarrow> trade_candidate \<Rightarrow> portfolio_snapshot \<Rightarrow> circuit_breaker_state
    \<Rightarrow> timestamp \<Rightarrow> rat \<Rightarrow> int \<Rightarrow> risk_check_result list" where
  "risk_checks L cfg c p b now last_price quote_age_sec =
     (let exposure = sector_exposure_of p (sector_of L c);
          halted = is_halted b now (max_daily_drawdown_pct cfg) (consecutive_loss_limit cfg) in
      [check ''candidate_eligible'' (broker_eligible c)
         (if broker_eligible c then ''true'' else ''false'') ''true''
         ''Candidate is broker eligible.'' ''Candidate is not broker eligible.'',
       check ''candidate_not_expired'' (expiry_at c > now) (iso_time L (expiry_at c)) ''future''
         ''Candidate is still inside execution window.'' ''Candidate expired before execution.'',
       check ''quote_freshness'' (quote_age_sec \<le> stale_quote_sec cfg)
         (str_int quote_age_sec) (str_int (stale_quote_sec cfg))
         ''Quote freshness passes.'' ''Quote is stale.'',
       check ''max_position_pct'' (max_notional c \<le> equity p * max_position_pct cfg)
         (str_decimal L (max_notional c)) (str_decimal L (equity p * max_position_pct cfg))
         ''Candidate fits max position sizing.'' ''Candidate breaches max position sizing.'',
       check ''cash_available'' (max_notional c \<le> cash p)
         (str_decimal L (max_notional c)) (str_decimal L (cash p))
         ''Cash is available.'' ''Not enough cash for the proposed notional.'',
       check ''max_gross_invested''
         (gross_exposure p + max_notional c \<le> equity p * max_gross_invested_pct cfg)
         (str_decimal L (gross_exposure p + max_notional c))
         (str_decimal L (equity p * max_gross_invested_pct cfg))
         ''Gross exposure stays inside limit.'' ''Gross exposure would exceed limit.'',
       check ''max_sector_exposure''
         (exposure + max_notional c \<le> equity p * max_sector_exposure_pct cfg)
         (str_decimal L (exposure + max_notional c))
         (str_decimal L (equity p * max_sector_exposure_pct cfg))
         ''Sector exposure stays inside limit.'' ''Sector exposure would exceed limit.'',
       check ''circuit_breaker'' (\<not> halted)
         (''drawdown='' @ str_float L (daily_drawdown_pct b) @ '',losses='' @ str_int (consecutive_losses b))
         (''drawdown<'' @ str_float L (max_daily_drawdown_pct cfg) @ '',losses<'' @ str_int (consecutive_loss_limit cfg))
         ''Circuit breaker is open.'' ''Circuit breaker is active.'',
       check ''positive_price'' (last_price > 0) (str_decimal L last_price) ''>0''
         ''Last price is positive.'' ''Candidate lacks a valid market price.''])"

definition risk_evaluate ::
  "lib \<Rightarrow> executor_section \<Rightarrow> trade_candidate \<Rightarrow> portfolio_snapshot \<Rightarrow> circuit_breaker_state
    \<Rightarrow> risk_check_result list op" where
  "risk_evaluate L cfg c p b =
     bindM utc_now (\<lambda>now.
     bindM (from_option (OtherError ''[<class 'decimal.ConversionSyntax'>]'') (last_price_of c)) (\<lambda>last_price.
     bindM (from_option (ValueError ''invalid literal for int() with base 10'') (quote_age_of c)) (\<lambda>quote_age_sec.
     ret (risk_checks L cfg c p b now last_price quote_age_sec))))"

section \<open>What the checks promise\<close>

text \<open>The portfolio after the candidate's whole notional is bought.\<close>

definition buy :: "lib \<Rightarrow> trade_candidate \<Rightarrow> portfolio_snapshot \<Rightarrow> portfolio_snapshot" where
  "buy L c p = p\<lparr>cash := cash p - max_notional c,
     gross_exposure := gross_exposure p + max_notional c,
     sector_exposure := dict_set (sector_of L c)
       (sector_exposure_of p (sector_of L c) + max_notional c) (sector_exposure p)\<rparr>"

definition within_limits :: "executor_section \<Rightarrow> string \<Rightarrow> portfolio_snapshot \<Rightarrow> bool" where
  "within_limits cfg sector p \<longleftrightarrow>
     0 \<le> cash p \<and> gross_exposure p \<le> equity p * max_gross_invested_pct cfg \<and>
     sector_exposure_of p sector \<le> equity p * max_sector_exposure_pct cfg"

definition risk_ok ::
  "lib \<Rightarrow> executor_section \<Rightarrow> timestamp \<Rightarrow> trade_candidate \<Rightarrow> portfolio_snapshot \<Rightarrow> circuit_breaker_state \<Rightarrow> bool" where
  "risk_ok L cfg now c p b \<longleftrightarrow>
     broker_eligible c \<and> now < expiry_at c \<and>
     (\<exists>age. quote_age_of c = Some age \<and> age \<le> stale_quote_sec cfg) \<and>
     (\<exists>price. last_price_of c = Some price \<and> 0 < price) \<and>
     max_notional c \<le> equity p * max_position_pct cfg \<and>
     within_limits cfg (sector_of L c) (buy L c p) \<and>
     daily_drawdown_pct b < max_daily_drawdown_pct cfg \<and>
     consecutive_losses b < consecutive_loss_limit cfg \<and>
     (\<forall>t. cooldown_until b = Some t \<longrightarrow> t \<le> now)"

lemma is_halted_iff:
  "is_halted b now dl ll \<longleftrightarrow>
     (\<exists>t. cooldown_until b = Some t \<and> now < t) \<or> dl \<le> daily_drawdown_pct b \<or> ll \<le> consecutive_losses b"
  by (auto simp: is_halted_def split: option.splits)

lemma check_passed_check [simp]: "check_passed (check n b m t y r) = b"
  by (simp add: check_def)

lemma risk_checks_passed:
  assumes "last_price_of c = Some price" "quote_age_of c = Some age"
  shows "list_all check_passed (risk_checks L cfg c p b now price age) \<longleftrightarrow> risk_ok L cfg now c p b"
  using assms
  by (auto simp: risk_checks_def Let_def risk_ok_def within_limits_def buy_def is_halted_iff not_less
      sector_exposure_of_def not_le)

lemma risk_checks_length: "length (risk_checks L cfg c p b now price age) = 9"
  by (simp add: risk_checks_def Let_def)


end
