(* ===== verification/Worker_Rules.thy ===== *)
theory Worker_Rules
  imports Pipeline_Queue
begin

text \<open>
  Proof rules for the stages' workers: triples over the state-and-exception operations with one
  postcondition for returning and one for raising, and what every operation of
  \<open>PipelineDB\<close> leaves alone outside the tables (the sources of time and identifiers, the
  connection, the calls made to the broker).
\<close>

section \<open>Triples\<close>

definition hoare :: "(world \<Rightarrow> bool) \<Rightarrow> 'a op \<Rightarrow> ('a \<Rightarrow> world \<Rightarrow> bool) \<Rightarrow> (py_error \<Rightarrow> world \<Rightarrow> bool) \<Rightarrow> bool" where
  "hoare P m Q E \<longleftrightarrow> (\<forall>s. P s \<longrightarrow> (case m s of (Inl e, s') \<Rightarrow> E e s' | (Inr x, s') \<Rightarrow> Q x s'))"

named_theorems triples \<open>triples of operations\<close>

lemma hoareI:
  "(\<And>s e s'. P s \<Longrightarrow> m s = (Inl e, s') \<Longrightarrow> E e s') \<Longrightarrow> (\<And>s x s'. P s \<Longrightarrow> m s = (Inr x, s') \<Longrightarrow> Q x s') \<Longrightarrow>
   hoare P m Q E"
  by (auto simp: hoare_def split: prod.split sum.split)

lemma hoare_InrD: "hoare P m Q E \<Longrightarrow> P s \<Longrightarrow> m s = (Inr x, s') \<Longrightarrow> Q x s'"
  by (fastforce simp: hoare_def)

lemma hoare_InlD: "hoare P m Q E \<Longrightarrow> P s \<Longrightarrow> m s = (Inl e, s') \<Longrightarrow> E e s'"
  by (fastforce simp: hoare_def)

lemma hoare_bindM:
  assumes "hoare P m Q E" and "\<And>x. hoare (Q x) (f x) R E"
  shows "hoare P (bindM m f) R E"
  using assms by (fastforce simp: hoare_def bindM_def split: prod.splits sum.splits)

lemma hoare_tryM:
  assumes "hoare P m Q F" and "\<And>e. hoare (F e) (h e) Q E"
  shows "hoare P (tryM m h) Q E"
  using assms by (fastforce simp: hoare_def tryM_def split: prod.splits sum.splits)

lemma hoare_ret: "(\<And>s. P s \<Longrightarrow> Q x s) \<Longrightarrow> hoare P (ret x) Q E"
  by (simp add: hoare_def ret_def)

lemma hoare_raise: "(\<And>s. P s \<Longrightarrow> E e s) \<Longrightarrow> hoare P (raise e) Q E"
  by (simp add: hoare_def raise_def)

lemma hoare_asks: "(\<And>s. P s \<Longrightarrow> Q (f s) s) \<Longrightarrow> hoare P (asks f) Q E"
  by (simp add: hoare_def asks_def)

lemma hoare_from_option:
  "(\<And>s. x = None \<Longrightarrow> P s \<Longrightarrow> E e s) \<Longrightarrow> (\<And>v s. x = Some v \<Longrightarrow> P s \<Longrightarrow> Q v s) \<Longrightarrow> hoare P (from_option e x) Q E"
  by (cases x) (simp_all add: hoare_def op_defs)

lemma hoare_conseq:
  assumes "hoare P m Q E" and "\<And>s. P' s \<Longrightarrow> P s"
    and "\<And>x s. Q x s \<Longrightarrow> Q' x s" and "\<And>e s. E e s \<Longrightarrow> E' e s"
  shows "hoare P' m Q' E'"
  using assms by (fastforce simp: hoare_def split: prod.splits sum.splits)

lemma hoare_pre: "hoare P m Q E \<Longrightarrow> (\<And>s. P' s \<Longrightarrow> P s) \<Longrightarrow> hoare P' m Q E"
  by (rule hoare_conseq)

lemma hoare_pure: "(b \<Longrightarrow> hoare P m Q E) \<Longrightarrow> hoare (\<lambda>s. P s \<and> b) m Q E"
  by (auto simp: hoare_def)

lemma hoare_preserves: "preserves P m \<Longrightarrow> hoare P m (\<lambda>_. P) (\<lambda>_. P)"
  by (fastforce simp: hoare_def preserves_def split: prod.splits sum.splits)

lemma hoare_keep: "preserves P m \<Longrightarrow> (\<And>s. P s \<Longrightarrow> R s) \<Longrightarrow> hoare P m (\<lambda>_ s. P s) (\<lambda>_ s. R s)"
  by (rule hoare_conseq [OF hoare_preserves])

lemma preserves_conj: "preserves P m \<Longrightarrow> preserves Q m \<Longrightarrow> preserves (\<lambda>s. P s \<and> Q s) m"
  by (simp add: preserves_def)

section \<open>What the database operations leave alone\<close>

definition env_of ::
  "world \<Rightarrow> (nat \<Rightarrow> timestamp) \<times> (nat \<Rightarrow> uuid) \<times> (nat \<Rightarrow> string) \<times> (nat \<Rightarrow> rat) \<times> dialect \<times> bool
     \<times> (trade_intent \<times> string) list" where
  "env_of s = (clock s, uuid_source s, token_source s, perf_source s, dialect s, conn_open s, broker_calls s)"

definition framed :: "'a op \<Rightarrow> bool" where
  "framed m \<longleftrightarrow> (\<forall>s. env_of (snd (m s)) = env_of s)"

lemma framed_iff: "framed m \<longleftrightarrow> (\<forall>e. preserves (\<lambda>s. env_of s = e) m)"
  unfolding framed_def preserves_def by metis

lemma framedD: "framed m \<Longrightarrow> m s = (r, s') \<Longrightarrow> env_of s' = env_of s"
  by (metis framed_def snd_conv)

lemma framed_preserves:
  assumes "framed m" and "\<And>s s'. env_of s = env_of s' \<Longrightarrow> P s = P s'"
  shows "preserves P m"
  using assms by (metis framed_def preserves_def)

lemma framed_basic [frame, intro!]:
  "framed (ret x)" "framed (raise e)" "framed (asks f)" "framed (modify_db g)"
  "framed utc_now" "framed uuid4" "framed token_urlsafe" "framed perf_counter"
  by (simp_all add: framed_def op_defs env_of_def)

lemma framed_from_option [frame, intro!]: "framed (from_option e y)"
  by (cases y) (simp_all add: framed_def op_defs)

lemma framed_insert_row [frame, intro!]: "framed (insert_row u fk h)"
  by (simp add: framed_def insert_row_def env_of_def)

lemma framed_bindM [frame]: "framed m \<Longrightarrow> (\<And>x. framed (f x)) \<Longrightarrow> framed (bindM m f)"
  unfolding framed_iff by (blast intro: preserves_bindM)

lemma framed_tryM [frame]: "framed m \<Longrightarrow> (\<And>x. framed (h x)) \<Longrightarrow> framed (tryM m h)"
  unfolding framed_iff by (blast intro: preserves_tryM)

lemma framed_tx [frame]:
  assumes "framed m"
  shows "framed (tx m)"
  unfolding framed_def
proof
  fix s
  obtain r s' where m: "m s = (r, s')" by fastforce
  with assms have "env_of s' = env_of s" by (rule framedD)
  with m show "env_of (snd (tx m s)) = env_of s"
    by (cases r) (simp_all add: tx_def env_of_def)
qed

lemma framed_forM [frame]: "(\<And>x. framed (f x)) \<Longrightarrow> framed (forM xs f)"
  unfolding framed_iff by (blast intro: preserves_forM)

lemma framed_cases [frame]:
  "(b \<Longrightarrow> framed m) \<Longrightarrow> (\<not> b \<Longrightarrow> framed n) \<Longrightarrow> framed (if b then m else n)"
  "framed m \<Longrightarrow> (\<And>z. framed (f z)) \<Longrightarrow> framed (case y of None \<Rightarrow> m | Some z \<Rightarrow> f z)"
  "(\<And>a c. framed (g a c)) \<Longrightarrow> framed (case p of (a, c) \<Rightarrow> g a c)"
  by (auto split: option.split prod.split)

lemma framed_get_message: "framed (get_message L m)"
  unfolding get_message_def source_alert_id_for_trace_def by (intro frame framed_basic framed_from_option framed_insert_row)

lemma framed_new_envelope: "framed (new_envelope a b c d e f g)"
  unfolding new_envelope_def by (intro frame framed_basic framed_from_option framed_insert_row)

lemma framed_upsert_conn: "framed (upsert_message_conn L e)"
  unfolding upsert_message_conn_def by (intro frame framed_basic framed_from_option framed_insert_row)

lemma framed_enqueue_conn: "framed (enqueue_job_conn a b c d e)"
  unfolding enqueue_job_conn_def Let_def by (intro frame framed_basic framed_from_option framed_insert_row)

lemma framed_queue:
  "framed (ensure_trace a b c d st f)" "framed (upsert_message L e)" "framed (enqueue_job t st m p av)"
  "framed (lease_next_job st w n)"
  unfolding ensure_trace_def upsert_message_def enqueue_job_def lease_next_job_def Let_def
  by (intro frame framed_basic framed_upsert_conn framed_enqueue_conn)+

lemma framed_complete_job_success: "framed (complete_job_success L l oe au ns np na ts)"
  unfolding complete_job_success_def store_output_def
  by (intro frame framed_basic framed_upsert_conn framed_enqueue_conn)

lemma framed_dead_letter_job: "framed (dead_letter_job L l r)"
  unfolding dead_letter_job_def by (intro frame framed_basic framed_get_message)

lemma framed_complete_job_retry: "framed (complete_job_retry L l e d m)"
  unfolding complete_job_retry_def by (intro frame framed_basic framed_dead_letter_job)

lemma framed_records:
  "framed (save_research_evidence m es)" "framed (save_analysis_candidates m cs rs)" "framed (save_portfolio_snapshot p)"
  "framed (create_approval_request a b c d e f)" "framed (get_approval_request_by_message m)"
  "framed (decide_approval a b c g)" "framed (get_broker_order_by_client_order_id c)" "framed (save_broker_order r)"
  "framed (save_outcome_observation ob)" "framed (list_outcome_observations t)"
  "framed (update_outcome_observation oid t' x y z lb)"
  unfolding save_research_evidence_def save_analysis_candidates_def insert_candidate_def save_portfolio_snapshot_def
    create_approval_request_def get_approval_request_by_message_def decide_approval_def
    get_broker_order_by_client_order_id_def save_broker_order_def save_outcome_observation_def
    list_outcome_observations_def update_outcome_observation_def
  by (intro frame framed_basic framed_from_option framed_insert_row)+

lemma framed_approval: "framed (approval_request_op a b c d e)" "framed (decide_with w x y z)"
  unfolding approval_request_op_def decide_with_def Let_def
  by (intro frame framed_basic framed_records)+

lemmas framed_ops = framed_get_message framed_new_envelope framed_queue framed_complete_job_success
  framed_dead_letter_job framed_complete_job_retry framed_records framed_approval

section \<open>Operations that leave the tables alone\<close>

lemma get_message_db: "db (snd (get_message L m s)) = db s"
  by (auto simp: get_message_def source_alert_id_for_trace_def tx_def op_defs split: option.splits prod.splits)

lemma new_envelope_db: "db (snd (new_envelope a b c d e f g s)) = db s"
  by (simp add: new_envelope_def op_defs)

lemma read_db:
  "db (snd (get_broker_order_by_client_order_id c s)) = db s"
  "db (snd (list_outcome_observations t s)) = db s"
  "db (snd (get_approval_request_by_message m s)) = db s"
  by (simp_all add: get_broker_order_by_client_order_id_def list_outcome_observations_def
      get_approval_request_by_message_def tx_def op_defs)

lemma same_db_preserves: "(\<And>s. db (snd (m s)) = db s) \<Longrightarrow> preserves (\<lambda>s. I (db s)) m"
  by (simp add: preserves_def)

end
