(* ===== verification/Outcomes.thy ===== *)
theory Outcomes
  imports Worker_Rules
begin

text \<open>
  Outcome tracking (\<open>src/src/pipeline/outcomes.py\<close>, \<open>src/src/outcome/pricing.py\<close>):
  the observations scheduled for a submitted order, the classification of an observed price,
  and the static price provider.
\<close>

definition scheduled :: "uuid \<Rightarrow> string \<Rightarrow> rat \<Rightarrow> outcome_horizon \<Rightarrow> timestamp \<Rightarrow> outcome_observation" where
  "scheduled trace_id symbol entry_price h due =
     \<lparr>oo_trace_id = trace_id, oo_symbol = symbol, oo_horizon = h, oo_scheduled_for = due,
      oo_observed_at = None, oo_entry_price = entry_price, oo_exit_price = None,
      oo_return_pct = None, oo_benchmark_return_pct = None, oo_label = None\<rparr>"

definition schedule_default_outcomes ::
  "uuid \<Rightarrow> string \<Rightarrow> rat \<Rightarrow> timestamp option \<Rightarrow> outcome_observation list op" where
  "schedule_default_outcomes trace_id symbol entry_price start_at =
     bindM (case start_at of Some t \<Rightarrow> ret t | None \<Rightarrow> utc_now) (\<lambda>base_time.
     ret [scheduled trace_id symbol entry_price T_PLUS_15M (base_time + minutes 15),
          scheduled trace_id symbol entry_price T_PLUS_1H (base_time + minutes 60),
          scheduled trace_id symbol entry_price NEXT_SESSION_CLOSE (base_time + minutes (24 * 60))])"

record observed_outcome =
  obs_exit_price :: rat
  obs_return_pct :: rat
  obs_benchmark_return_pct :: "rat option"
  obs_label :: string

definition classify_outcome :: "rat \<Rightarrow> rat \<Rightarrow> rat option \<Rightarrow> observed_outcome" where
  "classify_outcome entry_price exit_price benchmark_return_pct =
     (if entry_price = 0
      then \<lparr>obs_exit_price = exit_price, obs_return_pct = 0,
            obs_benchmark_return_pct = benchmark_return_pct, obs_label = ''flat''\<rparr>
      else
        let return_pct = (exit_price - entry_price) / entry_price * 100;
            benchmark = (case benchmark_return_pct of None \<Rightarrow> 0 | Some b \<Rightarrow> b);
            alpha = return_pct - benchmark;
            label = (if alpha > 1 / 4 then ''positive_alpha''
                     else if alpha < - 1 / 4 then ''negative_alpha''
                     else ''flat'')
        in \<lparr>obs_exit_price = exit_price, obs_return_pct = py_round 4 return_pct,
            obs_benchmark_return_pct = benchmark_return_pct, obs_label = label\<rparr>)"

text \<open>
  A price provider answers with a price or raises, and with a benchmark return or none. The
  static provider of \<open>src/src/outcome/pricing.py\<close> looks both up; its keys are the symbol
  with the time's ISO text, and the horizon's text.
\<close>

record price_provider =
  get_price :: "string \<Rightarrow> timestamp \<Rightarrow> py_error + rat"
  get_benchmark_return :: "timestamp \<Rightarrow> outcome_horizon \<Rightarrow> rat option"

fun outcome_horizon_value :: "outcome_horizon \<Rightarrow> string" where
  "outcome_horizon_value T_PLUS_15M = ''t+15m''"
| "outcome_horizon_value T_PLUS_1H = ''t+1h''"
| "outcome_horizon_value NEXT_SESSION_CLOSE = ''next_session_close''"

definition static_price_provider ::
  "lib \<Rightarrow> ((string \<times> string) \<times> rat) list \<Rightarrow> rat dict option \<Rightarrow> price_provider" where
  "static_price_provider L prices benchmarks =
     \<lparr>get_price = (\<lambda>symbol t. case map_of prices (symbol, iso_time L t) of
          None \<Rightarrow> Inl (KeyError (''price not found for '' @ symbol @ '' at '' @ iso_time L t))
        | Some p \<Rightarrow> Inr p),
      get_benchmark_return = (\<lambda>t h. case benchmarks of
          None \<Rightarrow> None
        | Some b \<Rightarrow> if b = [] then None else dict_get b (outcome_horizon_value h))\<rparr>"

lemma classify_zero_entry: "obs_label (classify_outcome 0 x b) = ''flat''"
  by (simp add: classify_outcome_def)

text \<open>
  For a positive entry price, an outcome is labelled by where the exit price
  lies against the entry price grown by the benchmark return: \<open>positive_alpha\<close> when it is
  more than a quarter percent of the entry above that mark, \<open>negative_alpha\<close> when it is
  more than a quarter percent below, \<open>flat\<close> in between (both edges included); the stored
  return is the exact one to within half a unit of its fourth decimal.
\<close>

theorem classify_outcome_spec:
  assumes "0 < entry"
  shows "let mark = entry * (1 + (case bench of None \<Rightarrow> 0 | Some b \<Rightarrow> b) / 100); band = entry / 400;
             o' = classify_outcome entry exit bench in
         obs_label o' = (if exit > mark + band then ''positive_alpha''
                         else if exit < mark - band then ''negative_alpha'' else ''flat'') \<and>
         \<bar>obs_return_pct o' - (exit - entry) / entry * 100\<bar> \<le> 1 / 20000 \<and>
         obs_exit_price o' = exit \<and> obs_benchmark_return_pct o' = bench"
proof -
  define b where "b = (case bench of None \<Rightarrow> 0 | Some b \<Rightarrow> b)"
  have eq: "(exit - entry) / entry * 100 - b = ((exit - entry) * 100 - b * entry) / entry"
    using assms by (simp add: diff_divide_distrib)
  have up: "(exit - entry) / entry * 100 - b > 1 / 4 \<longleftrightarrow> exit > entry * (1 + b / 100) + entry / 400"
    unfolding eq pos_less_divide_eq [OF assms] by (simp add: distrib_left mult.commute [of b]) linarith
  have down: "(exit - entry) / entry * 100 - b < - 1 / 4 \<longleftrightarrow> exit < entry * (1 + b / 100) - entry / 400"
    unfolding eq pos_divide_less_eq [OF assms] by (simp add: distrib_left mult.commute [of b]) linarith
  have "\<bar>py_round 4 ((exit - entry) / entry * 100) - (exit - entry) / entry * 100\<bar> \<le> 1 / 20000"
    using py_round_error [of 4 "(exit - entry) / entry * 100"] by simp
  with assms show ?thesis
    unfolding classify_outcome_def Let_def b_def [symmetric] up down by simp
qed

theorem classify_outcome_spec_witness:
  "obs_label (classify_outcome 100 (403 / 4) (Some (1 / 2))) = ''flat''"
  using classify_outcome_spec [of 100 "Some (1 / 2)" "403 / 4"] by (simp add: Let_def)

end
