(* ===== verification/Stage_Worker.thy ===== *)
theory Stage_Worker
  imports Worker_Rules Python_Numbers
begin

text \<open>
  What the workers of the stages share: envelopes derived from the parent message, the timed
  audit record, and the handler that hands a failed job back to the queue. Every worker leases a
  job, runs it, and passes an exception to that handler.
\<close>

definition from_sum :: "py_error + 'a \<Rightarrow> 'a op" where
  "from_sum r = (case r of Inl e \<Rightarrow> raise e | Inr x \<Rightarrow> ret x)"

text \<open>\<open>PipelineEnvelope.new(...)\<close> with the parent's trace, alert and schema version.\<close>

definition child_envelope :: "pipeline_envelope \<Rightarrow> stage_name \<Rightarrow> string \<Rightarrow> json \<Rightarrow> pipeline_envelope op" where
  "child_envelope parent stage key payload =
     new_envelope (env_trace_id parent) (env_source_alert_id parent) (Some (env_message_id parent)) stage
       (env_schema_version parent) key payload"

definition latency_since :: "rat \<Rightarrow> int op" where
  "latency_since started = bindM perf_counter (\<lambda>t. ret (py_trunc ((t - started) * 1000)))"

definition timed_audit :: "pipeline_envelope \<Rightarrow> rat \<Rightarrow> stage_audit op" where
  "timed_audit envelope started =
     bindM (latency_since started) (\<lambda>ms. ret ((stage_audit_default (env_message_id envelope))\<lparr>audit_latency_ms := ms\<rparr>))"

definition retry_or_dead_letter :: "lib \<Rightarrow> pipeline_config \<Rightarrow> job_lease \<Rightarrow> py_error \<Rightarrow> bool op" where
  "retry_or_dead_letter L cfg lease e =
     bindM (complete_job_retry L lease (str_exc e) (retry_backoff_sec (cfg_queue cfg)) (max_attempts (cfg_queue cfg)))
       (\<lambda>_. ret False)"

section \<open>Invariants and frames\<close>

context pdb_rows
begin

lemma framed_db_op: "(\<And>s. db (snd (m s)) = db s) \<Longrightarrow> kept m"
  by (simp add: preserves_def)

lemma from_sum_kept: "kept (from_sum r)"
  by (cases r) (simp_all add: from_sum_def preserves_ret preserves_raise)

lemma child_envelope_kept: "kept (child_envelope p st k pl)"
  unfolding child_envelope_def by (rule new_envelope_kept)

lemma timed_audit_kept: "kept (timed_audit e t)"
  unfolding timed_audit_def latency_since_def by (intro preserves_bindM preserves_env preserves_ret)

lemmas stage_kept = from_sum_kept child_envelope_kept timed_audit_kept
  preserves_bindM preserves_option preserves_if preserves_prod preserves_tryM preserves_forM preserves_env preserves_ret
  preserves_raise preserves_from_option preserves_asks

lemma retry_kept: "kept (retry_or_dead_letter L cfg l e)"
  unfolding retry_or_dead_letter_def by (intro stage_kept rows_kept)

end

lemma framed_child_envelope [frame, intro!]: "framed (child_envelope p st k pl)"
  unfolding child_envelope_def by (rule framed_new_envelope)

lemma framed_timed_audit [frame, intro!]: "framed (timed_audit e t)"
  unfolding timed_audit_def latency_since_def by (intro frame framed_basic)

lemma framed_from_sum [frame, intro!]: "framed (from_sum r)"
  by (cases r) (simp_all add: from_sum_def framed_basic)

lemma framed_retry: "framed (retry_or_dead_letter L cfg l e)"
  unfolding retry_or_dead_letter_def by (intro frame framed_basic framed_ops)

section \<open>Rounds\<close>

text \<open>
  \<open>runs_only X\<close>: only jobs with identifiers in \<open>X\<close> are running. No operation but a
  lease makes a job run, so such a bound is kept by all others. An operation \<open>settles\<close> a
  job when it returns only with that job no longer running.
\<close>

definition runs_only :: "uuid set \<Rightarrow> pdb \<Rightarrow> bool" where
  "runs_only X d \<longleftrightarrow> (\<forall>j\<in>set (stage_jobs d). job_state j = Running \<longrightarrow> job_id j \<in> X)"

interpretation running: pdb_unleased "runs_only X" for X
  by unfold_locales
    (auto simp: runs_only_def update_trace_def update_job_def releases_def update_run_def update_approval_def)

definition quiet :: "'a op \<Rightarrow> bool" where
  "quiet m \<longleftrightarrow> (\<forall>X. preserves (\<lambda>s. runs_only X (db s)) m)"

definition settles :: "uuid \<Rightarrow> 'a op \<Rightarrow> bool" where
  "settles jid m \<longleftrightarrow> (\<forall>X. hoare (\<lambda>s. runs_only (insert jid X) (db s)) m
     (\<lambda>_ s. runs_only X (db s)) (\<lambda>_ s. runs_only (insert jid X) (db s)))"

lemma runs_only_insert: "runs_only X d \<Longrightarrow> runs_only (insert jid X) d"
  by (auto simp: runs_only_def)

lemma quietI: "(\<And>X. preserves (\<lambda>s. runs_only X (db s)) m) \<Longrightarrow> quiet m"
  by (simp add: quiet_def)

lemma settles_after: "quiet m \<Longrightarrow> (\<And>x. settles jid (f x)) \<Longrightarrow> settles jid (bindM m f)"
  unfolding settles_def quiet_def by (blast intro: hoare_bindM [OF hoare_preserves])

lemma settles_before:
  assumes "settles jid m" "\<And>x. quiet (f x)"
  shows "settles jid (bindM m f)"
  unfolding settles_def
proof
  fix X
  have "hoare (\<lambda>s. runs_only X (db s)) (f x) (\<lambda>_ s. runs_only X (db s)) (\<lambda>_ s. runs_only (insert jid X) (db s))" for x
    using assms(2) [of x] unfolding quiet_def by (auto intro: hoare_keep runs_only_insert)
  with assms(1) show "hoare (\<lambda>s. runs_only (insert jid X) (db s)) (bindM m f)
      (\<lambda>_ s. runs_only X (db s)) (\<lambda>_ s. runs_only (insert jid X) (db s))"
    unfolding settles_def by (blast intro: hoare_bindM)
qed

lemma settles_raise: "settles jid (raise e)"
  by (simp add: settles_def hoare_raise)

lemma settles_cases:
  "(b \<Longrightarrow> settles jid m) \<Longrightarrow> (\<not> b \<Longrightarrow> settles jid n) \<Longrightarrow> settles jid (if b then m else n)"
  "settles jid m \<Longrightarrow> (\<And>z. settles jid (f z)) \<Longrightarrow> settles jid (case y of None \<Rightarrow> m | Some z \<Rightarrow> f z)"
  "(\<And>a c. settles jid (g a c)) \<Longrightarrow> settles jid (case p of (a, c) \<Rightarrow> g a c)"
  by (auto split: option.split prod.split)

lemma settles_before_if:
  "(b \<Longrightarrow> settles jid m) \<Longrightarrow> (\<not> b \<Longrightarrow> settles jid n) \<Longrightarrow> (\<And>x. quiet (f x)) \<Longrightarrow> settles jid (bindM (if b then m else n) f)"
  by (intro settles_before settles_cases)

text \<open>Ending a job settles it: the transaction either releases the job or changes nothing.\<close>

lemma released_settled:
  "(\<And>j. job_state (f j) \<noteq> Running) \<Longrightarrow> (\<And>j. job_id (f j) = job_id j) \<Longrightarrow> runs_only (insert jid X) d \<Longrightarrow>
   runs_only X (update_job jid f d)"
  by (auto simp: runs_only_def update_job_def)

lemma settles_update:
  "(\<And>j. job_state (f j) \<noteq> Running) \<Longrightarrow> (\<And>j. job_id (f j) = job_id j) \<Longrightarrow> settles jid (modify_db (update_job jid f))"
  by (auto simp: settles_def hoare_def modify_db_def intro!: released_settled)

lemma settles_tx:
  assumes "settles jid m"
  shows "settles jid (tx m)"
  unfolding settles_def
proof (intro allI hoareI)
  fix X s e s'
  assume "runs_only (insert jid X) (db s)" "tx m s = (Inl e, s')"
  then show "runs_only (insert jid X) (db s')" by (auto dest: tx_InlD)
next
  fix X s x s'
  assume "runs_only (insert jid X) (db s)" "tx m s = (Inr x, s')"
  then show "runs_only X (db s')" using assms by (auto simp: settles_def dest!: tx_InrD dest: hoare_InrD)
qed

lemma quiet_basic: "quiet utc_now" "quiet uuid4" "quiet perf_counter" "quiet (ret x)" "quiet (raise e)" "quiet (asks f)"
  "quiet (from_option e y)" "quiet (from_sum r)" "quiet (timed_audit en t)" "quiet (child_envelope p st k pl)"
  by (auto intro!: quietI preserves_env preserves_ret preserves_raise preserves_asks preserves_from_option running.stage_kept)

lemma quiet_bindM: "quiet m \<Longrightarrow> (\<And>x. quiet (f x)) \<Longrightarrow> quiet (bindM m f)"
  unfolding quiet_def by (blast intro: preserves_bindM)

lemma quiet_forM: "(\<And>x. quiet (f x)) \<Longrightarrow> quiet (forM xs f)"
  unfolding quiet_def by (blast intro: preserves_forM)

lemma quiet_mapM: "(\<And>x. quiet (f x)) \<Longrightarrow> quiet (mapM f xs)"
  unfolding quiet_def by (blast intro: preserves_mapM)

lemma quiet_cases:
  "(b \<Longrightarrow> quiet m) \<Longrightarrow> (\<not> b \<Longrightarrow> quiet n) \<Longrightarrow> quiet (if b then m else n)"
  "quiet m \<Longrightarrow> (\<And>z. quiet (f z)) \<Longrightarrow> quiet (case y of None \<Rightarrow> m | Some z \<Rightarrow> f z)"
  "(\<And>a c. quiet (g a c)) \<Longrightarrow> quiet (case p of (a, c) \<Rightarrow> g a c)"
  by (auto split: option.split prod.split)

lemma quiet_ops:
  "quiet (get_message L m)" "quiet (new_envelope a1 a2 a3 a4 a5 a6 a7)" "quiet (save_research_evidence m es)"
  "quiet (save_analysis_candidates m cs rs)" "quiet (save_portfolio_snapshot p)" "quiet (get_approval_request_by_message m)"
  "quiet (approval_request_op b1 b2 b3 b4 b5)" "quiet (decide_approval c1 c2 c3 c4)" "quiet (get_broker_order_by_client_order_id c)"
  "quiet (save_broker_order r)" "quiet (save_outcome_observation ob)" "quiet (list_outcome_observations t)"
  "quiet (update_outcome_observation d1 d2 d3 d4 d5 d6)"
  by (intro quietI running.calls_kept)+

lemmas quiet_rules = quiet_basic quiet_bindM quiet_forM quiet_mapM quiet_cases quiet_ops

lemma settles_success: "settles (lease_job_id l) (complete_job_success L l oe au ns np na ts)"
proof -
  have "quiet (store_output L e ns np na ts now)" for e now
    by (intro quietI running.store_output_kept)
  moreover have "quiet (modify_db (update_run rid g))" if "same_run g" for rid g
    using that by (intro quietI preserves_modify_db running.finish_run)
  ultimately show ?thesis unfolding complete_job_success_def
    by (intro settles_after settles_tx settles_before [OF settles_update] quiet_rules)
      (simp_all add: succeeded_job_def same_run_def)
qed

lemma settles_dead_letter: "settles (lease_job_id l) (dead_letter_job L l r)"
proof -
  have "quiet (modify_db (update_run rid (failed_run L now st e)))" for rid now st e
    by (intro quietI preserves_modify_db running.finish_run) (simp_all add: same_run_def failed_run_def)
  moreover have "quiet (insert_row u fk (\<lambda>d. d\<lparr>dead_letters := g d\<rparr>))" for u fk g
    by (intro quietI preserves_insert_row running.new_dead_letter)
  ultimately show ?thesis unfolding dead_letter_job_def
    by (intro settles_after settles_tx settles_before [OF settles_update] quiet_rules) (simp_all add: dead_job_def)
qed

lemma settles_retry: "settles (lease_job_id l) (complete_job_retry L l e d n)"
proof -
  have "quiet (modify_db (update_run rid (failed_run L now st e)))" for rid now st
    by (intro quietI preserves_modify_db running.finish_run) (simp_all add: same_run_def failed_run_def)
  then show ?thesis unfolding complete_job_retry_def
    by (intro settles_cases settles_dead_letter settles_after settles_tx settles_before [OF settles_update] quiet_rules)
      (simp_all add: retried_job_def)
qed

text \<open>Rules for a job that ends with one of these calls.\<close>

lemmas settles_ends = settles_before [OF settles_success] settles_before [OF settles_retry] settles_before [OF settles_dead_letter]
  settles_success settles_retry settles_dead_letter settles_raise

text \<open>
  \<open>run_forever\<close>: the first \<open>k\<close> passes of a worker's loop, with the exception that ended
  it if a round raised one, the number of times it slept, and the world it left. Every finite
  part of the endless loop is such a run.
\<close>

fun run_forever :: "nat \<Rightarrow> bool op \<Rightarrow> world \<Rightarrow> py_error option \<times> nat \<times> world" where
  "run_forever 0 process_next s = (None, 0, s)"
| "run_forever (Suc k) process_next s =
     (case process_next s of
        (Inl e, s') \<Rightarrow> (Some e, 0, s')
      | (Inr processed, s') \<Rightarrow>
          (case run_forever k process_next s' of
             (e, sleeps, s'') \<Rightarrow> (e, if processed then sleeps else Suc sleeps, s'')))"

text \<open>
  The contract of a stage's worker: its round leases a job of its stage, runs it, and hands it to
  the retry handler if it raises; a job that returns has settled its lease.
\<close>

locale stage_worker =
  fixes L :: lib and cfg :: pipeline_config and st :: stage_name and worker_id :: string
    and start :: "rat op" and job :: "job_lease \<Rightarrow> rat \<Rightarrow> bool op" and process_next :: "bool op"
  assumes round: "process_next = bindM (lease_next_job st worker_id (lease_sec (cfg_queue cfg))) (\<lambda>l.
      case l of None \<Rightarrow> ret False
      | Some lease \<Rightarrow> bindM start (\<lambda>t. tryM (job lease t) (retry_or_dead_letter L cfg lease)))"
    and start_quiet: "quiet start"
    and job_settles: "settles (lease_job_id l) (job l t)"
begin

lemma handled_settles: "settles (lease_job_id l) (tryM (job l t) (retry_or_dead_letter L cfg l))"
  unfolding settles_def
proof
  fix X
  have "settles (lease_job_id l) (retry_or_dead_letter L cfg l e)" for e
    unfolding retry_or_dead_letter_def by (intro settles_ends quiet_rules)
  with job_settles show "hoare (\<lambda>s. runs_only (insert (lease_job_id l) X) (db s)) (tryM (job l t) (retry_or_dead_letter L cfg l))
      (\<lambda>_ s. runs_only X (db s)) (\<lambda>_ s. runs_only (insert (lease_job_id l) X) (db s))"
    unfolding settles_def by (blast intro: hoare_tryM)
qed

lemma leased_runs:
  assumes "lease_next_job st worker_id n s = (Inr r, s1)" "runs_only X (db s)"
  shows "case r of None \<Rightarrow> runs_only X (db s1) | Some l \<Rightarrow> runs_only (insert (lease_job_id l) X) (db s1)"
  using lease_next_job_InrD [OF assms(1)] assms(2)
  by (auto simp: runs_only_def leased_world_def update_job_def lease_update_def lease_of_def Let_def split: option.splits if_splits)

lemma round_settles:
  assumes "process_next s = (Inr b, s')" "runs_only X (db s)"
  shows "runs_only X (db s')"
proof -
  from assms(1) obtain r s1 where r: "lease_next_job st worker_id (lease_sec (cfg_queue cfg)) s = (Inr r, s1)"
    "(case r of None \<Rightarrow> ret False | Some lease \<Rightarrow> bindM start (\<lambda>t. tryM (job lease t) (retry_or_dead_letter L cfg lease))) s1 = (Inr b, s')"
    unfolding round by (auto dest!: bindM_InrD)
  show ?thesis
  proof (cases r)
    case None
    with r leased_runs [OF r(1) assms(2)] show ?thesis by (simp add: ret_def)
  next
    case (Some l)
    have "settles (lease_job_id l) (bindM start (\<lambda>t. tryM (job l t) (retry_or_dead_letter L cfg l)))"
      by (intro settles_after start_quiet handled_settles)
    then show ?thesis using r(2) leased_runs [OF r(1) assms(2)] Some by (auto simp: settles_def dest: hoare_InrD)
  qed
qed

lemma loop_settles:
  "run_forever k process_next s = (None, n, s') \<Longrightarrow> runs_only X (db s) \<Longrightarrow> runs_only X (db s')"
  by (induction k arbitrary: s n) (auto split: prod.splits sum.splits intro: round_settles)

end

end
