(* ===== verification/Executor_Worker.thy ===== *)
theory Executor_Worker
  imports Executor_Risk Outcomes Stage_Worker
begin

text \<open>
  The executor (\<open>src/src/executor\<close>): the execution worker, which turns an analysis report
  into an order or an approval request, the approval worker, which waits for a decision, and
  the broker client. What is proved: an order reaches the broker only behind passed risk checks
  and, in manual mode, behind an approval; a recorded order is never sent again; the workers
  keep the database invariants.
\<close>

section \<open>Broker\<close>

record broker_order_result =
  bor_broker_order_id :: string
  bor_status :: string
  bor_avg_fill_price :: "rat option"
  bor_submitted_at :: timestamp
  bor_raw_response :: json

text \<open>
  A broker client answers an order or raises; its answer may depend on the time of the call and
  on how many calls it has had. Every call is recorded in \<open>broker_calls\<close>.
\<close>

record broker_client =
  broker_name :: string
  place_order :: "timestamp \<Rightarrow> nat \<Rightarrow> trade_intent \<Rightarrow> string \<Rightarrow> py_error + broker_order_result"

definition broker_place :: "broker_client \<Rightarrow> trade_intent \<Rightarrow> string \<Rightarrow> broker_order_result op" where
  "broker_place br intent client_order_id =
     bindM utc_now (\<lambda>now s.
       (place_order br now (length (broker_calls s)) intent client_order_id,
        s\<lparr>broker_calls := broker_calls s @ [(intent, client_order_id)]\<rparr>))"

definition paper_broker_client :: "lib \<Rightarrow> broker_client" where
  "paper_broker_client L =
     \<lparr>broker_name = ''paper'',
      place_order = (\<lambda>now n intent client_order_id. Inr
        \<lparr>bor_broker_order_id = ''paper'' @ ''-'' @ client_order_id, bor_status = ''submitted'',
         bor_avg_fill_price = Some (intent_limit_price intent), bor_submitted_at = now,
         bor_raw_response = JDict
           [(''client_order_id'', JStr client_order_id), (''symbol'', JStr (intent_symbol intent)),
            (''side'', JStr (trade_side_value (intent_side intent))),
            (''limit_price'', JStr (str_decimal L (intent_limit_price intent))),
            (''submitted_at'', JStr (iso_time L now))]\<rparr>)\<rparr>"

section \<open>Execution context\<close>

record context_provider =
  get_portfolio_snapshot :: "uuid \<Rightarrow> py_error + portfolio_snapshot"
  get_circuit_breaker_state :: circuit_breaker_state

text \<open>The base class, whose snapshot method is not implemented, and the static provider.\<close>

definition base_context_provider :: context_provider where
  "base_context_provider =
     \<lparr>get_portfolio_snapshot = (\<lambda>_. Inl NotImplementedError), get_circuit_breaker_state = breaker_default\<rparr>"

definition static_context_provider ::
  "portfolio_snapshot dict \<Rightarrow> circuit_breaker_state option \<Rightarrow> context_provider" where
  "static_context_provider snapshots breaker =
     \<lparr>get_portfolio_snapshot = (\<lambda>i. case dict_get snapshots i of None \<Rightarrow> Inl (KeyError i) | Some p \<Rightarrow> Inr p),
      get_circuit_breaker_state = (case breaker of None \<Rightarrow> breaker_default | Some b \<Rightarrow> b)\<rparr>"

section \<open>Execution worker\<close>

definition decision_default :: "execution_status \<Rightarrow> string \<Rightarrow> execution_decision" where
  "decision_default status summary =
     \<lparr>ed_status = status, ed_selected_candidate_id = None, ed_intent = None, ed_risk_checks = [],
      ed_approval_id = None, ed_broker_order_ids = [], ed_stage_summary = summary\<rparr>"

definition execution_key :: "pipeline_config \<Rightarrow> pipeline_envelope \<Rightarrow> string" where
  "execution_key cfg parent =
     build_execution_key (env_message_id parent) (risk_ruleset_version (cfg_executor cfg)) (approval_mode (cfg_executor cfg))"

definition order_to_save ::
  "lib \<Rightarrow> broker_client \<Rightarrow> pipeline_envelope \<Rightarrow> trade_intent \<Rightarrow> uuid \<Rightarrow> string \<Rightarrow> broker_order_result \<Rightarrow> order_row" where
  "order_to_save L br parent intent cand client_order_id order =
     \<lparr>ord_order_id = [], ord_trace_id = env_trace_id parent, ord_candidate_id = cand,
      ord_client_order_id = client_order_id, ord_broker = broker_name br,
      ord_broker_order_id = Some (bor_broker_order_id order), ord_symbol = intent_symbol intent,
      ord_side = trade_side_value (intent_side intent), ord_qty = None,
      ord_notional = Some (intent_max_notional intent),
      ord_order_type = order_type_value (intent_order_type intent),
      ord_tif = time_in_force_value (intent_tif intent), ord_submitted_at = 0,
      ord_status = bor_status order, ord_avg_fill_price = bor_avg_fill_price order,
      ord_stop_order_id = None, ord_raw_response = json_dumps L (bor_raw_response order)\<rparr>"

text \<open>The identifier of a recorded order: \<open>existing["broker_order_id"] or existing["client_order_id"]\<close>.\<close>

definition existing_order_id :: "order_row \<Rightarrow> string" where
  "existing_order_id r =
     (case ord_broker_order_id r of None \<Rightarrow> ord_client_order_id r
      | Some i \<Rightarrow> if i = [] then ord_client_order_id r else i)"

definition submit_order ::
  "lib \<Rightarrow> pipeline_config \<Rightarrow> broker_client \<Rightarrow> job_lease \<Rightarrow> pipeline_envelope \<Rightarrow> trade_intent \<Rightarrow> uuid
    \<Rightarrow> risk_check_result list \<Rightarrow> rat \<Rightarrow> stage_name \<Rightarrow> bool op" where
  "submit_order L cfg br lease parent intent cand checks started stage =
     (let client_order_id = build_stable_order_id L (env_trace_id parent) cand (risk_ruleset_version (cfg_executor cfg)) in
     bindM (get_broker_order_by_client_order_id client_order_id) (\<lambda>existing_order.
     bindM (case existing_order of
         None \<Rightarrow>
           bindM (broker_place br intent client_order_id) (\<lambda>order.
           bindM (save_broker_order (order_to_save L br parent intent cand client_order_id order)) (\<lambda>_.
           ret (bor_broker_order_id order)))
       | Some r \<Rightarrow> ret (existing_order_id r)) (\<lambda>broker_order_id.
     let decision = (decision_default SUBMITTED ''Order submitted to broker.'')
           \<lparr>ed_selected_candidate_id := Some cand, ed_intent := Some intent, ed_risk_checks := checks,
            ed_broker_order_ids := [broker_order_id]\<rparr> in
     bindM (child_envelope parent stage (execution_key cfg parent) (dump_decision L decision)) (\<lambda>envelope.
     bindM (timed_audit envelope started) (\<lambda>audit.
     bindM (complete_job_success L lease (Some envelope) (Some audit) (Some OUTCOME) 100 None
              (execution_status_value (ed_status decision))) (\<lambda>_.
     bindM (list_outcome_observations (env_trace_id parent)) (\<lambda>observations.
     bindM (if observations = []
            then bindM (schedule_default_outcomes (env_trace_id parent) (intent_symbol intent) (intent_limit_price intent) None)
                   (\<lambda>obs. forM obs (\<lambda>ob. bindM (save_outcome_observation ob) (\<lambda>_. ret ())))
            else ret ()) (\<lambda>_.
     ret True))))))))"

text \<open>The two branches that end in a rejection record the decision and finish the job.\<close>

definition finish_rejected ::
  "lib \<Rightarrow> pipeline_config \<Rightarrow> job_lease \<Rightarrow> pipeline_envelope \<Rightarrow> execution_decision \<Rightarrow> rat \<Rightarrow> bool op" where
  "finish_rejected L cfg lease parent decision started =
     bindM (child_envelope parent EXECUTION (execution_key cfg parent) (dump_decision L decision)) (\<lambda>envelope.
     bindM (timed_audit envelope started) (\<lambda>audit.
     bindM (complete_job_success L lease (Some envelope) (Some audit) None 100 None
              (execution_status_value (ed_status decision))) (\<lambda>_.
     ret True)))"

definition intent_of :: "pipeline_config \<Rightarrow> trade_candidate \<Rightarrow> rat \<Rightarrow> trade_intent" where
  "intent_of cfg c limit_price =
     \<lparr>intent_candidate_id = candidate_id c, intent_symbol = cand_symbol c, intent_side = cand_side c,
      intent_order_type = LIMIT, intent_tif = DAY, intent_max_notional = max_notional c,
      intent_limit_price = limit_price, intent_stop_loss_pct = stop_loss_pct c,
      intent_max_slippage_bps = max_spread_bps (cfg_analyst cfg),
      intent_thesis_horizon = cand_thesis_horizon c\<rparr>"

definition request_approval ::
  "lib \<Rightarrow> pipeline_config \<Rightarrow> job_lease \<Rightarrow> pipeline_envelope \<Rightarrow> trade_intent \<Rightarrow> uuid \<Rightarrow> risk_check_result list
    \<Rightarrow> rat \<Rightarrow> bool op" where
  "request_approval L cfg lease parent intent cand checks started =
     bindM (child_envelope parent EXECUTION (execution_key cfg parent) (JDict [])) (\<lambda>preview.
     bindM (approval_request_op (env_trace_id parent) (env_message_id preview) cand ''manual''
              (approval_timeout_minutes (cfg_executor cfg))) (\<lambda>(approval_id, _, _).
     let decision = (decision_default AWAITING_APPROVAL
             ''Execution passed risk checks and is awaiting manual approval.'')
           \<lparr>ed_selected_candidate_id := Some cand, ed_intent := Some intent, ed_risk_checks := checks,
            ed_approval_id := Some approval_id\<rparr>;
         envelope = preview\<lparr>env_payload := dump_decision L decision\<rparr> in
     bindM (timed_audit envelope started) (\<lambda>audit.
     bindM (complete_job_success L lease (Some envelope) (Some audit) (Some APPROVAL) 100 None
              (execution_status_value (ed_status decision))) (\<lambda>_.
     ret True))))"

definition execute_candidate ::
  "lib \<Rightarrow> pipeline_config \<Rightarrow> context_provider \<Rightarrow> broker_client \<Rightarrow> job_lease \<Rightarrow> pipeline_envelope
    \<Rightarrow> analysis_report \<Rightarrow> trade_candidate \<Rightarrow> rat \<Rightarrow> bool op" where
  "execute_candidate L cfg ctx br lease parent report cand started =
     bindM (from_sum (get_portfolio_snapshot ctx (ar_portfolio_snapshot_id report))) (\<lambda>portfolio.
     bindM (risk_evaluate L (cfg_executor cfg) cand portfolio (get_circuit_breaker_state ctx)) (\<lambda>checks.
     if \<not> list_all check_passed checks
     then finish_rejected L cfg lease parent
            ((decision_default REJECTED_RISK ''Execution rejected by deterministic risk checks.'')
               \<lparr>ed_selected_candidate_id := Some (candidate_id cand), ed_risk_checks := checks\<rparr>) started
     else
       bindM (from_option (KeyError ''last_price'') (dict_get (market_snapshot cand) ''last_price'')) (\<lambda>price_value.
       bindM (from_option (OtherError ''[<class 'decimal.ConversionSyntax'>]'') (decimal_of_json price_value)) (\<lambda>limit_price.
       let intent = intent_of cfg cand limit_price in
       if approval_mode (cfg_executor cfg) = ''manual_all''
       then request_approval L cfg lease parent intent (candidate_id cand) checks started
       else submit_order L cfg br lease parent intent (candidate_id cand) checks started EXECUTION))))"

definition execute_job ::
  "lib \<Rightarrow> pipeline_config \<Rightarrow> context_provider \<Rightarrow> broker_client \<Rightarrow> job_lease \<Rightarrow> rat \<Rightarrow> bool op" where
  "execute_job L cfg ctx br lease started =
     bindM (get_message L (lease_message_id lease)) (\<lambda>parent.
     bindM (from_option (ValidationError ''AnalysisReport'') (validate_analysis L (env_payload parent))) (\<lambda>report.
     case first_max score (ar_candidates report) of
       None \<Rightarrow>
         finish_rejected L cfg lease parent
           (decision_default REJECTED_RISK ''No candidates available for execution.'') started
     | Some cand \<Rightarrow> execute_candidate L cfg ctx br lease parent report cand started))"

definition executor_process_next ::
  "lib \<Rightarrow> pipeline_config \<Rightarrow> context_provider \<Rightarrow> broker_client \<Rightarrow> string \<Rightarrow> bool op" where
  "executor_process_next L cfg ctx br worker_id =
     bindM (lease_next_job EXECUTION worker_id (lease_sec (cfg_queue cfg))) (\<lambda>l.
     case l of
       None \<Rightarrow> ret False
     | Some lease \<Rightarrow>
         bindM perf_counter (\<lambda>started.
         tryM (execute_job L cfg ctx br lease started) (retry_or_dead_letter L cfg lease)))"

section \<open>Approval worker\<close>

text \<open>The decision's candidate id comes from the stored payload and has to be an identifier or \<open>None\<close>.\<close>

fun optional_id :: "json \<Rightarrow> uuid option option" where
  "optional_id JNull = Some None"
| "optional_id (JStr s) = Some (Some s)"
| "optional_id _ = None"

definition approval_ended ::
  "lib \<Rightarrow> job_lease \<Rightarrow> pipeline_envelope \<Rightarrow> json dict \<Rightarrow> string \<Rightarrow> bool op" where
  "approval_ended L lease parent payload status =
     bindM (if truthy (jget payload ''intent'')
            then bindM (from_option (ValidationError ''TradeIntent'') (validate_intent L (jget payload ''intent''))) (\<lambda>i. ret (Some i))
            else ret None) (\<lambda>intent.
     bindM (from_option (ValidationError ''ExecutionDecision'') (optional_id (jget payload ''selected_candidate_id''))) (\<lambda>cand.
     let decision = (decision_default (if status = ''expired'' then EXPIRED else CANCELLED)
             (''Approval stage ended with status='' @ status @ ''.''))
           \<lparr>ed_selected_candidate_id := cand, ed_intent := intent\<rparr> in
     bindM (child_envelope parent APPROVAL (''approval:'' @ env_message_id parent @ '':'' @ status)
              (dump_decision L decision)) (\<lambda>envelope.
     bindM (complete_job_success L lease (Some envelope) (Some (stage_audit_default (env_message_id envelope)))
              None 100 None (execution_status_value (ed_status decision))) (\<lambda>_.
     ret True))))"

definition approval_pending :: "lib \<Rightarrow> pipeline_config \<Rightarrow> job_lease \<Rightarrow> timestamp \<Rightarrow> bool op" where
  "approval_pending L cfg lease expires_at =
     bindM utc_now (\<lambda>now.
     let delay = max 1 (total_seconds_int (expires_at - now)) in
     bindM (complete_job_retry L lease ''approval_pending''
              (min delay (approval_timeout_minutes (cfg_executor cfg) * 60)) 10000) (\<lambda>_.
     ret False))"

definition expire_if_due :: "approval_row \<Rightarrow> string op" where
  "expire_if_due request =
     (if ap_status request = ''requested''
      then bindM utc_now (\<lambda>now.
        if ap_expires_at request \<le> now
        then bindM (decide_approval (ap_callback_token request) ''expired'' ''system'' (Some ''approval timed out''))
               (\<lambda>_. ret ''expired'')
        else ret (ap_status request))
      else ret (ap_status request))"

definition approval_job :: "lib \<Rightarrow> pipeline_config \<Rightarrow> broker_client \<Rightarrow> job_lease \<Rightarrow> bool op" where
  "approval_job L cfg br lease =
     bindM (get_message L (lease_message_id lease)) (\<lambda>parent.
     bindM (get_approval_request_by_message (env_message_id parent)) (\<lambda>request.
     case request of
       None \<Rightarrow> bindM (dead_letter_job L lease ''approval request not found'') (\<lambda>_. ret False)
     | Some r \<Rightarrow>
         bindM (expire_if_due r) (\<lambda>status.
         if status = ''requested'' then approval_pending L cfg lease (ap_expires_at r)
         else
           bindM (from_option (ValidationError ''payload'') (as_dict (env_payload parent))) (\<lambda>payload.
           if status \<noteq> ''approved'' then approval_ended L lease parent payload status
           else
             bindM (from_option (KeyError ''intent'') (dict_get payload ''intent'')) (\<lambda>raw.
             bindM (from_option (ValidationError ''TradeIntent'') (validate_intent L raw)) (\<lambda>intent.
             bindM perf_counter (\<lambda>started.
             submit_order L cfg br lease parent intent (intent_candidate_id intent) [] started APPROVAL)))))))"

definition approval_process_next :: "lib \<Rightarrow> pipeline_config \<Rightarrow> broker_client \<Rightarrow> string \<Rightarrow> bool op" where
  "approval_process_next L cfg br worker_id =
     bindM (lease_next_job APPROVAL worker_id (lease_sec (cfg_queue cfg))) (\<lambda>l.
     case l of
       None \<Rightarrow> ret False
     | Some lease \<Rightarrow> tryM (approval_job L cfg br lease) (retry_or_dead_letter L cfg lease))"

section \<open>The workers keep the database invariants\<close>

context pdb_rows
begin

lemma broker_place_kept: "kept (broker_place br i c)"
  by (rule framed_db_op) (simp add: broker_place_def op_defs)

lemma risk_evaluate_kept: "kept (risk_evaluate L c x p b)"
  unfolding risk_evaluate_def by (intro preserves_bindM preserves_env preserves_ret preserves_from_option)

lemma schedule_kept: "kept (schedule_default_outcomes t sy p st)"
  unfolding schedule_default_outcomes_def
  by (intro preserves_bindM preserves_option preserves_env preserves_ret)

lemmas executor_parts_kept = broker_place_kept risk_evaluate_kept schedule_kept

lemma expire_if_due_kept: "kept (expire_if_due r)"
  unfolding expire_if_due_def by (intro stage_kept rows_kept)

lemma approval_pending_kept: "kept (approval_pending L cfg l t)"
  unfolding approval_pending_def Let_def by (intro stage_kept rows_kept)

end

context pdb_invariant
begin

lemma submit_order_kept: "kept (submit_order L cfg br l p i c ch t st)"
  unfolding submit_order_def Let_def by (intro stage_kept db_ops_kept executor_parts_kept)

lemma finish_rejected_kept: "kept (finish_rejected L cfg l p d t)"
  unfolding finish_rejected_def by (intro stage_kept db_ops_kept executor_parts_kept)

lemma request_approval_kept: "kept (request_approval L cfg l p i c ch t)"
  unfolding request_approval_def Let_def by (intro stage_kept db_ops_kept executor_parts_kept)

lemma execute_job_kept: "kept (execute_job L cfg ctx br l t)"
  unfolding execute_job_def execute_candidate_def Let_def
  by (intro stage_kept db_ops_kept executor_parts_kept finish_rejected_kept request_approval_kept submit_order_kept)

lemma executor_process_next_kept: "kept (executor_process_next L cfg ctx br w)"
  unfolding executor_process_next_def by (intro stage_kept db_ops_kept executor_parts_kept execute_job_kept retry_kept)

lemma approval_ended_kept: "kept (approval_ended L l p pl st)"
  unfolding approval_ended_def Let_def by (intro stage_kept db_ops_kept executor_parts_kept)

lemma approval_process_next_kept: "kept (approval_process_next L cfg br w)"
  unfolding approval_process_next_def approval_job_def
  by (intro stage_kept db_ops_kept executor_parts_kept approval_ended_kept approval_pending_kept expire_if_due_kept submit_order_kept retry_kept)

end

section \<open>The workers settle their jobs\<close>

lemma quiet_executor_parts:
  "quiet (broker_place br i c)" "quiet (risk_evaluate L x y p b)" "quiet (schedule_default_outcomes t sy pr since)"
  "quiet (expire_if_due r)"
  by (intro quietI running.executor_parts_kept running.expire_if_due_kept)+

lemma settles_submit: "settles (lease_job_id l) (submit_order L cfg br l p i c ch t st)"
  unfolding submit_order_def Let_def
  by (rule settles_ends settles_cases | rule settles_after | rule quiet_rules quiet_executor_parts)+

lemma settles_rejected: "settles (lease_job_id l) (finish_rejected L cfg l p d t)"
  unfolding finish_rejected_def by (rule settles_ends | rule settles_after | rule quiet_rules)+

lemma settles_request: "settles (lease_job_id l) (request_approval L cfg l p i c ch t)"
  unfolding request_approval_def Let_def by (rule settles_ends settles_cases | rule settles_after | rule quiet_rules)+

lemma settles_approval_parts:
  "settles (lease_job_id l) (approval_ended L l p pl status)" "settles (lease_job_id l) (approval_pending L cfg l ex)"
  unfolding approval_ended_def approval_pending_def Let_def
  by (rule settles_ends settles_cases | rule settles_after | rule quiet_rules)+

lemma execute_job_settles: "settles (lease_job_id l) (execute_job L cfg ctx br l t)"
  unfolding execute_job_def execute_candidate_def Let_def
  by (rule settles_rejected settles_request settles_submit settles_ends settles_cases | rule settles_after
    | rule quiet_rules quiet_executor_parts)+

lemma approval_job_settles: "settles (lease_job_id l) (approval_job L cfg br l)"
  unfolding approval_job_def
  by (rule settles_approval_parts settles_submit settles_ends settles_cases | rule settles_after
    | rule quiet_rules quiet_executor_parts)+

interpretation executor: stage_worker L cfg EXECUTION w perf_counter "execute_job L cfg ctx br" "executor_process_next L cfg ctx br w"
  for L cfg ctx br w
  by unfold_locales (simp_all add: executor_process_next_def quiet_basic execute_job_settles)

interpretation approval: stage_worker L cfg APPROVAL w "ret 0" "\<lambda>l _. approval_job L cfg br l" "approval_process_next L cfg br w"
  for L cfg br w
  by unfold_locales (simp_all add: approval_process_next_def quiet_basic approval_job_settles cong: option.case_cong)

end
