(* ===== verification/Executor_Safety.thy ===== *)
theory Executor_Safety
  imports Executor_Worker
begin

text \<open>
  When an order reaches the broker: what the execution worker and the approval worker have
  checked before the call, that a recorded order is not sent again, and what manual approval
  adds.
\<close>

section \<open>Calls of \<open>_submit_order\<close>\<close>

definition order_id_of :: "lib \<Rightarrow> pipeline_config \<Rightarrow> pipeline_envelope \<Rightarrow> uuid \<Rightarrow> string" where
  "order_id_of L cfg parent cand =
     build_stable_order_id L (env_trace_id parent) cand (risk_ruleset_version (cfg_executor cfg))"

lemma framed_schedule [frame, intro!]: "framed (schedule_default_outcomes t sy p st)"
  unfolding schedule_default_outcomes_def by (intro frame framed_basic)

lemma framed_risk_evaluate [frame, intro!]: "framed (risk_evaluate L c x p b)"
  unfolding risk_evaluate_def by (intro frame framed_basic)

lemma framed_finish_rejected: "framed (finish_rejected L cfg l p d t)"
  unfolding finish_rejected_def by (intro frame framed_basic framed_ops)

lemma framed_request_approval: "framed (request_approval L cfg l p i c ch t)"
  unfolding request_approval_def Let_def by (intro frame framed_basic framed_ops)

lemma framed_calls: "framed m \<Longrightarrow> m s = (r, s') \<Longrightarrow> broker_calls s' = broker_calls s"
  by (drule (1) framedD) (simp add: env_of_def)

lemma framed_hoare_calls:
  assumes "framed m" and "\<And>s s'. broker_calls s = broker_calls s' \<Longrightarrow> P s = P s'"
  shows "hoare P m (\<lambda>_. P) (\<lambda>_. P)"
  by (intro hoare_preserves framed_preserves assms(1) assms(2)) (simp add: env_of_def)

lemma broker_place_calls:
  assumes "broker_place br i c s = (r, s')"
  shows "broker_calls s' = broker_calls s @ [(i, c)]"
  using assms by (auto simp: broker_place_def op_defs)

lemma submit_order_calls:
  assumes "submit_order L cfg br lease parent intent cand checks started stage s = (r, s')"
  shows "broker_calls s' = broker_calls s \<or>
    broker_calls s' = broker_calls s @ [(intent, order_id_of L cfg parent cand)] \<and>
    order_by_client_id (order_id_of L cfg parent cand) (db s) = None"
proof -
  define bc where "bc = broker_calls s"
  define ex where "ex = order_by_client_id (order_id_of L cfg parent cand) (db s)"
  let ?P = "\<lambda>s. broker_calls s = bc \<and> order_by_client_id (order_id_of L cfg parent cand) (db s) = ex"
  let ?G = "\<lambda>s. broker_calls s = bc \<or> broker_calls s = bc @ [(intent, order_id_of L cfg parent cand)] \<and> ex = None"
  have rest: "hoare ?G m (\<lambda>_. ?G) (\<lambda>_. ?G)" if "framed m" for m :: "'x op"
    by (rule framed_hoare_calls [OF that]) simp
  have read: "hoare ?P (get_broker_order_by_client_order_id (order_id_of L cfg parent cand)) (\<lambda>x s. ?P s \<and> x = ex) (\<lambda>_. ?G)"
    by (simp add: hoare_def get_broker_order_by_client_order_id_def tx_def op_defs)
  have place: "hoare ?P (broker_place br intent (order_id_of L cfg parent cand)) (\<lambda>_. ?G) (\<lambda>_. ?G)" if "ex = None"
    by (rule hoareI) (auto dest!: broker_place_calls simp: that)
  have "hoare ?P (submit_order L cfg br lease parent intent cand checks started stage) (\<lambda>_. ?G) (\<lambda>_. ?G)"
    unfolding submit_order_def Let_def order_id_of_def [symmetric]
  proof (rule hoare_bindM [OF read], rule hoare_bindM [where Q = "\<lambda>_. ?G"], goal_cases)
    case (1 x)
    show ?case
    proof (cases x)
      case None
      have "hoare ?P (bindM (broker_place br intent (order_id_of L cfg parent cand)) (\<lambda>order.
          bindM (save_broker_order (order_to_save L br parent intent cand (order_id_of L cfg parent cand) order))
            (\<lambda>_. ret (bor_broker_order_id order)))) (\<lambda>_. ?G) (\<lambda>_. ?G)" if "ex = None"
        by (rule hoare_bindM [OF place [OF that] rest]) (intro frame framed_basic framed_ops)
      then show ?thesis unfolding None option.case by (intro hoare_pure) auto
    next
      case (Some a)
      then show ?thesis by (auto intro: hoare_ret)
    qed
  next
    case (2 x oid)
    show ?case by (rule rest) (intro frame framed_basic framed_ops)
  qed
  then show ?thesis using assms hoare_InrD hoare_InlD bc_def ex_def by (cases r) fastforce+
qed

section \<open>What the workers have seen before they call\<close>

definition untouched ::
  "(trade_intent \<times> string) list \<Rightarrow> message_row list \<Rightarrow> order_row list \<Rightarrow> approval_row list \<Rightarrow> world \<Rightarrow> bool" where
  "untouched bc M B A s \<longleftrightarrow> broker_calls s = bc \<and> stage_messages (db s) = M \<and> broker_orders (db s) = B
     \<and> approval_requests (db s) = A"

definition read_from :: "lib \<Rightarrow> message_row \<Rightarrow> pipeline_envelope \<Rightarrow> bool" where
  "read_from L m e \<longleftrightarrow> env_message_id e = msg_message_id m \<and> env_trace_id e = msg_trace_id m \<and>
     json_loads L (msg_payload_jsonb m) = Some (env_payload e)"

text \<open>A message that a job of the stage was queued for.\<close>

definition handed_over :: "stage_name \<Rightarrow> world \<Rightarrow> message_row \<Rightarrow> bool" where
  "handed_over st s m \<longleftrightarrow>
     (\<exists>j\<in>set (stage_jobs (db s)). job_stage j = st \<and> find_message (job_message_id j) (db s) = Some m)"

lemma untouched_same_db:
  assumes "framed m" and "\<And>s. db (snd (m s)) = db s"
  shows "preserves (untouched bc M B A) m"
  using assms by (auto simp: preserves_def untouched_def framed_def env_of_def)

lemma untouched_lease: "preserves (untouched bc M B A) (lease_next_job st w n)"
proof -
  have "preserves (\<lambda>s. stage_messages (db s) = M \<and> broker_orders (db s) = B \<and> approval_requests (db s) = A) (lease_next_job st w n)"
    unfolding lease_next_job_def Let_def
    by (intro preserves_bindM preserves_env preserves_tx [where I = "\<lambda>d. stage_messages d = M \<and> broker_orders d = B \<and> approval_requests d = A"]
        preserves_option preserves_asks preserves_ret preserves_modify_db preserves_insert_row) auto
  moreover have "preserves (\<lambda>s. broker_calls s = bc) (lease_next_job st w n)"
    by (rule framed_preserves [OF framed_queue(4)]) (simp add: env_of_def)
  ultimately show ?thesis unfolding untouched_def by (auto simp: preserves_def)
qed

lemma untouched_perf: "preserves (untouched bc M B A) perf_counter"
  by (rule untouched_same_db [OF framed_basic(8)]) (simp add: perf_counter_def)

lemma get_message_row:
  assumes "get_message L i s = (Inr p, s')"
  shows "s' = s \<and> (\<exists>m. find_message i (db s) = Some m \<and> read_from L m p)"
  using assms by (auto simp: get_message_def source_alert_id_for_trace_def tx_def op_defs read_from_def
      split: option.splits if_splits)

lemma get_message_read:
  "hoare (untouched bc M B A) (get_message L i)
     (\<lambda>p s. untouched bc M B A s \<and> (\<exists>m. List.find (\<lambda>r. msg_message_id r = i) M = Some m \<and> read_from L m p)) (\<lambda>_. untouched bc M B A)"
proof (rule hoareI)
  fix s e s' assume "untouched bc M B A s" "get_message L i s = (Inl e, s')"
  then show "untouched bc M B A s'"
    using preservesD [OF untouched_same_db [OF framed_get_message get_message_db]] by blast
next
  fix s p s' assume "untouched bc M B A s" "get_message L i s = (Inr p, s')"
  then show "untouched bc M B A s' \<and> (\<exists>m. List.find (\<lambda>r. msg_message_id r = i) M = Some m \<and> read_from L m p)"
    by (auto dest!: get_message_row simp: untouched_def find_message_def)
qed

text \<open>The lease was given for a job of the stage.\<close>

definition job_for :: "stage_name \<Rightarrow> world \<Rightarrow> job_lease \<Rightarrow> bool" where
  "job_for st s lease \<longleftrightarrow> (\<exists>j\<in>set (stage_jobs (db s)). job_stage j = st \<and> job_message_id j = lease_message_id lease)"

lemma leased_job_for:
  "lease_next_job st w n s = (Inr (Some lease), s') \<Longrightarrow> job_for st s lease"
  by (drule lease_next_job_InrD)
    (auto simp: job_for_def next_ready_def ready_def lease_of_def split: option.splits dest!: first_min_in)

lemma job_for_handed_over:
  "job_for st s lease \<Longrightarrow> find_message (lease_message_id lease) (db s) = Some m \<Longrightarrow> handed_over st s m"
  by (auto simp: job_for_def handed_over_def)

lemma hoare_fst_snd: "hoare P m (\<lambda>_. G) (\<lambda>_. G) \<Longrightarrow> P s \<Longrightarrow> m s = (r, s') \<Longrightarrow> G s'"
  by (cases r) (auto dest: hoare_InrD hoare_InlD)

definition admissible_for ::
  "lib \<Rightarrow> pipeline_config \<Rightarrow> context_provider \<Rightarrow> message_row \<Rightarrow> trade_intent \<Rightarrow> string \<Rightarrow> bool" where
  "admissible_for L cfg ctx m intent cid \<longleftrightarrow>
     (\<exists>payload report cand portfolio now.
        json_loads L (msg_payload_jsonb m) = Some payload \<and> validate_analysis L payload = Some report \<and>
        cand \<in> set (ar_candidates report) \<and> (\<forall>x\<in>set (ar_candidates report). score x \<le> score cand) \<and>
        get_portfolio_snapshot ctx (ar_portfolio_snapshot_id report) = Inr portfolio \<and>
        risk_ok L (cfg_executor cfg) now cand portfolio (get_circuit_breaker_state ctx) \<and>
        last_price_of cand = Some (intent_limit_price intent) \<and>
        intent = intent_of cfg cand (intent_limit_price intent) \<and>
        cid = build_stable_order_id L (msg_trace_id m) (candidate_id cand) (risk_ruleset_version (cfg_executor cfg)))"

definition admissible ::
  "lib \<Rightarrow> pipeline_config \<Rightarrow> context_provider \<Rightarrow> world \<Rightarrow> trade_intent \<Rightarrow> string \<Rightarrow> bool" where
  "admissible L cfg ctx s intent cid \<longleftrightarrow> (\<exists>m. handed_over EXECUTION s m \<and> admissible_for L cfg ctx m intent cid)"

lemma positive_price_present:
  assumes "last_price_of c = Some p" "0 < p" "dict_get (market_snapshot c) ''last_price'' = Some v" "decimal_of_json v = Some q"
  shows "q = p"
proof (cases "truthy v")
  case True
  with assms show ?thesis by (simp add: last_price_of_def jget_def jget_default_def jor_def)
next
  case False
  with assms(1,3) have "p = 0"
    by (simp add: last_price_of_def jget_def jget_default_def jor_def parse_decimal_zero)
  with assms(2) show ?thesis by simp
qed

lemma risk_evaluate_passed:
  "hoare (untouched bc M B A) (risk_evaluate L cfg c p b)
     (\<lambda>checks s. untouched bc M B A s \<and> (list_all check_passed checks \<longrightarrow> (\<exists>now. risk_ok L cfg now c p b)))
     (\<lambda>_. untouched bc M B A)"
  by (auto simp: hoare_def risk_evaluate_def op_defs untouched_def risk_checks_passed split: option.splits)

text \<open>The state after a call: nothing sent, or one order that satisfies \<open>Q\<close>.\<close>

definition at_most_one :: "(trade_intent \<times> string) list \<Rightarrow> (trade_intent \<Rightarrow> string \<Rightarrow> bool) \<Rightarrow> world \<Rightarrow> bool" where
  "at_most_one bc Q s \<longleftrightarrow> broker_calls s = bc \<or> (\<exists>intent cid. broker_calls s = bc @ [(intent, cid)] \<and> Q intent cid)"

lemma at_most_one_framed: "framed m \<Longrightarrow> hoare (at_most_one bc Q) m (\<lambda>_. at_most_one bc Q) (\<lambda>_. at_most_one bc Q)"
  by (rule framed_hoare_calls) (simp_all add: at_most_one_def)

lemma untouched_at_most_one: "untouched bc M B A s \<Longrightarrow> at_most_one bc Q s"
  by (simp add: untouched_def at_most_one_def)

lemma quiet_framed: "framed m \<Longrightarrow> hoare (untouched bc M B A) m (\<lambda>_. at_most_one bc Q) (\<lambda>_. at_most_one bc Q)"
  by (rule hoare_pre [OF at_most_one_framed untouched_at_most_one])

lemma submit_order_at_most_one:
  assumes "(\<forall>r\<in>set B. ord_client_order_id r \<noteq> order_id_of L cfg parent cand) \<Longrightarrow> Q intent (order_id_of L cfg parent cand)"
  shows "hoare (untouched bc M B A) (submit_order L cfg br lease parent intent cand checks started stage)
    (\<lambda>_. at_most_one bc Q) (\<lambda>_. at_most_one bc Q)"
  using assms
  by (intro hoareI) (auto dest!: submit_order_calls simp: untouched_def at_most_one_def order_by_client_id_def find_None_all)

text \<open>The order for the best candidate, once its risk checks are passed, is admissible.\<close>

lemma intent_admissible:
  assumes cand: "first_max score (ar_candidates report) = Some cand"
    and rep: "validate_analysis L (env_payload parent) = Some report" and par: "read_from L m parent" and m: "handed_over EXECUTION s m"
    and snapshot: "get_portfolio_snapshot ctx (ar_portfolio_snapshot_id report) = Inr p"
    and risk: "risk_ok L (cfg_executor cfg) now cand p (get_circuit_breaker_state ctx)"
    and price: "dict_get (market_snapshot cand) ''last_price'' = Some v" "decimal_of_json v = Some q"
  shows "admissible L cfg ctx s (intent_of cfg cand q) (order_id_of L cfg parent (candidate_id cand))"
proof -
  from risk obtain x where x: "last_price_of cand = Some x" "0 < x" by (auto simp: risk_ok_def)
  with positive_price_present price have "q = x" by blast
  moreover have "cand \<in> set (ar_candidates report)" "\<forall>x\<in>set (ar_candidates report). score x \<le> score cand"
    using first_max_in [OF cand] first_max_greatest [OF cand] by auto
  ultimately show ?thesis
    using par rep snapshot risk price x m unfolding admissible_def admissible_for_def read_from_def order_id_of_def
    by (fastforce simp: intent_of_def)
qed

lemma execute_candidate_at_most_one:
  assumes cand: "first_max score (ar_candidates report) = Some cand"
    and rep: "validate_analysis L (env_payload parent) = Some report" and par: "read_from L m parent"
    and m: "handed_over EXECUTION s m"
    and Q: "Q = (\<lambda>intent cid. approval_mode (cfg_executor cfg) \<noteq> ''manual_all'' \<and>
      (\<forall>r\<in>set B. ord_client_order_id r \<noteq> cid) \<and> admissible L cfg ctx s intent cid)"
  shows "hoare (untouched bc M B A) (execute_candidate L cfg ctx br lease parent report cand started)
    (\<lambda>_. at_most_one bc Q) (\<lambda>_. at_most_one bc Q)"
proof -
  let ?K = "untouched bc M B A" and ?G = "\<lambda>_. at_most_one bc Q"
  note adm = intent_admissible [OF cand rep par m]
  have submit: "hoare ?K (if approval_mode (cfg_executor cfg) = ''manual_all''
       then request_approval L cfg lease parent (intent_of cfg cand q) (candidate_id cand) checks started
       else submit_order L cfg br lease parent (intent_of cfg cand q) (candidate_id cand) checks started EXECUTION) ?G ?G"
    if "get_portfolio_snapshot ctx (ar_portfolio_snapshot_id report) = Inr p"
      "risk_ok L (cfg_executor cfg) now cand p (get_circuit_breaker_state ctx)"
      "dict_get (market_snapshot cand) ''last_price'' = Some v" "decimal_of_json v = Some q" for p now v q checks
    using adm [OF that] by (auto simp: Q intro!: quiet_framed framed_request_approval submit_order_at_most_one)
  have priced: "hoare ?K (bindM (from_option e1 (dict_get (market_snapshot cand) ''last_price'')) (\<lambda>v.
       bindM (from_option e2 (decimal_of_json v)) (\<lambda>q. if approval_mode (cfg_executor cfg) = ''manual_all''
       then request_approval L cfg lease parent (intent_of cfg cand q) (candidate_id cand) checks started
       else submit_order L cfg br lease parent (intent_of cfg cand q) (candidate_id cand) checks started EXECUTION))) ?G ?G"
    if "get_portfolio_snapshot ctx (ar_portfolio_snapshot_id report) = Inr p"
      "risk_ok L (cfg_executor cfg) now cand p (get_circuit_breaker_state ctx)" for p now e1 e2 checks
  proof (cases "dict_get (market_snapshot cand) ''last_price''")
    case None
    then show ?thesis by (simp add: from_option_def hoare_raise untouched_at_most_one)
  next
    case (Some v)
    then show ?thesis
      using submit [OF that Some]
      by (cases "decimal_of_json v") (auto simp: from_option_def intro!: hoare_raise untouched_at_most_one)
  qed
  show ?thesis
  proof (cases "get_portfolio_snapshot ctx (ar_portfolio_snapshot_id report)")
    case (Inl e)
    then show ?thesis by (simp add: execute_candidate_def from_sum_def hoare_raise untouched_at_most_one)
  next
    case (Inr p)
    show ?thesis
      unfolding execute_candidate_def Inr from_sum_def sum.case bindM_ret Let_def
    proof (rule hoare_bindM [OF hoare_conseq [OF risk_evaluate_passed]], assumption, assumption, erule untouched_at_most_one, goal_cases)
      case (1 checks)
      show ?case
      proof (rule hoare_pure)
        assume "list_all check_passed checks \<longrightarrow> (\<exists>now. risk_ok L (cfg_executor cfg) now cand p (get_circuit_breaker_state ctx))"
        with priced [OF Inr] show "hoare ?K (if \<not> list_all check_passed checks then finish_rejected L cfg lease parent
            ((decision_default REJECTED_RISK ''Execution rejected by deterministic risk checks.'')
               \<lparr>ed_selected_candidate_id := Some (candidate_id cand), ed_risk_checks := checks\<rparr>) started
          else bindM (from_option (KeyError ''last_price'') (dict_get (market_snapshot cand) ''last_price'')) (\<lambda>v.
            bindM (from_option (OtherError ''[<class 'decimal.ConversionSyntax'>]'') (decimal_of_json v)) (\<lambda>q.
            if approval_mode (cfg_executor cfg) = ''manual_all''
            then request_approval L cfg lease parent (intent_of cfg cand q) (candidate_id cand) checks started
            else submit_order L cfg br lease parent (intent_of cfg cand q) (candidate_id cand) checks started EXECUTION))) ?G ?G"
          by (auto intro: quiet_framed framed_finish_rejected)
      qed
    qed
  qed
qed

lemma execute_job_at_most_one:
  assumes Q: "Q = (\<lambda>intent cid. approval_mode (cfg_executor cfg) \<noteq> ''manual_all'' \<and>
      (\<forall>r\<in>set B. ord_client_order_id r \<noteq> cid) \<and> admissible L cfg ctx s intent cid)"
    and M: "M = stage_messages (db s)" and j: "job_for EXECUTION s lease"
  shows "hoare (untouched bc M B A) (execute_job L cfg ctx br lease started) (\<lambda>_. at_most_one bc Q) (\<lambda>_. at_most_one bc Q)"
  unfolding execute_job_def
proof (rule hoare_bindM [OF hoare_conseq [OF get_message_read]], assumption, assumption, erule untouched_at_most_one,
    rule hoare_pure, goal_cases)
  case (1 parent)
  show ?case
  proof (cases "validate_analysis L (env_payload parent)")
    case None
    then show ?thesis by (simp add: from_option_def hoare_raise untouched_at_most_one)
  next
    case (Some report)
    from 1 obtain m where "handed_over EXECUTION s m" "read_from L m parent"
      using job_for_handed_over [OF j] by (auto simp: find_message_def M)
    from Some execute_candidate_at_most_one [OF _ Some this(2,1) Q] show ?thesis
      by (cases "first_max score (ar_candidates report)")
        (auto simp: from_option_def quiet_framed framed_finish_rejected)
  qed
qed

text \<open>One round of a worker: a lease of a job of the stage, the job, and the retry when the job raises.\<close>

lemma lease_round_at_most_one:
  assumes "\<And>lease. job_for st s lease \<Longrightarrow>
      hoare (untouched (broker_calls s) (stage_messages (db s)) (broker_orders (db s)) (approval_requests (db s))) (job lease)
        (\<lambda>_. at_most_one (broker_calls s) Q) (\<lambda>_. at_most_one (broker_calls s) Q)"
  shows "at_most_one (broker_calls s) Q
    (snd (bindM (lease_next_job st w n) (\<lambda>l. case l of None \<Rightarrow> ret False | Some lease \<Rightarrow> job lease) s))"
proof -
  let ?U = "untouched (broker_calls s) (stage_messages (db s)) (broker_orders (db s)) (approval_requests (db s))"
  obtain r s1 where l: "lease_next_job st w n s = (r, s1)" by fastforce
  have U: "?U s1" by (rule preservesD [OF untouched_lease _ l]) (simp add: untouched_def)
  show ?thesis
  proof (cases r)
    case (Inl e)
    with l U show ?thesis by (simp add: bindM_def untouched_at_most_one)
  next
    case (Inr x)
    show ?thesis
    proof (cases x)
      case None
      with l Inr U show ?thesis by (simp add: bindM_def ret_def untouched_at_most_one)
    next
      case (Some lease)
      with Inr l have "job_for st s lease" by (auto dest: leased_job_for)
      from hoare_fst_snd [OF assms [OF this] U prod.collapse [symmetric]] show ?thesis
        using l Inr Some by (simp add: bindM_def)
    qed
  qed
qed

lemma retried_at_most_one:
  assumes "hoare (untouched bc M B A) job (\<lambda>_. at_most_one bc Q) (\<lambda>_. at_most_one bc Q)"
  shows "hoare (untouched bc M B A) (tryM job (retry_or_dead_letter L cfg lease)) (\<lambda>_. at_most_one bc Q) (\<lambda>_. at_most_one bc Q)"
  by (rule hoare_tryM [OF assms at_most_one_framed [OF framed_retry]])

lemma perf_at_most_one:
  assumes "\<And>t. hoare (untouched bc M B A) (job t) (\<lambda>_. at_most_one bc Q) (\<lambda>_. at_most_one bc Q)"
  shows "hoare (untouched bc M B A) (bindM perf_counter job) (\<lambda>_. at_most_one bc Q) (\<lambda>_. at_most_one bc Q)"
  by (rule hoare_bindM [OF hoare_conseq [OF hoare_preserves [OF untouched_perf]] assms])
    (auto intro: untouched_at_most_one)

lemma orders_of_executor:
  "let s' = snd (executor_process_next L cfg ctx br w s) in
    broker_calls s' = broker_calls s \<or>
    (\<exists>intent cid. broker_calls s' = broker_calls s @ [(intent, cid)] \<and>
       approval_mode (cfg_executor cfg) \<noteq> ''manual_all'' \<and>
       order_by_client_id cid (db s) = None \<and> admissible L cfg ctx s intent cid)"
proof -
  let ?bc = "broker_calls s" and ?M = "stage_messages (db s)" and ?B = "broker_orders (db s)" and ?A = "approval_requests (db s)"
  let ?Q = "\<lambda>intent cid. approval_mode (cfg_executor cfg) \<noteq> ''manual_all'' \<and>
      (\<forall>r\<in>set ?B. ord_client_order_id r \<noteq> cid) \<and> admissible L cfg ctx s intent cid"
  have "at_most_one ?bc ?Q (snd (executor_process_next L cfg ctx br w s))"
    unfolding executor_process_next_def
    by (intro lease_round_at_most_one perf_at_most_one retried_at_most_one execute_job_at_most_one [where s = s, OF refl refl])
  then show ?thesis
    by (auto simp: Let_def at_most_one_def order_by_client_id_def find_None_all)
qed

text \<open>
  C1 (safety): the execution worker calls the broker at most once per round, and only with an
  admissible order. Whatever the tables hold and whether the round returns or raises, an order
  reaches the broker only outside manual mode, for the best-scored candidate of the analysis
  report in a message that an execution job was queued for, with the risk checks satisfied on the portfolio that report names,
  with the candidate's positive last price as its limit and the candidate's own notional, under
  the stable identifier of the trace and candidate, and only if no order is recorded under it.
\<close>

theorem executor_orders_admissible:
  "let s' = snd (executor_process_next L cfg ctx br w s) in
    broker_calls s' = broker_calls s \<or>
    (\<exists>intent cid. broker_calls s' = broker_calls s @ [(intent, cid)] \<and>
       approval_mode (cfg_executor cfg) \<noteq> ''manual_all'' \<and>
       order_by_client_id cid (db s) = None \<and> admissible L cfg ctx s intent cid)"
  by (rule orders_of_executor)

section \<open>Manual approval\<close>

definition approved_for ::
  "lib \<Rightarrow> pipeline_config \<Rightarrow> world \<Rightarrow> message_row \<Rightarrow> trade_intent \<Rightarrow> string \<Rightarrow> bool" where
  "approved_for L cfg s m intent cid \<longleftrightarrow>
     (\<exists>a\<in>set (approval_requests (db s)). \<exists>payload raw.
        ap_message_id a = msg_message_id m \<and> ap_status a = ''approved'' \<and>
        json_loads L (msg_payload_jsonb m) = Some (JDict payload) \<and>
        dict_get payload ''intent'' = Some raw \<and> validate_intent L raw = Some intent \<and>
        cid = build_stable_order_id L (msg_trace_id m) (intent_candidate_id intent) (risk_ruleset_version (cfg_executor cfg)))"

definition approved ::
  "lib \<Rightarrow> pipeline_config \<Rightarrow> world \<Rightarrow> trade_intent \<Rightarrow> string \<Rightarrow> bool" where
  "approved L cfg s intent cid \<longleftrightarrow> (\<exists>m. handed_over APPROVAL s m \<and> approved_for L cfg s m intent cid)"

lemma hoare_ex: "(\<And>a. hoare (P a) m Q E) \<Longrightarrow> hoare (\<lambda>s. \<exists>a. P a s) m Q E"
  by (rule hoareI) (auto dest: hoare_InlD hoare_InrD)

lemma approval_by_message_mem:
  "approval_by_message i d = Some a \<Longrightarrow> a \<in> set (approval_requests d) \<and> ap_message_id a = i"
  by (auto simp: approval_by_message_def dest!: first_max_in)

lemma get_approval_read:
  "hoare (untouched bc M B A) (get_approval_request_by_message i)
     (\<lambda>x s. untouched bc M B A s \<and> (\<forall>a. x = Some a \<longrightarrow> a \<in> set A \<and> ap_message_id a = i)) (\<lambda>_. untouched bc M B A)"
  by (auto simp: hoare_def get_approval_request_by_message_def tx_def op_defs untouched_def dest!: approval_by_message_mem)

lemma untouched_decide:
  "preserves (\<lambda>s. \<exists>A. untouched bc M B A s) (decide_approval t st ap re)"
  by (auto simp: preserves_def decide_approval_def tx_def op_defs untouched_def update_approval_def split: option.split)

lemma expire_if_due_status:
  "hoare (untouched bc M B A) (expire_if_due a)
     (\<lambda>status s. (\<exists>A. untouched bc M B A s) \<and> (status = ''approved'' \<longrightarrow> ap_status a = ''approved''))
     (\<lambda>_. at_most_one bc Q)"
proof -
  have now: "hoare (untouched bc M B A) utc_now (\<lambda>_. untouched bc M B A) (\<lambda>_. at_most_one bc Q)"
    by (simp add: hoare_def op_defs untouched_def)
  have "hoare (\<lambda>s. \<exists>A. untouched bc M B A s) (decide_approval t st ap re)
      (\<lambda>_ s. \<exists>A. untouched bc M B A s) (\<lambda>_. at_most_one bc Q)" for t st ap re
    by (rule hoare_conseq [OF hoare_preserves [OF untouched_decide]]) (auto intro: untouched_at_most_one)
  then have "hoare (untouched bc M B A) (bindM (decide_approval t st ap re) (\<lambda>_. ret ''expired''))
      (\<lambda>status s. (\<exists>A. untouched bc M B A s) \<and> (status = ''approved'' \<longrightarrow> ap_status a = ''approved''))
      (\<lambda>_. at_most_one bc Q)" for t st ap re
    by (rule hoare_pre [OF hoare_bindM]) (auto intro: hoare_ret)
  then show ?thesis
    unfolding expire_if_due_def by (auto intro!: hoare_bindM [OF now] hoare_ret)
qed

lemma framed_approval_parts:
  "framed (approval_pending L cfg l t)" "framed (approval_ended L l p pl st)"
  unfolding approval_pending_def approval_ended_def Let_def by (intro frame framed_basic framed_ops)+

lemma perf_ex_at_most_one:
  assumes "\<And>t A. hoare (untouched bc M B A) (job t) (\<lambda>_. at_most_one bc Q) (\<lambda>_. at_most_one bc Q)"
  shows "hoare (\<lambda>s. \<exists>A. untouched bc M B A s) (bindM perf_counter job) (\<lambda>_. at_most_one bc Q) (\<lambda>_. at_most_one bc Q)"
  by (intro hoare_ex perf_at_most_one assms)

lemma approval_job_at_most_one:
  assumes Q: "Q = (\<lambda>intent cid. (\<forall>r\<in>set B. ord_client_order_id r \<noteq> cid) \<and> approved L cfg s intent cid)"
    and M: "M = stage_messages (db s)" and A: "A = approval_requests (db s)" and j: "job_for APPROVAL s lease"
  shows "hoare (untouched bc M B A) (approval_job L cfg br lease) (\<lambda>_. at_most_one bc Q) (\<lambda>_. at_most_one bc Q)"
  unfolding approval_job_def
proof (rule hoare_bindM [OF hoare_conseq [OF get_message_read]], assumption, assumption, erule untouched_at_most_one,
    rule hoare_pure, rule hoare_bindM [OF hoare_conseq [OF get_approval_read]], assumption, assumption,
    erule untouched_at_most_one, rule hoare_pure, goal_cases)
  case (1 parent request)
  let ?U = "\<lambda>s. \<exists>A. untouched bc M B A s" and ?G = "\<lambda>_. at_most_one bc Q"
  have quiet: "hoare ?U m ?G ?G" if "framed m" for m :: "bool op"
    by (intro hoare_ex quiet_framed that)
  have send: "hoare ?U (bindM (from_option e1 (dict_get payload ''intent'')) (\<lambda>raw. bindM (from_option e2 (validate_intent L raw)) (\<lambda>intent.
      bindM perf_counter (\<lambda>started. submit_order L cfg br lease parent intent (intent_candidate_id intent) [] started APPROVAL)))) ?G ?G"
    if "request = Some a" "ap_status a = ''approved''" "env_payload parent = JDict payload" for a payload e1 e2
  proof -
    have "approved L cfg s intent (order_id_of L cfg parent (intent_candidate_id intent))"
      if "dict_get payload ''intent'' = Some raw" "validate_intent L raw = Some intent" for raw intent
      using 1 that \<open>request = Some a\<close> \<open>ap_status a = _\<close> \<open>env_payload parent = _\<close> A job_for_handed_over [OF j]
      unfolding approved_def approved_for_def read_from_def order_id_of_def M find_message_def by (metis (no_types, lifting))
    then show ?thesis
      by (cases "dict_get payload ''intent''"; cases "validate_intent L (the (dict_get payload ''intent''))")
        (auto simp: from_option_def Q intro!: hoare_ex hoare_raise perf_at_most_one submit_order_at_most_one
          intro: untouched_at_most_one)
  qed
  show ?case
  proof (cases request)
    case None
    then show ?thesis by (auto intro!: quiet_framed frame framed_basic framed_ops)
  next
    case (Some a)
    show ?thesis
      unfolding Some option.case
    proof (rule hoare_bindM [OF expire_if_due_status], rule hoare_pure, goal_cases)
      case (1 status)
      with send [OF Some] show ?case
        by (cases "env_payload parent") (auto simp: from_option_def intro!: quiet framed_approval_parts frame framed_basic)
    qed
  qed
qed

lemma orders_of_approval:
  "let s' = snd (approval_process_next L cfg br w s) in
    broker_calls s' = broker_calls s \<or>
    (\<exists>intent cid. broker_calls s' = broker_calls s @ [(intent, cid)] \<and>
       order_by_client_id cid (db s) = None \<and> approved L cfg s intent cid)"
proof -
  let ?bc = "broker_calls s" and ?M = "stage_messages (db s)" and ?B = "broker_orders (db s)" and ?A = "approval_requests (db s)"
  let ?Q = "\<lambda>intent cid. (\<forall>r\<in>set ?B. ord_client_order_id r \<noteq> cid) \<and> approved L cfg s intent cid"
  have "at_most_one ?bc ?Q (snd (approval_process_next L cfg br w s))"
    unfolding approval_process_next_def
    by (intro lease_round_at_most_one retried_at_most_one approval_job_at_most_one [where s = s, OF refl refl refl])
  then show ?thesis
    by (auto simp: Let_def at_most_one_def order_by_client_id_def find_None_all)
qed

text \<open>
  C11 (safety): the approval worker calls the broker at most once per round, and only for an
  approval request whose status is \<open>approved\<close>, with the intent stored in the message that
  the request belongs to and an approval job was queued for, under the stable identifier of its trace and candidate, and only if no
  order is recorded under that identifier.
\<close>

theorem approval_orders_approved:
  "let s' = snd (approval_process_next L cfg br w s) in
    broker_calls s' = broker_calls s \<or>
    (\<exists>intent cid. broker_calls s' = broker_calls s @ [(intent, cid)] \<and>
       order_by_client_id cid (db s) = None \<and> approved L cfg s intent cid)"
  by (rule orders_of_approval)

section \<open>Recorded orders\<close>

definition recorded :: "string \<Rightarrow> pdb \<Rightarrow> bool" where
  "recorded cid d \<longleftrightarrow> (\<exists>r\<in>set (broker_orders d). ord_client_order_id r = cid)"

interpretation recorded: pdb_invariant "recorded cid" for cid
  by unfold_locales (auto simp: recorded_def update_approval_def)

lemma recorded_iff: "recorded cid d \<longleftrightarrow> order_by_client_id cid d \<noteq> None"
  by (auto simp: recorded_def order_by_client_id_def find_None_all)

section \<open>Approval requests\<close>

text \<open>
  On PostgreSQL, manual approval cannot be requested. The request's row refers to
  the preview envelope's message, which is stored only afterwards, so with an identifier that is
  new the insert violates its foreign key (or a uniqueness constraint): the round raises an
  integrity error before the decision is stored, with every table unchanged.
\<close>

theorem manual_approval_fails_on_postgres:
  assumes "dialect s = Postgres" and "conn_open s"
    and "find_message (uuid_source s (uuid_draws s)) (db s) = None"
  shows "\<exists>e s'. request_approval L cfg lease parent intent cand checks started s = (Inl (IntegrityError e), s') \<and> db s' = db s"
  using assms
  by (auto simp: request_approval_def child_envelope_def new_envelope_def approval_request_op_def Let_def
      create_approval_request_def op_defs tx_def insert_row_def message_exists_def)

text \<open>
  A decision is written over whatever the request held. Approving or rejecting
  a token that belongs to a request succeeds and sets the request's status, time, approver and
  reason, also when the request was rejected, approved or expired before, and leaves every other
  request as it was; an unknown token raises \<open>KeyError\<close> and changes no table.
\<close>

theorem decide_approval_overwrites:
  assumes "conn_open s"
  shows "case List.find (\<lambda>a. ap_callback_token a = token) (approval_requests (db s)) of
      None \<Rightarrow> fst (decide_approval token status who why s) = Inl (KeyError ''approval request not found'') \<and>
              db (snd (decide_approval token status who why s)) = db s
    | Some a \<Rightarrow> fst (decide_approval token status who why s) = Inr (ap_approval_id a) \<and>
        approval_requests (db (snd (decide_approval token status who why s))) =
          map (\<lambda>x. if ap_callback_token x = token
            then x\<lparr>ap_status := status, ap_decided_at := Some (clock s (clock_reads s)),
                   ap_approver_id := Some who, ap_decision_reason := why\<rparr>
            else x) (approval_requests (db s))"
  using assms by (auto simp: decide_approval_def op_defs tx_def update_approval_def split: option.split)

section \<open>Evaluated examples\<close>

definition demo_approval :: approval_row where
  "demo_approval =
     \<lparr>ap_approval_id = ''p1'', ap_trace_id = ''t1'', ap_message_id = ''m1'', ap_candidate_id = ''c1'',
      ap_channel = ''manual'', ap_status = ''expired'', ap_requested_at = 0, ap_expires_at = 0,
      ap_decided_at = Some 0, ap_approver_id = Some ''system'', ap_decision_reason = None,
      ap_callback_token = ''tok''\<rparr>"

theorem manual_approval_fails_on_postgres_witness:
  "\<exists>e s'. request_approval demo_lib demo_config (lease_of ''r1'' (demo_job EXECUTION)) demo_envelope demo_intent ''c1'' [] 0
     ((demo_world (demo_db EXECUTION))\<lparr>dialect := Postgres\<rparr>) = (Inl (IntegrityError e), s') \<and> db s' = demo_db EXECUTION"
  using manual_approval_fails_on_postgres [of "(demo_world (demo_db EXECUTION))\<lparr>dialect := Postgres\<rparr>" demo_lib demo_config
      "lease_of ''r1'' (demo_job EXECUTION)" demo_envelope demo_intent "''c1''" "[]" 0]
  by (simp add: demo_world_def demo_db_def demo_message_def find_message_def)

theorem decide_approval_overwrites_witness:
  "map ap_status (approval_requests (db (snd (decide_approval ''tok'' ''approved'' ''alice'' None
     (demo_world ((demo_db EXECUTION)\<lparr>approval_requests := [demo_approval]\<rparr>)))))) = [''approved'']"
  using decide_approval_overwrites [of "demo_world ((demo_db EXECUTION)\<lparr>approval_requests := [demo_approval]\<rparr>)"
      "''tok''" "''approved''" "''alice''" None]
  by (simp add: demo_world_def demo_approval_def)

end
