(* ===== verification/Outcome_Worker.thy ===== *)
theory Outcome_Worker
  imports Executor_Worker
begin

text \<open>
  The outcome worker (\<open>src/src/outcome/worker.py\<close>): it prices the observations that are
  due for a submitted order, records their classification, and queues itself again while
  observations are pending.
\<close>

section \<open>The worker\<close>

definition observe_row :: "price_provider \<Rightarrow> trade_intent \<Rightarrow> timestamp \<Rightarrow> observation_row \<Rightarrow> unit op" where
  "observe_row pp intent now row =
     (let ob = ob_observation row in
      bindM (from_sum (get_price pp (intent_symbol intent) (oo_scheduled_for ob))) (\<lambda>exit_price.
      let benchmark = get_benchmark_return pp (oo_scheduled_for ob) (oo_horizon ob);
          observed = classify_outcome (oo_entry_price ob) exit_price benchmark in
      update_outcome_observation (ob_observation_id row) now (obs_exit_price observed)
        (obs_return_pct observed) (obs_benchmark_return_pct observed) (obs_label observed)))"

definition pending_rows :: "observation_row list \<Rightarrow> observation_row list" where
  "pending_rows rows = filter (\<lambda>r. oo_observed_at (ob_observation r) = None) rows"

definition due_rows :: "timestamp \<Rightarrow> observation_row list \<Rightarrow> observation_row list" where
  "due_rows now rows = filter (\<lambda>r. oo_scheduled_for (ob_observation r) \<le> now) (pending_rows rows)"

definition earliest :: "observation_row list \<Rightarrow> timestamp op" where
  "earliest rows = from_option (ValueError ''min() iterable argument is empty'')
     (map_option (\<lambda>r. oo_scheduled_for (ob_observation r)) (first_min (\<lambda>r. oo_scheduled_for (ob_observation r)) rows))"

definition counts_payload :: "nat \<Rightarrow> nat \<Rightarrow> json" where
  "counts_payload observed pending =
     JDict [(''observed_count'', JInt (int observed)), (''pending_count'', JInt (int pending))]"

definition outcome_wait :: "lib \<Rightarrow> job_lease \<Rightarrow> timestamp \<Rightarrow> observation_row list \<Rightarrow> bool op" where
  "outcome_wait L lease now pending =
     bindM (earliest pending) (\<lambda>next_due.
     let delay = max 1 (total_seconds_int (next_due - now)) in
     bindM (complete_job_retry L lease ''waiting_for_outcome_window'' delay 10000) (\<lambda>_.
     ret False))"

definition outcome_observe ::
  "lib \<Rightarrow> price_provider \<Rightarrow> job_lease \<Rightarrow> pipeline_envelope \<Rightarrow> trade_intent \<Rightarrow> timestamp \<Rightarrow> observation_row list \<Rightarrow> bool op" where
  "outcome_observe L pp lease parent intent now due =
     bindM (forM due (observe_row pp intent now)) (\<lambda>_.
     bindM (list_outcome_observations (env_trace_id parent)) (\<lambda>rows.
     let still_pending = pending_rows rows in
     bindM (child_envelope parent OUTCOME
              (build_outcome_key (env_trace_id parent)
                 (if still_pending = [] then ''final'' else ''pending-'' @ str_nat (length still_pending)))
              (counts_payload (length due) (length still_pending))) (\<lambda>envelope.
     let audit = stage_audit_default (env_message_id envelope) in
     bindM (if still_pending \<noteq> []
            then bindM (earliest still_pending) (\<lambda>next_due.
                 complete_job_success L lease (Some envelope) (Some audit) (Some OUTCOME) 100 (Some next_due) ''outcome_pending'')
            else complete_job_success L lease (Some envelope) (Some audit) None 100 None ''outcome_complete'') (\<lambda>_.
     ret True))))"

definition outcome_job :: "lib \<Rightarrow> price_provider \<Rightarrow> job_lease \<Rightarrow> bool op" where
  "outcome_job L pp lease =
     bindM (get_message L (lease_message_id lease)) (\<lambda>parent.
     bindM (from_option (ValidationError ''ExecutionDecision'') (validate_decision L (env_payload parent))) (\<lambda>decision.
     case ed_intent decision of
       None \<Rightarrow> bindM (complete_job_success L lease None None None 100 None ''outcome_skipped'') (\<lambda>_. ret True)
     | Some intent \<Rightarrow>
         bindM (list_outcome_observations (env_trace_id parent)) (\<lambda>observations.
         if observations = []
         then bindM (complete_job_success L lease None None None 100 None ''outcome_missing'') (\<lambda>_. ret True)
         else
           bindM utc_now (\<lambda>now.
           if due_rows now observations = [] then outcome_wait L lease now (pending_rows observations)
           else outcome_observe L pp lease parent intent now (due_rows now observations)))))"

definition outcome_process_next :: "lib \<Rightarrow> pipeline_config \<Rightarrow> price_provider \<Rightarrow> string \<Rightarrow> bool op" where
  "outcome_process_next L cfg pp worker_id =
     bindM (lease_next_job OUTCOME worker_id (lease_sec (cfg_queue cfg))) (\<lambda>l.
     case l of
       None \<Rightarrow> ret False
     | Some lease \<Rightarrow> tryM (outcome_job L pp lease) (retry_or_dead_letter L cfg lease))"

section \<open>Invariants\<close>

context pdb_invariant
begin

lemma outcome_process_next_kept: "kept (outcome_process_next L cfg pp w)"
  unfolding outcome_process_next_def outcome_job_def outcome_wait_def outcome_observe_def observe_row_def earliest_def Let_def
  by (intro stage_kept db_ops_kept retry_kept)

end

lemma outcome_job_settles: "settles (lease_job_id l) (outcome_job L pp l)"
  unfolding outcome_job_def outcome_wait_def outcome_observe_def observe_row_def earliest_def Let_def
  by (rule settles_ends settles_cases settles_before_if | rule settles_after | rule quiet_rules)+

interpretation outcome: stage_worker L cfg OUTCOME w "ret 0" "\<lambda>l _. outcome_job L pp l" "outcome_process_next L cfg pp w"
  for L cfg pp w
  by unfold_locales (simp_all add: outcome_process_next_def quiet_basic outcome_job_settles cong: option.case_cong)

lemma framed_outcome_process_next: "framed (outcome_process_next L cfg pp w)"
  unfolding outcome_process_next_def outcome_job_def outcome_wait_def outcome_observe_def observe_row_def earliest_def Let_def
  by (intro frame framed_basic framed_ops framed_retry)

section \<open>What a round records\<close>

definition priced :: "price_provider \<Rightarrow> trade_intent \<Rightarrow> timestamp \<Rightarrow> rat \<Rightarrow> outcome_observation \<Rightarrow> outcome_observation" where
  "priced pp intent now exit_price ob =
     (let o' = classify_outcome (oo_entry_price ob) exit_price
                 (get_benchmark_return pp (oo_scheduled_for ob) (oo_horizon ob)) in
      ob\<lparr>oo_observed_at := Some now, oo_exit_price := Some exit_price, oo_return_pct := Some (obs_return_pct o'),
         oo_benchmark_return_pct := obs_benchmark_return_pct o', oo_label := Some (obs_label o')\<rparr>)"

lemma classify_outcome_fields [simp]:
  "obs_exit_price (classify_outcome a b c) = b" "obs_benchmark_return_pct (classify_outcome a b c) = c"
  by (simp_all add: classify_outcome_def Let_def)

lemma observe_row_InrD:
  assumes "observe_row pp intent now row s = (Inr u, s')"
  shows "\<exists>p. get_price pp (intent_symbol intent) (oo_scheduled_for (ob_observation row)) = Inr p \<and>
     conn_open s \<and> s' = s\<lparr>db := update_observation (ob_observation_id row) (\<lambda>ob.
       ob\<lparr>oo_observed_at := Some now, oo_exit_price := Some p,
          oo_return_pct := Some (obs_return_pct (classify_outcome (oo_entry_price (ob_observation row)) p
             (get_benchmark_return pp (oo_scheduled_for (ob_observation row)) (oo_horizon (ob_observation row))))),
          oo_benchmark_return_pct := get_benchmark_return pp (oo_scheduled_for (ob_observation row)) (oo_horizon (ob_observation row)),
          oo_label := Some (obs_label (classify_outcome (oo_entry_price (ob_observation row)) p
             (get_benchmark_return pp (oo_scheduled_for (ob_observation row)) (oo_horizon (ob_observation row)))))\<rparr>) (db s)\<rparr>"
  using assms
  by (cases "get_price pp (intent_symbol intent) (oo_scheduled_for (ob_observation row))")
    (auto simp: observe_row_def Let_def from_sum_def update_outcome_observation_def tx_def op_defs split: if_splits)

text \<open>
  When the observing part of a round goes through, exactly the due observations
  have changed: each holds the time of the round, the price the provider gave for its scheduled
  time and the classification of that price against its entry price; every other observation and
  every other table is as before.
\<close>

theorem observe_rows_correct:
  assumes "forM due (observe_row pp intent now) s = (Inr (), s')"
    and "distinct (map ob_observation_id (outcome_observations (db s)))"
    and "set due \<subseteq> set (outcome_observations (db s))" and "distinct due"
  shows "\<exists>price. (\<forall>r\<in>set due. get_price pp (intent_symbol intent) (oo_scheduled_for (ob_observation r)) = Inr (price r)) \<and>
    db s' = (db s)\<lparr>outcome_observations := map (\<lambda>r. if r \<in> set due
        then r\<lparr>ob_observation := priced pp intent now (price r) (ob_observation r)\<rparr> else r) (outcome_observations (db s))\<rparr>"
  using assms
proof (induction due arbitrary: s)
  case Nil
  then show ?case by (auto simp: op_defs)
next
  case (Cons row due)
  let ?obs = "outcome_observations (db s)"
  from bindM_InrD [OF Cons.prems(1) [unfolded forM.simps]] obtain s1
    where o: "observe_row pp intent now row s = (Inr (), s1)" and f: "forM due (observe_row pp intent now) s1 = (Inr (), s')"
    by auto
  from observe_row_InrD [OF o] obtain p where p: "get_price pp (intent_symbol intent) (oo_scheduled_for (ob_observation row)) = Inr p"
    by auto
  let ?new = "row\<lparr>ob_observation := priced pp intent now p (ob_observation row)\<rparr>"
  have same: "r = row" if "r \<in> set ?obs" "ob_observation_id r = ob_observation_id row" for r
    using Cons.prems(2,3) that by (auto simp: distinct_map dest: inj_onD)
  have obs1: "outcome_observations (db s1) = map (\<lambda>r. if r = row then ?new else r) ?obs"
    and db1: "db s1 = (db s)\<lparr>outcome_observations := outcome_observations (db s1)\<rparr>"
    using observe_row_InrD [OF o] p same
    by (auto simp: update_observation_def priced_def Let_def)
  have ids: "map ob_observation_id (outcome_observations (db s1)) = map ob_observation_id ?obs"
    unfolding obs1 by auto
  have "row \<notin> set due" "set due \<subseteq> set ?obs" using Cons.prems by auto
  then have sub: "set due \<subseteq> set (outcome_observations (db s1))"
    unfolding obs1 by auto
  have new: "?new \<notin> set due"
  proof
    assume "?new \<in> set due"
    with \<open>set due \<subseteq> set ?obs\<close> have "?new \<in> set ?obs" by auto
    from same [OF this] \<open>?new \<in> set due\<close> \<open>row \<notin> set due\<close> show False by simp
  qed
  from Cons.IH [OF f] ids Cons.prems(2,4) sub obtain price
    where pr: "\<forall>r\<in>set due. get_price pp (intent_symbol intent) (oo_scheduled_for (ob_observation r)) = Inr (price r)"
      and s': "db s' = (db s1)\<lparr>outcome_observations := map (\<lambda>r. if r \<in> set due
        then r\<lparr>ob_observation := priced pp intent now (price r) (ob_observation r)\<rparr> else r) (outcome_observations (db s1))\<rparr>"
    by auto
  have "db s' = (db s)\<lparr>outcome_observations := map (\<lambda>r. if r \<in> set (row # due)
      then r\<lparr>ob_observation := priced pp intent now ((price(row := p)) r) (ob_observation r)\<rparr> else r) ?obs\<rparr>"
    unfolding s' using db1 obs1 new \<open>row \<notin> set due\<close> by (auto intro!: map_cong)
  then show ?case using pr p \<open>row \<notin> set due\<close> by (intro exI [of _ "price(row := p)"]) auto
qed

end
