(* ===== verification/Outcome_Requeue.thy ===== *)
theory Outcome_Requeue
  imports Outcome_Worker
begin

text \<open>
  What becomes of the job that an outcome round queues for the observations still pending: the
  message it refers to holds the round's counters, which is not an execution decision, so the
  job fails every time until it is dead-lettered.
\<close>

fun outcome_rounds :: "nat \<Rightarrow> lib \<Rightarrow> pipeline_config \<Rightarrow> price_provider \<Rightarrow> string \<Rightarrow> unit op" where
  "outcome_rounds 0 L cfg pp w = ret ()"
| "outcome_rounds (Suc n) L cfg pp w = bindM (outcome_process_next L cfg pp w) (\<lambda>_. outcome_rounds n L cfg pp w)"

definition counters_job :: "lib \<Rightarrow> job_row \<Rightarrow> world \<Rightarrow> bool" where
  "counters_job L j s \<longleftrightarrow> (\<exists>m observed pending. find_message (job_message_id j) (db s) = Some m \<and>
     json_loads L (msg_payload_jsonb m) = Some (counts_payload observed pending))"

lemma outcome_round_fails:
  assumes w: "waiting L (cfg_queue cfg) OUTCOME j s" and c: "counters_job L j s"
    and v: "\<And>a b. validate_decision L (counts_payload a b) = None"
    and r: "failing_round L (cfg_queue cfg) OUTCOME wk ''ExecutionDecision'' s = (Inr (), s')"
  shows "outcome_process_next L cfg pp wk s = (Inr False, s')"
proof -
  let ?l = "lease_of (uuid_source s (uuid_draws s)) j" and ?s1 = "leased_world wk (lease_sec (cfg_queue cfg)) j s"
  have lease: "lease_next_job OUTCOME wk (lease_sec (cfg_queue cfg)) s = (Inr (Some ?l), ?s1)"
    using waiting_leases [OF w, of wk] by (simp add: queue_lease_def)
  obtain m a b t where m: "find_message (job_message_id j) (db s) = Some m"
      "json_loads L (msg_payload_jsonb m) = Some (counts_payload a b)" "find_trace (msg_trace_id m) (db s) = Some t"
    using w c by (auto simp: waiting_def counters_job_def)
  have "conn_open ?s1" "find_message (job_message_id j) (db ?s1) = Some m" "find_trace (msg_trace_id m) (db ?s1) = Some t"
    using w m by (simp_all add: waiting_def leased_world_def Let_def find_message_def find_trace_def)
  with get_message_eq m(2) obtain e where "get_message L (job_message_id j) ?s1 = (Inr e, ?s1)" "env_payload e = counts_payload a b"
    by metis
  then have "outcome_job L pp ?l ?s1 = (Inl (ValidationError ''ExecutionDecision''), ?s1)"
    by (simp add: outcome_job_def bindM_def lease_of_def from_option_def v raise_def)
  moreover have "queue_retry L (cfg_queue cfg) ?l ''ExecutionDecision'' ?s1 = (Inr (), s')"
    using r lease by (simp add: failing_round_def queue_lease_def bindM_def)
  ultimately show ?thesis
    by (simp add: outcome_process_next_def bindM_def lease tryM_def retry_or_dead_letter_def queue_retry_def ret_def)
qed

text \<open>
  The remaining observations are never made. When an outcome round has left
  observations pending, the job it queued waits on a message whose payload is the pair of
  counters; given that such a payload does not validate as an execution decision (its required
  fields are missing), \<open>max_attempts\<close> further rounds of the worker end with that job in
  \<open>dead_letter\<close> and with every observation as it was.
\<close>

theorem pending_outcomes_dead_lettered:
  assumes "waiting L (cfg_queue cfg) OUTCOME j s" and "counters_job L j s"
    and "\<And>a b. validate_decision L (counts_payload a b) = None"
    and "int (job_attempt_count j) < max_attempts (cfg_queue cfg)"
  shows "\<exists>s' j'. outcome_rounds (nat (max_attempts (cfg_queue cfg)) - job_attempt_count j) L cfg pp wk s = (Inr (), s') \<and>
    j' \<in> set (stage_jobs (db s')) \<and> job_id j' = job_id j \<and> job_state j' = Dead_Letter \<and>
    outcome_observations (db s') = outcome_observations (db s)"
  using assms(1,2,4)
proof (induction "nat (max_attempts (cfg_queue cfg)) - job_attempt_count j" arbitrary: j s)
  case 0
  then show ?case by linarith
next
  case (Suc n)
  show ?case
  proof (cases "int (Suc (job_attempt_count j)) < max_attempts (cfg_queue cfg)")
    case True
    from failing_round_retry [OF Suc.prems(1) True, of wk "''ExecutionDecision''"] obtain s1 j1
      where s1: "failing_round L (cfg_queue cfg) OUTCOME wk ''ExecutionDecision'' s = (Inr (), s1)"
        "waiting L (cfg_queue cfg) OUTCOME j1 s1" "job_id j1 = job_id j" "job_message_id j1 = job_message_id j"
        "job_attempt_count j1 = Suc (job_attempt_count j)" "stage_messages (db s1) = stage_messages (db s)"
        "outcome_observations (db s1) = outcome_observations (db s)"
      by (metis (no_types, lifting))
    have n: "n = nat (max_attempts (cfg_queue cfg)) - job_attempt_count j1" using Suc.hyps(2) s1(5) by linarith
    have "counters_job L j1 s1" using Suc.prems(2) s1(4,6) by (simp add: counters_job_def find_message_def)
    moreover have "int (job_attempt_count j1) < max_attempts (cfg_queue cfg)" using True s1(5) by simp
    ultimately show ?thesis
      using Suc.hyps(1) [OF n s1(2)] outcome_round_fails [OF Suc.prems(1,2) assms(3) s1(1)] s1(3,7)
      unfolding Suc.hyps(2) [symmetric] n [symmetric] by (simp add: bindM_def)
  next
    case False
    then have ge: "int (Suc (job_attempt_count j)) \<ge> max_attempts (cfg_queue cfg)" by simp
    with Suc.hyps(2) Suc.prems(3) have n: "n = 0" by linarith
    from failing_round_last [OF Suc.prems(1) ge, of wk "''ExecutionDecision''"] obtain s1 j1
      where s1: "failing_round L (cfg_queue cfg) OUTCOME wk ''ExecutionDecision'' s = (Inr (), s1)"
        "j1 \<in> set (stage_jobs (db s1))" "job_id j1 = job_id j" "job_state j1 = Dead_Letter"
        "outcome_observations (db s1) = outcome_observations (db s)"
      by (metis (no_types, lifting))
    with outcome_round_fails [OF Suc.prems(1,2) assms(3) s1(1)] show ?thesis
      unfolding Suc.hyps(2) [symmetric] n by (auto simp: bindM_def ret_def)
  qed
qed

section \<open>Evaluated examples\<close>

definition counters_lib :: lib where
  "counters_lib = demo_lib\<lparr>json_loads := (\<lambda>_. Some (counts_payload 1 2)),
     validate_decision := (\<lambda>v. if v = JDict [] then Some demo_decision else None)\<rparr>"

lemma counters_waiting: "waiting counters_lib demo_queue OUTCOME (demo_job OUTCOME) (demo_world (demo_db OUTCOME))"
  using demo_uuid_inj
  by (simp add: waiting_def counters_lib_def demo_defs find_message_def find_trace_def minutes_def seconds_def)

theorem pending_outcomes_dead_lettered_witness:
  "\<exists>s' j'. outcome_rounds 3 counters_lib demo_config (static_price_provider counters_lib [] None) ''w''
       (demo_world (demo_db OUTCOME)) = (Inr (), s') \<and>
     j' \<in> set (stage_jobs (db s')) \<and> job_id j' = ''j1'' \<and> job_state j' = Dead_Letter \<and>
     outcome_observations (db s') = []"
proof -
  have "counters_job counters_lib (demo_job OUTCOME) (demo_world (demo_db OUTCOME))"
    by (auto simp: counters_job_def counters_lib_def demo_defs find_message_def)
  moreover have "validate_decision counters_lib (counts_payload a b) = None" for a b
    by (simp add: counters_lib_def counts_payload_def)
  moreover have q: "cfg_queue demo_config = demo_queue" "max_attempts demo_queue = 3"
      "job_attempt_count (demo_job OUTCOME) = 0" "job_id (demo_job OUTCOME) = ''j1''"
      "outcome_observations (db (demo_world (demo_db OUTCOME))) = []"
    by (simp_all add: demo_defs)
  ultimately show ?thesis
    using pending_outcomes_dead_lettered [of counters_lib demo_config "demo_job OUTCOME" "demo_world (demo_db OUTCOME)"
        "static_price_provider counters_lib [] None" "''w''"] counters_waiting by simp
qed

definition demo_observation :: "string \<Rightarrow> outcome_horizon \<Rightarrow> timestamp \<Rightarrow> observation_row" where
  "demo_observation i h t = \<lparr>ob_observation_id = i, ob_observation = scheduled ''t1'' ''XLE'' 50 h t\<rparr>"

definition demo_prices :: price_provider where
  "demo_prices = \<lparr>get_price = (\<lambda>_ _. Inr 51), get_benchmark_return = (\<lambda>_ _. None)\<rparr>"

theorem observe_rows_correct_witness:
  "\<exists>s'. forM [demo_observation ''o1'' T_PLUS_15M 0] (observe_row demo_prices demo_intent 7)
       (demo_world (empty_pdb\<lparr>outcome_observations := [demo_observation ''o1'' T_PLUS_15M 0, demo_observation ''o2'' T_PLUS_1H 9]\<rparr>))
         = (Inr (), s') \<and>
     map (\<lambda>r. oo_label (ob_observation r)) (outcome_observations (db s')) = [Some ''positive_alpha'', None]"
proof -
  let ?s = "demo_world (empty_pdb\<lparr>outcome_observations := [demo_observation ''o1'' T_PLUS_15M 0, demo_observation ''o2'' T_PLUS_1H 9]\<rparr>)"
  obtain s' where s': "forM [demo_observation ''o1'' T_PLUS_15M 0] (observe_row demo_prices demo_intent 7) ?s = (Inr (), s')"
    by (simp add: observe_row_def Let_def demo_prices_def demo_world_def update_outcome_observation_def from_sum_def op_defs tx_def)
  from observe_rows_correct [OF s'] show ?thesis
    using s' by (auto simp: demo_world_def demo_observation_def demo_prices_def scheduled_def empty_pdb_def priced_def
        classify_outcome_def Let_def)
qed

end
