(* ===== verification/Analyst_Tools.thy ===== *)
theory Analyst_Tools
  imports Contracts Python_Numbers
begin

text \<open>
  The analyst's calculations: the market snapshot (\<open>src/src/analyst/tools/market_data.py\<close>),
  the technical indicators (\<open>src/src/analyst/tools/technicals.py\<close>), the filters
  (\<open>src/src/analyst/filters.py\<close>) and the score (\<open>src/src/analyst/agent.py\<close>).
\<close>

section \<open>Market data\<close>

record market_data_snapshot =
  mds_symbol :: string
  mds_last_price :: rat
  mds_bid :: "rat option"
  mds_ask :: "rat option"
  mds_avg_daily_dollar_volume :: rat
  mds_session :: string
  mds_tradable :: bool
  mds_halted :: bool
  mds_quote_age_sec :: int
  mds_sector :: string
  mds_history :: "rat list"

definition spread_bps :: "market_data_snapshot \<Rightarrow> rat" where
  "spread_bps m = (case (mds_bid m, mds_ask m) of
       (Some bid, Some ask) \<Rightarrow> if mds_last_price m = 0 then 0 else (ask - bid) / mds_last_price m * 10000
     | _ \<Rightarrow> 0)"

section \<open>Technical indicators\<close>

text \<open>\<open>values[-n:]\<close> of a list with at least \<open>n\<close> elements.\<close>

definition last_n :: "nat \<Rightarrow> 'a list \<Rightarrow> 'a list" where
  "last_n n xs = drop (length xs - n) xs"

definition sma :: "rat list \<Rightarrow> nat \<Rightarrow> rat option" where
  "sma values period =
     (if length values < period \<or> period = 0 then None
      else Some (sum_list (last_n period values) / of_nat period))"

fun gains_losses :: "(rat \<times> rat) list \<Rightarrow> rat \<times> rat \<Rightarrow> rat \<times> rat" where
  "gains_losses [] (gains, losses) = (gains, losses)"
| "gains_losses ((prev, current) # rest) (gains, losses) =
     (let change = current - prev in
      if change > 0 then gains_losses rest (gains + change, losses)
      else gains_losses rest (gains, losses - change))"

definition rsi :: "rat list \<Rightarrow> nat \<Rightarrow> rat option" where
  "rsi values period =
     (if length values \<le> period then None
      else case gains_losses (zip (butlast (last_n (Suc period) values)) (last_n period values)) (0, 0) of
        (gains, losses) \<Rightarrow>
          if losses = 0 then Some 100
          else let rs = gains / losses in Some (100 - 100 / (1 + rs)))"

text \<open>
  \<open>realized_volatility\<close>: the variance is exact; \<open>Decimal(str(math.sqrt(v)))\<close> is
  the argument \<open>fsqrt\<close>, as square roots are not rational.
\<close>

fun period_returns :: "rat list \<Rightarrow> rat list" where
  "period_returns (prev # current # rest) =
     (if prev = 0 then period_returns (current # rest)
      else (current - prev) / prev # period_returns (current # rest))"
| "period_returns _ = []"

definition variance :: "rat list \<Rightarrow> rat" where
  "variance xs = (let mean = sum_list xs / of_nat (length xs)
     in sum_list (map (\<lambda>x. (x - mean) ^ 2) xs) / of_nat (length xs))"

definition realized_volatility :: "(rat \<Rightarrow> rat) \<Rightarrow> rat list \<Rightarrow> rat option" where
  "realized_volatility fsqrt values =
     (if length values < 2 then None
      else let returns = period_returns values in
           if returns = [] then None else Some (fsqrt (variance returns)))"

section \<open>Filters and score\<close>

definition filter_of :: "string \<Rightarrow> bool \<Rightarrow> string \<Rightarrow> string \<Rightarrow> string \<Rightarrow> filter_result" where
  "filter_of name passed v yes no =
     \<lparr>filter_name = name, filter_passed = passed, filter_value = v, filter_reason = (if passed then yes else no)\<rparr>"

definition evaluate_filters :: "lib \<Rightarrow> market_data_snapshot \<Rightarrow> analyst_section \<Rightarrow> filter_result list" where
  "evaluate_filters L m cfg =
     [filter_of ''tradable'' (mds_tradable m \<and> \<not> mds_halted m)
        (if mds_tradable m \<and> \<not> mds_halted m then ''true'' else ''false'')
        ''Broker indicates instrument is tradable and not halted.'' ''Instrument is not tradable or is halted.'',
      filter_of ''regular_hours'' (mds_session m = ''regular'') (mds_session m)
        ''Regular session is open.'' ''Trading is limited to regular market hours in v1.'',
      filter_of ''price_band'' (min_price cfg \<le> mds_last_price m \<and> mds_last_price m \<le> max_price cfg)
        (str_decimal L (mds_last_price m))
        ''Price is inside configured band.'' ''Price is outside configured band.'',
      filter_of ''spread_bps'' (spread_bps m \<le> of_int (max_spread_bps cfg)) (str_fixed 4 (spread_bps m))
        ''Spread is below max threshold.'' ''Spread is too wide for v1 execution.'',
      filter_of ''avg_dollar_volume'' (mds_avg_daily_dollar_volume m \<ge> min_avg_dollar_volume cfg)
        (str_decimal L (mds_avg_daily_dollar_volume m))
        ''Average dollar volume meets minimum.'' ''Average dollar volume is below minimum.'']"

definition score_candidate :: "nat \<Rightarrow> nat \<Rightarrow> rat \<Rightarrow> rat" where
  "score_candidate passed_filters failed_filters confidence_weight =
     py_round 4 (of_nat passed_filters * (3 / 2) - of_nat failed_filters * 1 + confidence_weight)"

definition build_stage_summary :: "nat \<Rightarrow> nat \<Rightarrow> string" where
  "build_stage_summary candidate_count rejected_count =
     ''Analyst produced '' @ str_nat candidate_count @ '' candidates and rejected '' @ str_nat rejected_count @ '' instruments.''"

section \<open>Bounds\<close>

lemma last_n_length: "n \<le> length xs \<Longrightarrow> length (last_n n xs) = n"
  by (simp add: last_n_def)

lemma last_n_subset: "set (last_n n xs) \<subseteq> set xs"
  by (simp add: last_n_def set_drop_subset)

lemma sum_list_bounds:
  assumes "\<forall>x\<in>set xs. lo \<le> x \<and> x \<le> (hi :: rat)"
  shows "of_nat (length xs) * lo \<le> sum_list xs \<and> sum_list xs \<le> of_nat (length xs) * hi"
  using assms by (induction xs) (auto simp: algebra_simps)

text \<open>
  A moving average lies between the smallest and the largest of the last
  \<open>period\<close> values, and it exists exactly when the period is positive and there are that
  many values.
\<close>

theorem sma_bounds:
  "case sma values period of
     None \<Rightarrow> period = 0 \<or> length values < period
   | Some avg \<Rightarrow> period > 0 \<and> period \<le> length values \<and>
       Min (set (last_n period values)) \<le> avg \<and> avg \<le> Max (set (last_n period values))"
proof (cases "length values < period \<or> period = 0")
  case True
  then show ?thesis by (auto simp: sma_def)
next
  case False
  let ?w = "last_n period values"
  have len: "length ?w = period" using False by (simp add: last_n_length)
  with False have "?w \<noteq> []" by auto
  then have "\<forall>x\<in>set ?w. Min (set ?w) \<le> x \<and> x \<le> Max (set ?w)" by auto
  from sum_list_bounds [OF this] len False show ?thesis
    by (auto simp: sma_def field_simps)
qed

lemma gains_losses_nonneg:
  "0 \<le> g \<Longrightarrow> 0 \<le> l \<Longrightarrow> gains_losses ps (g, l) = (g', l') \<Longrightarrow> 0 \<le> g' \<and> 0 \<le> l'"
proof (induction ps "(g, l)" arbitrary: g l rule: gains_losses.induct)
  case (1 gains losses)
  then show ?case by simp
next
  case (2 prev current rest gains losses)
  from 2(1) [of "current - prev"] 2(2) [of "current - prev"] 2(3-) show ?case
    by (auto simp: Let_def split: if_splits)
qed

text \<open>
  The relative strength index is defined exactly when there are more values than
  its period, and it lies between 0 and 100.
\<close>

theorem rsi_bounds:
  "case rsi values period of
     None \<Rightarrow> length values \<le> period
   | Some x \<Rightarrow> period < length values \<and> 0 \<le> x \<and> x \<le> 100"
proof (cases "length values \<le> period")
  case True
  then show ?thesis by (simp add: rsi_def)
next
  case False
  obtain g l where gl: "gains_losses (zip (butlast (last_n (Suc period) values)) (last_n period values)) (0, 0) = (g, l)"
    by (cases "gains_losses (zip (butlast (last_n (Suc period) values)) (last_n period values)) (0, 0)")
  from gains_losses_nonneg [OF order_refl order_refl gl] have nn: "0 \<le> g" "0 \<le> l" by simp_all
  show ?thesis
  proof (cases "l = 0")
    case True
    with False gl show ?thesis by (simp add: rsi_def)
  next
    case l: False
    define d where "d = 1 + g / l"
    with nn have "1 \<le> d" by simp
    then have "0 < 100 / d" "100 / d \<le> 100" by (simp_all add: field_simps)
    with False gl l show ?thesis by (simp add: rsi_def Let_def d_def)
  qed
qed

lemma filters_passed:
  "list_all filter_passed (evaluate_filters L m cfg) \<longleftrightarrow>
     mds_tradable m \<and> \<not> mds_halted m \<and> mds_session m = ''regular'' \<and>
     min_price cfg \<le> mds_last_price m \<and> mds_last_price m \<le> max_price cfg \<and>
     spread_bps m \<le> of_int (max_spread_bps cfg) \<and> min_avg_dollar_volume cfg \<le> mds_avg_daily_dollar_volume m"
  by (auto simp: evaluate_filters_def filter_of_def)

lemma length_evaluate_filters [simp]: "length (evaluate_filters L m cfg) = 5"
  by (simp add: evaluate_filters_def)

end
