(* ===== verification/Analyst_Worker.thy ===== *)
theory Analyst_Worker
  imports Analyst_Tools Stage_Worker "HOL-Library.Multiset"
begin

text \<open>
  The analysis worker (\<open>src/src/analyst/worker.py\<close>): one candidate per asset hypothesis of
  a research report, filtered, scored, sized against the portfolio and sorted.
\<close>

section \<open>The worker\<close>

definition static_market_data ::
  "market_data_snapshot dict \<Rightarrow> string \<Rightarrow> py_error + market_data_snapshot" where
  "static_market_data snapshots symbol =
     (case dict_get snapshots symbol of
        None \<Rightarrow> Inl (KeyError (''snapshot not found for '' @ symbol))
      | Some m \<Rightarrow> Inr m)"

text \<open>The portfolio provider: the base class is not implemented, the static one returns its snapshot.\<close>

definition base_portfolio :: "py_error + portfolio_snapshot" where
  "base_portfolio = Inl NotImplementedError"

definition static_portfolio :: "portfolio_snapshot \<Rightarrow> py_error + portfolio_snapshot" where
  "static_portfolio p = Inr p"

fun confidence_weight :: "confidence \<Rightarrow> rat" where
  "confidence_weight C_HIGH = 3 / 2"
| "confidence_weight C_MEDIUM = 1"
| "confidence_weight C_LOW = 1 / 2"

text \<open>\<open>str(x or "")\<close> of an optional number.\<close>

definition str_or_empty :: "lib \<Rightarrow> rat option \<Rightarrow> json" where
  "str_or_empty L x = (case x of None \<Rightarrow> JStr [] | Some q \<Rightarrow> if q = 0 then JStr [] else JStr (str_decimal L q))"

definition str_or_null :: "lib \<Rightarrow> rat option \<Rightarrow> json" where
  "str_or_null L x = (case x of None \<Rightarrow> JNull | Some q \<Rightarrow> JStr (str_decimal L q))"

definition history_of :: "market_data_snapshot \<Rightarrow> rat list" where
  "history_of m = (if mds_history m = [] then [mds_last_price m] else mds_history m)"

definition features_of :: "lib \<Rightarrow> (rat \<Rightarrow> rat) \<Rightarrow> market_data_snapshot \<Rightarrow> json dict" where
  "features_of L fsqrt m =
     [(''last_price'', JStr (str_decimal L (mds_last_price m))),
      (''spread_bps'', JStr (str_decimal L (spread_bps m))),
      (''rsi_14'', str_or_empty L (rsi (history_of m) 14)),
      (''sma_20'', str_or_empty L (sma (history_of m) 20)),
      (''sma_50'', str_or_empty L (sma (history_of m) 50)),
      (''volatility'', str_or_empty L (realized_volatility fsqrt (history_of m))),
      (''avg_daily_dollar_volume'', JStr (str_decimal L (mds_avg_daily_dollar_volume m))),
      (''sector'', JStr (mds_sector m)),
      (''session'', JStr (mds_session m)),
      (''quote_age_sec'', JInt (mds_quote_age_sec m))]"

definition market_snapshot_of :: "lib \<Rightarrow> market_data_snapshot \<Rightarrow> json dict" where
  "market_snapshot_of L m =
     [(''last_price'', JStr (str_decimal L (mds_last_price m))),
      (''bid'', str_or_null L (mds_bid m)),
      (''ask'', str_or_null L (mds_ask m)),
      (''session'', JStr (mds_session m)),
      (''quote_age_sec'', JInt (mds_quote_age_sec m)),
      (''sector'', JStr (mds_sector m))]"

definition candidate_of ::
  "lib \<Rightarrow> (rat \<Rightarrow> rat) \<Rightarrow> analyst_section \<Rightarrow> portfolio_snapshot \<Rightarrow> asset_hypothesis \<Rightarrow> market_data_snapshot
    \<Rightarrow> uuid \<Rightarrow> timestamp \<Rightarrow> trade_candidate" where
  "candidate_of L fsqrt cfg p h m cid now =
     (let fs = evaluate_filters L m cfg in
      \<lparr>candidate_id = cid, cand_symbol = hyp_symbol h, cand_side = BUY,
       cand_thesis_horizon = (if hyp_horizon h = H_INTRADAY then TH_INTRADAY else TH_SWING),
       broker_eligible = mds_tradable m, market_snapshot = market_snapshot_of L m,
       features = features_of L fsqrt m, filters = fs,
       score = score_candidate (length (filter filter_passed fs)) (length (filter (\<lambda>f. \<not> filter_passed f) fs))
                 (confidence_weight (hyp_confidence h)),
       max_notional = min (equity p * (5 / 100)) (cash p * (95 / 100)),
       stop_loss_pct = 3 / 100, expiry_at = now + minutes 15\<rparr>)"

definition analyze_hypothesis ::
  "lib \<Rightarrow> (rat \<Rightarrow> rat) \<Rightarrow> analyst_section \<Rightarrow> (string \<Rightarrow> py_error + market_data_snapshot) \<Rightarrow> portfolio_snapshot
    \<Rightarrow> asset_hypothesis \<Rightarrow> trade_candidate op" where
  "analyze_hypothesis L fsqrt cfg market p h =
     bindM (from_sum (market (hyp_symbol h))) (\<lambda>m.
     bindM utc_now (\<lambda>now. bindM uuid4 (\<lambda>cid.
     ret (candidate_of L fsqrt cfg p h m cid now))))"

definition best_first :: "trade_candidate list \<Rightarrow> trade_candidate list" where
  "best_first cs = sort_key (\<lambda>c. - score c) cs"

definition analysis_output :: "uuid \<Rightarrow> trade_candidate list \<Rightarrow> analysis_report" where
  "analysis_output snapshot all_candidates =
     (let candidates = filter (\<lambda>c. list_all filter_passed (filters c)) all_candidates;
          rejected = filter (\<lambda>c. \<not> list_all filter_passed (filters c)) all_candidates in
      \<lparr>ar_status = (if candidates \<noteq> [] then AS_PASS else AS_REJECT),
       ar_candidates = best_first candidates, ar_rejected_candidates = best_first rejected,
       ar_portfolio_snapshot_id = snapshot,
       ar_stage_summary = build_stage_summary (length candidates) (length rejected)\<rparr>)"

definition analyst_job ::
  "lib \<Rightarrow> (rat \<Rightarrow> rat) \<Rightarrow> pipeline_config \<Rightarrow> (string \<Rightarrow> py_error + market_data_snapshot)
    \<Rightarrow> (py_error + portfolio_snapshot) \<Rightarrow> job_lease \<Rightarrow> rat \<Rightarrow> bool op" where
  "analyst_job L fsqrt cfg market portfolio lease started =
     bindM (get_message L (lease_message_id lease)) (\<lambda>parent.
     bindM (from_option (ValidationError ''ResearchReport'') (validate_research L (env_payload parent))) (\<lambda>report.
     bindM (from_sum portfolio) (\<lambda>snapshot.
     bindM (save_portfolio_snapshot snapshot) (\<lambda>snapshot_id.
     bindM (mapM (analyze_hypothesis L fsqrt (cfg_analyst cfg) market snapshot) (rr_asset_hypotheses report)) (\<lambda>cs.
     let output = analysis_output snapshot_id cs in
     bindM (child_envelope parent ANALYSIS
              (build_analysis_key (env_message_id parent) (ruleset_version (cfg_analyst cfg)) (iso_time L (captured_at snapshot)))
              (dump_analysis L output)) (\<lambda>envelope.
     bindM (timed_audit envelope started) (\<lambda>audit0.
     let audit = audit0\<lparr>audit_prompt_version := Some (ruleset_version (cfg_analyst cfg))\<rparr> in
     bindM (complete_job_success L lease (Some envelope) (Some audit)
              (if ar_status output = AS_PASS then Some EXECUTION else None) 100 None
              (analysis_status_value (ar_status output))) (\<lambda>message_id.
     bindM (case message_id of
         None \<Rightarrow> ret ()
       | Some mid \<Rightarrow> save_analysis_candidates mid (ar_candidates output) (ar_rejected_candidates output)) (\<lambda>_.
     ret True)))))))))"

definition analyst_process_next ::
  "lib \<Rightarrow> (rat \<Rightarrow> rat) \<Rightarrow> pipeline_config \<Rightarrow> (string \<Rightarrow> py_error + market_data_snapshot)
    \<Rightarrow> (py_error + portfolio_snapshot) \<Rightarrow> string \<Rightarrow> bool op" where
  "analyst_process_next L fsqrt cfg market portfolio worker_id =
     bindM (lease_next_job ANALYSIS worker_id (lease_sec (cfg_queue cfg))) (\<lambda>l.
     case l of
       None \<Rightarrow> ret False
     | Some lease \<Rightarrow>
         bindM perf_counter (\<lambda>started.
         tryM (analyst_job L fsqrt cfg market portfolio lease started) (retry_or_dead_letter L cfg lease)))"

section \<open>Invariants\<close>

context pdb_invariant
begin

lemma analyst_process_next_kept: "kept (analyst_process_next L fsqrt cfg market portfolio w)"
  unfolding analyst_process_next_def analyst_job_def analyze_hypothesis_def Let_def
  by (intro stage_kept preserves_mapM db_ops_kept retry_kept)

end

lemma framed_mapM [frame]: "(\<And>x. framed (f x)) \<Longrightarrow> framed (mapM f xs)"
  unfolding framed_iff by (blast intro: preserves_mapM)

lemma analyst_job_settles: "settles (lease_job_id l) (analyst_job L fsqrt cfg market portfolio l t)"
  unfolding analyst_job_def analyze_hypothesis_def Let_def
  by (rule settles_ends settles_cases | rule settles_after | rule quiet_rules)+

interpretation analyst: stage_worker L cfg ANALYSIS w perf_counter "analyst_job L fsqrt cfg market portfolio"
  "analyst_process_next L fsqrt cfg market portfolio w"
  for L fsqrt cfg market portfolio w
  by unfold_locales (simp_all add: analyst_process_next_def quiet_basic analyst_job_settles)

lemma framed_analyst_process_next: "framed (analyst_process_next L fsqrt cfg market portfolio w)"
  unfolding analyst_process_next_def analyst_job_def analyze_hypothesis_def Let_def
  by (intro frame framed_basic framed_ops framed_retry)

section \<open>The report\<close>

lemma mapM_InrD:
  assumes "mapM f xs s = (Inr ys, s')"
  shows "list_all2 (\<lambda>x y. \<exists>t t'. f x t = (Inr y, t')) xs ys"
  using assms
proof (induction xs arbitrary: ys s s')
  case Nil
  then show ?case by (simp add: ret_def)
next
  case (Cons x xs)
  from bindM_InrD [OF Cons.prems [unfolded mapM.simps]] obtain y s1
    where y: "f x s = (Inr y, s1)" and r: "bindM (mapM f xs) (\<lambda>ys. ret (y # ys)) s1 = (Inr ys, s')" by blast
  from bindM_InrD [OF r] obtain zs s2 where zs: "mapM f xs s1 = (Inr zs, s2)" "ys = y # zs"
    by (auto simp: ret_def)
  from Cons.IH [OF zs(1)] y zs(2) show ?case by auto
qed

lemma analyze_hypothesis_InrD:
  "analyze_hypothesis L fsqrt cfg market p h s = (Inr c, s') \<Longrightarrow>
     \<exists>m cid now. market (hyp_symbol h) = Inr m \<and> c = candidate_of L fsqrt cfg p h m cid now"
  by (cases "market (hyp_symbol h)") (auto simp: analyze_hypothesis_def from_sum_def op_defs)

lemma best_first_set [simp]: "set (best_first cs) = set cs" "mset (best_first cs) = mset cs" "length (best_first cs) = length cs"
  by (simp_all add: best_first_def)

lemma best_first_Nil [simp]: "best_first cs = [] \<longleftrightarrow> cs = []"
  by (metis best_first_set(3) length_0_conv)

lemma best_first_sorted: "sorted (rev (map score (best_first cs)))"
proof -
  have "sorted (map (\<lambda>c. - score c) (best_first cs))" by (simp add: best_first_def)
  then have "sorted_wrt (\<lambda>a b. - score a \<le> - score b) (best_first cs)" by (simp add: sorted_map)
  then have "sorted_wrt (\<lambda>a b. score b \<le> score a) (best_first cs)"
    by (rule sorted_wrt_mono_rel [rotated]) simp
  then show ?thesis by (simp add: sorted_wrt_rev sorted_wrt_map)
qed

text \<open>
  The analysis report of a list of hypotheses. Every hypothesis whose symbol has
  a snapshot gives exactly one instrument, on the list of candidates if and only if the snapshot
  is tradable, not halted, in the regular session, inside the price band, inside the spread limit
  and liquid enough; both lists have their best score first; no notional exceeds a twentieth of
  the equity or 95 percent of the cash; and the report passes if and only if a candidate is left.
\<close>

theorem analysis_report_correct:
  assumes "mapM (analyze_hypothesis L fsqrt cfg market p) hyps s = (Inr cs, s')"
  shows "let out = analysis_output sid cs; all = ar_candidates out @ ar_rejected_candidates out;
             tradable = (\<lambda>m. mds_tradable m \<and> \<not> mds_halted m \<and> mds_session m = ''regular'' \<and>
               min_price cfg \<le> mds_last_price m \<and> mds_last_price m \<le> max_price cfg \<and>
               spread_bps m \<le> of_int (max_spread_bps cfg) \<and> min_avg_dollar_volume cfg \<le> mds_avg_daily_dollar_volume m) in
     mset (map cand_symbol all) = mset (map hyp_symbol hyps) \<and>
     (\<forall>c\<in>set (ar_candidates out). \<exists>m. market (cand_symbol c) = Inr m \<and> tradable m) \<and>
     (\<forall>c\<in>set (ar_rejected_candidates out). \<exists>m. market (cand_symbol c) = Inr m \<and> \<not> tradable m) \<and>
     sorted (rev (map score (ar_candidates out))) \<and> sorted (rev (map score (ar_rejected_candidates out))) \<and>
     (\<forall>c\<in>set all. max_notional c \<le> equity p / 20 \<and> max_notional c \<le> cash p * 95 / 100) \<and>
     (ar_status out = AS_PASS \<longleftrightarrow> ar_candidates out \<noteq> [])"
proof -
  have all2: "list_all2 (\<lambda>h c. \<exists>m cid now. market (hyp_symbol h) = Inr m \<and> c = candidate_of L fsqrt cfg p h m cid now) hyps cs"
    using mapM_InrD [OF assms] by (rule list.rel_mono_strong) (metis analyze_hypothesis_InrD)
  have each: "\<exists>h m cid now. market (cand_symbol c) = Inr m \<and> c = candidate_of L fsqrt cfg p h m cid now" if "c \<in> set cs" for c
  proof -
    from that all2 obtain h m cid now where "market (hyp_symbol h) = Inr m" "c = candidate_of L fsqrt cfg p h m cid now"
      by (auto simp: list_all2_conv_all_nth in_set_conv_nth)
    then show ?thesis by (auto simp: candidate_of_def Let_def)
  qed
  have "map cand_symbol cs = map hyp_symbol hyps"
    using all2 by (induction rule: list_all2_induct) (auto simp: candidate_of_def Let_def)
  moreover have "mset (ar_candidates (analysis_output sid cs) @ ar_rejected_candidates (analysis_output sid cs)) = mset cs"
    by (simp add: analysis_output_def Let_def)
  ultimately have syms: "mset (map cand_symbol (ar_candidates (analysis_output sid cs) @ ar_rejected_candidates (analysis_output sid cs)))
      = mset (map hyp_symbol hyps)"
    by (metis mset_map)
  show ?thesis
    unfolding Let_def using syms
    by (auto simp: analysis_output_def Let_def best_first_sorted dest!: each)
      (auto simp: candidate_of_def Let_def filters_passed)
qed

text \<open>
  A portfolio snapshot can be analysed against once. The worker stores the provider's
  snapshot under the snapshot's own id in every round; when that id is already stored (as with
  the static provider, which returns the same snapshot each time), the job raises before any
  candidate is built and no table changes, whatever the research report holds.
\<close>

theorem repeated_portfolio_snapshot_fails:
  assumes "p \<in> set (portfolio_snapshots (db s))"
  shows "\<exists>e s'. analyst_job L fsqrt cfg market (static_portfolio p) lease started s = (Inl e, s') \<and> db s' = db s"
proof -
  obtain r s1 where g: "get_message L (lease_message_id lease) s = (r, s1)" by fastforce
  with get_message_db have db1: "db s1 = db s" by (metis snd_conv)
  show ?thesis
  proof (cases r)
    case (Inl e)
    with g db1 show ?thesis by (simp add: analyst_job_def bindM_def)
  next
    case (Inr parent)
    show ?thesis
    proof (cases "validate_research L (env_payload parent)")
      case None
      with g Inr db1 show ?thesis by (simp add: analyst_job_def bindM_def from_option_def raise_def)
    next
      case (Some report)
      have "\<exists>r\<in>set (portfolio_snapshots (db s1)). snapshot_id r = snapshot_id p" using assms db1 by auto
      then have "\<exists>e. save_portfolio_snapshot p s1 = (Inl e, s1)"
        by (cases "conn_open s1") (simp_all add: save_portfolio_snapshot_def tx_def insert_row_def op_defs)
      then obtain e where "save_portfolio_snapshot p s1 = (Inl e, s1)" by blast
      with g Inr Some db1 show ?thesis
        by (simp add: analyst_job_def bindM_def from_option_def ret_def from_sum_def static_portfolio_def)
    qed
  qed
qed

section \<open>Evaluated examples\<close>

definition demo_portfolio :: portfolio_snapshot where
  "demo_portfolio =
     \<lparr>snapshot_id = ''s1'', captured_at = 0, account_id = ''paper'', equity = 100000, cash = 100000,
      buying_power = 100000, gross_exposure = 0, net_exposure = 0, sector_exposure = [], positions = []\<rparr>"

definition demo_market :: "market_data_snapshot dict" where
  "demo_market =
     [(''XLE'', \<lparr>mds_symbol = ''XLE'', mds_last_price = 50, mds_bid = Some (4999 / 100), mds_ask = Some (5001 / 100),
        mds_avg_daily_dollar_volume = 3000000, mds_session = ''regular'', mds_tradable = True, mds_halted = False,
        mds_quote_age_sec = 1, mds_sector = ''energy'', mds_history = []\<rparr>)]"

definition demo_hypothesis :: asset_hypothesis where
  "demo_hypothesis =
     \<lparr>hyp_symbol = ''XLE'', hyp_instrument_type = IT_ETF, hyp_direction = BEARISH, hyp_horizon = H_SWING,
      hyp_linkage_type = LT_SECTOR_PROXY, hyp_confidence = C_HIGH, hyp_tradable_universe = True,
      hyp_rationale_summary = ''r''\<rparr>"

lemma demo_analysis:
  "mapM (analyze_hypothesis demo_lib id (cfg_analyst demo_config) (static_market_data demo_market) demo_portfolio)
     [demo_hypothesis] (demo_world empty_pdb) =
   (Inr [candidate_of demo_lib id (cfg_analyst demo_config) demo_portfolio demo_hypothesis (snd (hd demo_market)) ''u'' 0],
    (demo_world empty_pdb)\<lparr>clock_reads := 1, uuid_draws := 1\<rparr>)"
  by (simp add: analyze_hypothesis_def op_defs from_sum_def static_market_data_def demo_market_def demo_hypothesis_def
      demo_world_def minutes_def seconds_def)

theorem analysis_report_correct_witness:
  "let out = analysis_output ''s1''
       [candidate_of demo_lib id (cfg_analyst demo_config) demo_portfolio demo_hypothesis (snd (hd demo_market)) ''u'' 0] in
     mset (map cand_symbol (ar_candidates out @ ar_rejected_candidates out)) = {#''XLE''#}"
  using analysis_report_correct [OF demo_analysis, of "''s1''"]
  by (auto simp: Let_def demo_hypothesis_def)

theorem repeated_portfolio_snapshot_fails_witness:
  "\<exists>e s'. analyst_job demo_lib id demo_config (static_market_data demo_market) (static_portfolio demo_portfolio)
     (lease_of ''r1'' (demo_job ANALYSIS)) 0 (demo_world ((demo_db ANALYSIS)\<lparr>portfolio_snapshots := [demo_portfolio]\<rparr>)) = (Inl e, s')
     \<and> portfolio_snapshots (db s') = [demo_portfolio]"
  using repeated_portfolio_snapshot_fails [of demo_portfolio "demo_world ((demo_db ANALYSIS)\<lparr>portfolio_snapshots := [demo_portfolio]\<rparr>)"
      demo_lib id demo_config "static_market_data demo_market" "lease_of ''r1'' (demo_job ANALYSIS)" 0]
  by (auto simp: demo_world_def)

end
