(* ===== verification/Researcher.thy ===== *)
theory Researcher
  imports Stage_Worker
begin

text \<open>
  The researcher (\<open>src/src/researcher\<close>): the ingress service that authenticates, stores
  and queues an alert, the fallback agent, and the worker that runs it.
\<close>

section \<open>Ingress\<close>

record ingress_response =
  status_code :: int
  response_body :: "json dict"

definition lower_headers :: "string dict \<Rightarrow> string dict" where
  "lower_headers headers = foldl (\<lambda>d (k, v). dict_set (str_lower k) v d) [] headers"

definition header_or_empty :: "string dict \<Rightarrow> string \<Rightarrow> string" where
  "header_or_empty headers k = (case dict_get headers k of None \<Rightarrow> [] | Some v \<Rightarrow> v)"

definition authorize :: "researcher_section \<Rightarrow> string dict \<Rightarrow> bool" where
  "authorize cfg headers =
     (let expected = webhook_bearer_token cfg in
      if expected = [] then True
      else header_or_empty headers ''authorization'' = ''Bearer '' @ expected)"

definition verify_signature :: "lib \<Rightarrow> researcher_section \<Rightarrow> string \<Rightarrow> string dict \<Rightarrow> bool" where
  "verify_signature L cfg body headers =
     (let secret = webhook_hmac_secret cfg in
      if secret = [] then True
      else let provided = header_or_empty headers ''x-sentinel-signature'' in
           if \<not> starts_with ''sha256='' provided then False
           else provided = ''sha256='' @ hmac_sha256_hexdigest L secret body)"

definition error_response :: "int \<Rightarrow> string \<Rightarrow> ingress_response" where
  "error_response code err = \<lparr>status_code = code, response_body = [(''error'', JStr err)]\<rparr>"

definition store_alert ::
  "lib \<Rightarrow> string \<Rightarrow> shift_alert_mirror \<Rightarrow> string option \<Rightarrow> ingress_response op" where
  "store_alert L schema_version shift_alert replay_source =
     (let market = mirror_market shift_alert;
          text_of = (\<lambda>k. Some (py_str (py_repr L) (jor (jget market k) (JStr [])))) in
     bindM (ensure_trace (mirror_alert_id shift_alert) (text_of ''asset_id'') (text_of ''market_slug'')
              (text_of ''event_slug'') INGEST ''persisted'') (\<lambda>trace_id.
     bindM utc_now (\<lambda>now.
     let ingested = \<lparr>ing_shift_alert = shift_alert, ing_received_at = now, ing_signature_verified = True,
                     ing_replay_source = replay_source, ing_priority = 100\<rparr> in
     bindM (new_envelope trace_id (mirror_alert_id shift_alert) None INGEST schema_version
              (build_ingest_key (mirror_alert_id shift_alert)) (dump_ingested L ingested)) (\<lambda>envelope.
     bindM (upsert_message L envelope) (\<lambda>(message_id, inserted).
     bindM (if inserted
            then bindM (enqueue_job trace_id RESEARCH message_id (ing_priority ingested) None) (\<lambda>_. ret ())
            else ret ()) (\<lambda>_.
     ret \<lparr>status_code = 202,
          response_body = [(''trace_id'', JStr trace_id), (''message_id'', JStr message_id),
            (''duplicate'', JBool (\<not> inserted)), (''stage'', JStr (stage_value RESEARCH))]\<rparr>))))))"

text \<open>
  \<open>validation_errors\<close> stands for \<open>exc.errors()\<close>. Pydantic reports malformed JSON
  as a validation error too, so the handler of \<open>JSONDecodeError\<close> is not reached.
\<close>

definition handle_alert ::
  "lib \<Rightarrow> (string \<Rightarrow> json) \<Rightarrow> pipeline_config \<Rightarrow> string \<Rightarrow> string \<Rightarrow> string dict \<Rightarrow> string option
    \<Rightarrow> ingress_response op" where
  "handle_alert L validation_errors cfg schema_version body headers replay_source =
     (let header_map = lower_headers headers in
      if \<not> authorize (cfg_researcher cfg) header_map then ret (error_response 401 ''unauthorized'')
      else if \<not> verify_signature L (cfg_researcher cfg) body header_map then ret (error_response 401 ''invalid_signature'')
      else case validate_mirror_json L body of
          None \<Rightarrow> ret \<lparr>status_code = 400,
              response_body = [(''error'', JStr ''invalid_payload''), (''details'', validation_errors body)]\<rparr>
        | Some shift_alert \<Rightarrow>
            let header_alert_id = header_or_empty header_map ''x-sentinel-alert-id'' in
            if header_alert_id \<noteq> [] \<and> header_alert_id \<noteq> mirror_alert_id shift_alert
            then ret (error_response 400 ''alert_id_mismatch'')
            else store_alert L schema_version shift_alert replay_source)"

section \<open>Fallback agent\<close>

definition hypothesis_of :: "lib \<Rightarrow> json dict \<Rightarrow> asset_hypothesis option" where
  "hypothesis_of L item =
     (let text = (\<lambda>k d. py_str (py_repr L) (jget_default item k (JStr d))) in
      case (dict_get item ''symbol'', instrument_type_of (text ''instrument_type'' ''equity''),
            direction_of (text ''direction'' ''bullish''), horizon_of (text ''horizon'' ''intraday''),
            linkage_type_of (text ''linkage_type'' ''macro_proxy''), confidence_of (text ''confidence'' ''medium'')) of
        (Some symb, Some it, Some dir, Some hor, Some link, Some conf) \<Rightarrow>
          Some \<lparr>hyp_symbol = str_upper (py_str (py_repr L) symb), hyp_instrument_type = it, hyp_direction = dir,
                hyp_horizon = hor, hyp_linkage_type = link, hyp_confidence = conf,
                hyp_tradable_universe = truthy (jget_default item ''tradable_universe'' (JBool True)),
                hyp_rationale_summary = text ''rationale_summary'' ''Provided by upstream replay metadata.''\<rparr>
      | _ \<Rightarrow> None)"

definition hypotheses_of :: "lib \<Rightarrow> json dict \<Rightarrow> asset_hypothesis list" where
  "hypotheses_of L metadata =
     (case jget_default metadata ''asset_hypotheses'' (JList []) of
        JList items \<Rightarrow> List.map_filter (\<lambda>item. case item of JDict d \<Rightarrow> hypothesis_of L d | _ \<Rightarrow> None) items
      | _ \<Rightarrow> [])"

definition catalyst_of :: "lib \<Rightarrow> json dict \<Rightarrow> catalyst_type" where
  "catalyst_of L market =
     (let category = str_lower (py_str (py_repr L) (jor (jget market ''category'') (JStr []))) in
      if contains_str ''economic'' category then CT_ECONOMIC_DATA
      else if contains_str ''politic'' category \<or> contains_str ''policy'' category then CT_POLICY
      else CT_OTHER)"

definition market_url :: "lib \<Rightarrow> json dict \<Rightarrow> string" where
  "market_url L market = py_str (py_repr L) (jor (jget market ''polymarket_url'') (JStr []))"

definition evidence_of :: "lib \<Rightarrow> json dict \<Rightarrow> evidence_item list op" where
  "evidence_of L market =
     (if market_url L market = [] then ret []
      else bindM utc_now (\<lambda>now.
        ret [\<lparr>ev_url = market_url L market,
              ev_title = py_str (py_repr L)
                (jor (jor (jget market ''event_title'') (jget market ''question'')) (JStr ''Polymarket event'')),
              ev_publisher = ''Polymarket'', ev_published_at = None, ev_retrieved_at = now,
              ev_source_tier = ST_SECONDARY, ev_relevance_score = 1 / 4, ev_claim_tag = ''market_context''\<rparr>]))"

definition fallback_analyze :: "lib \<Rightarrow> ingested_alert \<Rightarrow> research_report op" where
  "fallback_analyze L alert =
     (let market = mirror_market (ing_shift_alert alert);
          hypotheses = hypotheses_of L (mirror_metadata (ing_shift_alert alert)) in
     bindM (evidence_of L market) (\<lambda>evidence.
     ret \<lparr>rr_status = (if hypotheses \<noteq> [] \<and> evidence \<noteq> [] then RS_PASS else RS_DEFER),
          rr_catalyst_type = catalyst_of L market,
          rr_catalyst_summary = py_str (py_repr L) (jor (jget market ''question'') (JStr ''Catalyst requires external research.'')),
          rr_catalyst_started_at = None, rr_freshness_sec = Some 0, rr_evidence = evidence,
          rr_asset_hypotheses = hypotheses,
          rr_unsupported_claims = (if hypotheses \<noteq> [] then []
             else [''No asset hypotheses were available from research providers.'']),
          rr_stage_summary = (if hypotheses \<noteq> [] \<and> evidence \<noteq> []
             then ''Research fallback passed with '' @ str_nat (length hypotheses) @ '' replay-provided asset hypothesis entries.''
             else ''No external research provider configured, so the alert was persisted but deferred.'')\<rparr>))"

section \<open>Worker\<close>

text \<open>With the default agent, whose model name is \<open>None\<close> and whose prompt version is the configured one.\<close>

definition researcher_job :: "lib \<Rightarrow> pipeline_config \<Rightarrow> job_lease \<Rightarrow> rat \<Rightarrow> bool op" where
  "researcher_job L cfg lease started =
     bindM (get_message L (lease_message_id lease)) (\<lambda>parent.
     bindM (from_option (ValidationError ''IngestedAlert'') (validate_ingested L (env_payload parent))) (\<lambda>ingested.
     bindM (fallback_analyze L ingested) (\<lambda>report.
     bindM (child_envelope parent RESEARCH
              (build_research_key (env_message_id parent) (rs_prompt_version (cfg_researcher cfg)))
              (dump_research L report)) (\<lambda>envelope.
     bindM (timed_audit envelope started) (\<lambda>audit0.
     let audit = audit0\<lparr>audit_model_name := None, audit_prompt_version := Some (rs_prompt_version (cfg_researcher cfg))\<rparr> in
     bindM (complete_job_success L lease (Some envelope) (Some audit)
              (if rr_status report = RS_PASS then Some ANALYSIS else None) 100 None
              (research_status_value (rr_status report))) (\<lambda>message_id.
     bindM (case message_id of None \<Rightarrow> ret () | Some mid \<Rightarrow> save_research_evidence mid (rr_evidence report)) (\<lambda>_.
     ret True)))))))"

definition researcher_process_next :: "lib \<Rightarrow> pipeline_config \<Rightarrow> string \<Rightarrow> bool op" where
  "researcher_process_next L cfg worker_id =
     bindM (lease_next_job RESEARCH worker_id (lease_sec (cfg_queue cfg))) (\<lambda>l.
     case l of
       None \<Rightarrow> ret False
     | Some lease \<Rightarrow>
         bindM perf_counter (\<lambda>started.
         tryM (researcher_job L cfg lease started) (retry_or_dead_letter L cfg lease)))"

section \<open>Invariants\<close>

context pdb_invariant
begin

lemma handle_alert_kept: "kept (handle_alert L ve cfg sv body headers src)"
  unfolding handle_alert_def store_alert_def Let_def by (intro stage_kept db_ops_kept)

lemma researcher_process_next_kept: "kept (researcher_process_next L cfg w)"
  unfolding researcher_process_next_def researcher_job_def fallback_analyze_def evidence_of_def Let_def
  by (intro stage_kept db_ops_kept retry_kept)

end

lemma framed_handle_alert: "framed (handle_alert L ve cfg sv body headers src)"
  unfolding handle_alert_def store_alert_def Let_def by (intro frame framed_basic framed_ops)

lemma researcher_job_settles: "settles (lease_job_id l) (researcher_job L cfg l t)"
  unfolding researcher_job_def fallback_analyze_def evidence_of_def Let_def
  by (rule settles_ends settles_cases | rule settles_after | rule quiet_rules)+

interpretation researcher: stage_worker L cfg RESEARCH w perf_counter "researcher_job L cfg" "researcher_process_next L cfg w"
  for L cfg w
  by unfold_locales (simp_all add: researcher_process_next_def quiet_basic researcher_job_settles)

lemma framed_researcher_process_next: "framed (researcher_process_next L cfg w)"
  unfolding researcher_process_next_def researcher_job_def fallback_analyze_def evidence_of_def Let_def
  by (intro frame framed_basic framed_ops framed_retry)

section \<open>Properties\<close>

definition accepted :: "lib \<Rightarrow> pipeline_config \<Rightarrow> string \<Rightarrow> string dict \<Rightarrow> shift_alert_mirror option" where
  "accepted L cfg body headers =
     (let h = lower_headers headers in
      if authorize (cfg_researcher cfg) h \<and> verify_signature L (cfg_researcher cfg) body h
      then case validate_mirror_json L body of
             None \<Rightarrow> None
           | Some a \<Rightarrow> if header_or_empty h ''x-sentinel-alert-id'' \<in> {[], mirror_alert_id a} then Some a else None
      else None)"

lemma handle_alert_accepted:
  "accepted L cfg body headers = Some a \<Longrightarrow> handle_alert L ve cfg sv body headers src = store_alert L sv a src"
  by (auto simp: accepted_def handle_alert_def Let_def split: if_splits option.splits)


section \<open>Deliveries of the same alert\<close>

definition trace_of_alert :: "string \<Rightarrow> pdb \<Rightarrow> trace_row option" where
  "trace_of_alert aid d = List.find (\<lambda>r. tr_source_alert_id r = aid) (pipeline_traces d)"

lemma find_map_same: "(\<And>x. P (f x) = P x) \<Longrightarrow> List.find P (map f xs) = map_option f (List.find P xs)"
  by (induction xs) auto

lemma trace_of_alert_update:
  "map_option tr_trace_id (trace_of_alert aid (update_trace t st status now d)) = map_option tr_trace_id (trace_of_alert aid d)"
proof -
  have "trace_of_alert aid (update_trace t st status now d) =
      map_option (\<lambda>r. if tr_trace_id r = t then r\<lparr>tr_current_stage := st, tr_status := status, tr_updated_at := now\<rparr> else r)
        (trace_of_alert aid d)"
    unfolding trace_of_alert_def update_trace_def by (simp add: find_map_same)
  then show ?thesis by (cases "trace_of_alert aid d") simp_all
qed

lemma ensure_trace_InrD:
  assumes "ensure_trace aid a b c st status s = (Inr t, s')"
  shows "conn_open s' \<and> map_option tr_trace_id (trace_of_alert aid (db s')) = Some t \<and>
    stage_messages (db s') = stage_messages (db s) \<and> stage_jobs (db s') = stage_jobs (db s)"
proof (cases "trace_of_alert aid (db s)")
  case None
  with assms show ?thesis
    by (auto simp: ensure_trace_def trace_of_alert_def op_defs tx_def insert_row_def find_append split: if_splits)
next
  case (Some r)
  with assms have "conn_open s'" "t = tr_trace_id r"
      "db s' = update_trace (tr_trace_id r) st status (clock s (clock_reads s)) (db s)"
    by (auto simp: ensure_trace_def trace_of_alert_def op_defs tx_def split: if_splits)
  with Some show ?thesis by (simp add: trace_of_alert_update)
qed

lemma ensure_trace_known:
  assumes "conn_open s" "trace_of_alert aid (db s) = Some r"
  shows "ensure_trace aid a b c st status s =
    (Inr (tr_trace_id r), s\<lparr>clock_reads := Suc (clock_reads s),
       db := update_trace (tr_trace_id r) st status (clock s (clock_reads s)) (db s)\<rparr>)"
  using assms by (simp add: ensure_trace_def trace_of_alert_def op_defs tx_def)

lemma enqueue_job_frame:
  assumes "enqueue_job t st m p av s = (Inr j, s')"
  shows "conn_open s' = conn_open s \<and> pipeline_traces (db s') = pipeline_traces (db s) \<and> stage_messages (db s') = stage_messages (db s)"
  using tx_InrD [OF assms [unfolded enqueue_job_def]]
  by (auto dest!: enqueue_job_conn_InrD simp: Let_def split: option.splits)

lemma store_alert_InrD:
  assumes "store_alert L sv a src s = (Inr r, s')"
  shows "conn_open s' \<and> (\<exists>t m. trace_of_alert (mirror_alert_id a) (db s') = Some t \<and>
    message_by_key (build_ingest_key (mirror_alert_id a)) (db s') = Some m \<and> status_code r = 202 \<and>
    jget (response_body r) ''trace_id'' = JStr (tr_trace_id t) \<and> jget (response_body r) ''message_id'' = JStr (msg_message_id m))"
proof -
  let ?aid = "mirror_alert_id a" and ?key = "build_ingest_key (mirror_alert_id a)"
  from assms obtain t s1 where t: "ensure_trace ?aid (Some (py_str (py_repr L) (jor (jget (mirror_market a) ''asset_id'') (JStr []))))
      (Some (py_str (py_repr L) (jor (jget (mirror_market a) ''market_slug'') (JStr []))))
      (Some (py_str (py_repr L) (jor (jget (mirror_market a) ''event_slug'') (JStr [])))) INGEST ''persisted'' s = (Inr t, s1)"
    by (auto simp: store_alert_def Let_def dest!: bindM_InrD)
  define e where "e = \<lparr>env_message_id = uuid_source s1 (uuid_draws s1), env_trace_id = t,
      env_source_alert_id = mirror_alert_id a, env_parent_message_id = None, env_stage = INGEST, env_schema_version = sv,
      env_idempotency_key = ?key, env_created_at = clock s1 (Suc (clock_reads s1)),
      env_payload = dump_ingested L \<lparr>ing_shift_alert = a, ing_received_at = clock s1 (clock_reads s1),
        ing_signature_verified = True, ing_replay_source = src, ing_priority = 100\<rparr>\<rparr>"
  define s2 where "s2 = s1\<lparr>uuid_draws := Suc (uuid_draws s1), clock_reads := Suc (Suc (clock_reads s1))\<rparr>"
  have e: "env_idempotency_key e = ?key" "db s2 = db s1" "conn_open s2 = conn_open s1"
    by (simp_all add: e_def s2_def)
  from assms t obtain mid ins s3 where u: "upsert_message L e s2 = (Inr (mid, ins), s3)"
      and q: "(if ins then bindM (enqueue_job t RESEARCH mid 100 None) (\<lambda>_. ret ()) else ret ()) s3 = (Inr (), s')"
      and r: "status_code r = 202" "jget (response_body r) ''trace_id'' = JStr t" "jget (response_body r) ''message_id'' = JStr mid"
    by (auto simp: store_alert_def Let_def new_envelope_def utc_now_def uuid4_def ret_def bindM_def e_def s2_def
        split: prod.splits sum.splits cong: if_cong)
  from upsert_message_InrD [OF u] have "upsert_message_conn L e s2 = (Inr (mid, ins), s3)" "conn_open s2" by auto
  from upsert_message_conn_InrD [OF this(1)] this(2) e have s3: "conn_open s3" "pipeline_traces (db s3) = pipeline_traces (db s1)"
      "\<exists>m. message_by_key ?key (db s3) = Some m \<and> msg_message_id m = mid"
    by (auto simp: message_by_key_snoc message_of_def split: option.splits)
  have "conn_open s' \<and> pipeline_traces (db s') = pipeline_traces (db s3) \<and> stage_messages (db s') = stage_messages (db s3)"
  proof (cases ins)
    case True
    with q obtain j s4 where "enqueue_job t RESEARCH mid 100 None s3 = (Inr j, s4)" "s' = s4"
      by (auto simp: bindM_def ret_def split: prod.splits sum.splits)
    with enqueue_job_frame s3(1) show ?thesis by metis
  next
    case False
    with q s3(1) show ?thesis by (simp add: ret_def)
  qed
  with s3 ensure_trace_InrD [OF t] r show ?thesis
    by (auto simp: trace_of_alert_def message_by_key_def)
qed

lemma store_alert_known:
  assumes "conn_open s" "trace_of_alert (mirror_alert_id a) (db s) = Some t"
    "message_by_key (build_ingest_key (mirror_alert_id a)) (db s) = Some m"
  shows "\<exists>s'. store_alert L sv a src s =
      (Inr \<lparr>status_code = 202, response_body = [(''trace_id'', JStr (tr_trace_id t)), (''message_id'', JStr (msg_message_id m)),
          (''duplicate'', JBool True), (''stage'', JStr ''research'')]\<rparr>, s') \<and>
    stage_messages (db s') = stage_messages (db s) \<and> stage_jobs (db s') = stage_jobs (db s)"
  using assms
  by (simp add: store_alert_def Let_def bindM_def ensure_trace_known utc_now_def new_envelope_def uuid4_def ret_def
      upsert_message_def tx_def upsert_message_conn_def asks_def)

text \<open>
  C35 (functional): a delivered alert is stored and queued once. After a delivery that was answered
  with 202, any further delivery of an alert with the same id that passes the checks is answered
  with 202 as a duplicate, names the same trace and message, and adds no message and no job.
\<close>

theorem handle_alert_idempotent:
  assumes "accepted L cfg body headers = Some a" and "accepted L cfg body' headers' = Some a'"
    and "mirror_alert_id a' = mirror_alert_id a"
    and "handle_alert L ve cfg sv body headers src s = (Inr r, s')"
  shows "\<exists>r' s''. handle_alert L ve cfg sv body' headers' src' s' = (Inr r', s'') \<and> status_code r' = 202 \<and>
    jget (response_body r') ''trace_id'' = jget (response_body r) ''trace_id'' \<and>
    jget (response_body r') ''message_id'' = jget (response_body r) ''message_id'' \<and>
    jget (response_body r') ''duplicate'' = JBool True \<and>
    stage_messages (db s'') = stage_messages (db s') \<and> stage_jobs (db s'') = stage_jobs (db s')"
proof -
  from assms(4) handle_alert_accepted [OF assms(1)] have "store_alert L sv a src s = (Inr r, s')" by simp
  from store_alert_InrD [OF this] obtain t m where tm: "conn_open s'" "trace_of_alert (mirror_alert_id a) (db s') = Some t"
      "message_by_key (build_ingest_key (mirror_alert_id a)) (db s') = Some m"
      "jget (response_body r) ''trace_id'' = JStr (tr_trace_id t)" "jget (response_body r) ''message_id'' = JStr (msg_message_id m)"
    by blast
  from store_alert_known [of s' a' t m L sv src'] tm assms(3) show ?thesis
    unfolding handle_alert_accepted [OF assms(2)] by auto
qed

text \<open>
  An alert whose message is stored is never queued again. Storing the message and
  queueing its job are two transactions; if the process stops between them, the redelivered alert
  is answered as a duplicate and no job is created, so no worker ever sees it.
\<close>

theorem stored_alert_not_requeued:
  assumes "accepted L cfg body headers = Some a" and "conn_open s"
    and "trace_of_alert (mirror_alert_id a) (db s) = Some t"
    and "message_by_key (build_ingest_key (mirror_alert_id a)) (db s) = Some m"
    and "\<forall>j\<in>set (stage_jobs (db s)). job_message_id j \<noteq> msg_message_id m"
  shows "\<exists>r s'. handle_alert L ve cfg sv body headers src s = (Inr r, s') \<and> status_code r = 202 \<and>
    (\<forall>j\<in>set (stage_jobs (db s')). job_message_id j \<noteq> msg_message_id m)"
  using store_alert_known [OF assms(2,3,4), of L sv src] assms(5)
  unfolding handle_alert_accepted [OF assms(1)] by auto

section \<open>The fallback report\<close>

text \<open>
  The fallback agent lets an alert through exactly when the market has a URL and
  the replay metadata lists at least one well-formed hypothesis; it keeps the well-formed
  hypotheses in their order, and it changes no table.
\<close>

theorem fallback_analyze_pass:
  "\<exists>report s'. fallback_analyze L alert s = (Inr report, s') \<and> db s' = db s \<and>
     rr_asset_hypotheses report = hypotheses_of L (mirror_metadata (ing_shift_alert alert)) \<and>
     (rr_status report = RS_PASS \<longleftrightarrow>
        market_url L (mirror_market (ing_shift_alert alert)) \<noteq> [] \<and>
        (\<exists>items d h. jget (mirror_metadata (ing_shift_alert alert)) ''asset_hypotheses'' = JList items \<and>
           JDict d \<in> set items \<and> hypothesis_of L d = Some h))"
proof -
  let ?md = "mirror_metadata (ing_shift_alert alert)"
  have "hypotheses_of L ?md \<noteq> [] \<longleftrightarrow> (\<exists>items d h. jget ?md ''asset_hypotheses'' = JList items \<and>
      JDict d \<in> set items \<and> hypothesis_of L d = Some h)"
  proof (cases "jget_default ?md ''asset_hypotheses'' (JList [])")
    case (JList items)
    have "List.map_filter g items \<noteq> [] \<longleftrightarrow> (\<exists>x\<in>set items. \<exists>y. g x = Some y)" for g :: "json \<Rightarrow> asset_hypothesis option"
      by (induction items) (auto simp: map_filter_simps split: option.splits)
    moreover have "(case x of JDict d \<Rightarrow> hypothesis_of L d | _ \<Rightarrow> None) = Some y \<longleftrightarrow> (\<exists>d. x = JDict d \<and> hypothesis_of L d = Some y)" for x y
      by (cases x) auto
    ultimately show ?thesis
      using JList by (auto simp: hypotheses_of_def jget_def jget_default_def split: option.splits)
  qed (auto simp: hypotheses_of_def jget_def jget_default_def split: option.splits)
  then show ?thesis
    by (auto simp: fallback_analyze_def Let_def evidence_of_def op_defs)
qed

section \<open>Evaluated examples\<close>

definition demo_mirror :: shift_alert_mirror where
  "demo_mirror =
     \<lparr>mirror_alert_id = ''a1'', mirror_alert_level = ''warning'', mirror_alert_level_label = ''Warning'',
      mirror_timestamp_iso = ''t'', mirror_timestamp_ms = 0, mirror_market = [],
      mirror_shift = \<lparr>ssm_direction = ''up'', ssm_delta_pct = 5, ssm_signed_delta_pct = 5, ssm_price_start = 1 / 2,
        ssm_price_end = 11 / 20, ssm_price_current = 11 / 20, ssm_window_sec = 300, ssm_ticks_in_window = 4\<rparr>,
      mirror_signal_quality = \<lparr>sqm_signal_source = ''trade'', sqm_best_bid = None, sqm_best_ask = None, sqm_spread = None,
        sqm_quote_age_sec = None, sqm_liquidity_bucket = ''low'', sqm_confidence = ''low''\<rparr>,
      mirror_before_state = None, mirror_metadata = []\<rparr>"

definition ingress_lib :: lib where
  "ingress_lib = demo_lib\<lparr>validate_mirror_json := (\<lambda>_. Some demo_mirror)\<rparr>"

lemma demo_accepted: "accepted ingress_lib demo_config ''{}'' [] = Some demo_mirror"
  by (simp add: accepted_def ingress_lib_def demo_defs authorize_def verify_signature_def lower_headers_def header_or_empty_def)


theorem handle_alert_idempotent_witness:
  "\<exists>r s' r' s''. handle_alert ingress_lib (\<lambda>_. JNull) demo_config ''v1'' ''{}'' [] None (demo_world empty_pdb) = (Inr r, s') \<and>
     handle_alert ingress_lib (\<lambda>_. JNull) demo_config ''v1'' ''{}'' [] None s' = (Inr r', s'') \<and>
     jget (response_body r') ''duplicate'' = JBool True \<and> stage_jobs (db s'') = stage_jobs (db s')"
proof -
  have "\<exists>r s'. handle_alert ingress_lib (\<lambda>_. JNull) demo_config ''v1'' ''{}'' [] None (demo_world empty_pdb) = (Inr r, s')"
    unfolding handle_alert_accepted [OF demo_accepted]
    by (simp add: store_alert_def Let_def ensure_trace_def upsert_message_def upsert_message_conn_def enqueue_job_def
        enqueue_job_conn_def new_envelope_def op_defs tx_def insert_row_def demo_world_def empty_pdb_def message_by_key_def
        message_of_def demo_mirror_def)
  then obtain r s' where "handle_alert ingress_lib (\<lambda>_. JNull) demo_config ''v1'' ''{}'' [] None (demo_world empty_pdb) = (Inr r, s')"
    by blast
  from handle_alert_idempotent [OF demo_accepted demo_accepted refl this, of None] this show ?thesis by blast
qed

theorem stored_alert_not_requeued_witness:
  "\<exists>r s'. handle_alert ingress_lib (\<lambda>_. JNull) demo_config ''v1'' ''{}'' [] None
       (demo_world (empty_pdb\<lparr>pipeline_traces := [demo_trace],
          stage_messages := [demo_message\<lparr>msg_idempotency_key := ''scout:a1''\<rparr>]\<rparr>)) = (Inr r, s') \<and>
     status_code r = 202 \<and> ''m1'' \<notin> set (map job_message_id (stage_jobs (db s')))"
proof -
  have "\<exists>r s'. handle_alert ingress_lib (\<lambda>_. JNull) demo_config ''v1'' ''{}'' [] None
       (demo_world (empty_pdb\<lparr>pipeline_traces := [demo_trace],
          stage_messages := [demo_message\<lparr>msg_idempotency_key := ''scout:a1''\<rparr>]\<rparr>)) = (Inr r, s') \<and>
     status_code r = 202 \<and> (\<forall>j\<in>set (stage_jobs (db s')). job_message_id j \<noteq> ''m1'')"
    using stored_alert_not_requeued [OF demo_accepted, of "demo_world (empty_pdb\<lparr>pipeline_traces := [demo_trace],
        stage_messages := [demo_message\<lparr>msg_idempotency_key := ''scout:a1''\<rparr>]\<rparr>)" demo_trace
        "demo_message\<lparr>msg_idempotency_key := ''scout:a1''\<rparr>" "\<lambda>_. JNull" "''v1''" None]
    by (simp add: demo_world_def empty_pdb_def demo_trace_def demo_message_def demo_mirror_def trace_of_alert_def
        message_by_key_def build_ingest_key_def)
  then obtain r s' where *: "handle_alert ingress_lib (\<lambda>_. JNull) demo_config ''v1'' ''{}'' [] None
       (demo_world (empty_pdb\<lparr>pipeline_traces := [demo_trace],
          stage_messages := [demo_message\<lparr>msg_idempotency_key := ''scout:a1''\<rparr>]\<rparr>)) = (Inr r, s')"
    "status_code r = 202" "\<forall>j\<in>set (stage_jobs (db s')). job_message_id j \<noteq> ''m1''" by blast
  from *(3) have "''m1'' \<notin> set (map job_message_id (stage_jobs (db s')))" by auto
  with *(1,2) show ?thesis by blast
qed

end
