(* ===== verification/Round_Evaluation.thy ===== *)
theory Round_Evaluation
  imports Executor_Safety Outcome_Requeue Analyst_Worker Researcher
begin

text \<open>
  Rounds that go through: what a worker's round computes when the job it leases names a message
  that can be read and the identifiers it draws are new.
\<close>

section \<open>Leasing and reading\<close>

definition envelope_of :: "message_row \<Rightarrow> trace_row \<Rightarrow> json \<Rightarrow> pipeline_envelope" where
  "envelope_of m t payload =
     \<lparr>env_message_id = msg_message_id m, env_trace_id = msg_trace_id m, env_source_alert_id = tr_source_alert_id t,
      env_parent_message_id = msg_parent_message_id m, env_stage = msg_stage m, env_schema_version = msg_schema_version m,
      env_idempotency_key = msg_idempotency_key m, env_created_at = msg_created_at m, env_payload = payload\<rparr>"

definition reads :: "lib \<Rightarrow> uuid \<Rightarrow> pdb \<Rightarrow> pipeline_envelope \<Rightarrow> bool" where
  "reads L i d p \<longleftrightarrow> (\<exists>m t payload. find_message i d = Some m \<and> find_trace (msg_trace_id m) d = Some t \<and>
     json_loads L (msg_payload_jsonb m) = Some payload \<and> p = envelope_of m t payload)"

lemma get_message_reads: "conn_open s \<Longrightarrow> reads L i (db s) p \<Longrightarrow> get_message L i s = (Inr p, s)"
  by (auto simp: reads_def envelope_of_def get_message_def source_alert_id_for_trace_def tx_def op_defs)

lemma reads_id: "reads L i d p \<Longrightarrow> env_message_id p = i"
  by (auto simp: reads_def envelope_of_def find_message_def dest!: find_Some_in)

text \<open>The job is the next of its stage, its message can be read, and the run's identifier is new.\<close>

definition due_job :: "lib \<Rightarrow> stage_name \<Rightarrow> job_row \<Rightarrow> pipeline_envelope \<Rightarrow> world \<Rightarrow> bool" where
  "due_job L st j p s \<longleftrightarrow> conn_open s \<and> next_ready st (clock s (clock_reads s)) (db s) = Some j \<and>
     (\<forall>r\<in>set (stage_runs (db s)). run_id r \<noteq> uuid_source s (uuid_draws s)) \<and> reads L (job_message_id j) (db s) p"

abbreviation run_lease :: "job_row \<Rightarrow> world \<Rightarrow> job_lease" where
  "run_lease j s \<equiv> lease_of (uuid_source s (uuid_draws s)) j"

lemma due_job_in: "due_job L st j p s \<Longrightarrow> j \<in> set (stage_jobs (db s)) \<and> job_stage j = st"
  by (auto simp: due_job_def next_ready_def ready_def dest!: first_min_in)

lemma due_job_leases:
  assumes "due_job L st j p s"
  shows "lease_next_job st w n s = (Inr (Some (run_lease j s)), leased_world w n j s)"
proof -
  have "\<exists>r\<in>set (stage_jobs (update_job (job_id j) f (db s))). job_id r = job_id j" if "\<And>x. job_id (f x) = job_id x" for f
    using due_job_in [OF assms] that by (auto simp: update_job_id_ex)
  with assms show ?thesis
    by (auto simp: due_job_def reads_def find_message_def lease_next_job_def op_defs tx_def insert_row_def leased_world_def
        Let_def lease_update_def)
qed

lemma leased_world_reads:
  "reads L i (db (leased_world w n j s)) p = reads L i (db s) p" "conn_open (leased_world w n j s) = conn_open s"
  "stage_messages (db (leased_world w n j s)) = stage_messages (db s)"
  "pipeline_traces (db (leased_world w n j s)) = pipeline_traces (db s)"
  "approval_requests (db (leased_world w n j s)) = approval_requests (db s)"
  "broker_orders (db (leased_world w n j s)) = broker_orders (db s)"
  "broker_calls (leased_world w n j s) = broker_calls s"
  by (simp_all add: reads_def leased_world_def Let_def find_message_def find_trace_def)

lemma due_job_reads:
  "due_job L st j p s \<Longrightarrow> get_message L (job_message_id j) (leased_world w n j s) = (Inr p, leased_world w n j s)"
  by (rule get_message_reads) (simp_all add: due_job_def leased_world_reads)

context stage_worker
begin

lemma due_round:
  "due_job L st j p s \<Longrightarrow> process_next s =
     bindM start (\<lambda>t. tryM (job (run_lease j s) t) (retry_or_dead_letter L cfg (run_lease j s)))
       (leased_world worker_id (lease_sec (cfg_queue cfg)) j s)"
  by (simp add: round bindM_def due_job_leases)

end

section \<open>The approval worker\<close>

lemma framed_calls_snd: "framed m \<Longrightarrow> broker_calls (snd (m s)) = broker_calls s"
  by (metis framed_calls prod.collapse)

lemma bindM_framed_calls: "(\<And>x. framed (f x)) \<Longrightarrow> broker_calls (snd (bindM m f s)) = broker_calls (snd (m s))"
  by (auto simp: bindM_def framed_calls_snd split: prod.split sum.split)

lemma tryM_framed_calls: "(\<And>e. framed (h e)) \<Longrightarrow> broker_calls (snd (tryM m h s)) = broker_calls (snd (m s))"
  by (auto simp: tryM_def framed_calls_snd split: prod.split sum.split)

text \<open>An order that is not recorded is sent.\<close>

lemma submit_order_sends:
  assumes "conn_open s" "order_by_client_id (order_id_of L cfg parent cand) (db s) = None"
  shows "broker_calls (snd (submit_order L cfg br lease parent intent cand checks started stage s)) =
    broker_calls s @ [(intent, order_id_of L cfg parent cand)]"
proof -
  have get: "get_broker_order_by_client_order_id (order_id_of L cfg parent cand) s = (Inr None, s)"
    using assms by (simp add: get_broker_order_by_client_order_id_def tx_def op_defs)
  have "broker_calls (snd (broker_place br intent c s)) = broker_calls s @ [(intent, c)]" for c
    by (simp add: broker_place_def op_defs)
  moreover have "bindM (get_broker_order_by_client_order_id (order_id_of L cfg parent cand)) f s = f None s"
    for f :: "order_row option \<Rightarrow> bool op" by (simp add: bindM_def get)
  ultimately show ?thesis
    unfolding submit_order_def Let_def order_id_of_def [symmetric]
    by (simp add: bindM_framed_calls frame framed_basic framed_ops)
qed


text \<open>
  An approved order is sent. When the next job of the approval stage names a
  message with a valid intent whose latest approval request is approved, and no order is recorded
  for it, the round sends exactly that intent to the broker, under the stable identifier of its
  trace and candidate, whatever the broker answers.
\<close>

lemma approved_job_sends:
  assumes due: "due_job L APPROVAL j p s" and payload: "env_payload p = JDict d" "dict_get d ''intent'' = Some raw"
    and intent: "validate_intent L raw = Some intent"
    and request: "approval_by_message (job_message_id j) (db s) = Some a" "ap_status a = ''approved''"
    and new: "order_by_client_id (order_id_of L cfg p (intent_candidate_id intent)) (db s) = None"
  shows "broker_calls (snd (approval_process_next L cfg br w s)) =
    broker_calls s @ [(intent, order_id_of L cfg p (intent_candidate_id intent))]"
proof -
  let ?s1 = "leased_world w (lease_sec (cfg_queue cfg)) j s"
  have open1: "conn_open ?s1" using due by (simp add: due_job_def leased_world_reads)
  have "get_approval_request_by_message (env_message_id p) ?s1 = (Inr (Some a), ?s1)"
    using request reads_id due open1
    by (auto simp: due_job_def get_approval_request_by_message_def tx_def op_defs approval_by_message_def leased_world_reads)
  moreover have "get_message L (lease_message_id (run_lease j s)) ?s1 = (Inr p, ?s1)"
    using due_job_reads [OF due] by (simp add: lease_of_def)
  ultimately have "approval_job L cfg br (run_lease j s) ?s1 =
      bindM perf_counter (\<lambda>t. submit_order L cfg br (run_lease j s) p intent (intent_candidate_id intent) [] t APPROVAL) ?s1"
    using request payload intent by (simp add: approval_job_def bindM_def expire_if_due_def ret_def from_option_def)
  then have "broker_calls (snd (approval_job L cfg br (run_lease j s) ?s1)) =
      broker_calls s @ [(intent, order_id_of L cfg p (intent_candidate_id intent))]"
    using new open1
    by (simp add: bindM_def perf_counter_def submit_order_sends order_by_client_id_def leased_world_reads)
  then show ?thesis
    by (simp add: approval.due_round [OF due] tryM_framed_calls framed_retry)
qed

section \<open>Finishing a job with an output\<close>

text \<open>Identifiers not drawn yet are in no table.\<close>

definition used_ids :: "pdb \<Rightarrow> uuid set" where
  "used_ids d = msg_message_id ` set (stage_messages d) \<union> job_id ` set (stage_jobs d) \<union>
     job_message_id ` set (stage_jobs d) \<union> run_id ` set (stage_runs d) \<union>
     er_evidence_id ` set (research_evidence d) \<union> (\<lambda>r. candidate_id (cr_item r)) ` set (analysis_candidates d)"

definition fresh_ids :: "world \<Rightarrow> bool" where
  "fresh_ids s \<longleftrightarrow> inj (uuid_source s) \<and> (\<forall>i\<ge>uuid_draws s. uuid_source s i \<notin> used_ids (db s))"

lemma fresh_idsD:
  assumes "fresh_ids s" and "uuid_draws s \<le> i"
  shows "m \<in> set (stage_messages (db s)) \<Longrightarrow> msg_message_id m \<noteq> uuid_source s i"
    and "j \<in> set (stage_jobs (db s)) \<Longrightarrow> job_id j \<noteq> uuid_source s i"
    and "j \<in> set (stage_jobs (db s)) \<Longrightarrow> job_message_id j \<noteq> uuid_source s i"
    and "r \<in> set (stage_runs (db s)) \<Longrightarrow> run_id r \<noteq> uuid_source s i"
    and "ev \<in> set (research_evidence (db s)) \<Longrightarrow> er_evidence_id ev \<noteq> uuid_source s i"
    and "c \<in> set (analysis_candidates (db s)) \<Longrightarrow> candidate_id (cr_item c) \<noteq> uuid_source s i"
proof -
  have "uuid_source s i \<notin> used_ids (db s)" using assms by (simp add: fresh_ids_def)
  then show "m \<in> set (stage_messages (db s)) \<Longrightarrow> msg_message_id m \<noteq> uuid_source s i"
    "j \<in> set (stage_jobs (db s)) \<Longrightarrow> job_id j \<noteq> uuid_source s i"
    "j \<in> set (stage_jobs (db s)) \<Longrightarrow> job_message_id j \<noteq> uuid_source s i"
    "r \<in> set (stage_runs (db s)) \<Longrightarrow> run_id r \<noteq> uuid_source s i"
    "ev \<in> set (research_evidence (db s)) \<Longrightarrow> er_evidence_id ev \<noteq> uuid_source s i"
    "c \<in> set (analysis_candidates (db s)) \<Longrightarrow> candidate_id (cr_item c) \<noteq> uuid_source s i"
    unfolding used_ids_def by (metis (no_types, lifting) UnI1 UnI2 imageI)+
qed

text \<open>The world after \<open>store_output\<close> and after the whole of \<open>complete_job_success\<close>.\<close>

definition output_world :: "lib \<Rightarrow> pipeline_envelope \<Rightarrow> stage_name option \<Rightarrow> int \<Rightarrow> timestamp option \<Rightarrow> world \<Rightarrow> world" where
  "output_world L e next p av s =
     (let stored = (db s)\<lparr>stage_messages := stage_messages (db s) @ [message_of L e]\<rparr>; now = clock s (clock_reads s) in
      case next of
        None \<Rightarrow> s\<lparr>db := stored\<rparr>
      | Some st \<Rightarrow> s\<lparr>clock_reads := Suc (clock_reads s), uuid_draws := Suc (uuid_draws s),
          db := stored\<lparr>stage_jobs := stage_jobs (db s) @
            [queued_job (uuid_source s (uuid_draws s)) (env_trace_id e) st (env_message_id e) p
              (case av of None \<Rightarrow> now | Some t \<Rightarrow> t) now]\<rparr>\<rparr>)"

definition finished_world ::
  "lib \<Rightarrow> job_lease \<Rightarrow> pipeline_envelope \<Rightarrow> stage_name option \<Rightarrow> int \<Rightarrow> timestamp option \<Rightarrow> string \<Rightarrow> (run_row \<Rightarrow> run_row)
    \<Rightarrow> world \<Rightarrow> world" where
  "finished_world L l e next p av ts g s =
     (let now = clock s (clock_reads s); s1 = output_world L e next p av (s\<lparr>clock_reads := Suc (clock_reads s)\<rparr>) in
      s1\<lparr>db := update_run (lease_run_id l) g (update_job (lease_job_id l) (succeeded_job now)
        (update_trace (env_trace_id e) (env_stage e) ts now (db s1)))\<rparr>)"

definition storable :: "pipeline_envelope \<Rightarrow> world \<Rightarrow> bool" where
  "storable e s \<longleftrightarrow> message_by_key (env_idempotency_key e) (db s) = None \<and> find_message (env_message_id e) (db s) = None \<and>
     find_trace (env_trace_id e) (db s) \<noteq> None \<and>
     (case env_parent_message_id e of None \<Rightarrow> True | Some i \<Rightarrow> find_message i (db s) \<noteq> None) \<and>
     (\<forall>j\<in>set (stage_jobs (db s)). job_message_id j \<noteq> env_message_id e)"

lemma upsert_storable:
  assumes "storable e s"
  shows "upsert_message_conn L e s =
    (Inr (env_message_id e, True), s\<lparr>db := (db s)\<lparr>stage_messages := stage_messages (db s) @ [message_of L e]\<rparr>\<rparr>)"
proof -
  have "\<forall>r\<in>set (stage_messages (db s)). msg_message_id r \<noteq> env_message_id e \<and> msg_idempotency_key r \<noteq> env_idempotency_key e"
    using assms by (auto simp: storable_def message_by_key_def find_message_def find_None_all)
  with assms show ?thesis
    by (auto simp: upsert_message_conn_def storable_def op_defs insert_row_def)
qed

lemma store_output_storable:
  assumes "storable e s" and "\<forall>j\<in>set (stage_jobs (db s)). job_id j \<noteq> uuid_source s (uuid_draws s)"
  shows "store_output L e next p av ts now s =
    (Inr (Some (env_message_id e)), (output_world L e next p av s)\<lparr>db :=
       update_trace (env_trace_id e) (env_stage e) ts now (db (output_world L e next p av s))\<rparr>)"
proof -
  let ?s1 = "s\<lparr>db := (db s)\<lparr>stage_messages := stage_messages (db s) @ [message_of L e]\<rparr>\<rparr>"
  have "find_message (env_message_id e) (db ?s1) \<noteq> None" "find_trace (env_trace_id e) (db ?s1) \<noteq> None"
    using assms(1) by (auto simp: storable_def find_message_snoc find_trace_def message_of_def)
  moreover have none: "List.find (\<lambda>j. job_stage j = st \<and> job_message_id j = env_message_id e) (stage_jobs (db s)) = None" for st
    using assms(1) by (auto simp: storable_def find_None_all)
  ultimately have "enqueue_job_conn (env_trace_id e) st (env_message_id e) p av ?s1 =
      (Inr (uuid_source s (uuid_draws s)), output_world L e (Some st) p av s)" for st
    using assms by (auto simp: enqueue_job_conn_def op_defs insert_row_def output_world_def Let_def storable_def cong: option.case_cong)
  then show ?thesis
    using upsert_storable [OF assms(1)]
    by (cases "next") (simp_all add: store_output_def bindM_def ret_def modify_db_def output_world_def Let_def)
qed

lemma complete_success_storable:
  assumes "conn_open s" and "storable e s" and "\<forall>j\<in>set (stage_jobs (db s)). job_id j \<noteq> uuid_source s (uuid_draws s)"
  shows "\<exists>g. same_run g \<and> complete_job_success L l (Some e) au next p av ts s =
    (Inr (Some (env_message_id e)), finished_world L l e next p av ts g s)"
proof -
  let ?s0 = "s\<lparr>clock_reads := Suc (clock_reads s)\<rparr>"
  have "storable e ?s0" "conn_open ?s0" using assms by (simp_all add: storable_def split: option.splits)
  with store_output_storable [of e ?s0] assms(3) show ?thesis
    unfolding complete_job_success_def utc_now_def bindM_def modify_db_def ret_def tx_def finished_world_def Let_def
    by (intro exI conjI) (simp_all add: same_run_def)
qed

definition queued_after :: "pipeline_envelope \<Rightarrow> stage_name option \<Rightarrow> int \<Rightarrow> timestamp option \<Rightarrow> world \<Rightarrow> job_row list" where
  "queued_after e next p av s =
     (let now = clock s (Suc (clock_reads s)) in
      case next of None \<Rightarrow> []
      | Some st \<Rightarrow> [queued_job (uuid_source s (uuid_draws s)) (env_trace_id e) st (env_message_id e) p
          (case av of None \<Rightarrow> now | Some t \<Rightarrow> t) now])"

lemma finished_world_simps:
  "stage_messages (db (finished_world L l e next p av ts g s)) = stage_messages (db s) @ [message_of L e]"
  "stage_jobs (db (finished_world L l e next p av ts g s)) =
     map (\<lambda>j. if job_id j = lease_job_id l then succeeded_job (clock s (clock_reads s)) j else j)
       (stage_jobs (db s) @ queued_after e next p av s)"
  "conn_open (finished_world L l e next p av ts g s) = conn_open s"
  "dialect (finished_world L l e next p av ts g s) = dialect s"
  "clock (finished_world L l e next p av ts g s) = clock s"
  "uuid_source (finished_world L l e next p av ts g s) = uuid_source s"
  "broker_calls (finished_world L l e next p av ts g s) = broker_calls s"
  "broker_orders (db (finished_world L l e next p av ts g s)) = broker_orders (db s)"
  "research_evidence (db (finished_world L l e next p av ts g s)) = research_evidence (db s)"
  "analysis_candidates (db (finished_world L l e next p av ts g s)) = analysis_candidates (db s)"
  "portfolio_snapshots (db (finished_world L l e next p av ts g s)) = portfolio_snapshots (db s)"
  "approval_requests (db (finished_world L l e next p av ts g s)) = approval_requests (db s)"
  "map (\<lambda>t. (tr_trace_id t, tr_source_alert_id t)) (pipeline_traces (db (finished_world L l e next p av ts g s))) =
     map (\<lambda>t. (tr_trace_id t, tr_source_alert_id t)) (pipeline_traces (db s))"
  "uuid_draws (finished_world L l e next p av ts g s) = uuid_draws s + length (queued_after e next p av s)"
  "clock_reads (finished_world L l e next p av ts g s) = Suc (clock_reads s) + length (queued_after e next p av s)"
  by (simp_all add: finished_world_def output_world_def queued_after_def Let_def update_job_def update_run_def update_trace_def o_def
      if_distrib split: option.split cong: if_cong)

text \<open>The envelope a worker draws for its output, and what drawing it costs.\<close>

definition drawn_envelope :: "pipeline_envelope \<Rightarrow> stage_name \<Rightarrow> string \<Rightarrow> json \<Rightarrow> world \<Rightarrow> pipeline_envelope" where
  "drawn_envelope p st k payload s =
     \<lparr>env_message_id = uuid_source s (uuid_draws s), env_trace_id = env_trace_id p,
      env_source_alert_id = env_source_alert_id p, env_parent_message_id = Some (env_message_id p), env_stage = st,
      env_schema_version = env_schema_version p, env_idempotency_key = k, env_created_at = clock s (clock_reads s),
      env_payload = payload\<rparr>"

lemma child_envelope_eq:
  "child_envelope p st k pl s = (Inr (drawn_envelope p st k pl s), s\<lparr>uuid_draws := Suc (uuid_draws s), clock_reads := Suc (clock_reads s)\<rparr>)"
  by (simp add: child_envelope_def new_envelope_def op_defs drawn_envelope_def)

lemma timed_audit_eq: "\<exists>au. timed_audit e t s = (Inr au, s\<lparr>perf_reads := Suc (perf_reads s)\<rparr>)"
  by (simp add: timed_audit_def latency_since_def op_defs)

text \<open>An envelope drawn for a message of the tables, under a key not used before, can be stored.\<close>

lemma drawn_storable:
  assumes "reads L i (db s) p" and "fresh_ids s" and "message_by_key k (db s) = None"
  shows "storable (drawn_envelope p st k pl s) s"
proof -
  have "\<forall>m\<in>set (stage_messages (db s)). msg_message_id m \<noteq> uuid_source s (uuid_draws s)"
    "\<forall>j\<in>set (stage_jobs (db s)). job_message_id j \<noteq> uuid_source s (uuid_draws s)"
    using fresh_idsD [OF assms(2) order_refl] by blast+
  moreover have "find_message (env_message_id p) (db s) \<noteq> None" "find_trace (env_trace_id p) (db s) \<noteq> None"
    using assms(1) reads_id [OF assms(1)] by (auto simp: reads_def envelope_of_def)
  ultimately show ?thesis
    using assms(3) by (auto simp: storable_def drawn_envelope_def find_message_def find_None_all)
qed

lemma update_job_image:
  assumes "\<And>x. h (f x) = h x"
  shows "h ` set (stage_jobs (update_job jid f d)) = h ` set (stage_jobs d)"
proof -
  have "map h (stage_jobs (update_job jid f d)) = map h (stage_jobs d)" using assms by (simp add: update_job_def)
  from arg_cong [OF this, of set] show ?thesis by (simp only: set_map)
qed

lemma used_ids_leased:
  "used_ids (db (leased_world w n j s)) = insert (uuid_source s (uuid_draws s)) (used_ids (db s))"
proof -
  let ?f = "lease_update j (clock s (clock_reads s) + seconds n) w (clock s (clock_reads s))"
  have "job_id ` set (stage_jobs (update_job (job_id j) ?f (db s))) = job_id ` set (stage_jobs (db s))"
    "job_message_id ` set (stage_jobs (update_job (job_id j) ?f (db s))) = job_message_id ` set (stage_jobs (db s))"
    by (rule update_job_image; simp add: lease_update_def)+
  then show ?thesis
    by (simp add: used_ids_def leased_world_def Let_def started_run_def Un_assoc)
      (simp add: update_job_def)
qed

lemma fresh_leased: "fresh_ids s \<Longrightarrow> fresh_ids (leased_world w n j s)"
  unfolding fresh_ids_def used_ids_leased by (auto simp: leased_world_def Let_def dest: injD)

lemma bindM_Inr: "m s = (Inr x, s') \<Longrightarrow> bindM m f s = f x s'"
  by (simp add: bindM_def)

text \<open>The tables of a world whose drawn identifiers and clock have only moved on.\<close>

definition moved_on :: "world \<Rightarrow> world \<Rightarrow> bool" where
  "moved_on s s' \<longleftrightarrow> db s' = db s \<and> uuid_draws s \<le> uuid_draws s' \<and> clock_reads s \<le> clock_reads s' \<and>
     uuid_source s' = uuid_source s \<and> clock s' = clock s \<and> conn_open s' = conn_open s \<and> dialect s' = dialect s \<and>
     broker_calls s' = broker_calls s"

lemma fresh_moved_on: "fresh_ids s \<Longrightarrow> moved_on s s' \<Longrightarrow> fresh_ids s'"
  by (auto simp: fresh_ids_def moved_on_def)

text \<open>
  Drawing an output envelope for the message read, timing it, and completing the job with it: the
  tail that the researcher, the analyst and the executor share.
\<close>

lemma output_stage_eq:
  assumes "conn_open s" and "reads L i (db s) p" and "fresh_ids s" and "message_by_key k (db s) = None"
  shows "\<exists>e s1 g au'. bindM (child_envelope p st k payload) (\<lambda>e. bindM (timed_audit e t) (\<lambda>au.
      bindM (complete_job_success L l (Some e) (Some (f au)) next pr av ts) (h e au))) s =
      h e au' (Some (env_message_id e)) (finished_world L l e next pr av ts g s1) \<and>
    moved_on s s1 \<and> uuid_draws s1 = Suc (uuid_draws s) \<and> e = drawn_envelope p st k payload s \<and> same_run g"
proof -
  define e where "e = drawn_envelope p st k payload s"
  define s0 where "s0 = s\<lparr>uuid_draws := Suc (uuid_draws s), clock_reads := Suc (clock_reads s)\<rparr>"
  define s1 where "s1 = s0\<lparr>perf_reads := Suc (perf_reads s0)\<rparr>"
  have m: "moved_on s s1" "uuid_draws s1 = Suc (uuid_draws s)" by (simp_all add: moved_on_def s0_def s1_def)
  obtain au where au: "timed_audit e t s0 = (Inr au, s1)" using timed_audit_eq unfolding s1_def by blast
  have child: "child_envelope p st k payload s = (Inr e, s0)" by (simp add: child_envelope_eq e_def s0_def)
  have "storable e s" unfolding e_def by (rule drawn_storable [OF assms(2,3,4)])
  then have st: "storable e s1" using m by (simp add: storable_def moved_on_def split: option.splits)
  have j: "\<forall>j\<in>set (stage_jobs (db s1)). job_id j \<noteq> uuid_source s1 (uuid_draws s1)"
    using fresh_idsD(2) [OF fresh_moved_on [OF assms(3) m(1)] order_refl] by blast
  have "conn_open s1" using assms(1) m by (simp add: moved_on_def)
  from complete_success_storable [OF this st j] obtain g where "same_run g"
    "complete_job_success L l (Some e) (Some (f au)) next pr av ts s1 = (Inr (Some (env_message_id e)), finished_world L l e next pr av ts g s1)"
    by blast
  with m child au show ?thesis
    by (intro exI [of _ e] exI [of _ s1] exI [of _ g] exI [of _ au]) (simp add: bindM_def e_def)
qed

text \<open>Once the leased job is finished: the other jobs as they were, and the next stage's behind them.\<close>

lemma filter_other_jobs:
  "(\<And>x. job_id (f x) = job_id x) \<Longrightarrow>
   filter (\<lambda>x. job_id x \<noteq> i) (map (\<lambda>x. if job_id x = i then f x else x) xs) = filter (\<lambda>x. job_id x \<noteq> i) xs"
  by (induction xs) auto

lemma finished_jobs:
  assumes "uuid_source s1 = uuid_source s" and "stage_jobs (db s1) = stage_jobs (db (leased_world w n j s))"
    and "fresh_ids s" and "uuid_draws s \<le> uuid_draws s1" and "j \<in> set (stage_jobs (db s))"
  shows "filter (\<lambda>x. job_id x \<noteq> job_id j) (stage_jobs (db (finished_world L (run_lease j s) e next p av ts g s1))) =
      filter (\<lambda>x. job_id x \<noteq> job_id j) (stage_jobs (db s)) @ queued_after e next p av s1 \<and>
    (\<forall>x\<in>set (stage_jobs (db (finished_world L (run_lease j s) e next p av ts g s1))). job_id x = job_id j \<longrightarrow>
       job_state x = Succeeded \<and> job_leased_until x = None)"
proof -
  let ?upd = "lease_update j (clock s (clock_reads s) + seconds n) w (clock s (clock_reads s))"
  have same: "uuid_source s1 = uuid_source s" "stage_jobs (db s1) = map (\<lambda>x. if job_id x = job_id j then ?upd x else x) (stage_jobs (db s))"
    using assms(1,2) by (simp_all add: leased_world_def Let_def update_job_def)
  have "\<forall>x\<in>set (queued_after e next p av s1). job_id x \<noteq> job_id j"
    using fresh_idsD(2) [OF assms(3,4,5)] same(1) by (auto simp: queued_after_def Let_def queued_job_def split: option.splits)
  then have "filter (\<lambda>x. job_id x \<noteq> job_id j) (queued_after e next p av s1) = queued_after e next p av s1"
    by (simp add: filter_id_conv)
  moreover have "job_id (succeeded_job t x) = job_id x" "job_id (?upd x) = job_id x" for t x
    by (simp_all add: succeeded_job_def lease_update_def)
  ultimately have "filter (\<lambda>x. job_id x \<noteq> job_id j) (stage_jobs (db (finished_world L (run_lease j s) e next p av ts g s1))) =
      filter (\<lambda>x. job_id x \<noteq> job_id j) (stage_jobs (db s)) @ queued_after e next p av s1"
    unfolding finished_world_simps same(2) map_append filter_append lease_of_def job_lease.simps
    by (simp only: filter_other_jobs)
  moreover have "job_state x = Succeeded \<and> job_leased_until x = None"
    if "x \<in> set (stage_jobs (db (finished_world L (run_lease j s) e next p av ts g s1)))" "job_id x = job_id j" for x
    using that unfolding finished_world_simps lease_of_def job_lease.simps
    by (auto simp: succeeded_job_def split: if_splits)
  ultimately show ?thesis by blast
qed

section \<open>Evaluated examples\<close>

lemma demo_due:
  assumes "json_loads L ''{}'' = Some payload"
  shows "due_job L st (demo_job st) (envelope_of demo_message demo_trace payload) (demo_world (demo_db st))"
  using assms by (simp add: due_job_def reads_def next_ready_def ready_def demo_defs find_message_def find_trace_def minutes_def seconds_def)

lemma demo_fresh: "fresh_ids (demo_world (demo_db st))"
proof -
  have "replicate (Suc i) CHR ''u'' \<noteq> CHR ''m'' # xs" "replicate (Suc i) CHR ''u'' \<noteq> CHR ''j'' # xs" for i xs by simp_all
  then show ?thesis using demo_uuid_inj by (simp add: fresh_ids_def used_ids_def demo_defs)
qed

end
