(* ===== verification/Pipeline_System.thy ===== *)
theory Pipeline_System
  imports Round_Evaluation
begin

text \<open>
  The pipeline as a transition system. \<open>db_step\<close> is one database operation, broker call or
  connection change by any process with any arguments: since every operation is a transaction,
  its runs include all interleavings of the workers and workers that stop half way.
  \<open>pipeline_step\<close> is one whole round of a worker, one delivery or one decision under a
  fixed configuration.
\<close>

section \<open>Steps\<close>

inductive db_step :: "world \<Rightarrow> world \<Rightarrow> bool" where
  db_open: "db_step s (snd (initialize s))"
| db_close: "db_step s (snd (close s))"
| db_trace: "db_step s (snd (ensure_trace aid a b c st status s))"
| db_message: "db_step s (snd (upsert_message L e s))"
| db_get: "db_step s (snd (get_message L i s))"
| db_enqueue: "db_step s (snd (enqueue_job t st m p av s))"
| db_lease: "db_step s (snd (lease_next_job st w n s))"
| db_success: "db_step s (snd (complete_job_success L l oe au ns np na ts s))"
| db_retry: "db_step s (snd (complete_job_retry L l err delay m s))"
| db_dead: "db_step s (snd (dead_letter_job L l err s))"
| db_evidence: "db_step s (snd (save_research_evidence i es s))"
| db_candidates: "db_step s (snd (save_analysis_candidates i cs rs s))"
| db_snapshot: "db_step s (snd (save_portfolio_snapshot ps s))"
| db_request: "db_step s (snd (create_approval_request t m c ch tok ex s))"
| db_decide: "db_step s (snd (decide_approval tok status who why s))"
| db_order: "db_step s (snd (save_broker_order ro s))"
| db_observation: "db_step s (snd (save_outcome_observation ob s))"
| db_observed: "db_step s (snd (update_outcome_observation oid now x y z lb s))"
| db_envelope: "db_step s (snd (new_envelope t aid pm st sv k pl s))"
| db_broker: "db_step s (snd (broker_place br intent cid s))"

inductive pipeline_step :: "lib \<Rightarrow> pipeline_config \<Rightarrow> world \<Rightarrow> world \<Rightarrow> bool" for L cfg where
  ingest: "pipeline_step L cfg s (snd (handle_alert L ve cfg sv body headers src s))"
| research: "pipeline_step L cfg s (snd (researcher_process_next L cfg w s))"
| analyse: "pipeline_step L cfg s (snd (analyst_process_next L fsqrt cfg market portfolio w s))"
| execute: "pipeline_step L cfg s (snd (executor_process_next L cfg ctx br w s))"
| approval: "pipeline_step L cfg s (snd (approval_process_next L cfg br w s))"
| decide: "pipeline_step L cfg s (snd (decide_with status token who why s))"
| outcome: "pipeline_step L cfg s (snd (outcome_process_next L cfg pp w s))"

inductive_cases pipeline_stepE: "pipeline_step L cfg s s'"

section \<open>Invariants of reachable states\<close>

context pdb_invariant
begin

lemma db_step_kept:
  assumes "db_step s s'" "I (db s)"
  shows "I (db s')"
  using assms
proof (induction rule: db_step.induct)
  case (db_broker s br intent cid)
  then show ?case using broker_place_kept [of br intent cid] by (simp add: preserves_def)
qed (use db_ops_kept preserves_env [where I = I] in \<open>auto simp: preserves_def\<close>)

lemma pipeline_step_kept:
  assumes "pipeline_step L cfg s s'" "I (db s)"
  shows "I (db s')"
  using assms
  by (cases rule: pipeline_step.cases)
    (use handle_alert_kept researcher_process_next_kept analyst_process_next_kept executor_process_next_kept
      approval_process_next_kept decide_with_kept outcome_process_next_kept in \<open>auto simp: preserves_def\<close>)

lemma db_steps_kept: "db_step\<^sup>*\<^sup>* s s' \<Longrightarrow> I (db s) \<Longrightarrow> I (db s')"
  by (induction rule: rtranclp_induct) (auto intro: db_step_kept)

lemma pipeline_steps_kept: "(pipeline_step L cfg)\<^sup>*\<^sup>* s s' \<Longrightarrow> I (db s) \<Longrightarrow> I (db s')"
  by (induction rule: rtranclp_induct) (auto intro: pipeline_step_kept)

end

lemma empty_pdb_ok: "keys_ok empty_pdb" "runs_ok empty_pdb" "leases_ok empty_pdb"
  by (simp_all add: keys_ok_def runs_ok_def leases_ok_def empty_pdb_def)

text \<open>
  C13 (invariant): the database stays consistent under any sequence of operations, by any number
  of processes, interleaved and interrupted in any way. In every state reachable from the empty
  database the identifiers and natural keys are unique (one trace per alert, one message per
  idempotency key, one job per stage and message, one order per client order id), the attempt
  count of every job is the number of runs recorded for it and every run belongs to a job, and a
  job holds a lease exactly while it is \<open>running\<close>.
\<close>

theorem reachable_database_consistent:
  assumes "db_step\<^sup>*\<^sup>* s s'" and "db s = empty_pdb"
  shows "keys_ok (db s') \<and> runs_ok (db s') \<and> leases_ok (db s')"
  using assms empty_pdb_ok keys.db_steps_kept runs.db_steps_kept leases.db_steps_kept by auto

theorem reachable_database_consistent_witness:
  "keys_ok (db (snd (ensure_trace ''a1'' None None None INGEST ''x'' (demo_world empty_pdb))))"
  using reachable_database_consistent [of "demo_world empty_pdb"
      "snd (ensure_trace ''a1'' None None None INGEST ''x'' (demo_world empty_pdb))"]
    db_trace [of "demo_world empty_pdb" "''a1''" None None None INGEST "''x''"]
  by (simp add: demo_world_def r_into_rtranclp)

section \<open>Orders\<close>

definition calls_for :: "string \<Rightarrow> world \<Rightarrow> (trade_intent \<times> string) list" where
  "calls_for cid s = filter (\<lambda>c. snd c = cid) (broker_calls s)"

text \<open>What a step of the pipeline can add to the broker's calls.\<close>

lemma pipeline_step_calls:
  assumes "pipeline_step L cfg s s'"
  shows "broker_calls s' = broker_calls s \<or>
    (\<exists>intent cid. broker_calls s' = broker_calls s @ [(intent, cid)] \<and> order_by_client_id cid (db s) = None \<and>
       (approval_mode (cfg_executor cfg) \<noteq> ''manual_all'' \<or> approved L cfg s intent cid) \<and>
       ((\<exists>ctx. admissible L cfg ctx s intent cid) \<or> approved L cfg s intent cid))"
  using assms
proof (cases rule: pipeline_step.cases)
  case (execute ctx br w)
  with orders_of_executor [of L cfg ctx br w s] show ?thesis by (auto simp: Let_def)
next
  case (approval br w)
  with orders_of_approval [of L cfg br w s] show ?thesis by (auto simp: Let_def)
qed (simp_all add: framed_calls_snd framed_handle_alert framed_researcher_process_next framed_analyst_process_next
    framed_approval framed_outcome_process_next)

text \<open>
  C10 (safety): a recorded order is never sent again. Once an order is recorded under a client
  order id, no round of any worker, in whatever order and however often jobs are retried, calls
  the broker with that id again.
\<close>

theorem recorded_order_never_resent:
  assumes "(pipeline_step L cfg)\<^sup>*\<^sup>* s s'" and "recorded cid (db s)"
  shows "calls_for cid s' = calls_for cid s \<and> recorded cid (db s')"
  using assms
proof (induction rule: rtranclp_induct)
  case base
  then show ?case by simp
next
  case (step t u)
  then have IH: "calls_for cid t = calls_for cid s" "recorded cid (db t)" by auto
  from pipeline_step_calls [OF step(2)] IH show ?case
    using recorded.pipeline_step_kept [OF step(2)] by (auto simp: calls_for_def recorded_iff)
qed

text \<open>Each call of a run was made from a state of the run that warranted it.\<close>

lemma run_calls:
  assumes "(pipeline_step L cfg)\<^sup>*\<^sup>* s s'" and "broker_calls s = []" and "(intent, cid) \<in> set (broker_calls s')"
  shows "\<exists>t. (pipeline_step L cfg)\<^sup>*\<^sup>* s t \<and> order_by_client_id cid (db t) = None \<and>
    (approval_mode (cfg_executor cfg) \<noteq> ''manual_all'' \<or> approved L cfg t intent cid) \<and>
    ((\<exists>ctx. admissible L cfg ctx t intent cid) \<or> approved L cfg t intent cid)"
  using assms
proof (induction rule: rtranclp_induct)
  case base
  then show ?case by simp
next
  case (step t u)
  show ?case
  proof (cases "(intent, cid) \<in> set (broker_calls t)")
    case True
    with step show ?thesis by blast
  next
    case False
    with pipeline_step_calls [OF step(2)] step.prems step(1) show ?thesis by (intro exI [of _ t]) auto
  qed
qed

section \<open>Rounds that run to their end\<close>

inductive finished_round :: "lib \<Rightarrow> pipeline_config \<Rightarrow> world \<Rightarrow> world \<Rightarrow> bool" for L cfg where
  delivery: "finished_round L cfg s (snd (handle_alert L ve cfg sv body headers src s))"
| decision: "finished_round L cfg s (snd (decide_with status token who why s))"
| researched: "researcher_process_next L cfg w s = (Inr b, s') \<Longrightarrow> finished_round L cfg s s'"
| analysed: "analyst_process_next L fsqrt cfg market portfolio w s = (Inr b, s') \<Longrightarrow> finished_round L cfg s s'"
| executed: "executor_process_next L cfg ctx br w s = (Inr b, s') \<Longrightarrow> finished_round L cfg s s'"
| approved: "approval_process_next L cfg br w s = (Inr b, s') \<Longrightarrow> finished_round L cfg s s'"
| observed: "outcome_process_next L cfg pp w s = (Inr b, s') \<Longrightarrow> finished_round L cfg s s'"

lemma quiet_handle_alert: "quiet (handle_alert L ve cfg sv body headers src)"
  unfolding handle_alert_def store_alert_def Let_def by (intro quietI running.stage_kept running.calls_kept)

lemma finished_round_settled:
  assumes "finished_round L cfg s s'" "runs_only X (db s)"
  shows "runs_only X (db s')"
  using assms
proof (cases rule: finished_round.cases)
  case (delivery ve sv body headers src)
  then show ?thesis using quiet_handle_alert assms(2) by (auto simp: quiet_def preserves_def)
next
  case (decision status token who why)
  then show ?thesis using running.decide_with_kept assms(2) by (auto simp: preserves_def)
qed (auto intro: researcher.round_settles analyst.round_settles executor.round_settles approval.round_settles
    outcome.round_settles)

text \<open>
  C18 (liveness): no round leaves its job behind. Over any sequence of deliveries, decisions and
  rounds of the five workers that return, however the jobs' own work fails, a job that is
  \<open>running\<close> at the end was running at the start: every job leased on the way was ended,
  handed back for a retry or dead-lettered.
\<close>

theorem finished_rounds_settle:
  assumes "(finished_round L cfg)\<^sup>*\<^sup>* s s'" and "j' \<in> set (stage_jobs (db s'))" and "job_state j' = Running"
  shows "\<exists>j\<in>set (stage_jobs (db s)). job_id j = job_id j' \<and> job_state j = Running"
proof -
  let ?X = "job_id ` {j \<in> set (stage_jobs (db s)). job_state j = Running}"
  have "runs_only ?X (db s')"
    using assms(1) by (induction rule: rtranclp_induct) (auto simp: runs_only_def [of _ "db s"] intro: finished_round_settled)
  with assms(2,3) show ?thesis unfolding runs_only_def by fastforce
qed

section \<open>Evaluated examples\<close>

lemma demo_failed_round:
  "\<exists>s'. researcher_process_next demo_lib demo_config ''w'' (demo_world (demo_db RESEARCH)) = (Inr False, s')"
proof -
  let ?s1 = "(leased_world ''w'' 60 (demo_job RESEARCH) (demo_world (demo_db RESEARCH)))\<lparr>perf_reads := 1\<rparr>"
  let ?l = "lease_of ''u'' (demo_job RESEARCH)"
  have "lease_sec (cfg_queue demo_config) = 60" by (simp add: demo_defs)
  then have "researcher_process_next demo_lib demo_config ''w'' (demo_world (demo_db RESEARCH)) =
      tryM (researcher_job demo_lib demo_config ?l 0) (retry_or_dead_letter demo_lib demo_config ?l) ?s1"
    by (simp add: researcher_process_next_def bindM_def demo_lease perf_counter_def)
      (simp add: leased_world_def Let_def demo_world_def)
  moreover have "researcher_job demo_lib demo_config ?l 0 ?s1 = (Inl (ValidationError ''IngestedAlert''), ?s1)"
    by (simp add: researcher_job_def get_message_def source_alert_id_for_trace_def tx_def op_defs leased_world_def Let_def
        demo_defs find_message_def find_trace_def update_job_def lease_of_def)
  moreover have "\<exists>s'. retry_or_dead_letter demo_lib demo_config ?l e ?s1 = (Inr False, s')" for e
    by (simp add: retry_or_dead_letter_def complete_job_retry_def tx_def op_defs leased_world_def Let_def demo_defs lease_of_def)
  ultimately show ?thesis by (simp add: tryM_def)
qed

theorem finished_rounds_settle_witness:
  "\<exists>s'. researcher_process_next demo_lib demo_config ''w'' (demo_world (demo_db RESEARCH)) = (Inr False, s') \<and>
     filter (\<lambda>j. job_state j = Running) (stage_jobs (db s')) = []"
proof -
  obtain s' where s': "researcher_process_next demo_lib demo_config ''w'' (demo_world (demo_db RESEARCH)) = (Inr False, s')"
    using demo_failed_round by blast
  then have "(finished_round demo_lib demo_config)\<^sup>*\<^sup>* (demo_world (demo_db RESEARCH)) s'"
    by (intro r_into_rtranclp researched)
  from finished_rounds_settle [OF this] have "job_state j \<noteq> Running" if "j \<in> set (stage_jobs (db s'))" for j
    using that by (auto simp: demo_defs)
  with s' show ?thesis by (simp add: filter_empty_conv)
qed

definition approved_lib :: lib where
  "approved_lib = demo_lib\<lparr>json_loads := (\<lambda>_. Some (JDict [(''intent'', JStr ''i'')]))\<rparr>"

definition approved_db :: pdb where
  "approved_db = (demo_db APPROVAL)\<lparr>approval_requests := [demo_approval\<lparr>ap_status := ''approved''\<rparr>]\<rparr>"

lemma approved_round:
  "broker_calls (snd (approval_process_next approved_lib demo_config (paper_broker_client approved_lib) w (demo_world approved_db))) =
     [(demo_intent, build_stable_order_id approved_lib ''t1'' ''c1'' ''v1'')]"
proof -
  let ?p = "envelope_of demo_message demo_trace (JDict [(''intent'', JStr ''i'')])" and ?s = "demo_world approved_db"
  let ?a = "demo_approval\<lparr>ap_status := ''approved''\<rparr>"
  have "due_job approved_lib APPROVAL (demo_job APPROVAL) ?p ?s"
    by (simp add: due_job_def reads_def next_ready_def ready_def approved_lib_def approved_db_def demo_defs find_message_def find_trace_def minutes_def seconds_def)
  moreover have "env_payload ?p = JDict [(''intent'', JStr ''i'')]" "validate_intent approved_lib (JStr ''i'') = Some demo_intent"
    "approval_by_message (job_message_id (demo_job APPROVAL)) (db ?s) = Some ?a" "ap_status ?a = ''approved''"
    "order_by_client_id c (db ?s) = None" for c
    by (simp_all add: envelope_of_def approved_lib_def approved_db_def demo_defs approval_by_message_def demo_approval_def order_by_client_id_def)
  ultimately show ?thesis
    using approved_job_sends [where cfg = demo_config and br = "paper_broker_client approved_lib" and w = w]
    by (simp add: order_id_of_def envelope_of_def demo_defs)
qed

definition demo_order :: order_row where
  "demo_order = \<lparr>ord_order_id = ''o'', ord_trace_id = ''t1'', ord_candidate_id = ''c1'', ord_client_order_id = ''cid'',
     ord_broker = ''paper'', ord_broker_order_id = None, ord_symbol = ''XLE'', ord_side = ''buy'', ord_qty = None,
     ord_notional = None, ord_order_type = ''limit'', ord_tif = ''day'', ord_submitted_at = 0, ord_status = ''submitted'',
     ord_avg_fill_price = None, ord_stop_order_id = None, ord_raw_response = ''{}''\<rparr>"

theorem recorded_order_never_resent_witness:
  "calls_for ''cid'' (snd (approval_process_next approved_lib demo_config (paper_broker_client approved_lib) ''w''
     (demo_world (approved_db\<lparr>broker_orders := [demo_order]\<rparr>)))) = []"
proof -
  have "(pipeline_step approved_lib demo_config)\<^sup>*\<^sup>* (demo_world (approved_db\<lparr>broker_orders := [demo_order]\<rparr>))
      (snd (approval_process_next approved_lib demo_config (paper_broker_client approved_lib) ''w''
        (demo_world (approved_db\<lparr>broker_orders := [demo_order]\<rparr>))))"
    by (intro r_into_rtranclp approval)
  from recorded_order_never_resent [OF this, of "''cid''"] show ?thesis
    by (simp add: recorded_def demo_world_def demo_order_def calls_for_def)
qed

end
