(* ===== verification/Entry_Points.thy ===== *)
theory Entry_Points
  imports Pipeline_System
begin

text \<open>
  The pipeline's processes as their entry points wire them
  (\<open>src/src/researcher/__main__.py\<close>, \<open>src/src/analyst/__main__.py\<close>,
  \<open>src/src/executor/__main__.py\<close>, \<open>src/src/outcome/__main__.py\<close>): which providers
  the workers are given, and what follows for the pipeline as it is shipped. A snapshot built
  without an identifier and a time gets a fresh one and the current time: its arguments here.
\<close>

definition paper_snapshot :: "uuid \<Rightarrow> timestamp \<Rightarrow> portfolio_snapshot" where
  "paper_snapshot sid now =
     \<lparr>snapshot_id = sid, captured_at = now, account_id = ''paper'', equity = 100000, cash = 100000, buying_power = 100000,
      gross_exposure = 0, net_exposure = 0, sector_exposure = [], positions = []\<rparr>"

definition researcher_main :: "lib \<Rightarrow> pipeline_config \<Rightarrow> nat \<Rightarrow> world \<Rightarrow> py_error option \<times> nat \<times> world" where
  "researcher_main L cfg k = run_forever k (researcher_process_next L cfg ''researcher-1'')"

definition analyst_worker :: "lib \<Rightarrow> (rat \<Rightarrow> rat) \<Rightarrow> pipeline_config \<Rightarrow> uuid \<Rightarrow> timestamp \<Rightarrow> bool op" where
  "analyst_worker L fsqrt cfg sid now =
     analyst_process_next L fsqrt cfg (static_market_data []) (static_portfolio (paper_snapshot sid now)) ''analyst-1''"

definition analyst_main ::
  "lib \<Rightarrow> (rat \<Rightarrow> rat) \<Rightarrow> pipeline_config \<Rightarrow> uuid \<Rightarrow> timestamp \<Rightarrow> nat \<Rightarrow> world \<Rightarrow> py_error option \<times> nat \<times> world" where
  "analyst_main L fsqrt cfg sid now k = run_forever k (analyst_worker L fsqrt cfg sid now)"

definition executor_context :: "uuid \<Rightarrow> timestamp \<Rightarrow> context_provider" where
  "executor_context sid now = static_context_provider [(sid, paper_snapshot sid now)] None"

definition executor_worker :: "lib \<Rightarrow> pipeline_config \<Rightarrow> uuid \<Rightarrow> timestamp \<Rightarrow> bool op" where
  "executor_worker L cfg sid now =
     executor_process_next L cfg (executor_context sid now) (paper_broker_client L) ''executor-1''"

definition executor_main :: "lib \<Rightarrow> pipeline_config \<Rightarrow> uuid \<Rightarrow> timestamp \<Rightarrow> nat \<Rightarrow> world \<Rightarrow> py_error option \<times> nat \<times> world" where
  "executor_main L cfg sid now k = run_forever k (executor_worker L cfg sid now)"

definition approval_main :: "lib \<Rightarrow> pipeline_config \<Rightarrow> nat \<Rightarrow> world \<Rightarrow> py_error option \<times> nat \<times> world" where
  "approval_main L cfg k = run_forever k (approval_process_next L cfg (paper_broker_client L) ''approval-1'')"

definition outcome_main :: "lib \<Rightarrow> pipeline_config \<Rightarrow> nat \<Rightarrow> world \<Rightarrow> py_error option \<times> nat \<times> world" where
  "outcome_main L cfg k = run_forever k (outcome_process_next L cfg (static_price_provider L [] None) ''outcome-1'')"

text \<open>
  However long a process ran without an exception reaching its loop, it has left no job of its own
  running.
\<close>

theorem mains_settle:
  assumes "r \<in> {researcher_main L cfg k s, analyst_main L fsqrt cfg sid now k s, executor_main L cfg sid now k s,
      approval_main L cfg k s, outcome_main L cfg k s}"
    and "fst r = None" "\<forall>j\<in>set (stage_jobs (db s)). job_state j \<noteq> Running"
  shows "\<forall>j\<in>set (stage_jobs (db (snd (snd r)))). job_state j \<noteq> Running"
proof -
  obtain n s' where r: "r = (None, n, s')" using assms(2) by (cases r) auto
  have "runs_only {} (db s)" using assms(3) by (simp add: runs_only_def)
  then have "runs_only {} (db s')"
    using assms(1) unfolding r insert_iff empty_iff researcher_main_def analyst_main_def analyst_worker_def executor_main_def
      executor_worker_def approval_main_def outcome_main_def
    by (auto dest!: sym [of "(None, n, s')"]
        intro: researcher.loop_settles analyst.loop_settles executor.loop_settles approval.loop_settles outcome.loop_settles)
  then show ?thesis by (simp add: r runs_only_def)
qed

text \<open>
  The executor as it is started places no order: it knows one portfolio snapshot, whose
  identifier was drawn when the process started, and no report that another process stored names
  it.
\<close>

theorem started_executor_places_no_order:
  assumes "\<forall>m\<in>set (stage_messages (db s)). \<forall>payload report. json_loads L (msg_payload_jsonb m) = Some payload \<longrightarrow>
      validate_analysis L payload = Some report \<longrightarrow> ar_portfolio_snapshot_id report \<noteq> sid"
  shows "broker_calls (snd (executor_worker L cfg sid now s)) = broker_calls s"
proof -
  have "get_portfolio_snapshot (executor_context sid now) i \<noteq> Inr p" if "i \<noteq> sid" for i p
    using that by (simp add: executor_context_def static_context_provider_def)
  moreover have "m \<in> set (stage_messages (db s))" if "handed_over EXECUTION s m" for m
    using that by (auto simp: handed_over_def find_message_def dest: find_Some_in)
  ultimately have "\<not> admissible_for L cfg (executor_context sid now) m intent cid" if "handed_over EXECUTION s m" for m intent cid
    using assms that unfolding admissible_for_def by metis
  then have "\<not> admissible L cfg (executor_context sid now) s intent cid" for intent cid
    by (simp add: admissible_def)
  with orders_of_executor [of L cfg "executor_context sid now" "paper_broker_client L" "''executor-1''" s]
  show ?thesis by (auto simp: executor_worker_def Let_def)
qed

text \<open>
  The analyst as it is started finishes no job with a hypothesis: it knows no market data, so the
  job raises at the first symbol.
\<close>

theorem started_analyst_fails:
  assumes "get_message L (lease_message_id lease) s = (Inr parent, s1)"
    and "validate_research L (env_payload parent) = Some report" "rr_asset_hypotheses report \<noteq> []"
  shows "\<exists>e s'. analyst_job L fsqrt cfg (static_market_data []) portfolio lease t s = (Inl e, s')"
proof -
  have m: "mapM (analyze_hypothesis L fsqrt c (static_market_data []) p) (rr_asset_hypotheses report) s2 \<noteq> (Inr cs, s3)"
    for c p s2 cs s3
    using assms(3)
    by (cases "rr_asset_hypotheses report")
      (simp_all add: analyze_hypothesis_def static_market_data_def from_sum_def raise_def bindM_def)
  obtain r s' where eq: "analyst_job L fsqrt cfg (static_market_data []) portfolio lease t s = (r, s')" by fastforce
  show ?thesis
  proof (cases r)
    case (Inr b)
    from bindM_InrD [OF eq [unfolded Inr analyst_job_def]] assms(1,2) have False
      by (auto simp: from_option_def m dest!: bindM_InrD)
    then show ?thesis ..
  qed (use eq in blast)
qed

end
