(* ===== verification/Sentinel_Models.thy ===== *)
theory Sentinel_Models
  imports Python_Numbers
begin

text \<open>
  The data of the sentinel process: configuration sections (\<open>src/src/sentinel/config.py\<close>),
  markets, ticks and the parsing of raw values (\<open>ingestion/models.py\<close>), alerts
  (\<open>processing/alerts.py\<close>) and metrics (\<open>utils/metrics.py\<close>). Times are
  milliseconds since the epoch. The record \<open>slib\<close> collects library functions that the
  process calls and that have no closed form here: the digest, the rendering and reading of ISO
  times, JSON text and the rendering of values.
\<close>

record slib =
  blake2s_hex :: "string \<Rightarrow> string"
  iso_of_ms :: "int \<Rightarrow> string"
  ms_of_iso :: "string \<Rightarrow> int option"
  s_json_loads :: "string \<Rightarrow> json option"
  s_json_dumps :: "json \<Rightarrow> string"
  s_repr :: "json \<Rightarrow> string"
  s_hmac :: "string \<Rightarrow> string \<Rightarrow> string"

section \<open>Configuration\<close>

record gatekeeper_config =
  gamma_api_url :: string
  endpoint :: string
  poll_interval_sec :: int
  min_volume_24h :: rat
  gk_min_liquidity :: rat
  max_markets :: int
  excluded_categories :: "string list"
  excluded_tag_slugs :: "string list"
  stale_timeout_sec :: int
  page_size :: int
  order_by :: string
  ascending :: bool

record websocket_config =
  ws_url :: string
  heartbeat_interval_sec :: int
  reconnect_base_delay_sec :: int
  reconnect_max_delay_sec :: int
  custom_feature_enabled :: bool
  max_spread_for_midpoint :: rat
  ws_max_quote_age_sec :: int

record threshold_config =
  window_sec :: int
  th_delta_pct :: rat
  min_ticks :: int

datatype alert_level = SCOUT | CONFIRMATION | TREND

text \<open>The thresholds of all three levels are configured.\<close>

record detector_config =
  check_interval_sec :: int
  buffer_max_age_sec :: int
  bar_interval_sec :: int
  cooldown_sec :: int
  stale_threshold_sec :: int
  max_spread_for_detection :: rat
  max_quote_age_sec :: int
  warmup_grace_sec :: int
  thresholds :: "alert_level \<Rightarrow> threshold_config"

record storage_config =
  sqlite_path :: string
  hot_retention_hours :: int
  archive_dir :: string
  archive_interval_sec :: int
  shift_event_retention_days :: int
  archive_retention_days :: int

record notifications_config =
  enabled_channels :: "string list"
  cfg_min_severity :: string
  cfg_allowed_levels :: "string list"
  cfg_excluded_confidences :: "string list"
  cfg_excluded_signal_sources :: "string list"
  cfg_min_price :: rat
  cfg_max_price :: rat
  cfg_min_liquidity :: rat
  cfg_min_abs_move :: rat
  cfg_event_dedup_sec :: int
  json_file_dir :: string
  json_webhook_url :: string
  discord_webhook_url :: string
  telegram_bot_token :: string
  telegram_chat_id :: string
  json_file_retention_days :: int
  json_webhook_bearer_token :: string
  json_webhook_hmac_secret :: string
  json_webhook_timeout_sec :: int
  json_webhook_max_retries :: int
  json_webhook_retry_backoff_sec :: rat

section \<open>Raw values\<close>

definition parse_float :: "json \<Rightarrow> rat \<Rightarrow> rat" where
  "parse_float v d =
     (if v = JNull \<or> v = JStr [] then d
      else case float_of_json v of None \<Rightarrow> d | Some q \<Rightarrow> q)"

definition parse_ts_ms :: "slib \<Rightarrow> json \<Rightarrow> int" where
  "parse_ts_ms SL v = (case v of
       JInt i \<Rightarrow> i
     | JBool b \<Rightarrow> (if b then 1 else 0)
     | JFloat q \<Rightarrow> py_trunc q
     | JStr s \<Rightarrow>
         (let stripped = str_strip s in
          if str_isdigit stripped then int (nat_of_digits stripped)
          else case ms_of_iso SL stripped of None \<Rightarrow> 0 | Some t \<Rightarrow> t)
     | _ \<Rightarrow> 0)"

definition ensure_list :: "slib \<Rightarrow> json \<Rightarrow> json list" where
  "ensure_list SL v = (case v of
       JNull \<Rightarrow> []
     | JList xs \<Rightarrow> xs
     | JStr s \<Rightarrow>
         (if str_strip s = [] then []
          else case s_json_loads SL (str_strip s) of
              None \<Rightarrow> [JStr s]
            | Some (JList xs) \<Rightarrow> xs
            | Some w \<Rightarrow> [w])
     | w \<Rightarrow> [w])"

definition sstr :: "slib \<Rightarrow> json \<Rightarrow> string" where
  "sstr SL v = py_str (s_repr SL) v"

definition tag_of :: "slib \<Rightarrow> json \<Rightarrow> string option" where
  "tag_of SL item = (case item of
       JDict d \<Rightarrow>
         (let candidate = jor (jor (jget d ''slug'') (jget d ''label'')) (jget d ''name'') in
          if truthy candidate then Some (sstr SL candidate) else None)
     | w \<Rightarrow> if w = JNull \<or> w = JStr [] then None else Some (sstr SL w))"

definition normalize_tags :: "slib \<Rightarrow> json \<Rightarrow> string list" where
  "normalize_tags SL v = List.map_filter (tag_of SL) (ensure_list SL v)"

section \<open>Markets and ticks\<close>

record market_metadata =
  asset_id :: string
  market_id :: string
  condition_id :: string
  market_slug :: string
  question :: string
  description :: string
  category :: string
  tags :: "string list"
  event_id :: string
  event_title :: string
  event_slug :: string
  sibling_asset_ids :: "string list"
  sibling_market_slugs :: "string list"
  mkt_outcome :: string
  end_date :: string
  volume_24h :: rat
  liquidity :: rat
  polymarket_url :: string
  active :: bool
  last_tick_ms :: int
  subscribed_at_ms :: int

record price_tick =
  tick_asset_id :: string
  price :: rat
  best_bid :: "rat option"
  best_ask :: "rat option"
  spread :: "rat option"
  signal_source :: string
  quote_ts_ms :: "int option"
  timestamp_ms :: int

record market_resolved_event =
  mre_market_id :: string
  mre_winning_asset_id :: string
  mre_winning_outcome :: string
  mre_timestamp_ms :: int
  mre_asset_ids :: "string list"

datatype subscription_operation = Subscribe | Unsubscribe

record subscription_command =
  sub_operation :: subscription_operation
  sub_asset_ids :: "string list"

text \<open>The dict built from the zip keeps the last token of an outcome that occurs twice.\<close>

definition extract_yes_token_id :: "slib \<Rightarrow> json dict \<Rightarrow> string option" where
  "extract_yes_token_id SL market =
     (let outcomes = map (\<lambda>v. str_lower (str_strip (sstr SL v))) (ensure_list SL (jget market ''outcomes''));
          token_ids = map (sstr SL) (ensure_list SL (jor (jget market ''clobTokenIds'') (jget market ''clob_token_ids''))) in
      if outcomes = [] \<or> token_ids = [] \<or> length outcomes \<noteq> length token_ids then None
      else map_of (rev (zip outcomes token_ids)) ''yes'')"

section \<open>Alerts\<close>

fun level_value :: "alert_level \<Rightarrow> string" where
  "level_value SCOUT = ''scout''"
| "level_value CONFIRMATION = ''confirmation''"
| "level_value TREND = ''trend''"

fun level_label :: "alert_level \<Rightarrow> string" where
  "level_label SCOUT = ''Scout Shift''"
| "level_label CONFIRMATION = ''Confirmed Shift''"
| "level_label TREND = ''Decisive Shift''"

fun level_order :: "alert_level \<Rightarrow> int" where
  "level_order SCOUT = 1"
| "level_order CONFIRMATION = 2"
| "level_order TREND = 3"

definition level_at_least :: "alert_level \<Rightarrow> alert_level \<Rightarrow> bool" where
  "level_at_least level minimum \<longleftrightarrow> level_order level \<ge> level_order minimum"

record signal_quality =
  sq_signal_source :: string
  sq_best_bid :: "rat option"
  sq_best_ask :: "rat option"
  sq_spread :: "rat option"
  sq_quote_age_sec :: "rat option"
  sq_liquidity_bucket :: string
  sq_confidence :: string

record shift_summary =
  sh_direction :: string
  sh_delta_pct :: rat
  sh_signed_delta_pct :: rat
  sh_price_start :: rat
  sh_price_end :: rat
  sh_price_current :: rat
  sh_window_sec :: int
  sh_ticks_in_window :: int

record before_state_window =
  bw_window_sec :: int
  bw_price_start :: "rat option"
  bw_price_end :: "rat option"
  bw_net_delta_pct :: "rat option"
  bw_high :: "rat option"
  bw_low :: "rat option"
  bw_range_pct :: "rat option"
  bw_position_in_range :: "rat option"
  bw_tick_count :: nat
  bw_avg_spread :: "rat option"

record before_state_activity =
  ba_last_5m_tick_count :: nat
  ba_prior_30m_avg_5m_tick_count :: "rat option"
  ba_tick_activity_ratio :: "rat option"
  ba_last_5m_avg_spread :: "rat option"
  ba_prior_30m_avg_spread :: "rat option"
  ba_spread_change_pct :: "rat option"

record before_state =
  bs_lookback_30m :: before_state_window
  bs_lookback_60m :: before_state_window
  bs_activity :: before_state_activity
  bs_regime_label :: string

record shift_alert =
  alert_id :: string
  alert_level :: alert_level
  alert_level_label :: string
  timestamp_iso :: string
  alert_timestamp_ms :: int
  alert_market :: "json dict"
  shift :: shift_summary
  signal_quality :: signal_quality
  before_state :: "before_state option"

section \<open>Metrics\<close>

text \<open>The integer counters of \<open>Metrics\<close> by name, and its other fields.\<close>

record metrics =
  counters :: "string \<Rightarrow> int"
  signal_source_counts :: "int dict"
  ticks_window :: "int list"
  ticks_per_minute :: nat
  archive_lag_sec :: rat
  last_gatekeeper_run_iso :: string
  last_retention_run_iso :: string

definition new_metrics :: metrics where
  "new_metrics = \<lparr>counters = (\<lambda>_. 0), signal_source_counts = [], ticks_window = [],
     ticks_per_minute = 0, archive_lag_sec = 0, last_gatekeeper_run_iso = [], last_retention_run_iso = []\<rparr>"

definition increment :: "string \<Rightarrow> int \<Rightarrow> metrics \<Rightarrow> metrics" where
  "increment name amount m = m\<lparr>counters := (counters m)(name := counters m name + amount)\<rparr>"

definition add_signal_source :: "string \<Rightarrow> metrics \<Rightarrow> metrics" where
  "add_signal_source source m =
     m\<lparr>signal_source_counts :=
       dict_set source ((case dict_get (signal_source_counts m) source of None \<Rightarrow> 0 | Some n \<Rightarrow> n) + 1) (signal_source_counts m)\<rparr>"

definition record_tick :: "int \<Rightarrow> metrics \<Rightarrow> metrics" where
  "record_tick ts m =
     (let w = dropWhile (\<lambda>t. t < ts - 60000) (ticks_window m @ [ts])
      in (increment ''ticks_ingested'' 1 m)\<lparr>ticks_window := w, ticks_per_minute := length w\<rparr>)"

definition counter_names :: "string list" where
  "counter_names = [''tracked_markets'', ''ws_reconnects'', ''ticks_ingested'', ''ticks_per_minute'', ''ticks_dropped_parse_error'',
     ''ticks_dropped_stale'', ''ticks_dropped_quote_stale'', ''market_resolved_ws_events'', ''alerts_scout'', ''alerts_confirmation'',
     ''alerts_trend'', ''alerts_skipped_cooldown'', ''alerts_skipped_quality'', ''alerts_skipped_policy'', ''alerts_skipped_event_dedup'',
     ''alerts_dispatched'', ''notifier_failures'', ''retention_deleted_shift_events'', ''retention_deleted_alert_files'',
     ''retention_deleted_archive_files'']"

definition metrics_snapshot :: "metrics \<Rightarrow> json dict" where
  "metrics_snapshot m =
     map (\<lambda>n. (n, JInt (if n = ''ticks_per_minute'' then int (ticks_per_minute m) else counters m n))) counter_names @
     [(''archive_lag_sec'', JFloat (archive_lag_sec m)),
      (''last_gatekeeper_run_iso'', JStr (last_gatekeeper_run_iso m)),
      (''last_retention_run_iso'', JStr (last_retention_run_iso m)),
      (''signal_source_counts'', JDict (map (\<lambda>(k, n). (k, JInt n)) (signal_source_counts m)))]"

definition mark_gatekeeper_run :: "string \<Rightarrow> metrics \<Rightarrow> metrics" where
  "mark_gatekeeper_run now_iso m = m\<lparr>last_gatekeeper_run_iso := now_iso\<rparr>"

definition mark_retention_run :: "string \<Rightarrow> metrics \<Rightarrow> metrics" where
  "mark_retention_run now_iso m = m\<lparr>last_retention_run_iso := now_iso\<rparr>"

lemma level_order_inj [simp]: "level_order a = level_order b \<longleftrightarrow> a = b"
  by (cases a; cases b) simp_all

lemma record_tick_sorted:
  assumes "sorted (ticks_window m)" "\<forall>t\<in>set (ticks_window m). t \<le> ts"
  shows "sorted (ticks_window (record_tick ts m))"
    and "ticks_window (record_tick ts m) = filter (\<lambda>t. ts - 60000 \<le> t) (ticks_window m @ [ts])"
proof -
  have s: "sorted (ticks_window m @ [ts])" using assms by (simp add: sorted_append)
  then show "ticks_window (record_tick ts m) = filter (\<lambda>t. ts - 60000 \<le> t) (ticks_window m @ [ts])"
    using dropWhile_eq_filter_sorted [of "\<lambda>t. t" "ticks_window m @ [ts]" "ts - 60000"]
    by (simp add: record_tick_def Let_def)
  then show "sorted (ticks_window (record_tick ts m))"
    using s by (metis sorted_wrt_filter)
qed

text \<open>
  The tick rate. Fed with ticks in time order, the metrics count every tick, and
  after each the per-minute rate is the number of ticks of the last sixty seconds, the tick itself
  and the tick exactly sixty seconds back included.
\<close>

theorem ticks_per_minute_correct:
  assumes "sorted (ts @ [t])"
  shows "let m = fold record_tick (ts @ [t]) new_metrics in
     ticks_per_minute m = length (filter (\<lambda>u. t - 60000 \<le> u) (ts @ [t])) \<and>
     counters m ''ticks_ingested'' = int (length ts) + 1"
proof -
  have inv: "sorted (ticks_window (fold record_tick us new_metrics)) \<and>
      (\<forall>x. (\<forall>u\<in>set us. u \<le> x) \<longrightarrow> filter (\<lambda>u. x - 60000 \<le> u) (ticks_window (fold record_tick us new_metrics)) =
        filter (\<lambda>u. x - 60000 \<le> u) us) \<and> set (ticks_window (fold record_tick us new_metrics)) \<subseteq> set us \<and>
      counters (fold record_tick us new_metrics) ''ticks_ingested'' = int (length us)" if "sorted us" for us
    using that
  proof (induction us rule: rev_induct)
    case Nil
    then show ?case by (simp add: new_metrics_def)
  next
    case (snoc u us)
    let ?m = "fold record_tick us new_metrics"
    have IH: "sorted (ticks_window ?m)" "set (ticks_window ?m) \<subseteq> set us"
        "counters ?m ''ticks_ingested'' = int (length us)"
        "\<And>x. \<forall>v\<in>set us. v \<le> x \<Longrightarrow> filter (\<lambda>v. x - 60000 \<le> v) (ticks_window ?m) = filter (\<lambda>v. x - 60000 \<le> v) us"
      using snoc by (auto simp: sorted_append)
    have le: "\<forall>v\<in>set us. v \<le> u" using snoc.prems by (simp add: sorted_append)
    with IH(2) have le': "\<forall>v\<in>set (ticks_window ?m). v \<le> u" by auto
    have win: "ticks_window (record_tick u ?m) = filter (\<lambda>v. u - 60000 \<le> v) (ticks_window ?m @ [u])"
      by (rule record_tick_sorted(2) [OF IH(1) le'])
    have "filter (\<lambda>v. x - 60000 \<le> v) (ticks_window (record_tick u ?m)) = filter (\<lambda>v. x - 60000 \<le> v) (us @ [u])"
      if "\<forall>v\<in>set (us @ [u]). v \<le> x" for x
    proof -
      from that have "u \<le> x" by simp
      then have "filter (\<lambda>v. x - 60000 \<le> v) (filter (\<lambda>v. u - 60000 \<le> v) zs) = filter (\<lambda>v. x - 60000 \<le> v) zs" for zs
        by (auto intro!: filter_cong)
      with IH(4) [of x] that show ?thesis unfolding win by simp
    qed
    moreover have "sorted (ticks_window (record_tick u ?m))"
      by (rule record_tick_sorted(1) [OF IH(1) le'])
    moreover have "set (ticks_window (record_tick u ?m)) \<subseteq> set (us @ [u])" unfolding win using IH(2) by auto
    moreover have "counters (record_tick u ?m) ''ticks_ingested'' = int (length (us @ [u]))"
      using IH(3) by (simp add: record_tick_def Let_def increment_def)
    ultimately show ?case by simp
  qed
  let ?m = "fold record_tick ts new_metrics"
  from assms have s: "sorted ts" "\<forall>u\<in>set ts. u \<le> t" by (auto simp: sorted_append)
  from inv [OF s(1)] s(2) have "filter (\<lambda>u. t - 60000 \<le> u) (ticks_window ?m) = filter (\<lambda>u. t - 60000 \<le> u) ts"
      "sorted (ticks_window ?m)" "set (ticks_window ?m) \<subseteq> set ts" by auto
  moreover from this s(2) have "ticks_window (record_tick t ?m) = filter (\<lambda>u. t - 60000 \<le> u) (ticks_window ?m @ [t])"
    by (intro record_tick_sorted(2)) auto
  moreover have "ticks_per_minute (record_tick t ?m) = length (ticks_window (record_tick t ?m))"
    by (simp add: record_tick_def Let_def)
  ultimately show ?thesis using inv [OF assms] by (simp add: Let_def)
qed

section \<open>Evaluated examples\<close>

definition demo_slib :: slib where
  "demo_slib = \<lparr>blake2s_hex = (\<lambda>s. s), iso_of_ms = (\<lambda>t. ''t''), ms_of_iso = (\<lambda>s. None), s_json_loads = (\<lambda>s. None),
     s_json_dumps = (\<lambda>v. ''{}''), s_repr = (\<lambda>v. []), s_hmac = (\<lambda>k b. b)\<rparr>"

theorem ticks_per_minute_correct_witness:
  "ticks_per_minute (fold record_tick ([0, 30000, 70000] @ [90000]) new_metrics) = 3"
  using ticks_per_minute_correct [of "[0, 30000, 70000]" 90000] by (simp add: Let_def)

end
