(* ===== verification/Sentinel_Store.thy ===== *)
theory Sentinel_Store
  imports Sentinel_Models
begin

text \<open>
  \<open>SQLiteStore\<close> (\<open>src/src/sentinel/storage/sqlite_store.py\<close>): the tables of the
  sentinel process and the cache of tracked markets that it reads instead of the table. What is
  proved: every operation that changes the table changes the cache with it, so the cache is at
  all times what a reload from the table would give.
\<close>

section \<open>Tables\<close>

record tick_row =
  tk_market_slug :: string
  tk_tick :: price_tick

abbreviation tk_ts :: "tick_row \<Rightarrow> int" where
  "tk_ts r \<equiv> timestamp_ms (tk_tick r)"

record shift_event_row =
  se_asset_id :: json
  se_market_slug :: json
  se_question :: json
  se_category :: json
  se_level :: alert_level
  se_shift :: shift_summary
  se_signal_source :: string
  se_spread_at_alert :: "rat option"
  se_quote_age_sec :: "rat option"
  se_confidence :: string
  se_ts_ms :: int

text \<open>A row of \<open>tracked_markets\<close>: the market's columns and \<open>last_update\<close>.\<close>

record tracked_row =
  tm_market :: market_metadata
  tm_last_update :: int

record store =
  tracked_markets :: "tracked_row list"
  tracked_cache :: "market_metadata dict"
  price_ticks :: "tick_row list"
  shift_events :: "shift_event_row list"

definition empty_store :: store where
  "empty_store = \<lparr>tracked_markets = [], tracked_cache = [], price_ticks = [], shift_events = []\<rparr>"

section \<open>Tracked markets\<close>

definition refresh_cache :: "store \<Rightarrow> store" where
  "refresh_cache st = st\<lparr>tracked_cache :=
     foldl (\<lambda>d r. dict_set (asset_id (tm_market r)) (tm_market r) d) [] (tracked_markets st)\<rparr>"

definition get_tracked_market :: "store \<Rightarrow> string \<Rightarrow> market_metadata option" where
  "get_tracked_market st a = dict_get (tracked_cache st) a"

definition active_asset_ids :: "store \<Rightarrow> string list" where
  "active_asset_ids st = map fst (filter (\<lambda>(a, m). active m) (tracked_cache st))"

definition list_tracked_markets :: "store \<Rightarrow> market_metadata dict" where
  "list_tracked_markets st = tracked_cache st"

text \<open>A market with the liveness fields of the one known under its id.\<close>

definition keep_liveness :: "market_metadata option \<Rightarrow> market_metadata \<Rightarrow> market_metadata" where
  "keep_liveness existing m = (case existing of
       None \<Rightarrow> m
     | Some e \<Rightarrow> m\<lparr>active := active e, subscribed_at_ms := subscribed_at_ms e, last_tick_ms := last_tick_ms e\<rparr>)"

text \<open>\<open>INSERT \<dots> ON CONFLICT(asset_id) DO UPDATE\<close>: an existing row keeps its liveness columns.\<close>

fun upsert_row :: "int \<Rightarrow> market_metadata \<Rightarrow> tracked_row list \<Rightarrow> tracked_row list" where
  "upsert_row now m [] = [\<lparr>tm_market = m, tm_last_update = now\<rparr>]"
| "upsert_row now m (r # rs) =
     (if asset_id (tm_market r) = asset_id m
      then \<lparr>tm_market = keep_liveness (Some (tm_market r)) m, tm_last_update = now\<rparr> # rs
      else r # upsert_row now m rs)"

definition upsert_tracked_markets :: "market_metadata list \<Rightarrow> int \<Rightarrow> store \<Rightarrow> store" where
  "upsert_tracked_markets markets now st =
     (if markets = [] then st
      else
        let payload = map (\<lambda>m. keep_liveness (get_tracked_market st (asset_id m)) m) markets in
        st\<lparr>tracked_markets := fold (upsert_row now) payload (tracked_markets st),
           tracked_cache := fold (\<lambda>m c. dict_set (asset_id m) (keep_liveness (dict_get c (asset_id m)) m) c)
             markets (tracked_cache st)\<rparr>)"

definition set_market_active :: "string list \<Rightarrow> bool \<Rightarrow> int \<Rightarrow> store \<Rightarrow> store" where
  "set_market_active ids act now st =
     (if ids = [] then st
      else
        let since = (if act then now else 0) in
        st\<lparr>tracked_markets := map (\<lambda>r. if asset_id (tm_market r) \<in> set ids
             then \<lparr>tm_market = (tm_market r)\<lparr>active := act, subscribed_at_ms := since\<rparr>, tm_last_update = now\<rparr>
             else r) (tracked_markets st),
           tracked_cache := map (\<lambda>(a, m). (a, if a \<in> set ids then m\<lparr>active := act, subscribed_at_ms := since\<rparr> else m))
             (tracked_cache st)\<rparr>)"

definition mark_market_resolved :: "string list \<Rightarrow> int \<Rightarrow> store \<Rightarrow> store" where
  "mark_market_resolved ids now st = set_market_active ids False now st"

definition update_last_tick :: "string \<Rightarrow> int \<Rightarrow> store \<Rightarrow> store" where
  "update_last_tick a ts st =
     st\<lparr>tracked_markets := map (\<lambda>r. if asset_id (tm_market r) = a
          then \<lparr>tm_market = (tm_market r)\<lparr>last_tick_ms := ts\<rparr>, tm_last_update = ts\<rparr> else r) (tracked_markets st),
        tracked_cache := map (\<lambda>(b, m). (b, if b = a then m\<lparr>last_tick_ms := ts\<rparr> else m)) (tracked_cache st)\<rparr>"

section \<open>Ticks and events\<close>

definition insert_price_tick :: "price_tick \<Rightarrow> string \<Rightarrow> store \<Rightarrow> store" where
  "insert_price_tick t slug st = st\<lparr>price_ticks := price_ticks st @ [\<lparr>tk_market_slug = slug, tk_tick = t\<rparr>]\<rparr>"

definition insert_shift_event :: "shift_alert \<Rightarrow> store \<Rightarrow> store" where
  "insert_shift_event a st =
     (let m = alert_market a; q = signal_quality a in
      st\<lparr>shift_events := shift_events st @
        [\<lparr>se_asset_id = jget m ''asset_id'', se_market_slug = jget m ''market_slug'', se_question = jget m ''question'',
          se_category = jget m ''category'', se_level = alert_level a, se_shift = shift a,
          se_signal_source = sq_signal_source q, se_spread_at_alert = sq_spread q,
          se_quote_age_sec = sq_quote_age_sec q, se_confidence = sq_confidence q, se_ts_ms = alert_timestamp_ms a\<rparr>]\<rparr>)"

text \<open>Integer division of SQLite truncates toward zero.\<close>

definition sql_div :: "int \<Rightarrow> int \<Rightarrow> int" where
  "sql_div a b = (if 0 \<le> a then a div b else - ((- a) div b))"

definition hour_of :: "int \<Rightarrow> int" where
  "hour_of ts = sql_div ts 3600000 * 3600000"

definition list_archivable_hours :: "int \<Rightarrow> store \<Rightarrow> int list" where
  "list_archivable_hours cutoff st =
     sort (remdups (map (\<lambda>r. hour_of (tk_ts r)) (filter (\<lambda>r. tk_ts r < cutoff) (price_ticks st))))"

definition fetch_price_ticks_between :: "int \<Rightarrow> int \<Rightarrow> store \<Rightarrow> tick_row list" where
  "fetch_price_ticks_between start_ms end_ms st =
     sort_key tk_ts (filter (\<lambda>r. start_ms \<le> tk_ts r \<and> tk_ts r < end_ms) (price_ticks st))"

definition fetch_price_ticks_for_asset :: "string \<Rightarrow> int \<Rightarrow> int \<Rightarrow> store \<Rightarrow> tick_row list" where
  "fetch_price_ticks_for_asset a start_ms end_ms st =
     sort_key tk_ts (filter (\<lambda>r. tick_asset_id (tk_tick r) = a \<and> start_ms \<le> tk_ts r \<and> tk_ts r < end_ms) (price_ticks st))"

definition delete_price_ticks_before :: "int \<Rightarrow> store \<Rightarrow> store" where
  "delete_price_ticks_before cutoff st = st\<lparr>price_ticks := filter (\<lambda>r. \<not> tk_ts r < cutoff) (price_ticks st)\<rparr>"

definition delete_shift_events_before :: "int \<Rightarrow> store \<Rightarrow> nat \<times> store" where
  "delete_shift_events_before cutoff st =
     (length (filter (\<lambda>e. se_ts_ms e < cutoff) (shift_events st)),
      st\<lparr>shift_events := filter (\<lambda>e. \<not> se_ts_ms e < cutoff) (shift_events st)\<rparr>)"

section \<open>The cache is the table\<close>

definition table_map :: "tracked_row list \<Rightarrow> string \<Rightarrow> market_metadata option" where
  "table_map rs = map_of (map (\<lambda>r. (asset_id (tm_market r), tm_market r)) rs)"

definition coherent :: "store \<Rightarrow> bool" where
  "coherent st \<longleftrightarrow> distinct (map (\<lambda>r. asset_id (tm_market r)) (tracked_markets st)) \<and>
     distinct (map fst (tracked_cache st)) \<and> map_of (tracked_cache st) = table_map (tracked_markets st)"

lemma table_map_asset: "table_map rs a = Some m \<Longrightarrow> asset_id m = a"
  by (auto simp: table_map_def dest!: map_of_SomeD)

lemma keep_liveness_asset [simp]: "asset_id (keep_liveness e m) = asset_id m"
  by (simp add: keep_liveness_def split: option.split)

lemma keep_liveness_idem:
  "keep_liveness (Some r) (keep_liveness e m) = keep_liveness (Some r) m"
  by (simp add: keep_liveness_def split: option.split)

lemma upsert_row_map:
  "table_map (upsert_row now m rs) = (table_map rs)(asset_id m \<mapsto> keep_liveness (table_map rs (asset_id m)) m)"
  by (induction now m rs rule: upsert_row.induct) (auto simp: table_map_def keep_liveness_def fun_eq_iff)

lemma upsert_row_ids:
  "map (\<lambda>r. asset_id (tm_market r)) (upsert_row now m rs) =
     (let ids = map (\<lambda>r. asset_id (tm_market r)) rs in if asset_id m \<in> set ids then ids else ids @ [asset_id m])"
  by (induction now m rs rule: upsert_row.induct) (auto simp: Let_def)

lemma upsert_row_distinct:
  "distinct (map (\<lambda>r. asset_id (tm_market r)) rs) \<Longrightarrow> distinct (map (\<lambda>r. asset_id (tm_market r)) (upsert_row now m rs))"
  by (simp add: upsert_row_ids Let_def)

text \<open>
  The payload of the upsert carries the liveness known before the call; the cache is updated with
  the liveness known at each market's turn. Both give the same rows.
\<close>

lemma upsert_both:
  assumes "map_of c = table_map rs" "distinct (map (\<lambda>r. asset_id (tm_market r)) rs)" "distinct (map fst c)"
    and "\<And>m e. m \<in> set ms \<Longrightarrow> old (asset_id m) = Some e \<Longrightarrow> table_map rs (asset_id m) \<noteq> None"
  shows "map_of (fold (\<lambda>m c. dict_set (asset_id m) (keep_liveness (dict_get c (asset_id m)) m) c) ms c) =
      table_map (fold (upsert_row now) (map (\<lambda>m. keep_liveness (old (asset_id m)) m) ms) rs) \<and>
    distinct (map (\<lambda>r. asset_id (tm_market r)) (fold (upsert_row now) (map (\<lambda>m. keep_liveness (old (asset_id m)) m) ms) rs)) \<and>
    distinct (map fst (fold (\<lambda>m c. dict_set (asset_id m) (keep_liveness (dict_get c (asset_id m)) m) c) ms c))"
  using assms
proof (induction ms arbitrary: c rs)
  case Nil
  then show ?case by simp
next
  case (Cons m ms)
  let ?c = "dict_set (asset_id m) (keep_liveness (dict_get c (asset_id m)) m) c"
  let ?rs = "upsert_row now (keep_liveness (old (asset_id m)) m) rs"
  have eq: "keep_liveness (table_map rs (asset_id m)) (keep_liveness (old (asset_id m)) m) =
      keep_liveness (table_map rs (asset_id m)) m"
  proof (cases "table_map rs (asset_id m)")
    case None
    with Cons.prems(4) [of m] have "old (asset_id m) = None" by (cases "old (asset_id m)") auto
    then show ?thesis by (simp add: keep_liveness_def)
  next
    case (Some r)
    then show ?thesis by (simp add: keep_liveness_idem)
  qed
  have "map_of ?c = table_map ?rs"
    using Cons.prems(1) eq by (simp add: upsert_row_map update_conv' fun_eq_iff)
  moreover have "distinct (map (\<lambda>r. asset_id (tm_market r)) ?rs)" using Cons.prems(2) by (rule upsert_row_distinct)
  moreover have "distinct (map fst ?c)" using Cons.prems(3) by simp
  moreover have "table_map ?rs (asset_id n) \<noteq> None" if "n \<in> set ms" "old (asset_id n) = Some e" for n e
    using Cons.prems(4) [of n e] that by (simp add: upsert_row_map)
  ultimately show ?case using Cons.IH [of ?c ?rs] by simp
qed

lemma coherent_upsert: "coherent st \<Longrightarrow> coherent (upsert_tracked_markets ms now st)"
proof -
  assume c: "coherent st"
  have "map_of (fold (\<lambda>m c. dict_set (asset_id m) (keep_liveness (dict_get c (asset_id m)) m) c) ms (tracked_cache st)) =
      table_map (fold (upsert_row now) (map (\<lambda>m. keep_liveness (get_tracked_market st (asset_id m)) m) ms) (tracked_markets st)) \<and>
    distinct (map (\<lambda>r. asset_id (tm_market r)) (fold (upsert_row now)
      (map (\<lambda>m. keep_liveness (get_tracked_market st (asset_id m)) m) ms) (tracked_markets st))) \<and>
    distinct (map fst (fold (\<lambda>m c. dict_set (asset_id m) (keep_liveness (dict_get c (asset_id m)) m) c) ms (tracked_cache st)))"
    by (rule upsert_both) (use c in \<open>auto simp: coherent_def get_tracked_market_def\<close>)
  then show ?thesis using c by (auto simp: upsert_tracked_markets_def coherent_def Let_def)
qed

lemma table_map_map:
  assumes "\<And>r. asset_id (tm_market (f r)) = asset_id (tm_market r)"
    and "\<And>r. tm_market (f r) = g (asset_id (tm_market r)) (tm_market r)"
  shows "table_map (map f rs) = (\<lambda>a. map_option (g a) (table_map rs a))"
proof
  fix a show "table_map (map f rs) a = map_option (g a) (table_map rs a)"
    using assms by (induction rs) (auto simp: table_map_def)
qed

lemma map_of_map_key: "map_of (map (\<lambda>(a, m). (a, g a m)) c) = (\<lambda>a. map_option (g a) (map_of c a))"
  by (induction c) (auto simp: fun_eq_iff)

text \<open>An update of rows by their id that is made on the cache as well keeps the two equal.\<close>

lemma coherent_update:
  assumes c: "coherent st"
    and f: "\<And>r. asset_id (tm_market (f r)) = asset_id (tm_market r)" "\<And>r. tm_market (f r) = g (asset_id (tm_market r)) (tm_market r)"
  shows "coherent (st\<lparr>tracked_markets := map f (tracked_markets st), tracked_cache := map (\<lambda>(a, m). (a, g a m)) (tracked_cache st)\<rparr>)"
proof -
  have "table_map (map f (tracked_markets st)) = map_of (map (\<lambda>(a, m). (a, g a m)) (tracked_cache st))"
    using c unfolding table_map_map [of f g, OF f] map_of_map_key by (simp add: coherent_def)
  then show ?thesis using c f(1) by (simp add: coherent_def o_def case_prod_unfold)
qed

lemma coherent_set_active: "coherent st \<Longrightarrow> coherent (set_market_active ids act now st)"
  unfolding set_market_active_def Let_def
  by (auto intro!: coherent_update)

lemma coherent_last_tick: "coherent st \<Longrightarrow> coherent (update_last_tick a ts st)"
  unfolding update_last_tick_def by (rule coherent_update) auto

lemma foldl_dict_set_map:
  "distinct (map (\<lambda>r. asset_id (tm_market r)) rs) \<Longrightarrow>
   map_of (foldl (\<lambda>d r. dict_set (asset_id (tm_market r)) (tm_market r) d) d rs) = map_of d ++ table_map rs"
proof (induction rs arbitrary: d)
  case Nil
  then show ?case by (simp add: table_map_def)
next
  case (Cons r rs)
  then have "table_map rs (asset_id (tm_market r)) = None"
    by (auto simp: table_map_def map_of_eq_None_iff image_iff)
  with Cons show ?case
    by (auto simp: table_map_def map_add_def fun_eq_iff split: option.split)
qed

lemma foldl_dict_set_distinct:
  "distinct (map fst d) \<Longrightarrow> distinct (map fst (foldl (\<lambda>d r. dict_set (asset_id (tm_market r)) (tm_market r) d) d rs))"
  by (induction rs arbitrary: d) simp_all

lemma refresh_coherent:
  assumes "distinct (map (\<lambda>r. asset_id (tm_market r)) (tracked_markets st))"
  shows "coherent (refresh_cache st)"
  using assms foldl_dict_set_map [OF assms, of "[]"] foldl_dict_set_distinct [of "[]" "tracked_markets st"]
  by (simp add: coherent_def refresh_cache_def)

section \<open>Runs\<close>

inductive store_step :: "store \<Rightarrow> store \<Rightarrow> bool" where
  "store_step st (refresh_cache st)"
| "store_step st (upsert_tracked_markets ms now st)"
| "store_step st (set_market_active ids act now st)"
| "store_step st (mark_market_resolved ids now st)"
| "store_step st (update_last_tick a ts st)"
| "store_step st (insert_price_tick t slug st)"
| "store_step st (insert_shift_event al st)"
| "store_step st (delete_price_ticks_before cutoff st)"
| "store_step st (snd (delete_shift_events_before cutoff st))"

lemma store_step_coherent: "store_step st st' \<Longrightarrow> coherent st \<Longrightarrow> coherent st'"
proof (induction rule: store_step.induct)
  case (1 st)
  then show ?case by (intro refresh_coherent) (simp add: coherent_def)
next
  case (2 st ms now)
  then show ?case by (intro coherent_upsert)
next
  case (3 st ids act now)
  then show ?case by (intro coherent_set_active)
next
  case (4 st ids now)
  then show ?case unfolding mark_market_resolved_def by (intro coherent_set_active)
next
  case (5 st a ts)
  then show ?case by (intro coherent_last_tick)
qed (simp_all add: coherent_def insert_price_tick_def insert_shift_event_def delete_price_ticks_before_def
    delete_shift_events_before_def Let_def)

text \<open>
  C30 (invariant): the cache is the table. After any sequence of the store's operations on a store
  that started empty, a lookup in the cache of tracked markets gives exactly the market stored in
  the table under that asset id, with its liveness fields, and nothing where the table has no row.
\<close>

theorem cache_equals_table:
  assumes "store_step\<^sup>*\<^sup>* empty_store st"
  shows "get_tracked_market st a = table_map (tracked_markets st) a"
proof -
  have "coherent st"
    using assms
  proof (induction rule: rtranclp_induct)
    case base
    then show ?case by (simp add: coherent_def empty_store_def table_map_def fun_eq_iff)
  next
    case (step y z)
    then show ?case by (blast intro: store_step_coherent)
  qed
  then show ?thesis by (simp add: coherent_def get_tracked_market_def)
qed

lemma upsert_lookup:
  assumes "distinct (map asset_id ms)"
  shows "get_tracked_market (upsert_tracked_markets ms now st) a =
    (case map_of (map (\<lambda>m. (asset_id m, m)) ms) a of
       None \<Rightarrow> get_tracked_market st a
     | Some m \<Rightarrow> Some (case get_tracked_market st a of None \<Rightarrow> m
         | Some e \<Rightarrow> m\<lparr>active := active e, subscribed_at_ms := subscribed_at_ms e, last_tick_ms := last_tick_ms e\<rparr>))"
proof -
  have "map_of (fold (\<lambda>m c. dict_set (asset_id m) (keep_liveness (dict_get c (asset_id m)) m) c) ms c) a =
    (case map_of (map (\<lambda>m. (asset_id m, m)) ms) a of
       None \<Rightarrow> map_of c a | Some m \<Rightarrow> Some (keep_liveness (map_of c a) m))" for c
    using assms
  proof (induction ms arbitrary: c)
    case Nil
    then show ?case by simp
  next
    case (Cons m ms)
    have "map_of (map (\<lambda>m. (asset_id m, m)) ms) (asset_id m) = None"
      using Cons.prems by (auto simp: map_of_eq_None_iff image_iff)
    with Cons show ?case by (auto split: option.split)
  qed
  from this [of "tracked_cache st"] show ?thesis
    by (auto simp: get_tracked_market_def upsert_tracked_markets_def Let_def keep_liveness_def split: option.splits)
qed

text \<open>
  A refresh of a market's metadata leaves its liveness alone. After an upsert, a
  known market has the new metadata with the activity, the subscription time and the last tick it
  had before, and markets that are not in the list are unchanged.
\<close>

theorem upsert_keeps_liveness:
  assumes "distinct (map asset_id ms)"
  shows "get_tracked_market (upsert_tracked_markets ms now st) a =
    (case map_of (map (\<lambda>m. (asset_id m, m)) ms) a of
       None \<Rightarrow> get_tracked_market st a
     | Some m \<Rightarrow> Some (case get_tracked_market st a of None \<Rightarrow> m
         | Some e \<Rightarrow> m\<lparr>active := active e, subscribed_at_ms := subscribed_at_ms e, last_tick_ms := last_tick_ms e\<rparr>))"
  by (rule upsert_lookup [OF assms])

section \<open>Evaluated examples\<close>

definition demo_metadata :: "string \<Rightarrow> market_metadata" where
  "demo_metadata a =
     \<lparr>asset_id = a, market_id = ''m'', condition_id = ''c'', market_slug = ''slug'', question = ''q'', description = ''d'',
      category = ''politics'', tags = [], event_id = ''e'', event_title = ''t'', event_slug = ''ev'', sibling_asset_ids = [],
      sibling_market_slugs = [], mkt_outcome = ''Yes'', end_date = [], volume_24h = 1, liquidity = 50000, polymarket_url = ''u'',
      active = True, last_tick_ms = 0, subscribed_at_ms = 0\<rparr>"

theorem cache_equals_table_witness:
  "get_tracked_market (upsert_tracked_markets [demo_metadata ''a''] 5 empty_store) ''a'' = Some (demo_metadata ''a'')"
  using cache_equals_table [OF r_into_rtranclp [of store_step, OF store_step.intros(2)], of "[demo_metadata ''a'']" 5 "''a''"]
  by (simp add: upsert_tracked_markets_def get_tracked_market_def empty_store_def table_map_def demo_metadata_def
      keep_liveness_def)

theorem upsert_keeps_liveness_witness:
  "map_option active (get_tracked_market (upsert_tracked_markets [demo_metadata ''a''] 9
     (set_market_active [''a''] False 7 (upsert_tracked_markets [demo_metadata ''a''] 5 empty_store))) ''a'') = Some False"
  using upsert_keeps_liveness [of "[demo_metadata ''a'']" 9 "set_market_active [''a''] False 7
      (upsert_tracked_markets [demo_metadata ''a''] 5 empty_store)" "''a''"]
  by (simp add: demo_metadata_def set_market_active_def upsert_tracked_markets_def get_tracked_market_def
      empty_store_def keep_liveness_def)

end
