(* ===== verification/Gatekeeper.thy ===== *)
theory Gatekeeper
  imports Sentinel_Store
begin

text \<open>
  \<open>Gatekeeper\<close> (\<open>src/src/sentinel/ingestion/gatekeeper.py\<close>): it reads the listed events
  page by page, extracts the markets worth tracking, and brings the store and the websocket
  subscriptions in line with them. The API is a function from an offset to the answer; where the
  code raises, the result is \<open>Inl\<close> (while fetching) or \<open>None\<close>.
\<close>

section \<open>Fetching\<close>

datatype fetch_error = Request_Failed | Malformed_Payload

text \<open>The page at an offset: \<open>None\<close> where the request fails or its body is not JSON.\<close>

type_synonym events_api = "int \<Rightarrow> json option"

definition batch_of :: "slib \<Rightarrow> json \<Rightarrow> json list option" where
  "batch_of SL payload = (case payload of
       JList xs \<Rightarrow> Some xs
     | JDict d \<Rightarrow> Some (ensure_list SL (jget d ''events''))
     | _ \<Rightarrow> None)"

text \<open>The loop reads pages until one is short; \<open>None\<close> is a loop that never ends.\<close>

partial_function (option) fetch_from ::
  "slib \<Rightarrow> gatekeeper_config \<Rightarrow> events_api \<Rightarrow> int \<Rightarrow> json list \<Rightarrow> (fetch_error + json list) option" where
  "fetch_from SL cfg api offset events =
     (case api offset of
        None \<Rightarrow> Some (Inl Request_Failed)
      | Some payload \<Rightarrow>
          (case batch_of SL payload of
             None \<Rightarrow> Some (Inl Malformed_Payload)
           | Some batch \<Rightarrow>
               if batch = [] then Some (Inr events)
               else if int (length batch) < page_size cfg then Some (Inr (events @ batch))
               else fetch_from SL cfg api (offset + page_size cfg) (events @ batch)))"

definition fetch_events :: "slib \<Rightarrow> gatekeeper_config \<Rightarrow> events_api \<Rightarrow> (fetch_error + json list) option" where
  "fetch_events SL cfg api = fetch_from SL cfg api 0 []"

section \<open>Extraction\<close>

definition is_excluded_market :: "string \<Rightarrow> string list \<Rightarrow> string set \<Rightarrow> string set \<Rightarrow> bool" where
  "is_excluded_market cat tgs excluded_cats excluded_tags \<longleftrightarrow>
     str_lower (str_strip cat) \<in> excluded_cats \<or>
     (\<lambda>t. str_lower (str_strip t)) ` set tgs \<inter> excluded_tags \<noteq> {}"

definition text_or :: "slib \<Rightarrow> json list \<Rightarrow> string" where
  "text_or SL vs = sstr SL (foldr jor vs (JStr []))"

definition canonical_markets :: "slib \<Rightarrow> json dict \<Rightarrow> (json dict \<times> string) list" where
  "canonical_markets SL event =
     List.map_filter (\<lambda>market.
         case extract_yes_token_id SL market of
           None \<Rightarrow> None
         | Some token \<Rightarrow> if token = [] then None else Some (market, token))
       (List.map_filter as_dict (ensure_list SL (jget event ''markets'')))"

definition market_from :: "slib \<Rightarrow> json dict \<Rightarrow> (json dict \<times> string) list \<Rightarrow> json dict \<Rightarrow> string \<Rightarrow> market_metadata" where
  "market_from SL event canonical market yes_token =
     (let ev_slug = text_or SL [jget event ''slug''];
          siblings = filter (\<lambda>(m, a). a \<noteq> yes_token) canonical in
      \<lparr>asset_id = yes_token,
       market_id = text_or SL [jget market ''id'', jget market ''condition_id'', jget market ''market''],
       condition_id = text_or SL [jget market ''condition_id'', jget market ''conditionId'', jget market ''market''],
       market_slug = text_or SL [jget market ''slug''],
       question = text_or SL [jget market ''question'', jget market ''title''],
       description = text_or SL [jget market ''description'', jget event ''description''],
       category = text_or SL [jget market ''category'', jget event ''category''],
       tags = normalize_tags SL (jor (jget market ''tags'') (jget event ''tags'')),
       event_id = sstr SL (jget_default event ''id'' (JStr [])),
       event_title = text_or SL [jget event ''title'', jget event ''question''],
       event_slug = ev_slug,
       sibling_asset_ids = map snd siblings,
       sibling_market_slugs = map (\<lambda>(m, a). text_or SL [jget m ''slug'']) siblings,
       mkt_outcome = ''Yes'',
       end_date = text_or SL [jget market ''endDate'', jget market ''end_date'',
         JStr (text_or SL [jget event ''endDate'', jget event ''end_date''])],
       volume_24h = parse_float (jor (jor (jget market ''volume24hr'') (jget market ''volume_24h'')) (jget event ''volume24hr'')) 0,
       liquidity = parse_float (jor (jget market ''liquidity'') (jget event ''liquidity'')) 0,
       polymarket_url = text_or SL [jget market ''url'', JStr (''https://polymarket.com/event/'' @ ev_slug)],
       active = True, last_tick_ms = 0, subscribed_at_ms = 0\<rparr>)"

definition wanted :: "gatekeeper_config \<Rightarrow> json dict \<Rightarrow> json dict \<Rightarrow> market_metadata \<Rightarrow> bool" where
  "wanted cfg event market m \<longleftrightarrow>
     truthy (jget_default market ''active'' (jget_default event ''active'' (JBool True))) \<and>
     \<not> truthy (jget_default market ''closed'' (jget_default event ''closed'' (JBool False))) \<and>
     \<not> is_excluded_market (category m) (tags m) (str_lower ` set (excluded_categories cfg)) (str_lower ` set (excluded_tag_slugs cfg)) \<and>
     \<not> (volume_24h m < min_volume_24h cfg \<or> liquidity m < gk_min_liquidity cfg)"

definition event_candidates :: "slib \<Rightarrow> gatekeeper_config \<Rightarrow> json dict \<Rightarrow> market_metadata list" where
  "event_candidates SL cfg event =
     (let canonical = canonical_markets SL event in
      List.map_filter (\<lambda>(market, token).
          let m = market_from SL event canonical market token in
          if wanted cfg event market m then Some m else None) canonical)"

text \<open>\<open>xs[:n]\<close>: a negative bound counts from the end.\<close>

definition slice_to :: "int \<Rightarrow> 'a list \<Rightarrow> 'a list" where
  "slice_to n xs = (if 0 \<le> n then take (nat n) xs else take (length xs - nat (- n)) xs)"

text \<open>An event that is not an object has no \<open>get\<close> and raises.\<close>

definition extract_tracked_markets :: "slib \<Rightarrow> gatekeeper_config \<Rightarrow> json list \<Rightarrow> market_metadata dict option" where
  "extract_tracked_markets SL cfg events =
     (if list_all (\<lambda>e. as_dict e \<noteq> None) events
      then
        let candidates = concat (map (event_candidates SL cfg) (List.map_filter as_dict events));
            limited = slice_to (max_markets cfg) (sort_key (\<lambda>m. - volume_24h m) candidates) in
        Some (foldl (\<lambda>d m. dict_set (asset_id m) m d) [] limited)
      else None)"

section \<open>A run\<close>

record market_diff =
  subscribe_ids :: "string list"
  unsubscribe_ids :: "string list"
  tracked :: "market_metadata dict"

record gatekeeper =
  gk_store :: store
  command_queue :: "subscription_command list"
  gk_metrics :: metrics

definition set_tracked_count :: "nat \<Rightarrow> metrics \<Rightarrow> metrics" where
  "set_tracked_count n m = m\<lparr>counters := (counters m)(''tracked_markets'' := int n)\<rparr>"

text \<open>The part of \<open>run_once\<close> after the markets were extracted.\<close>

definition apply_tracked :: "market_metadata dict \<Rightarrow> int \<Rightarrow> string \<Rightarrow> gatekeeper \<Rightarrow> market_diff \<times> gatekeeper" where
  "apply_tracked trk now now_iso g =
     (let act = active_asset_ids (gk_store g);
          new_ids = sort (filter (\<lambda>a. a \<notin> set act) (map fst trk));
          removed_ids = sort (filter (\<lambda>a. a \<notin> set (map fst trk)) act);
          st1 = upsert_tracked_markets (map snd trk) now (gk_store g);
          st2 = set_market_active new_ids True now st1;
          st3 = set_market_active removed_ids False now st2;
          q1 = (if new_ids \<noteq> [] then [\<lparr>sub_operation = Subscribe, sub_asset_ids = new_ids\<rparr>] else []);
          q2 = (if removed_ids \<noteq> [] then [\<lparr>sub_operation = Unsubscribe, sub_asset_ids = removed_ids\<rparr>] else []) in
      (\<lparr>subscribe_ids = new_ids, unsubscribe_ids = removed_ids, tracked = trk\<rparr>,
       \<lparr>gk_store = st3, command_queue = command_queue g @ q1 @ q2,
        gk_metrics = mark_gatekeeper_run now_iso (set_tracked_count (length trk) (gk_metrics g))\<rparr>))"

definition run_once ::
  "slib \<Rightarrow> gatekeeper_config \<Rightarrow> events_api \<Rightarrow> int \<Rightarrow> string \<Rightarrow> gatekeeper \<Rightarrow> (market_diff \<times> gatekeeper) option option" where
  "run_once SL cfg api now now_iso g =
     (case fetch_events SL cfg api of
        None \<Rightarrow> None
      | Some (Inl e) \<Rightarrow> Some None
      | Some (Inr events) \<Rightarrow>
          Some (map_option (\<lambda>trk. apply_tracked trk now now_iso g) (extract_tracked_markets SL cfg events)))"

section \<open>Fetching reads every page\<close>

text \<open>An API that serves a list of events in pages.\<close>

definition paged :: "gatekeeper_config \<Rightarrow> json list \<Rightarrow> events_api" where
  "paged cfg evs offset = Some (JList (take (nat (page_size cfg)) (drop (nat offset) evs)))"

lemma fetch_from_paged:
  assumes "0 < page_size cfg" "0 \<le> offset"
  shows "fetch_from SL cfg (paged cfg evs) offset acc = Some (Inr (acc @ drop (nat offset) evs))"
  using assms(2)
proof (induction "length evs - nat offset" arbitrary: offset acc rule: less_induct)
  case less
  let ?p = "page_size cfg" and ?batch = "take (nat (page_size cfg)) (drop (nat offset) evs)"
  have step: "fetch_from SL cfg (paged cfg evs) offset acc =
      (if ?batch = [] then Some (Inr acc)
       else if int (length ?batch) < ?p then Some (Inr (acc @ ?batch))
       else fetch_from SL cfg (paged cfg evs) (offset + ?p) (acc @ ?batch))"
    by (subst fetch_from.simps) (simp add: paged_def batch_of_def)
  show ?case
  proof (cases "int (length (drop (nat offset) evs)) < ?p")
    case True
    then have all: "?batch = drop (nat offset) evs" by simp
    show ?thesis using True unfolding step all by (simp del: length_drop drop_eq_Nil)
  next
    case False
    then have long: "nat ?p \<le> length evs - nat offset" by simp
    have off: "nat (offset + ?p) = nat offset + nat ?p" using assms(1) less.prems by (simp add: nat_add_distrib)
    have "fetch_from SL cfg (paged cfg evs) (offset + ?p) (acc @ ?batch) =
        Some (Inr ((acc @ ?batch) @ drop (nat (offset + ?p)) evs))"
    proof (rule less.hyps)
      show "length evs - nat (offset + ?p) < length evs - nat offset"
        unfolding off using long assms(1) by linarith
    qed (use assms(1) less.prems in simp)
    moreover have "?batch @ drop (nat (offset + ?p)) evs = drop (nat offset) evs"
      unfolding off by (metis append_take_drop_id drop_drop add.commute)
    moreover have "?batch \<noteq> []" "\<not> int (length ?batch) < ?p" using long assms(1) by auto
    ultimately show ?thesis unfolding step by simp
  qed
qed

text \<open>
  C27 (termination): fetching ends and misses nothing. With a positive page size, against an API
  that serves its events in pages of that size, the paging loop returns, and it returns all events
  in order.
\<close>

theorem fetch_events_complete:
  assumes "0 < page_size cfg"
  shows "fetch_events SL cfg (paged cfg evs) = Some (Inr evs)"
  using fetch_from_paged [OF assms, of 0] by (simp add: fetch_events_def)

section \<open>What is tracked\<close>

lemma foldl_dict_keys:
  "map fst (foldl (\<lambda>d m. dict_set (f m) m d) d ms) = foldl (\<lambda>ks m. if f m \<in> set ks then ks else ks @ [f m]) (map fst d) ms"
  by (induction ms arbitrary: d) (simp_all add: update_keys)

lemma foldl_dict_set_in:
  "(k, m) \<in> set (foldl (\<lambda>d m. dict_set (f m) m d) d ms) \<Longrightarrow> distinct (map fst d) \<Longrightarrow>
     (k, m) \<in> set d \<or> (m \<in> set ms \<and> k = f m)"
proof (induction ms arbitrary: d)
  case Nil
  then show ?case by simp
next
  case (Cons x ms)
  from Cons.IH [of "dict_set (f x) x d"] Cons.prems
  consider "(k, m) \<in> set (dict_set (f x) x d)" | "m \<in> set ms" "k = f m" by auto
  then show ?case
  proof cases
    case 1
    then have "dict_get (dict_set (f x) x d) k = Some m"
      using Cons.prems(2) by (intro map_of_is_SomeI) simp_all
    then show ?thesis by (auto split: if_splits dest: map_of_SomeD)
  qed auto
qed

lemma foldl_dict_distinct: "distinct (map fst d) \<Longrightarrow> distinct (map fst (foldl (\<lambda>d m. dict_set (f m) m d) d ms))"
  by (induction ms arbitrary: d) simp_all

lemma foldl_dict_length: "length (foldl (\<lambda>d m. dict_set (f m) m d) d ms) \<le> length d + length ms"
proof (induction ms arbitrary: d)
  case (Cons m ms)
  have "length (dict_set (f m) m d) \<le> Suc (length d)" by (induction d) auto
  with Cons [of "dict_set (f m) m d"] show ?case by simp
qed simp

lemma map_filter_in: "y \<in> set (List.map_filter f xs) \<longleftrightarrow> (\<exists>x\<in>set xs. f x = Some y)"
  by (induction xs) (auto simp: map_filter_simps split: option.split)

lemma slice_to_subset: "set (slice_to n xs) \<subseteq> set xs"
  by (simp add: slice_to_def set_take_subset)

lemma slice_to_length: "0 \<le> n \<Longrightarrow> length (slice_to n xs) \<le> nat n"
  by (simp add: slice_to_def)

lemma market_from_fields [simp]:
  "asset_id (market_from SL e c market token) = token" "active (market_from SL e c market token)"
  by (simp_all add: market_from_def Let_def)

lemma candidate_wanted:
  assumes "m \<in> set (event_candidates SL cfg e)"
  shows "\<exists>market. wanted cfg e market m \<and> active m \<and> extract_yes_token_id SL market = Some (asset_id m)"
proof -
  from assms obtain market token where *: "(market, token) \<in> set (canonical_markets SL e)"
      "m = market_from SL e (canonical_markets SL e) market token" "wanted cfg e market m"
    by (auto simp: event_candidates_def map_filter_in Let_def split: if_splits)
  from *(1) have "extract_yes_token_id SL market = Some token"
    by (auto simp: canonical_markets_def map_filter_in split: option.splits if_splits)
  with *(2,3) show ?thesis by auto
qed


end
