(* ===== verification/Market_Feed.thy ===== *)
theory Market_Feed
  imports Sentinel_Models
begin

text \<open>
  \<open>MarketWSClient\<close> (\<open>src/src/sentinel/ingestion/ws_client.py\<close>): messages become ticks
  and resolution events, commands change the set of subscribed assets, and lost connections are
  retried. \<open>None\<close> is where the parsing raises.
\<close>

section \<open>Messages\<close>

text \<open>\<open>for x in v\<close> over a value: the elements of a list, the characters of a string, the keys of a dict.\<close>

definition py_iter :: "json \<Rightarrow> json list option" where
  "py_iter v = (case v of
       JList xs \<Rightarrow> Some xs
     | JStr s \<Rightarrow> Some (map (\<lambda>c. JStr [c]) s)
     | JDict d \<Rightarrow> Some (map (\<lambda>(k, w). JStr k) d)
     | _ \<Rightarrow> None)"

text \<open>\<open>v[0].get("price")\<close> on a value that is not falsy.\<close>

definition first_price :: "json \<Rightarrow> json option" where
  "first_price v = (case v of JList (JDict d # _) \<Rightarrow> Some (jget d ''price'') | _ \<Rightarrow> None)"

definition extract_best_bid_ask :: "json dict \<Rightarrow> (rat \<times> rat) option option" where
  "extract_best_bid_ask item =
     (if dict_get item ''best_bid'' \<noteq> None \<and> dict_get item ''best_ask'' \<noteq> None
      then Some (Some (parse_float (jget item ''best_bid'') 0, parse_float (jget item ''best_ask'') 0))
      else
        let bids = jget item ''bids''; asks = jget item ''asks'' in
        if \<not> truthy bids \<or> \<not> truthy asks then Some None
        else case (first_price bids, first_price asks) of
            (Some b, Some a) \<Rightarrow> Some (Some (parse_float b 0, parse_float a 0))
          | _ \<Rightarrow> None)"

definition midpoint_tick :: "slib \<Rightarrow> json dict \<Rightarrow> string \<Rightarrow> int \<Rightarrow> rat \<Rightarrow> rat \<Rightarrow> price_tick" where
  "midpoint_tick SL d source ts bid ask =
     \<lparr>tick_asset_id = sstr SL (jget d ''asset_id''), price = (bid + ask) / 2, best_bid = Some bid, best_ask = Some ask,
      spread = Some (ask - bid), signal_source = source, quote_ts_ms = Some ts, timestamp_ms = ts\<rparr>"

definition change_ticks :: "slib \<Rightarrow> websocket_config \<Rightarrow> int \<Rightarrow> json \<Rightarrow> price_tick list option" where
  "change_ticks SL cfg ts change = (case change of
       JDict d \<Rightarrow>
         (let bid = parse_float (jget d ''best_bid'') (- 1); ask = parse_float (jget d ''best_ask'') (- 1) in
          Some (if bid < 0 \<or> ask < 0 then []
                else if ask - bid > max_spread_for_midpoint cfg then []
                else [midpoint_tick SL d ''midpoint_change'' ts bid ask]))
     | _ \<Rightarrow> None)"

fun concat_opt :: "'a list option list \<Rightarrow> 'a list option" where
  "concat_opt [] = Some []"
| "concat_opt (None # xs) = None"
| "concat_opt (Some ys # xs) = map_option (\<lambda>zs. ys @ zs) (concat_opt xs)"

definition last_trade_tick :: "slib \<Rightarrow> json dict \<Rightarrow> int \<Rightarrow> price_tick" where
  "last_trade_tick SL item ts =
     \<lparr>tick_asset_id = sstr SL (jget item ''asset_id''), price = parse_float (jget item ''price'') 0, best_bid = None,
      best_ask = None, spread = None, signal_source = ''last_trade'', quote_ts_ms = None, timestamp_ms = ts\<rparr>"

definition resolved_event :: "slib \<Rightarrow> json dict \<Rightarrow> int \<Rightarrow> json list \<Rightarrow> market_resolved_event" where
  "resolved_event SL item ts assets =
     (let text = (\<lambda>v. sstr SL (jor v (JStr []))) in
      \<lparr>mre_market_id = text (jor (jget item ''market'') (jget item ''id'')),
       mre_winning_asset_id = text (jget item ''winning_asset_id''), mre_winning_outcome = text (jget item ''winning_outcome''),
       mre_timestamp_ms = ts, mre_asset_ids = map (sstr SL) assets\<rparr>)"

definition parse_item :: "slib \<Rightarrow> websocket_config \<Rightarrow> json dict \<Rightarrow> (price_tick list \<times> market_resolved_event list) option" where
  "parse_item SL cfg item =
     (let event_type = sstr SL (jor (jget item ''event_type'') (JStr [])); ts = parse_ts_ms SL (jget item ''timestamp'') in
      if event_type = ''book'' \<or> event_type = ''best_bid_ask'' then
        (case extract_best_bid_ask item of
           None \<Rightarrow> None
         | Some None \<Rightarrow> Some ([], [])
         | Some (Some (bid, ask)) \<Rightarrow>
             Some (if ask - bid > max_spread_for_midpoint cfg then [] else [midpoint_tick SL item ''midpoint_book'' ts bid ask], []))
      else if event_type = ''price_change'' then
        (case py_iter (jget_default item ''price_changes'' (JList [])) of
           None \<Rightarrow> None
         | Some changes \<Rightarrow> map_option (\<lambda>ticks. (ticks, [])) (concat_opt (map (change_ticks SL cfg ts) changes)))
      else if event_type = ''last_trade_price'' then Some ([last_trade_tick SL item ts], [])
      else if event_type = ''market_resolved'' then
        map_option (\<lambda>assets. ([], [resolved_event SL item ts assets])) (py_iter (jget_default item ''assets_ids'' (JList [])))
      else Some ([], []))"

fun parse_items :: "slib \<Rightarrow> websocket_config \<Rightarrow> json list \<Rightarrow> (price_tick list \<times> market_resolved_event list) option" where
  "parse_items SL cfg [] = Some ([], [])"
| "parse_items SL cfg (JDict item # items) =
     (case parse_item SL cfg item of
        None \<Rightarrow> None
      | Some (ts, rs) \<Rightarrow> map_option (\<lambda>(ts', rs'). (ts @ ts', rs @ rs')) (parse_items SL cfg items))"
| "parse_items SL cfg (_ # items) = parse_items SL cfg items"

definition parse_message :: "slib \<Rightarrow> websocket_config \<Rightarrow> string \<Rightarrow> (price_tick list \<times> market_resolved_event list) option" where
  "parse_message SL cfg raw =
     (case s_json_loads SL raw of
        None \<Rightarrow> None
      | Some (JList items) \<Rightarrow> parse_items SL cfg items
      | Some v \<Rightarrow> parse_items SL cfg [v])"

section \<open>Connection\<close>

text \<open>\<open>sent\<close> holds the subscription payloads sent over the websocket.\<close>

record ws_client =
  ws_assets :: "string set"
  sent :: "json list"
  output_queue :: "price_tick list"
  ws_metrics :: metrics

definition subscription_payload :: "websocket_config \<Rightarrow> string set \<Rightarrow> json" where
  "subscription_payload cfg ids = JDict
     [(''assets_ids'', JList (map JStr (sorted_list_of_set ids))), (''type'', JStr ''market''),
      (''custom_feature_enabled'', JBool (custom_feature_enabled cfg))]"

definition send_subscription :: "websocket_config \<Rightarrow> ws_client \<Rightarrow> ws_client" where
  "send_subscription cfg w = w\<lparr>sent := sent w @ [subscription_payload cfg (ws_assets w)]\<rparr>"

definition on_connect :: "websocket_config \<Rightarrow> ws_client \<Rightarrow> ws_client" where
  "on_connect cfg w = (if ws_assets w \<noteq> {} then send_subscription cfg w else w)"

fun apply_command :: "subscription_command \<Rightarrow> string set \<Rightarrow> string set" where
  "apply_command c ids = (case sub_operation c of
       Subscribe \<Rightarrow> ids \<union> set (sub_asset_ids c)
     | Unsubscribe \<Rightarrow> ids - set (sub_asset_ids c))"

definition on_command :: "websocket_config \<Rightarrow> subscription_command \<Rightarrow> ws_client \<Rightarrow> ws_client" where
  "on_command cfg c w = send_subscription cfg (w\<lparr>ws_assets := apply_command c (ws_assets w)\<rparr>)"

text \<open>A message: its ticks are queued; the resolution events are handed to the callback, one call each.\<close>

definition on_message :: "slib \<Rightarrow> websocket_config \<Rightarrow> string \<Rightarrow> ws_client \<Rightarrow> market_resolved_event list \<times> ws_client" where
  "on_message SL cfg raw w =
     (case parse_message SL cfg raw of
        None \<Rightarrow> ([], w\<lparr>ws_metrics := increment ''ticks_dropped_parse_error'' 1 (ws_metrics w)\<rparr>)
      | Some (ticks, resolved) \<Rightarrow>
          (resolved, w\<lparr>output_queue := output_queue w @ ticks,
             ws_metrics := fold (\<lambda>_. increment ''market_resolved_ws_events'' 1) resolved (ws_metrics w)\<rparr>))"

text \<open>
  The reconnect loop: how each connection ended (\<open>True\<close> where it closed without an exception)
  gives the delays slept, the random jitter in [0, 1) aside.
\<close>

fun reconnect_delays :: "websocket_config \<Rightarrow> bool list \<Rightarrow> int \<Rightarrow> int list" where
  "reconnect_delays cfg [] delay = []"
| "reconnect_delays cfg (True # ends) delay = reconnect_delays cfg ends (reconnect_base_delay_sec cfg)"
| "reconnect_delays cfg (False # ends) delay =
     delay # reconnect_delays cfg ends (min (delay * 2) (reconnect_max_delay_sec cfg))"

definition run_delays :: "websocket_config \<Rightarrow> bool list \<Rightarrow> int list" where
  "run_delays cfg ends = reconnect_delays cfg ends (reconnect_base_delay_sec cfg)"

section \<open>Ticks of a message\<close>

text \<open>A tick is a quote or a trade.\<close>

definition well_formed_tick :: "websocket_config \<Rightarrow> price_tick \<Rightarrow> bool" where
  "well_formed_tick cfg t \<longleftrightarrow>
     (\<exists>bid ask. best_bid t = Some bid \<and> best_ask t = Some ask \<and> spread t = Some (ask - bid) \<and>
        ask - bid \<le> max_spread_for_midpoint cfg \<and> price t = (bid + ask) / 2 \<and> quote_ts_ms t = Some (timestamp_ms t) \<and>
        starts_with ''midpoint'' (signal_source t)) \<or>
     (best_bid t = None \<and> best_ask t = None \<and> spread t = None \<and> quote_ts_ms t = None \<and> signal_source t = ''last_trade'')"

lemma midpoint_well_formed:
  "\<not> ask - bid > max_spread_for_midpoint cfg \<Longrightarrow> starts_with ''midpoint'' source \<Longrightarrow>
   well_formed_tick cfg (midpoint_tick SL d source ts bid ask)"
  by (auto simp: well_formed_tick_def midpoint_tick_def)

lemma last_trade_well_formed: "well_formed_tick cfg (last_trade_tick SL item ts)"
  by (simp add: well_formed_tick_def last_trade_tick_def)

lemma concat_opt_in: "concat_opt xs = Some ys \<Longrightarrow> y \<in> set ys \<Longrightarrow> \<exists>zs. Some zs \<in> set xs \<and> y \<in> set zs"
  by (induction xs arbitrary: ys rule: concat_opt.induct) (auto, blast+)

lemma change_well_formed:
  "change_ticks SL cfg ts c = Some ticks \<Longrightarrow> t \<in> set ticks \<Longrightarrow> well_formed_tick cfg t"
  by (auto simp: change_ticks_def Let_def midpoint_well_formed split: json.splits if_splits)

lemma item_well_formed:
  assumes "parse_item SL cfg item = Some (ticks, rs)" "t \<in> set ticks"
  shows "well_formed_tick cfg t"
proof -
  let ?ty = "sstr SL (jor (jget item ''event_type'') (JStr []))"
  consider "?ty = ''book'' \<or> ?ty = ''best_bid_ask''" | "?ty = ''price_change''" | "?ty = ''last_trade_price''"
    using assms by (auto simp: parse_item_def Let_def split: if_splits)
  then show ?thesis
  proof cases
    case 1
    then show ?thesis using assms
      by (auto simp: parse_item_def Let_def midpoint_well_formed split: option.splits if_splits)
  next
    case 2
    then obtain xs where "concat_opt (map (change_ticks SL cfg (parse_ts_ms SL (jget item ''timestamp''))) xs) = Some ticks"
      using assms(1) by (auto simp: parse_item_def Let_def split: option.splits)
    from concat_opt_in [OF this assms(2)] show ?thesis by (auto dest!: sym [of "Some _"] intro: change_well_formed)
  next
    case 3
    then show ?thesis using assms by (auto simp: parse_item_def Let_def last_trade_well_formed)
  qed
qed

lemma items_well_formed:
  "parse_items SL cfg items = Some (ticks, rs) \<Longrightarrow> t \<in> set ticks \<Longrightarrow> well_formed_tick cfg t"
proof (induction SL cfg items arbitrary: ticks rs rule: parse_items.induct)
  case (2 SL cfg item items)
  then obtain ts1 rs1 ts2 rs2 where "parse_item SL cfg item = Some (ts1, rs1)" "parse_items SL cfg items = Some (ts2, rs2)"
      "ticks = ts1 @ ts2" by (auto split: option.splits)
  with 2 show ?case by (auto intro: item_well_formed)
qed auto

text \<open>
  C29 (type): the ticks of a message. Whatever arrives, every tick that parsing yields is either a
  quote tick, whose price is the midpoint of its bid and ask, whose spread is their difference and
  no wider than configured, and whose quote time is its own time, or a trade tick without any
  quote.
\<close>

theorem parsed_ticks_well_formed:
  assumes "parse_message SL cfg raw = Some (ticks, resolved)" "t \<in> set ticks"
  shows "well_formed_tick cfg t"
  using assms by (auto simp: parse_message_def split: option.splits json.splits intro: items_well_formed item_well_formed)

section \<open>Reconnects\<close>

lemma reconnect_delays_bounds:
  assumes "0 \<le> reconnect_base_delay_sec cfg" "reconnect_base_delay_sec cfg \<le> reconnect_max_delay_sec cfg"
    and "reconnect_base_delay_sec cfg \<le> delay" "delay \<le> reconnect_max_delay_sec cfg" "x \<in> set (reconnect_delays cfg ends delay)"
  shows "reconnect_base_delay_sec cfg \<le> x \<and> x \<le> reconnect_max_delay_sec cfg"
  using assms
proof (induction cfg ends delay rule: reconnect_delays.induct)
  case (3 cfg ends delay)
  then show ?case by (cases "x = delay") (auto simp: min_def)
qed auto

lemma reconnect_delays_failures:
  "0 \<le> delay \<Longrightarrow> delay \<le> reconnect_max_delay_sec cfg \<Longrightarrow>
   reconnect_delays cfg (replicate n False) delay = map (\<lambda>i. min (delay * 2 ^ i) (reconnect_max_delay_sec cfg)) [0..<n]"
proof (induction n arbitrary: delay)
  case 0
  then show ?case by simp
next
  case (Suc n)
  let ?mx = "reconnect_max_delay_sec cfg" and ?d = "min (delay * 2) (reconnect_max_delay_sec cfg)"
  have eq: "min (?d * 2 ^ i) ?mx = min (delay * 2 ^ Suc i) ?mx" for i
  proof (cases "delay * 2 \<le> ?mx")
    case False
    then have d: "?d = ?mx" by (simp add: min_def)
    have "?mx \<le> ?mx * 2 ^ i" using Suc.prems by (simp add: mult_le_cancel_left1)
    moreover have "?mx * 2 ^ i \<le> delay * 2 * 2 ^ i" using False by (intro mult_right_mono) simp_all
    ultimately have "?mx \<le> ?mx * 2 ^ i" "?mx \<le> delay * 2 * 2 ^ i" by linarith+
    then have "?mx \<le> ?d * 2 ^ i" "?mx \<le> delay * 2 ^ Suc i" unfolding d power_Suc mult.assoc by auto
    then show ?thesis by (metis min.absorb2)
  qed (simp add: mult.assoc)
  have "reconnect_delays cfg (replicate (Suc n) False) delay = delay # map (\<lambda>i. min (?d * 2 ^ i) ?mx) [0..<n]"
    using Suc.IH [of ?d] Suc.prems by simp
  also have "\<dots> = delay # map (\<lambda>i. min (delay * 2 ^ Suc i) ?mx) [0..<n]" by (simp only: eq)
  also have "\<dots> = map (\<lambda>i. min (delay * 2 ^ i) ?mx) [0..<Suc n]"
    unfolding upt_conv_Cons [OF zero_less_Suc] using Suc.prems by (simp add: map_Suc_upt [symmetric] del: upt_Suc)
  finally show ?case .
qed

text \<open>
  Reconnect backoff. However connections end, every delay before a reconnect lies
  between the configured base and maximum; after the n-th failure in a row it is the base doubled
  n times, cut at the maximum.
\<close>

theorem reconnect_backoff:
  assumes "0 \<le> reconnect_base_delay_sec cfg" "reconnect_base_delay_sec cfg \<le> reconnect_max_delay_sec cfg"
  shows "set (run_delays cfg ends) \<subseteq> {reconnect_base_delay_sec cfg..reconnect_max_delay_sec cfg} \<and>
    run_delays cfg (replicate n False) = map (\<lambda>i. min (reconnect_base_delay_sec cfg * 2 ^ i) (reconnect_max_delay_sec cfg)) [0..<n]"
  using reconnect_delays_bounds [OF assms order_refl assms(2)] reconnect_delays_failures [OF assms]
  by (auto simp: run_delays_def)

section \<open>Evaluated examples\<close>

definition demo_ws :: websocket_config where
  "demo_ws = \<lparr>ws_url = ''wss'', heartbeat_interval_sec = 10, reconnect_base_delay_sec = 1, reconnect_max_delay_sec = 30,
     custom_feature_enabled = True, max_spread_for_midpoint = 1 / 10, ws_max_quote_age_sec = 60\<rparr>"

definition demo_book :: "json dict" where
  "demo_book = [(''event_type'', JStr ''best_bid_ask''), (''asset_id'', JStr ''a''), (''timestamp'', JInt 5),
     (''best_bid'', JFloat (1 / 2)), (''best_ask'', JFloat (11 / 20))]"

theorem parsed_ticks_well_formed_witness:
  "\<exists>t. parse_message (demo_slib\<lparr>s_json_loads := (\<lambda>_. Some (JList [JDict demo_book, JInt 3]))\<rparr>) demo_ws ''m'' = Some ([t], []) \<and>
     well_formed_tick demo_ws t \<and> price t = 21 / 40"
proof -
  let ?SL = "demo_slib\<lparr>s_json_loads := (\<lambda>_. Some (JList [JDict demo_book, JInt 3]))\<rparr>"
  let ?t = "midpoint_tick ?SL demo_book ''midpoint_book'' 5 (1 / 2) (11 / 20)"
  have p: "parse_message ?SL demo_ws ''m'' = Some ([?t], [])"
    by (simp add: parse_message_def parse_item_def Let_def extract_best_bid_ask_def jget_def jget_default_def jor_def sstr_def
        py_str_def parse_float_def parse_ts_ms_def demo_ws_def demo_book_def)
  have "well_formed_tick demo_ws ?t" by (rule parsed_ticks_well_formed [OF p]) simp
  with p show ?thesis by (simp add: midpoint_tick_def)
qed

theorem reconnect_backoff_witness:
  "run_delays demo_ws (replicate 7 False) = [1, 2, 4, 8, 16, 30, 30]"
proof -
  have "0 \<le> reconnect_base_delay_sec demo_ws" "reconnect_base_delay_sec demo_ws \<le> reconnect_max_delay_sec demo_ws"
    by (simp_all add: demo_ws_def)
  from reconnect_backoff [OF this, of "[]" 7] show ?thesis by (simp add: demo_ws_def upt_rec)
qed

end
