(* ===== verification/Cooldown_Gate.thy ===== *)
theory Cooldown_Gate
  imports Sentinel_Prelude
begin

text \<open>
  The cooldown that both the detector (per asset and level) and the dispatcher (per event) keep: a
  time per key until which nothing is let through, set when something is. The locale states what
  a user of such a gate relies on; the spacing of what is let through is proved once in it.
\<close>

locale cooldown_gate =
  fixes blocked_until :: "'s \<Rightarrow> 'k \<Rightarrow> int"
    and fire :: "'k \<Rightarrow> int \<Rightarrow> 's \<Rightarrow> 's"
    and pause :: int
  assumes blocked_until_fire: "blocked_until (fire k t s) k' = (if k' = k then t + pause else blocked_until s k')"
begin

text \<open>
  An entry is the key, the time at which the gate was asked, and the time stamped on what went
  through. Entries are spaced when each was let through no earlier than the pause after the stamp
  of every earlier entry of its key, and the gate is closed that long after every entry.
\<close>

definition spaced :: "('k \<times> int \<times> int) list \<Rightarrow> 's \<Rightarrow> bool" where
  "spaced es s \<longleftrightarrow>
     sorted_wrt (\<lambda>(k, now, stamp) (k', now', stamp'). k = k' \<longrightarrow> stamp + pause \<le> now') es \<and>
     (\<forall>(k, now, stamp) \<in> set es. stamp + pause \<le> blocked_until s k)"

lemma spaced_Nil: "spaced [] s"
  by (simp add: spaced_def)

lemma spaced_same:
  "spaced es s \<Longrightarrow> (\<And>k. blocked_until s' k = blocked_until s k) \<Longrightarrow> spaced es s'"
  by (simp add: spaced_def)

lemma spaced_fire:
  assumes "spaced es s" "blocked_until s k \<le> now"
    and "\<And>now' stamp'. (k, now', stamp') \<in> set es \<Longrightarrow> stamp' \<le> stamp"
  shows "spaced (es @ [(k, now, stamp)]) (fire k stamp s)"
proof -
  have "stamp' + pause \<le> now" if "(k, now', stamp') \<in> set es" for now' stamp'
    using assms(1,2) that by (fastforce simp: spaced_def)
  moreover have "stamp' + pause \<le> blocked_until (fire k stamp s) k'" if "(k', now', stamp') \<in> set es" for k' now' stamp'
    using assms(1,3) that by (fastforce simp: spaced_def blocked_until_fire)
  ultimately show ?thesis
    using assms(1) by (auto simp: spaced_def sorted_wrt_append blocked_until_fire)
qed

text \<open>Where the stamp is the time of asking and the pause is not negative, the stamps are in order by themselves.\<close>

lemma spaced_fire_now:
  assumes "spaced es s" "blocked_until s k \<le> now" "0 \<le> pause"
  shows "spaced (es @ [(k, now, now)]) (fire k now s)"
proof (rule spaced_fire [OF assms(1,2)])
  fix now' stamp' assume "(k, now', stamp') \<in> set es"
  with assms(1) have "stamp' + pause \<le> blocked_until s k" by (fastforce simp: spaced_def)
  with assms(2,3) show "stamp' \<le> now" by linarith
qed

end

text \<open>A dict of times, read with default 0, is such a gate.\<close>

definition until_of :: "('k \<times> int) list \<Rightarrow> 'k \<Rightarrow> int" where
  "until_of d k = (case map_of d k of None \<Rightarrow> 0 | Some t \<Rightarrow> t)"

definition close_until :: "int \<Rightarrow> 'k \<Rightarrow> int \<Rightarrow> ('k \<times> int) list \<Rightarrow> ('k \<times> int) list" where
  "close_until p k t d = AList.update k (t + p) d"

interpretation dict_gate: cooldown_gate "until_of :: ('k \<times> int) list \<Rightarrow> 'k \<Rightarrow> int" "close_until p" p for p
  by unfold_locales (simp add: until_of_def close_until_def update_conv)

end
