(* ===== verification/Shift_Detector.thy ===== *)
theory Shift_Detector
  imports Sentinel_Store Cooldown_Gate
begin

text \<open>
  \<open>ShiftDetector\<close> (\<open>src/src/sentinel/processing/detector.py\<close>): one-second bars per
  asset, the price move over a window, and the alerts it gives rise to. Each operation is taken
  as one step; the clock is a sequence of readings.
\<close>

section \<open>State\<close>

record second_bar =
  second_ts_ms :: int
  price_open :: rat
  price_last :: rat
  tick_count :: int
  spread_last :: "rat option"
  bar_quote_ts_ms :: "int option"

record detector =
  ms_clock :: "nat \<Rightarrow> int"
  ms_reads :: nat
  bars_by_asset :: "second_bar list dict"
  latest_tick_by_asset :: "price_tick dict"
  cooldowns :: "((string \<times> alert_level) \<times> int) list"
  d_metrics :: metrics
  d_store :: store

definition time_fn :: "detector \<Rightarrow> int \<times> detector" where
  "time_fn d = (ms_clock d (ms_reads d), d\<lparr>ms_reads := Suc (ms_reads d)\<rparr>)"

definition bump :: "string \<Rightarrow> detector \<Rightarrow> detector" where
  "bump name d = d\<lparr>d_metrics := increment name 1 (d_metrics d)\<rparr>"

section \<open>Bars\<close>

definition bucket_ms :: "int \<Rightarrow> int" where
  "bucket_ms ts = (ts div 1000) * 1000"

definition new_bar :: "price_tick \<Rightarrow> second_bar" where
  "new_bar t = \<lparr>second_ts_ms = bucket_ms (timestamp_ms t), price_open = price t, price_last = price t,
     tick_count = 1, spread_last = spread t, bar_quote_ts_ms = quote_ts_ms t\<rparr>"

definition extend_bar :: "price_tick \<Rightarrow> second_bar \<Rightarrow> second_bar" where
  "extend_bar t b =
     (let b' = b\<lparr>price_last := price t, tick_count := tick_count b + 1\<rparr> in
      if spread t \<noteq> None then b'\<lparr>spread_last := spread t, bar_quote_ts_ms := quote_ts_ms t\<rparr> else b')"

definition upsert_bar :: "second_bar list \<Rightarrow> price_tick \<Rightarrow> second_bar list" where
  "upsert_bar bars t =
     (if bars \<noteq> [] \<and> second_ts_ms (last bars) = bucket_ms (timestamp_ms t)
      then butlast bars @ [extend_bar t (last bars)]
      else bars @ [new_bar t])"

definition prune_bars :: "detector_config \<Rightarrow> int \<Rightarrow> second_bar list \<Rightarrow> second_bar list" where
  "prune_bars cfg now bars = dropWhile (\<lambda>b. second_ts_ms b < now - buffer_max_age_sec cfg * 1000) bars"

definition window_step :: "int \<Rightarrow> rat option \<times> int \<Rightarrow> second_bar \<Rightarrow> rat option \<times> int" where
  "window_step cutoff acc b =
     (case acc of (start_price, n) \<Rightarrow>
        if second_ts_ms b \<ge> cutoff
        then ((case start_price of None \<Rightarrow> Some (price_open b) | Some p \<Rightarrow> Some p), n + tick_count b)
        else (start_price, n))"

record delta =
  dl_abs :: rat
  dl_signed :: rat
  dl_start :: rat
  dl_end :: rat
  dl_ticks :: int

definition compute_delta :: "second_bar list \<Rightarrow> threshold_config \<Rightarrow> delta option" where
  "compute_delta bars threshold =
     (if length bars < 2 then None
      else
        let cutoff = second_ts_ms (last bars) - window_sec threshold * 1000 in
        case foldl (window_step cutoff) (None, 0) bars of
          (None, n) \<Rightarrow> None
        | (Some start_price, n) \<Rightarrow>
            if start_price = 0 then None
            else if n < min_ticks threshold then None
            else
              let end_price = price_last (last bars);
                  signed_delta = (end_price - start_price) / start_price * 100 in
              Some \<lparr>dl_abs = \<bar>signed_delta\<bar>, dl_signed = signed_delta, dl_start = start_price,
                    dl_end = end_price, dl_ticks = n\<rparr>)"

section \<open>Quality\<close>

definition liquidity_bucket :: "rat \<Rightarrow> string" where
  "liquidity_bucket l = (if l \<ge> 100000 then ''high'' else if l \<ge> 25000 then ''medium'' else ''low'')"

definition build_confidence :: "price_tick \<Rightarrow> market_metadata \<Rightarrow> int \<Rightarrow> rat option \<Rightarrow> bool \<Rightarrow> string" where
  "build_confidence t m ticks quote_age_sec is_warmup =
     (if is_warmup \<or> \<not> starts_with ''midpoint'' (signal_source t) then ''weak''
      else case (quote_age_sec, spread t) of
          (Some age, Some sp) \<Rightarrow>
            if age \<le> 5 \<and> sp \<le> 3 / 100 \<and> liquidity_bucket (liquidity m) = ''high'' \<and> ticks \<ge> 10 then ''strong''
            else if age \<le> 15 \<and> sp \<le> 1 / 10 \<and> ticks \<ge> 5 then ''moderate''
            else ''weak''
        | _ \<Rightarrow> ''weak'')"

definition should_skip :: "detector_config \<Rightarrow> string \<Rightarrow> second_bar list \<Rightarrow> detector \<Rightarrow> bool \<times> detector" where
  "should_skip cfg a bars d0 =
     (case time_fn d0 of (now, d) \<Rightarrow>
      if now - second_ts_ms (last bars) > stale_threshold_sec cfg * 1000 then (True, bump ''ticks_dropped_stale'' d)
      else
        let market = get_tracked_market (d_store d) a in
        case List.find (\<lambda>b. spread_last b \<noteq> None) (rev bars) of
          None \<Rightarrow>
            (case market of
               Some m \<Rightarrow>
                 if now - subscribed_at_ms m \<le> warmup_grace_sec cfg * 1000 then (False, d)
                 else (True, bump ''ticks_dropped_quote_stale'' d)
             | None \<Rightarrow> (True, bump ''ticks_dropped_quote_stale'' d))
        | Some b \<Rightarrow>
            if now - (case bar_quote_ts_ms b of None \<Rightarrow> 0 | Some q \<Rightarrow> q) > max_quote_age_sec cfg * 1000
            then (True, bump ''ticks_dropped_quote_stale'' d)
            else if (case spread_last b of None \<Rightarrow> 0 | Some sp \<Rightarrow> sp) > max_spread_for_detection cfg then (True, d)
            else if (case market of None \<Rightarrow> False | Some m \<Rightarrow> \<not> active m) then (True, d)
            else (False, d))"

section \<open>Alerts\<close>

definition make_alert_id :: "slib \<Rightarrow> string \<Rightarrow> alert_level \<Rightarrow> int \<Rightarrow> string" where
  "make_alert_id SL a level ts = blake2s_hex SL (a @ '':'' @ level_value level @ '':'' @ str_int ts)"

definition market_payload :: "market_metadata \<Rightarrow> json dict" where
  "market_payload m =
     [(''asset_id'', JStr (asset_id m)), (''condition_id'', JStr (condition_id m)), (''market_id'', JStr (market_id m)),
      (''market_slug'', JStr (market_slug m)), (''question'', JStr (question m)), (''description'', JStr (description m)),
      (''category'', JStr (category m)), (''tags'', JList (map JStr (tags m))), (''event_id'', JStr (event_id m)),
      (''event_title'', JStr (event_title m)), (''event_slug'', JStr (event_slug m)),
      (''sibling_asset_ids'', JList (map JStr (sibling_asset_ids m))),
      (''sibling_market_slugs'', JList (map JStr (sibling_market_slugs m))), (''outcome'', JStr (mkt_outcome m)),
      (''end_date'', JStr (end_date m)), (''volume_24h'', JFloat (volume_24h m)), (''liquidity'', JFloat (liquidity m)),
      (''polymarket_url'', JStr (polymarket_url m))]"

definition quote_age :: "price_tick \<Rightarrow> int \<Rightarrow> rat option" where
  "quote_age t now = map_option (\<lambda>q. max (of_int (now - q) / 1000) 0) (quote_ts_ms t)"

definition build_alert ::
  "slib \<Rightarrow> detector_config \<Rightarrow> string \<Rightarrow> alert_level \<Rightarrow> int \<Rightarrow> market_metadata \<Rightarrow> price_tick \<Rightarrow> delta \<Rightarrow> shift_alert" where
  "build_alert SL cfg a level now m t dl =
     (let age = quote_age t now;
          warmup = (signal_source t = ''last_trade'' \<and> now - subscribed_at_ms m \<le> warmup_grace_sec cfg * 1000) in
      \<lparr>alert_id = make_alert_id SL a level now, alert_level = level, alert_level_label = level_label level,
       timestamp_iso = iso_of_ms SL now, alert_timestamp_ms = now, alert_market = market_payload m,
       shift = \<lparr>sh_direction = (if dl_signed dl \<ge> 0 then ''up'' else ''down''), sh_delta_pct = py_round 4 (dl_abs dl),
         sh_signed_delta_pct = py_round 4 (dl_signed dl), sh_price_start = py_round 6 (dl_start dl),
         sh_price_end = py_round 6 (dl_end dl), sh_price_current = py_round 6 (price t),
         sh_window_sec = window_sec (thresholds cfg level), sh_ticks_in_window = dl_ticks dl\<rparr>,
       signal_quality = \<lparr>sq_signal_source = signal_source t, sq_best_bid = best_bid t, sq_best_ask = best_ask t,
         sq_spread = spread t, sq_quote_age_sec = age, sq_liquidity_bucket = liquidity_bucket (liquidity m),
         sq_confidence = build_confidence t m (dl_ticks dl) age warmup\<rparr>,
       before_state = None\<rparr>)"

definition maybe_create_alert ::
  "slib \<Rightarrow> detector_config \<Rightarrow> string \<Rightarrow> second_bar list \<Rightarrow> alert_level \<Rightarrow> detector \<Rightarrow> shift_alert option \<times> detector" where
  "maybe_create_alert SL cfg a bars level d0 =
     (let threshold = thresholds cfg level in
      case compute_delta bars threshold of
        None \<Rightarrow> (None, d0)
      | Some dl \<Rightarrow>
          if dl_abs dl < th_delta_pct threshold then (None, d0)
          else case time_fn d0 of (now, d) \<Rightarrow>
            if until_of (cooldowns d) (a, level) > now then (None, bump ''alerts_skipped_cooldown'' d)
            else case (get_tracked_market (d_store d) a, dict_get (latest_tick_by_asset d) a) of
                (Some m, Some t) \<Rightarrow>
                  let alert = build_alert SL cfg a level now m t dl in
                  (Some alert, bump (''alerts_'' @ level_value level)
                     (d\<lparr>cooldowns := close_until (cooldown_sec cfg * 1000) (a, level) now (cooldowns d),
                        d_store := insert_shift_event alert (d_store d)\<rparr>))
              | _ \<Rightarrow> (None, d))"

section \<open>Operations\<close>

definition bars_of :: "detector \<Rightarrow> string \<Rightarrow> second_bar list" where
  "bars_of d a = (case dict_get (bars_by_asset d) a of None \<Rightarrow> [] | Some bs \<Rightarrow> bs)"

definition ingest_tick :: "detector_config \<Rightarrow> price_tick \<Rightarrow> detector \<Rightarrow> detector" where
  "ingest_tick cfg t d0 =
     (let a = tick_asset_id t; bars = upsert_bar (bars_of d0 a) t in
      case time_fn d0 of (now, d) \<Rightarrow>
      let st = d_store d in
      d\<lparr>bars_by_asset := dict_set a (prune_bars cfg now bars) (bars_by_asset d),
        latest_tick_by_asset := dict_set a t (latest_tick_by_asset d),
        d_metrics := add_signal_source (signal_source t) (record_tick (timestamp_ms t) (d_metrics d)),
        d_store := (case get_tracked_market st a of
            None \<Rightarrow> st
          | Some m \<Rightarrow> update_last_tick a (timestamp_ms t) (insert_price_tick t (market_slug m) st))\<rparr>)"

fun scan_levels ::
  "slib \<Rightarrow> detector_config \<Rightarrow> string \<Rightarrow> second_bar list \<Rightarrow> alert_level list \<Rightarrow> detector \<Rightarrow> shift_alert list \<times> detector" where
  "scan_levels SL cfg a bars [] d = ([], d)"
| "scan_levels SL cfg a bars (l # ls) d =
     (case maybe_create_alert SL cfg a bars l d of (r, d1) \<Rightarrow>
      case scan_levels SL cfg a bars ls d1 of (alerts, d2) \<Rightarrow>
      ((case r of None \<Rightarrow> alerts | Some al \<Rightarrow> al # alerts), d2))"

definition scan_asset :: "slib \<Rightarrow> detector_config \<Rightarrow> string \<Rightarrow> detector \<Rightarrow> shift_alert list \<times> detector" where
  "scan_asset SL cfg a d0 =
     (if bars_of d0 a = [] then ([], d0)
      else case time_fn d0 of (now, d1) \<Rightarrow>
        let bars = prune_bars cfg now (bars_of d0 a) in
        if bars = []
        then ([], d1\<lparr>bars_by_asset := AList.delete a (bars_by_asset d1),
                     latest_tick_by_asset := AList.delete a (latest_tick_by_asset d1)\<rparr>)
        else
          let d2 = d1\<lparr>bars_by_asset := dict_set a bars (bars_by_asset d1)\<rparr> in
          case should_skip cfg a bars d2 of (skip, d3) \<Rightarrow>
          if skip then ([], bump ''alerts_skipped_quality'' d3)
          else scan_levels SL cfg a bars [SCOUT, CONFIRMATION, TREND] d3)"

fun scan_assets :: "slib \<Rightarrow> detector_config \<Rightarrow> string list \<Rightarrow> detector \<Rightarrow> shift_alert list \<times> detector" where
  "scan_assets SL cfg [] d = ([], d)"
| "scan_assets SL cfg (a # rest) d =
     (case scan_asset SL cfg a d of (alerts, d1) \<Rightarrow>
      case scan_assets SL cfg rest d1 of (others, d2) \<Rightarrow> (alerts @ others, d2))"

text \<open>The alerts of a scan, before they are handed to the dispatcher.\<close>

definition scan_once :: "slib \<Rightarrow> detector_config \<Rightarrow> detector \<Rightarrow> shift_alert list \<times> detector" where
  "scan_once SL cfg d = scan_assets SL cfg (map fst (bars_by_asset d)) d"

definition remove_asset :: "string \<Rightarrow> detector \<Rightarrow> detector" where
  "remove_asset a d =
     d\<lparr>bars_by_asset := AList.delete a (bars_by_asset d),
       latest_tick_by_asset := AList.delete a (latest_tick_by_asset d),
       cooldowns := filter (\<lambda>(k, v). fst k \<noteq> a) (cooldowns d)\<rparr>"

end
