(* ===== verification/Subscriptions.thy ===== *)
theory Subscriptions
  imports Gatekeeper Market_Feed Shift_Detector
begin

text \<open>
  How the gatekeeper, the command queue, the websocket client and the store's active markets play
  together: the application's start and its reaction to a resolved market
  (\<open>src/src/sentinel/app.py\<close>), and what is subscribed as a consequence.
\<close>

section \<open>Application\<close>

definition resolved_ids :: "market_resolved_event \<Rightarrow> string list" where
  "resolved_ids ev =
     (if mre_asset_ids ev = [] \<and> mre_winning_asset_id ev \<noteq> [] then [mre_winning_asset_id ev] else mre_asset_ids ev)"

definition on_market_resolved :: "market_resolved_event \<Rightarrow> detector \<Rightarrow> detector" where
  "on_market_resolved ev d =
     (case (if mre_timestamp_ms ev \<noteq> 0 then (mre_timestamp_ms ev, d) else time_fn d) of (now, d1) \<Rightarrow>
      fold remove_asset (resolved_ids ev) (d1\<lparr>d_store := mark_market_resolved (resolved_ids ev) now (d_store d1)\<rparr>))"

record feed =
  gate :: gatekeeper
  ws :: ws_client

text \<open>
  A start of the process: the tables are those on disk, the cache is read from them, the command
  queue, the metrics and the websocket client are new.
\<close>

definition start_feed :: "store \<Rightarrow> feed" where
  "start_feed disk =
     \<lparr>gate = \<lparr>gk_store = refresh_cache disk, command_queue = [], gk_metrics = new_metrics\<rparr>,
      ws = \<lparr>ws_assets = {}, sent = [], output_queue = [], ws_metrics = new_metrics\<rparr>\<rparr>"

text \<open>The command loop of a connected client, until the queue is empty.\<close>

definition drain_commands :: "websocket_config \<Rightarrow> feed \<Rightarrow> feed" where
  "drain_commands cfg f =
     f\<lparr>ws := fold (on_command cfg) (command_queue (gate f)) (ws f), gate := (gate f)\<lparr>command_queue := []\<rparr>\<rparr>"

section \<open>Active markets\<close>

lemma active_iff:
  "distinct (map fst (tracked_cache st)) \<Longrightarrow>
     a \<in> set (active_asset_ids st) \<longleftrightarrow> (\<exists>m. get_tracked_market st a = Some m \<and> active m)"
  by (auto simp: active_asset_ids_def get_tracked_market_def image_iff intro: map_of_is_SomeI dest: map_of_SomeD)

lemma get_after_set_active:
  "get_tracked_market (set_market_active ids act now st) a =
     map_option (\<lambda>m. if a \<in> set ids then m\<lparr>active := act, subscribed_at_ms := if act then now else 0\<rparr> else m) (get_tracked_market st a)"
  by (simp add: get_tracked_market_def set_market_active_def Let_def map_of_map_key option.map_ident split: option.split)

lemma active_after_set_active:
  assumes "coherent st"
  shows "set (active_asset_ids (set_market_active ids act now st)) =
    (if act then set (active_asset_ids st) \<union> (set ids \<inter> dom (get_tracked_market st)) else set (active_asset_ids st) - set ids)"
proof -
  have d: "distinct (map fst (tracked_cache st))" "distinct (map fst (tracked_cache (set_market_active ids act now st)))"
    using assms coherent_set_active [OF assms] by (auto simp: coherent_def)
  have "a \<in> set (active_asset_ids (set_market_active ids act now st)) \<longleftrightarrow>
      (if a \<in> set ids then act \<and> a \<in> dom (get_tracked_market st) else a \<in> set (active_asset_ids st))" for a
    unfolding active_iff [OF d(1)] active_iff [OF d(2)] get_after_set_active
    by (cases "get_tracked_market st a") (simp_all add: domIff)
  moreover have "set (active_asset_ids st) \<subseteq> dom (get_tracked_market st)"
    by (auto simp: active_iff [OF d(1)])
  ultimately show ?thesis by (cases act) (simp_all add: set_eq_iff, blast+)
qed

text \<open>A dict of markets under their own ids, as the gatekeeper's extraction gives it.\<close>

definition tracked_dict :: "market_metadata dict \<Rightarrow> bool" where
  "tracked_dict trk \<longleftrightarrow> distinct (map fst trk) \<and> (\<forall>(a, m)\<in>set trk. a = asset_id m \<and> active m)"

lemma tracked_dict_ids: "tracked_dict trk \<Longrightarrow> map asset_id (map snd trk) = map fst trk"
  by (auto simp: tracked_dict_def)

lemma extracted_tracked_dict:
  assumes "extract_tracked_markets SL cfg events = Some trk"
  shows "tracked_dict trk"
proof -
  define cands where "cands = concat (map (event_candidates SL cfg) (List.map_filter as_dict events))"
  have trk: "trk = foldl (\<lambda>d m. dict_set (asset_id m) m d) [] (slice_to (max_markets cfg) (sort_key (\<lambda>m. - volume_24h m) cands))"
    using assms by (simp add: extract_tracked_markets_def Let_def cands_def split: if_splits)
  have "active m" if "m \<in> set cands" for m
    using that candidate_wanted [of m SL cfg] by (auto simp: cands_def)
  then show ?thesis
    using slice_to_subset [of "max_markets cfg" "sort_key (\<lambda>m. - volume_24h m) cands"]
    unfolding trk tracked_dict_def by (auto simp: foldl_dict_distinct dest!: foldl_dict_set_in)
qed

lemma get_after_upsert:
  assumes "tracked_dict trk"
  shows "get_tracked_market (upsert_tracked_markets (map snd trk) now st) a =
    (case map_of trk a of None \<Rightarrow> get_tracked_market st a | Some m \<Rightarrow> Some (keep_liveness (get_tracked_market st a) m))"
proof -
  have "map (\<lambda>m. (asset_id m, m)) (map snd trk) = trk"
    using assms by (auto simp: tracked_dict_def intro!: map_idI)
  moreover have "distinct (map asset_id (map snd trk))"
    using assms tracked_dict_ids [OF assms] by (simp only: tracked_dict_def)
  ultimately show ?thesis
    using upsert_lookup [of "map snd trk" now st a] by (simp add: keep_liveness_def split: option.splits)
qed

lemma dom_get_after_upsert:
  "tracked_dict trk \<Longrightarrow> dom (get_tracked_market (upsert_tracked_markets (map snd trk) now st)) =
     dom (get_tracked_market st) \<union> set (map fst trk)"
  by (auto simp: get_after_upsert dom_def map_of_eq_None_iff split: option.splits)

lemma active_after_upsert:
  assumes "tracked_dict trk" "coherent st"
  shows "set (active_asset_ids (upsert_tracked_markets (map snd trk) now st)) \<union> set (map fst trk) =
    set (active_asset_ids st) \<union> set (map fst trk)"
proof -
  have d: "distinct (map fst (tracked_cache st))" "distinct (map fst (tracked_cache (upsert_tracked_markets (map snd trk) now st)))"
    using assms(2) coherent_upsert [OF assms(2)] by (auto simp: coherent_def)
  have "a \<in> set (active_asset_ids (upsert_tracked_markets (map snd trk) now st)) \<longleftrightarrow> a \<in> set (active_asset_ids st)"
    if "a \<notin> set (map fst trk)" for a
  proof -
    from that have "map_of trk a = None" by (simp add: map_of_eq_None_iff)
    then show ?thesis by (simp add: active_iff [OF d(1)] active_iff [OF d(2)] get_after_upsert [OF assms(1)])
  qed
  then show ?thesis by blast
qed

text \<open>After a run the active markets are the tracked ones, and the commands queued are the difference.\<close>

lemma apply_tracked_effect:
  assumes "tracked_dict trk" "coherent (gk_store g)" "apply_tracked trk now now_iso g = (diff, g')"
  shows "coherent (gk_store g')" "set (active_asset_ids (gk_store g')) = set (map fst trk)"
    "fold apply_command (command_queue g') S = fold apply_command (command_queue g) S \<union>
        (set (map fst trk) - set (active_asset_ids (gk_store g))) - (set (active_asset_ids (gk_store g)) - set (map fst trk))"
    "set (subscribe_ids diff) = set (map fst trk) - set (active_asset_ids (gk_store g))"
    "set (unsubscribe_ids diff) = set (active_asset_ids (gk_store g)) - set (map fst trk)"
proof -
  let ?act = "active_asset_ids (gk_store g)" and ?T = "set (map fst trk)"
  let ?new = "sort (filter (\<lambda>a. a \<notin> set ?act) (map fst trk))" and ?rem = "sort (filter (\<lambda>a. a \<notin> ?T) ?act)"
  let ?st1 = "upsert_tracked_markets (map snd trk) now (gk_store g)"
  let ?st2 = "set_market_active ?new True now ?st1"
  have g': "gk_store g' = set_market_active ?rem False now ?st2"
      "command_queue g' = command_queue g @ (if ?new \<noteq> [] then [\<lparr>sub_operation = Subscribe, sub_asset_ids = ?new\<rparr>] else []) @
        (if ?rem \<noteq> [] then [\<lparr>sub_operation = Unsubscribe, sub_asset_ids = ?rem\<rparr>] else [])"
      "subscribe_ids diff = ?new" "unsubscribe_ids diff = ?rem"
    using assms(3) by (auto simp: apply_tracked_def Let_def)
  have c1: "coherent ?st1" by (rule coherent_upsert [OF assms(2)])
  have c2: "coherent ?st2" by (rule coherent_set_active [OF c1])
  show "coherent (gk_store g')" unfolding g' by (rule coherent_set_active [OF c2])
  have a1: "set (active_asset_ids ?st1) \<union> ?T = set ?act \<union> ?T" by (rule active_after_upsert [OF assms(1,2)])
  have "set ?new \<inter> dom (get_tracked_market ?st1) = ?T - set ?act"
    using dom_get_after_upsert [OF assms(1), of now "gk_store g"] by auto
  then have "set (active_asset_ids ?st2) = set (active_asset_ids ?st1) \<union> (?T - set ?act)"
    using active_after_set_active [OF c1, of ?new True now] by simp
  moreover have "set ?act \<inter> ?T \<subseteq> set (active_asset_ids ?st1)"
  proof
    fix a assume a: "a \<in> set ?act \<inter> ?T"
    have d: "distinct (map fst (tracked_cache (gk_store g)))" "distinct (map fst (tracked_cache ?st1))"
      using assms(2) c1 by (auto simp: coherent_def)
    from a d obtain m where m: "get_tracked_market (gk_store g) a = Some m" "active m" by (auto simp: active_iff)
    from a have "map_of trk a \<noteq> None" by (simp add: map_of_eq_None_iff)
    then obtain n where "map_of trk a = Some n" by blast
    with m show "a \<in> set (active_asset_ids ?st1)"
      using active_iff [OF d(2)] get_after_upsert [OF assms(1), of now "gk_store g" a] by (simp add: keep_liveness_def)
  qed
  moreover have "set (active_asset_ids (gk_store g')) = set (active_asset_ids ?st2) - set ?rem"
    unfolding g' using active_after_set_active [OF c2, of ?rem False now] by simp
  ultimately show "set (active_asset_ids (gk_store g')) = ?T" using a1 by auto
  show "fold apply_command (command_queue g') S = fold apply_command (command_queue g) S \<union> (?T - set ?act) - (set ?act - ?T)"
  proof -
    have "set ?new = ?T - set ?act" "set ?rem = set ?act - ?T" by auto
    then show ?thesis unfolding g' by (auto simp flip: set_empty)
  qed
  show "set (subscribe_ids diff) = ?T - set ?act" "set (unsubscribe_ids diff) = set ?act - ?T"
    unfolding g' by auto
qed

section \<open>Agreement\<close>

text \<open>
  What is subscribed once the queued commands are processed: every active market, and beyond them
  only assets of \<open>R\<close>; and the server was told what the client holds.
\<close>

definition in_sync :: "websocket_config \<Rightarrow> string set \<Rightarrow> feed \<Rightarrow> bool" where
  "in_sync wcfg R f \<longleftrightarrow> coherent (gk_store (gate f)) \<and>
     set (active_asset_ids (gk_store (gate f))) \<subseteq> fold apply_command (command_queue (gate f)) (ws_assets (ws f)) \<and>
     fold apply_command (command_queue (gate f)) (ws_assets (ws f)) \<subseteq> set (active_asset_ids (gk_store (gate f))) \<union> R \<and>
     (if sent (ws f) = [] then ws_assets (ws f) = {} else last (sent (ws f)) = subscription_payload wcfg (ws_assets (ws f)))"

lemma run_onceD:
  assumes "run_once SL gcfg api now now_iso g = Some (Some (diff, g'))"
  shows "tracked_dict (tracked diff) \<and> apply_tracked (tracked diff) now now_iso g = (diff, g')"
proof -
  from assms obtain events trk where "extract_tracked_markets SL gcfg events = Some trk" "apply_tracked trk now now_iso g = (diff, g')"
    by (auto simp: run_once_def split: option.splits sum.splits)
  moreover from this(2) have "tracked diff = trk" by (auto simp: apply_tracked_def Let_def)
  ultimately show ?thesis using extracted_tracked_dict by auto
qed

lemma ws_assets_fold: "ws_assets (fold (on_command cfg) cs w) = fold apply_command cs (ws_assets w)"
  by (induction cs arbitrary: w) (simp_all add: on_command_def send_subscription_def del: apply_command.simps)

lemma active_after_tick:
  "active_asset_ids (update_last_tick a ts (insert_price_tick t slug st)) = active_asset_ids st"
proof -
  have "map fst (filter (\<lambda>(a, m). active m) (map (\<lambda>(b, m). (b, if b = a then m\<lparr>last_tick_ms := ts\<rparr> else m)) c)) =
      map fst (filter (\<lambda>(a, m). active m) c)" for c
    by (induction c) (auto split: if_splits)
  then show ?thesis by (simp add: active_asset_ids_def update_last_tick_def insert_price_tick_def)
qed

lemma in_sync_gate:
  assumes "in_sync wcfg R f" "run_once SL gcfg api now now_iso (gate f) = Some (Some (diff, g'))"
  shows "in_sync wcfg R (f\<lparr>gate := g'\<rparr>)"
proof -
  from run_onceD [OF assms(2)] have td: "tracked_dict (tracked diff)" "apply_tracked (tracked diff) now now_iso (gate f) = (diff, g')" by auto
  have c: "coherent (gk_store (gate f))" using assms(1) by (simp add: in_sync_def)
  show ?thesis
    using apply_tracked_effect(1,2) [OF td(1) c td(2)] apply_tracked_effect(3) [OF td(1) c td(2), of "ws_assets (ws f)"] assms(1)
    by (auto simp: in_sync_def)
qed

lemma in_sync_command:
  "in_sync wcfg R f \<Longrightarrow> command_queue (gate f) = c # q \<Longrightarrow>
   in_sync wcfg R (f\<lparr>gate := (gate f)\<lparr>command_queue := q\<rparr>, ws := on_command wcfg c (ws f)\<rparr>)"
  by (auto simp: in_sync_def on_command_def send_subscription_def simp del: apply_command.simps)

lemma in_sync_connect: "in_sync wcfg R f \<Longrightarrow> in_sync wcfg R (f\<lparr>ws := on_connect wcfg (ws f)\<rparr>)"
  by (cases "ws_assets (ws f) = {}") (simp_all add: in_sync_def on_connect_def send_subscription_def)

text \<open>What a step may change without touching subscriptions and active markets.\<close>

lemma in_sync_same:
  "in_sync wcfg R f \<Longrightarrow> coherent (gk_store (gate f')) \<Longrightarrow>
   set (active_asset_ids (gk_store (gate f'))) = set (active_asset_ids (gk_store (gate f))) \<Longrightarrow>
   command_queue (gate f') = command_queue (gate f) \<Longrightarrow> ws_assets (ws f') = ws_assets (ws f) \<Longrightarrow> sent (ws f') = sent (ws f) \<Longrightarrow>
   in_sync wcfg R f'"
  by (simp add: in_sync_def)

lemma d_store_remove: "d_store (fold remove_asset ids d) = d_store d"
  by (induction ids arbitrary: d) (simp_all add: remove_asset_def)

lemma resolved_store:
  "\<exists>t. d_store (on_market_resolved ev d) = set_market_active (resolved_ids ev) False t (d_store d)"
  by (cases "mre_timestamp_ms ev = 0")
     (auto simp: on_market_resolved_def d_store_remove mark_market_resolved_def time_fn_def)

lemma resolved_effect:
  "coherent (d_store d) \<Longrightarrow> coherent (d_store (fold on_market_resolved evs d)) \<and>
     set (active_asset_ids (d_store (fold on_market_resolved evs d))) =
       set (active_asset_ids (d_store d)) - (\<Union>ev\<in>set evs. set (resolved_ids ev))"
proof (induction evs arbitrary: d)
  case (Cons ev evs)
  obtain t where st: "d_store (on_market_resolved ev d) = set_market_active (resolved_ids ev) False t (d_store d)"
    using resolved_store by blast
  have "coherent (d_store (on_market_resolved ev d))"
    "set (active_asset_ids (d_store (on_market_resolved ev d))) = set (active_asset_ids (d_store d)) - set (resolved_ids ev)"
    unfolding st using coherent_set_active [OF Cons.prems] active_after_set_active [OF Cons.prems, of _ False] by simp_all
  with Cons.IH [of "on_market_resolved ev d"] show ?case by auto
qed simp

lemma in_sync_resolved:
  assumes "in_sync wcfg R f" "d_store d = gk_store (gate f)"
  shows "in_sync wcfg (R \<union> (\<Union>ev\<in>set evs. set (resolved_ids ev)))
    (f\<lparr>gate := (gate f)\<lparr>gk_store := d_store (fold on_market_resolved evs d)\<rparr>\<rparr>)"
  using assms resolved_effect [of d evs] by (auto simp: in_sync_def)

lemma start_in_sync:
  "distinct (map (\<lambda>r. asset_id (tm_market r)) (tracked_markets disk)) \<Longrightarrow> active_asset_ids (refresh_cache disk) = [] \<Longrightarrow>
   in_sync wcfg {} (start_feed disk)"
  by (simp add: in_sync_def start_feed_def refresh_coherent)

text \<open>
  The active markets after a gatekeeper run are the tracked ones, and the run asks
  for exactly the difference: it subscribes to the tracked markets that were not active and
  unsubscribes from the active ones that are no longer tracked.
\<close>

theorem run_once_diff:
  assumes "run_once SL gcfg api now now_iso g = Some (Some (diff, g'))" "coherent (gk_store g)"
  shows "set (active_asset_ids (gk_store g')) = set (map fst (tracked diff)) \<and>
    set (subscribe_ids diff) = set (map fst (tracked diff)) - set (active_asset_ids (gk_store g)) \<and>
    set (unsubscribe_ids diff) = set (active_asset_ids (gk_store g)) - set (map fst (tracked diff))"
proof -
  from run_onceD [OF assms(1)] have td: "tracked_dict (tracked diff)" "apply_tracked (tracked diff) now now_iso g = (diff, g')" by auto
  from apply_tracked_effect(2,4,5) [OF td(1) assms(2) td(2)] show ?thesis by blast
qed

text \<open>
  A restart loses subscriptions. When the process starts on tables in which markets
  are still marked active, the websocket client starts with no subscription and the first
  gatekeeper run asks only for markets that were not active: once its commands are processed, every
  tracked market is active in the store, and none of those that were active before the restart is
  subscribed.
\<close>

theorem restart_subscribes_only_new:
  assumes "run_once SL gcfg api now now_iso (gate (start_feed disk)) = Some (Some (diff, g'))"
    and "distinct (map (\<lambda>r. asset_id (tm_market r)) (tracked_markets disk))"
  shows "ws_assets (ws (drain_commands wcfg ((start_feed disk)\<lparr>gate := g'\<rparr>))) =
      set (map fst (tracked diff)) - set (active_asset_ids (refresh_cache disk)) \<and>
    set (active_asset_ids (gk_store g')) = set (map fst (tracked diff))"
proof -
  have c: "coherent (gk_store (gate (start_feed disk)))" by (simp add: start_feed_def refresh_coherent assms(2))
  from run_onceD [OF assms(1)] have td: "tracked_dict (tracked diff)"
    "apply_tracked (tracked diff) now now_iso (gate (start_feed disk)) = (diff, g')" by auto
  from apply_tracked_effect(2) [OF td(1) c td(2)] apply_tracked_effect(3) [OF td(1) c td(2), of "{}"]
  show ?thesis by (simp add: drain_commands_def ws_assets_fold start_feed_def) blast
qed

text \<open>
  A resolved market stays subscribed. When subscriptions and active markets agree and
  a market is reported resolved, it is no longer active; but a later gatekeeper run that no longer
  lists it does not unsubscribe it, so the client keeps receiving its ticks.
\<close>

theorem resolved_market_stays_subscribed:
  assumes "in_sync wcfg {} f" "command_queue (gate f) = []" "a \<in> set (active_asset_ids (gk_store (gate f)))"
    and "d_store d = gk_store (gate f)" "a \<in> set (resolved_ids ev)"
    and "run_once SL gcfg api now now_iso ((gate f)\<lparr>gk_store := d_store (on_market_resolved ev d)\<rparr>) = Some (Some (diff, g'))"
    and "a \<notin> set (map fst (tracked diff))"
  shows "a \<notin> set (active_asset_ids (d_store (on_market_resolved ev d))) \<and>
    a \<in> ws_assets (ws (drain_commands wcfg (f\<lparr>gate := g'\<rparr>)))"
proof -
  obtain t where st: "d_store (on_market_resolved ev d) = set_market_active (resolved_ids ev) False t (gk_store (gate f))"
    using resolved_store [of ev d] assms(4) by auto
  have c: "coherent (gk_store (gate f))" using assms(1) by (simp add: in_sync_def)
  have act: "set (active_asset_ids (d_store (on_market_resolved ev d))) = set (active_asset_ids (gk_store (gate f))) - set (resolved_ids ev)"
    unfolding st using active_after_set_active [OF c, of _ False] by simp
  have "coherent (gk_store ((gate f)\<lparr>gk_store := d_store (on_market_resolved ev d)\<rparr>))"
    unfolding st by (simp add: coherent_set_active [OF c])
  note c' = this
  from run_onceD [OF assms(6)] have td: "tracked_dict (tracked diff)"
    "apply_tracked (tracked diff) now now_iso ((gate f)\<lparr>gk_store := d_store (on_market_resolved ev d)\<rparr>) = (diff, g')" by auto
  from apply_tracked_effect(3) [OF td(1) c' td(2), of "ws_assets (ws f)"]
  have "fold apply_command (command_queue g') (ws_assets (ws f)) =
      ws_assets (ws f) \<union> (set (map fst (tracked diff)) - set (active_asset_ids (d_store (on_market_resolved ev d)))) -
        (set (active_asset_ids (d_store (on_market_resolved ev d))) - set (map fst (tracked diff)))"
    using assms(2) by simp
  moreover have "a \<in> ws_assets (ws f)" using assms(1-3) by (auto simp: in_sync_def)
  ultimately show ?thesis using act assms(5) by (simp add: drain_commands_def ws_assets_fold)
qed

section \<open>Evaluated examples\<close>

definition demo_gk_config :: gatekeeper_config where
  "demo_gk_config = \<lparr>gamma_api_url = ''https://g'', endpoint = ''/events'', poll_interval_sec = 300, min_volume_24h = 1000,
     gk_min_liquidity = 500, max_markets = 10, excluded_categories = [''Sports''], excluded_tag_slugs = [], stale_timeout_sec = 600,
     page_size = 2, order_by = ''volume24hr'', ascending = False\<rparr>"

definition demo_listing :: "string \<Rightarrow> json" where
  "demo_listing a = JDict
     [(''id'', JStr ''e''), (''slug'', JStr ''ev''),
      (''markets'', JList [JDict [(''outcomes'', JList [JStr ''Yes'', JStr ''No'']), (''clobTokenIds'', JList [JStr a, JStr ''n'']),
         (''volume24hr'', JInt 5000), (''liquidity'', JInt 700), (''category'', JStr ''Politics'')]])]"

theorem fetch_events_complete_witness:
  "fetch_events demo_slib demo_gk_config (paged demo_gk_config [demo_listing ''a'', demo_listing ''b'', demo_listing ''c'']) =
     Some (Inr [demo_listing ''a'', demo_listing ''b'', demo_listing ''c''])"
  using fetch_events_complete [of demo_gk_config demo_slib "[demo_listing ''a'', demo_listing ''b'', demo_listing ''c'']"]
  by (simp add: demo_gk_config_def)

lemma demo_lower:
  "str_lower ''Yes'' = ''yes''" "str_lower ''No'' = ''no''" "str_lower ''Politics'' = ''politics''" "str_lower ''Sports'' = ''sports''"
  by code_simp+

definition demo_tracked :: "market_metadata dict" where
  "demo_tracked = the (extract_tracked_markets demo_slib demo_gk_config [demo_listing ''a''])"

lemma demo_extract:
  "extract_tracked_markets demo_slib demo_gk_config [demo_listing ''a''] = Some demo_tracked" "map fst demo_tracked = [''a'']"
proof -
  have y: "extract_yes_token_id demo_slib [(''outcomes'', JList [JStr ''Yes'', JStr ''No'']), (''clobTokenIds'', JList [JStr ''a'', JStr ''n'']),
       (''volume24hr'', JInt 5000), (''liquidity'', JInt 700), (''category'', JStr ''Politics'')] = Some ''a''"
    by (simp add: extract_yes_token_id_def ensure_list_def jget_def jget_default_def jor_def sstr_def py_str_def demo_lower
        str_strip_def is_space_def)
  have "length (event_candidates demo_slib demo_gk_config (the (as_dict (demo_listing ''a'')))) = 1 \<and>
      map asset_id (event_candidates demo_slib demo_gk_config (the (as_dict (demo_listing ''a'')))) = [''a'']"
    by (simp add: event_candidates_def canonical_markets_def demo_listing_def jget_def jget_default_def ensure_list_def y
        map_filter_simps wanted_def market_from_def Let_def is_excluded_market_def demo_gk_config_def demo_lower
        str_strip_def is_space_def text_or_def jor_def sstr_def py_str_def parse_float_def normalize_tags_def)
  then obtain m where m: "event_candidates demo_slib demo_gk_config (the (as_dict (demo_listing ''a''))) = [m]" "asset_id m = ''a''"
    by (auto simp: length_Suc_conv)
  then have "extract_tracked_markets demo_slib demo_gk_config [demo_listing ''a''] = Some [(''a'', m)]"
    by (simp add: extract_tracked_markets_def demo_listing_def map_filter_simps slice_to_def demo_gk_config_def)
  then show "extract_tracked_markets demo_slib demo_gk_config [demo_listing ''a''] = Some demo_tracked" "map fst demo_tracked = [''a'']"
    by (simp_all add: demo_tracked_def)
qed


definition demo_api :: events_api where
  "demo_api = paged demo_gk_config [demo_listing ''a'']"

lemma demo_run: "run_once demo_slib demo_gk_config demo_api 5 ''t'' g = Some (Some (apply_tracked demo_tracked 5 ''t'' g))"
  using fetch_from_paged [of demo_gk_config 0 demo_slib "[demo_listing ''a'']" "[]"] demo_extract(1)
  by (simp add: run_once_def fetch_events_def demo_api_def) (simp add: demo_gk_config_def)

lemma demo_run_diff:
  "\<exists>diff g'. run_once demo_slib demo_gk_config demo_api 5 ''t'' g = Some (Some (diff, g')) \<and> map fst (tracked diff) = [''a'']"
  by (simp add: demo_run demo_extract(2) apply_tracked_def Let_def)

definition demo_disk :: store where
  "demo_disk = empty_store\<lparr>tracked_markets := [\<lparr>tm_market = demo_metadata ''a'', tm_last_update = 0\<rparr>,
     \<lparr>tm_market = demo_metadata ''z'', tm_last_update = 0\<rparr>]\<rparr>"

lemma demo_disk_active: "set (active_asset_ids (refresh_cache demo_disk)) = {''a'', ''z''}"
  by (simp add: active_asset_ids_def refresh_cache_def demo_disk_def demo_metadata_def)

lemma demo_disk_distinct: "distinct (map (\<lambda>r. asset_id (tm_market r)) (tracked_markets demo_disk))"
  by (simp add: demo_disk_def demo_metadata_def)

theorem run_once_diff_witness:
  "\<exists>diff g'. run_once demo_slib demo_gk_config demo_api 5 ''t'' (gate (start_feed demo_disk)) = Some (Some (diff, g')) \<and>
     set (unsubscribe_ids diff) = {''z''} \<and> set (subscribe_ids diff) = {}"
proof -
  obtain diff g' where r: "run_once demo_slib demo_gk_config demo_api 5 ''t'' (gate (start_feed demo_disk)) = Some (Some (diff, g'))"
      "map fst (tracked diff) = [''a'']" using demo_run_diff [of "gate (start_feed demo_disk)"] by metis
  have "coherent (gk_store (gate (start_feed demo_disk)))" by (simp add: start_feed_def refresh_coherent demo_disk_distinct)
  from run_once_diff [OF r(1) this] r show ?thesis
    using demo_disk_active by (intro exI [of _ diff] exI [of _ g']) (auto simp: start_feed_def)
qed

theorem restart_subscribes_only_new_witness:
  "\<exists>diff g'. run_once demo_slib demo_gk_config demo_api 5 ''t'' (gate (start_feed demo_disk)) = Some (Some (diff, g')) \<and>
     set (active_asset_ids (gk_store g')) = {''a''} \<and>
     ws_assets (ws (drain_commands demo_ws ((start_feed demo_disk)\<lparr>gate := g'\<rparr>))) = {}"
proof -
  obtain diff g' where r: "run_once demo_slib demo_gk_config demo_api 5 ''t'' (gate (start_feed demo_disk)) = Some (Some (diff, g'))"
      "map fst (tracked diff) = [''a'']" using demo_run_diff [of "gate (start_feed demo_disk)"] by metis
  from restart_subscribes_only_new [OF r(1) demo_disk_distinct, of demo_ws] r demo_disk_active show ?thesis
    by (intro exI [of _ diff] exI [of _ g']) auto
qed

definition demo_feed :: feed where
  "demo_feed = (start_feed demo_disk)\<lparr>ws := \<lparr>ws_assets = {''a'', ''z''}, sent = [subscription_payload demo_ws {''a'', ''z''}],
     output_queue = [], ws_metrics = new_metrics\<rparr>\<rparr>"

definition demo_resolved :: market_resolved_event where
  "demo_resolved = \<lparr>mre_market_id = ''m'', mre_winning_asset_id = [], mre_winning_outcome = [], mre_timestamp_ms = 9,
     mre_asset_ids = [''z'']\<rparr>"

theorem resolved_market_stays_subscribed_witness:
  "\<exists>d diff g'. d_store d = gk_store (gate demo_feed) \<and>
     run_once demo_slib demo_gk_config demo_api 5 ''t'' ((gate demo_feed)\<lparr>gk_store := d_store (on_market_resolved demo_resolved d)\<rparr>) =
       Some (Some (diff, g')) \<and> ''z'' \<in> ws_assets (ws (drain_commands demo_ws (demo_feed\<lparr>gate := g'\<rparr>)))"
proof -
  define d where "d = \<lparr>ms_clock = (\<lambda>_. 0), ms_reads = 0, bars_by_asset = [], latest_tick_by_asset = [], cooldowns = [],
     d_metrics = new_metrics, d_store = gk_store (gate demo_feed)\<rparr>"
  obtain diff g' where r: "run_once demo_slib demo_gk_config demo_api 5 ''t''
      ((gate demo_feed)\<lparr>gk_store := d_store (on_market_resolved demo_resolved d)\<rparr>) = Some (Some (diff, g'))"
      "map fst (tracked diff) = [''a'']" using demo_run_diff [of "(gate demo_feed)\<lparr>gk_store := d_store (on_market_resolved demo_resolved d)\<rparr>"] by metis
  have "in_sync demo_ws {} demo_feed" "command_queue (gate demo_feed) = []" "''z'' \<in> set (active_asset_ids (gk_store (gate demo_feed)))"
      "d_store d = gk_store (gate demo_feed)" "''z'' \<in> set (resolved_ids demo_resolved)"
    using demo_disk_active demo_disk_distinct
    by (simp_all add: in_sync_def demo_feed_def start_feed_def d_def refresh_coherent resolved_ids_def demo_resolved_def)
  from resolved_market_stays_subscribed [OF this r(1)] r this(4) show ?thesis by auto
qed

end
