(* ===== verification/Enrichment.thy ===== *)
theory Enrichment
  imports Sentinel_Store
begin

text \<open>
  \<open>BeforeStateEnricher\<close> (\<open>src/src/sentinel/processing/enrichment.py\<close>): the summary of
  the hour of stored ticks before an alert.
\<close>

section \<open>Summaries\<close>

abbreviation row_price :: "tick_row \<Rightarrow> rat" where
  "row_price r \<equiv> price (tk_tick r)"

definition spreads_of :: "tick_row list \<Rightarrow> rat list" where
  "spreads_of rows = List.map_filter (\<lambda>r. spread (tk_tick r)) rows"

definition avg_spread :: "tick_row list \<Rightarrow> rat option" where
  "avg_spread rows =
     (let spreads = spreads_of rows in
      if spreads = [] then None else Some (sum_list spreads / of_nat (length spreads)))"

definition round_opt :: "nat \<Rightarrow> rat option \<Rightarrow> rat option" where
  "round_opt n v = map_option (py_round n) v"

definition summarize_window :: "tick_row list \<Rightarrow> int \<Rightarrow> before_state_window" where
  "summarize_window rows sec =
     (if rows = [] then
        \<lparr>bw_window_sec = sec, bw_price_start = None, bw_price_end = None, bw_net_delta_pct = None, bw_high = None, bw_low = None,
         bw_range_pct = None, bw_position_in_range = None, bw_tick_count = 0, bw_avg_spread = None\<rparr>
      else
        let prices = map row_price rows; price_start = hd prices; price_end = last prices;
            high = Max (set prices); low = Min (set prices);
            net_delta_pct = (if price_start \<noteq> 0 then Some ((price_end - price_start) / price_start * 100) else None);
            range_pct = (if price_start \<noteq> 0 then Some ((high - low) / price_start * 100) else None);
            position_in_range = (if high > low then (price_end - low) / (high - low) else 1 / 2) in
        \<lparr>bw_window_sec = sec, bw_price_start = Some (py_round 6 price_start), bw_price_end = Some (py_round 6 price_end),
         bw_net_delta_pct = round_opt 4 net_delta_pct, bw_high = Some (py_round 6 high), bw_low = Some (py_round 6 low),
         bw_range_pct = round_opt 4 range_pct, bw_position_in_range = Some (py_round 4 position_in_range),
         bw_tick_count = length rows, bw_avg_spread = round_opt 6 (avg_spread rows)\<rparr>)"

definition summarize_activity :: "tick_row list \<Rightarrow> int \<Rightarrow> before_state_activity" where
  "summarize_activity rows end_ms =
     (let last_5m = filter (\<lambda>r. end_ms - 300000 \<le> tk_ts r) rows;
          prior_30m = filter (\<lambda>r. end_ms - 2100000 \<le> tk_ts r \<and> tk_ts r < end_ms - 300000) rows;
          prior_avg = (if prior_30m \<noteq> [] then Some (of_nat (length prior_30m) / 6 :: rat) else None);
          ratio = (case prior_avg of None \<Rightarrow> None | Some p \<Rightarrow> if p > 0 then Some (of_nat (length last_5m) / p) else None);
          last_spread = avg_spread last_5m; prior_spread = avg_spread prior_30m;
          change = (case (prior_spread, last_spread) of
              (Some p, Some l) \<Rightarrow> if p \<noteq> 0 then Some ((l - p) / p * 100) else None
            | _ \<Rightarrow> None) in
      \<lparr>ba_last_5m_tick_count = length last_5m, ba_prior_30m_avg_5m_tick_count = round_opt 2 prior_avg,
       ba_tick_activity_ratio = round_opt 4 ratio, ba_last_5m_avg_spread = round_opt 6 last_spread,
       ba_prior_30m_avg_spread = round_opt 6 prior_spread, ba_spread_change_pct = round_opt 4 change\<rparr>)"

definition classify_regime :: "shift_alert \<Rightarrow> before_state_window \<Rightarrow> before_state_activity \<Rightarrow> string" where
  "classify_regime a w act =
     (let net = bw_net_delta_pct w; range = bw_range_pct w; signed = sh_signed_delta_pct (shift a);
          up = signed \<ge> 0;
          is = (\<lambda>v P. case v of None \<Rightarrow> False | Some x \<Rightarrow> P x) in
      if is range (\<lambda>r. r \<le> 4) \<and> (case ba_tick_activity_ratio act of None \<Rightarrow> True | Some q \<Rightarrow> q \<ge> 3 / 2) then ''quiet_breakout''
      else if is net (\<lambda>n. n \<le> - 5) \<and> up then ''recovery_move''
      else if is net (\<lambda>n. n \<ge> 5) \<and> \<not> up then ''pullback_move''
      else if is net (\<lambda>n. \<bar>n\<bar> \<ge> 5 \<and> n * signed > 0) then ''trend_acceleration''
      else if is range (\<lambda>r. r \<ge> 12) then ''choppy_regime''
      else ''mixed_regime'')"

definition hour_before :: "slib \<Rightarrow> store \<Rightarrow> shift_alert \<Rightarrow> tick_row list" where
  "hour_before SL st a =
     (let asset = sstr SL (jor (jget (alert_market a) ''asset_id'') (JStr [])) in
      if asset = [] then []
      else fetch_price_ticks_for_asset asset (alert_timestamp_ms a - 3600000) (alert_timestamp_ms a) st)"

definition enrich :: "slib \<Rightarrow> store \<Rightarrow> shift_alert \<Rightarrow> shift_alert" where
  "enrich SL st a =
     (let rows = hour_before SL st a; end_ms = alert_timestamp_ms a in
      if rows = [] then a
      else
        let rows_30m = filter (\<lambda>r. end_ms - 1800000 \<le> tk_ts r) rows;
            lookback_30m = summarize_window rows_30m 1800;
            lookback_60m = summarize_window rows 3600;
            act = summarize_activity rows end_ms in
        a\<lparr>before_state := Some \<lparr>bs_lookback_30m = lookback_30m, bs_lookback_60m = lookback_60m, bs_activity = act,
            bs_regime_label = classify_regime a lookback_30m act\<rparr>\<rparr>)"

section \<open>Bounds\<close>

definition window_bounds :: "before_state_window \<Rightarrow> bool" where
  "window_bounds w \<longleftrightarrow>
     (if bw_tick_count w = 0 then bw_price_start w = None \<and> bw_price_end w = None \<and> bw_position_in_range w = None
      else \<exists>first final low high pos. bw_price_start w = Some first \<and> bw_price_end w = Some final \<and> bw_low w = Some low \<and>
        bw_high w = Some high \<and> bw_position_in_range w = Some pos \<and>
        low \<le> first \<and> first \<le> high \<and> low \<le> final \<and> final \<le> high \<and> 0 \<le> pos \<and> pos \<le> 1)"

lemma py_round_unit: "0 \<le> x \<Longrightarrow> x \<le> 1 \<Longrightarrow> 0 \<le> py_round n x \<and> py_round n x \<le> 1"
proof -
  assume x: "0 \<le> x" "x \<le> 1"
  have "py_round n 1 = 1"
    using round_half_even_int [of "10 ^ n"] by (simp add: py_round_def)
  with py_round_mono [OF x(1), of n] py_round_mono [OF x(2), of n] show ?thesis by simp
qed

lemma window_bounds_summarize: "window_bounds (summarize_window rows sec)"
proof (cases "rows = []")
  case True
  then show ?thesis by (simp add: window_bounds_def summarize_window_def)
next
  case False
  let ?P = "map row_price rows"
  have "hd ?P \<in> set ?P" "last ?P \<in> set ?P" using False by (simp_all add: hd_in_set last_in_set del: set_map)
  then have b: "Min (set ?P) \<le> hd ?P" "hd ?P \<le> Max (set ?P)" "Min (set ?P) \<le> last ?P" "last ?P \<le> Max (set ?P)"
    by (simp_all del: set_map)
  define pos where "pos = (if Max (set ?P) > Min (set ?P) then (last ?P - Min (set ?P)) / (Max (set ?P) - Min (set ?P)) else 1 / 2)"
  have "0 \<le> pos \<and> pos \<le> 1" using b by (auto simp: pos_def divide_simps simp del: set_map)
  then have "0 \<le> py_round 4 pos \<and> py_round 4 pos \<le> 1" by (simp add: py_round_unit)
  moreover have "bw_tick_count (summarize_window rows sec) \<noteq> 0" "bw_price_start (summarize_window rows sec) = Some (py_round 6 (hd ?P))"
      "bw_price_end (summarize_window rows sec) = Some (py_round 6 (last ?P))" "bw_low (summarize_window rows sec) = Some (py_round 6 (Min (set ?P)))"
      "bw_high (summarize_window rows sec) = Some (py_round 6 (Max (set ?P)))"
      "bw_position_in_range (summarize_window rows sec) = Some (py_round 4 pos)"
    using False by (simp_all add: summarize_window_def Let_def pos_def)
  ultimately show ?thesis
    using b by (auto simp: window_bounds_def py_round_mono simp del: set_map)
qed

text \<open>
  C39 (bounds): the summary of the past hour. Enrichment changes nothing of an alert but its
  before-state, and leaves the alert as it is when no tick of its asset was stored in the hour
  before it. Otherwise the sixty-minute window counts all ticks of that hour, the thirty-minute
  window and the five-minute count no more than that, and in both windows first and final price lie
  between low and high and the position in the range between 0 and 1.
\<close>

theorem enrich_bounds:
  "let a' = enrich SL st a; rows = hour_before SL st a in
   a' = a\<lparr>before_state := before_state a'\<rparr> \<and>
   (if rows = [] then a' = a
    else \<exists>bs. before_state a' = Some bs \<and> bw_tick_count (bs_lookback_60m bs) = length rows \<and>
      ba_last_5m_tick_count (bs_activity bs) \<le> bw_tick_count (bs_lookback_30m bs) \<and>
      bw_tick_count (bs_lookback_30m bs) \<le> length rows \<and>
      window_bounds (bs_lookback_30m bs) \<and> window_bounds (bs_lookback_60m bs))"
proof (cases "hour_before SL st a = []")
  case True
  then show ?thesis by (simp add: enrich_def Let_def)
next
  case False
  let ?rows = "hour_before SL st a" and ?e = "alert_timestamp_ms a"
  let ?r30 = "filter (\<lambda>r. ?e - 1800000 \<le> tk_ts r) ?rows"
  have count: "bw_tick_count (summarize_window rs sec) = length rs" for rs sec
    by (simp add: summarize_window_def Let_def)
  have "length (filter (\<lambda>r. ?e - 300000 \<le> tk_ts r) ?rows) = length (filter (\<lambda>r. ?e - 300000 \<le> tk_ts r) ?r30)"
    by (simp add: conj_commute cong: conj_cong)
  also have "\<dots> \<le> length ?r30" by (rule length_filter_le)
  finally have "ba_last_5m_tick_count (summarize_activity ?rows ?e) \<le> length ?r30"
    by (simp add: summarize_activity_def Let_def)
  then show ?thesis
    using False by (simp add: enrich_def Let_def count window_bounds_summarize)
qed

end
