(* ===== verification/Notifications.thy ===== *)
theory Notifications
  imports Sentinel_Store Cooldown_Gate
begin

text \<open>
  Delivery of alerts (\<open>src/src/sentinel/notifications\<close>): the notifiers (JSON file, webhook
  with retries, Discord, Telegram) and the dispatcher that selects, enriches and fans out. What
  lies outside the process is a record \<open>net\<close>: the reply to the n-th post, the posts made, the
  time slept and the files written. A notifier reports whether its \<open>send\<close> returned
  (\<open>True\<close>) or raised. Sends that the source runs concurrently are taken one after the other.
\<close>

section \<open>JSON form of an alert\<close>

definition j_rat :: "rat option \<Rightarrow> json" where
  "j_rat v = (case v of None \<Rightarrow> JNull | Some q \<Rightarrow> JFloat q)"

definition shift_to_json :: "shift_summary \<Rightarrow> json" where
  "shift_to_json s = JDict
     [(''direction'', JStr (sh_direction s)), (''delta_pct'', JFloat (sh_delta_pct s)),
      (''signed_delta_pct'', JFloat (sh_signed_delta_pct s)), (''price_start'', JFloat (sh_price_start s)),
      (''price_end'', JFloat (sh_price_end s)), (''price_current'', JFloat (sh_price_current s)),
      (''window_sec'', JInt (sh_window_sec s)), (''ticks_in_window'', JInt (sh_ticks_in_window s))]"

definition quality_to_json :: "signal_quality \<Rightarrow> json" where
  "quality_to_json q = JDict
     [(''signal_source'', JStr (sq_signal_source q)), (''best_bid'', j_rat (sq_best_bid q)),
      (''best_ask'', j_rat (sq_best_ask q)), (''spread'', j_rat (sq_spread q)),
      (''quote_age_sec'', j_rat (sq_quote_age_sec q)), (''liquidity_bucket'', JStr (sq_liquidity_bucket q)),
      (''confidence'', JStr (sq_confidence q))]"

definition window_to_json :: "before_state_window \<Rightarrow> json" where
  "window_to_json w = JDict
     [(''window_sec'', JInt (bw_window_sec w)), (''price_start'', j_rat (bw_price_start w)),
      (''price_end'', j_rat (bw_price_end w)), (''net_delta_pct'', j_rat (bw_net_delta_pct w)),
      (''high'', j_rat (bw_high w)), (''low'', j_rat (bw_low w)), (''range_pct'', j_rat (bw_range_pct w)),
      (''position_in_range'', j_rat (bw_position_in_range w)), (''tick_count'', JInt (int (bw_tick_count w))),
      (''avg_spread'', j_rat (bw_avg_spread w))]"

definition activity_to_json :: "before_state_activity \<Rightarrow> json" where
  "activity_to_json v = JDict
     [(''last_5m_tick_count'', JInt (int (ba_last_5m_tick_count v))),
      (''prior_30m_avg_5m_tick_count'', j_rat (ba_prior_30m_avg_5m_tick_count v)),
      (''tick_activity_ratio'', j_rat (ba_tick_activity_ratio v)),
      (''last_5m_avg_spread'', j_rat (ba_last_5m_avg_spread v)),
      (''prior_30m_avg_spread'', j_rat (ba_prior_30m_avg_spread v)),
      (''spread_change_pct'', j_rat (ba_spread_change_pct v))]"

definition before_state_to_json :: "before_state option \<Rightarrow> json" where
  "before_state_to_json b = (case b of None \<Rightarrow> JNull
     | Some s \<Rightarrow> JDict
        [(''lookback_30m'', window_to_json (bs_lookback_30m s)), (''lookback_60m'', window_to_json (bs_lookback_60m s)),
         (''activity'', activity_to_json (bs_activity s)), (''regime_label'', JStr (bs_regime_label s))])"

definition to_dict :: "shift_alert \<Rightarrow> json" where
  "to_dict a = JDict
     [(''alert_id'', JStr (alert_id a)), (''alert_level'', JStr (level_value (alert_level a))),
      (''alert_level_label'', JStr (alert_level_label a)), (''timestamp_iso'', JStr (timestamp_iso a)),
      (''timestamp_ms'', JInt (alert_timestamp_ms a)), (''market'', JDict (alert_market a)),
      (''shift'', shift_to_json (shift a)), (''signal_quality'', quality_to_json (signal_quality a)),
      (''before_state'', before_state_to_json (before_state a))]"

definition to_json :: "slib \<Rightarrow> shift_alert \<Rightarrow> string" where
  "to_json SL a = s_json_dumps SL (to_dict a)"

section \<open>The world outside\<close>

text \<open>
  How a post ends: a response was read, an \<open>HTTPError\<close> with its code, a
  \<open>URLError\<close>, \<open>OSError\<close> or \<open>TimeoutError\<close>, or any other exception.
\<close>

datatype post_result = Posted | Http_Error int | Network_Error | Other_Error

record post =
  post_url :: string
  post_data :: string
  post_headers :: "string dict"

record net =
  reply :: "nat \<Rightarrow> post_result"
  posts :: "post list"
  slept :: "rat list"
  files :: "string dict"

type_synonym notifier = "shift_alert \<Rightarrow> net \<Rightarrow> bool \<times> net"

definition post_json :: "string \<Rightarrow> string \<Rightarrow> string dict \<Rightarrow> net \<Rightarrow> post_result \<times> net" where
  "post_json url data headers n =
     (reply n (length (posts n)),
      n\<lparr>posts := posts n @ [\<lparr>post_url = url, post_data = data, post_headers = headers\<rparr>]\<rparr>)"

section \<open>Notifiers\<close>

definition alert_filename :: "slib \<Rightarrow> shift_alert \<Rightarrow> json \<Rightarrow> string" where
  "alert_filename SL a asset = str_int (alert_timestamp_ms a) @ ''_'' @ sstr SL asset @ ''.json''"

definition file_send :: "slib \<Rightarrow> string \<Rightarrow> notifier" where
  "file_send SL output_dir a n =
     (case dict_get (alert_market a) ''asset_id'' of
        None \<Rightarrow> (False, n)
      | Some asset \<Rightarrow> (True, n\<lparr>files := dict_set (output_dir @ ''/'' @ alert_filename SL a asset) (to_json SL a) (files n)\<rparr>))"

record webhook =
  wh_url :: string
  wh_max_retries :: int
  wh_retry_backoff_sec :: rat
  wh_bearer_token :: string
  wh_hmac_secret :: string

definition build_headers :: "slib \<Rightarrow> webhook \<Rightarrow> shift_alert \<Rightarrow> string \<Rightarrow> string dict" where
  "build_headers SL w a data =
     (let event_slug = sstr SL (jor (jget (alert_market a) ''event_slug'') (JStr [])) in
      [(''Content-Type'', ''application/json''), (''User-Agent'', ''polymarket-sentinel/0.1.0''),
       (''X-Sentinel-Alert-Id'', alert_id a), (''X-Sentinel-Alert-Level'', level_value (alert_level a)),
       (''X-Sentinel-Timestamp-Ms'', str_int (alert_timestamp_ms a))] @
      (if event_slug \<noteq> [] then [(''X-Sentinel-Event-Slug'', event_slug)] else []) @
      (if wh_bearer_token w \<noteq> [] then [(''Authorization'', ''Bearer '' @ wh_bearer_token w)] else []) @
      (if wh_hmac_secret w \<noteq> [] then [(''X-Sentinel-Signature'', ''sha256='' @ s_hmac SL (wh_hmac_secret w) data)] else []))"

definition gives_up :: "webhook \<Rightarrow> nat \<Rightarrow> post_result \<Rightarrow> bool" where
  "gives_up w attempt r = (case r of
       Posted \<Rightarrow> False
     | Http_Error code \<Rightarrow> (400 \<le> code \<and> code < 500 \<and> code \<noteq> 429) \<or> int attempt \<ge> wh_max_retries w
     | Network_Error \<Rightarrow> int attempt \<ge> wh_max_retries w
     | Other_Error \<Rightarrow> True)"

function post_loop :: "webhook \<Rightarrow> string \<Rightarrow> string dict \<Rightarrow> nat \<Rightarrow> net \<Rightarrow> bool \<times> net" where
  "post_loop w data headers attempt n =
     (case post_json (wh_url w) data headers n of (r, n1) \<Rightarrow>
      if r = Posted then (True, n1)
      else if gives_up w attempt r then (False, n1)
      else post_loop w data headers (attempt + 1) (n1\<lparr>slept := slept n1 @ [wh_retry_backoff_sec w * 2 ^ attempt]\<rparr>))"
  by pat_completeness auto

termination
  by (relation "measure (\<lambda>(w, data, headers, attempt, n). nat (wh_max_retries w - int attempt))")
    (auto simp: gives_up_def split: post_result.splits)

declare post_loop.simps [simp del]

definition webhook_send :: "slib \<Rightarrow> webhook \<Rightarrow> notifier" where
  "webhook_send SL w a n =
     (if wh_url w = [] then (True, n)
      else let data = to_json SL a in post_loop w data (build_headers SL w a data) 0 n)"

definition single_post :: "string \<Rightarrow> string \<Rightarrow> net \<Rightarrow> bool \<times> net" where
  "single_post url data n =
     (case post_json url data [(''Content-Type'', ''application/json'')] n of (r, n1) \<Rightarrow> (r = Posted, n1))"

definition newline :: string where
  "newline = [char_of (10::nat)]"

definition discord_content :: "slib \<Rightarrow> shift_alert \<Rightarrow> json \<Rightarrow> string" where
  "discord_content SL a q =
     ''['' @ alert_level_label a @ ''] '' @ sstr SL q @ newline @ str_upper (sh_direction (shift a)) @ '' '' @
     str_fixed 2 (sh_delta_pct (shift a)) @ ''% over '' @ str_int (sh_window_sec (shift a)) @ ''s ('' @
     sq_confidence (signal_quality a) @ '')''"

definition discord_send :: "slib \<Rightarrow> string \<Rightarrow> notifier" where
  "discord_send SL webhook_url a n =
     (if webhook_url = [] then (True, n)
      else case dict_get (alert_market a) ''question'' of
          None \<Rightarrow> (False, n)
        | Some q \<Rightarrow> single_post webhook_url (s_json_dumps SL (JDict [(''content'', JStr (discord_content SL a q))])) n)"

definition telegram_text :: "slib \<Rightarrow> shift_alert \<Rightarrow> json \<Rightarrow> string" where
  "telegram_text SL a q =
     alert_level_label a @ newline @ sstr SL q @ newline @ str_upper (sh_direction (shift a)) @ '' '' @
     str_fixed 2 (sh_delta_pct (shift a)) @ ''% over '' @ str_int (sh_window_sec (shift a)) @ ''s''"

text \<open>The parameter \<open>quote\<close> stands for \<open>urllib.parse.quote\<close>.\<close>

definition telegram_send :: "slib \<Rightarrow> (string \<Rightarrow> string) \<Rightarrow> string \<Rightarrow> string \<Rightarrow> notifier" where
  "telegram_send SL quote bot_token chat_id a n =
     (if bot_token = [] \<or> chat_id = [] then (True, n)
      else case dict_get (alert_market a) ''question'' of
          None \<Rightarrow> (False, n)
        | Some q \<Rightarrow> single_post (''https://api.telegram.org/bot'' @ quote bot_token @ ''/sendMessage'')
            (s_json_dumps SL (JDict [(''chat_id'', JStr chat_id), (''text'', JStr (telegram_text SL a q))])) n)"

text \<open>The notifiers of the application, in the order of \<open>app.py\<close>.\<close>

definition build_notifiers :: "slib \<Rightarrow> (string \<Rightarrow> string) \<Rightarrow> notifications_config \<Rightarrow> notifier list" where
  "build_notifiers SL quote cfg =
     (let channels = set (enabled_channels cfg) in
      (if ''json_file'' \<in> channels then [file_send SL (json_file_dir cfg)] else []) @
      (if ''json_webhook'' \<in> channels \<and> json_webhook_url cfg \<noteq> []
       then [webhook_send SL \<lparr>wh_url = json_webhook_url cfg, wh_max_retries = json_webhook_max_retries cfg,
               wh_retry_backoff_sec = json_webhook_retry_backoff_sec cfg, wh_bearer_token = json_webhook_bearer_token cfg,
               wh_hmac_secret = json_webhook_hmac_secret cfg\<rparr>]
       else []) @
      (if ''discord'' \<in> channels \<and> discord_webhook_url cfg \<noteq> [] then [discord_send SL (discord_webhook_url cfg)] else []) @
      (if ''telegram'' \<in> channels \<and> telegram_bot_token cfg \<noteq> [] \<and> telegram_chat_id cfg \<noteq> []
       then [telegram_send SL quote (telegram_bot_token cfg) (telegram_chat_id cfg)] else []))"

section \<open>The retry loop\<close>

text \<open>The attempt at which the loop ends, counted from the first, given the replies.\<close>

definition ends_at :: "webhook \<Rightarrow> (nat \<Rightarrow> post_result) \<Rightarrow> nat \<Rightarrow> bool" where
  "ends_at w r i \<longleftrightarrow> r i = Posted \<or> gives_up w i (r i)"

lemma ends_at_max: "int i \<ge> wh_max_retries w \<Longrightarrow> ends_at w r i"
  by (auto simp: ends_at_def gives_up_def split: post_result.split)

lemma post_loop_spec:
  assumes "\<forall>i. attempt \<le> i \<and> i < k \<longrightarrow> \<not> ends_at w r i" "ends_at w r k" "attempt \<le> k"
    and "\<And>i. reply n (length (posts n) + i) = r (attempt + i)"
  shows "post_loop w data headers attempt n =
    (r k = Posted, n\<lparr>posts := posts n @ replicate (Suc (k - attempt)) \<lparr>post_url = wh_url w, post_data = data, post_headers = headers\<rparr>,
       slept := slept n @ map (\<lambda>i. wh_retry_backoff_sec w * 2 ^ i) [attempt..<k]\<rparr>)"
  using assms
proof (induction "k - attempt" arbitrary: attempt n)
  case 0
  then have k: "k = attempt" by simp
  have "reply n (length (posts n)) = r attempt" using "0.prems"(4) [of 0] by simp
  with "0.prems"(2) k show ?case
    by (auto simp: post_loop.simps [of w data headers attempt] post_json_def ends_at_def)
next
  case (Suc m)
  let ?p = "\<lparr>post_url = wh_url w, post_data = data, post_headers = headers\<rparr>"
  let ?n = "n\<lparr>posts := posts n @ [?p], slept := slept n @ [wh_retry_backoff_sec w * 2 ^ attempt]\<rparr>"
  from Suc(2) have lt: "attempt < k" by simp
  have r: "reply n (length (posts n)) = r attempt" using Suc.prems(4) [of 0] by simp
  have "\<not> ends_at w r attempt" using Suc.prems(1) lt by simp
  then have step: "post_loop w data headers attempt n = post_loop w data headers (attempt + 1) ?n"
    using r by (simp add: post_loop.simps [of w data headers attempt] post_json_def ends_at_def)
  have rep: "reply ?n (length (posts ?n) + i) = r (attempt + 1 + i)" for i
    using Suc.prems(4) [of "Suc i"] by simp
  have "post_loop w data headers (attempt + 1) ?n =
    (r k = Posted, ?n\<lparr>posts := posts ?n @ replicate (Suc (k - (attempt + 1))) ?p,
       slept := slept ?n @ map (\<lambda>i. wh_retry_backoff_sec w * 2 ^ i) [attempt + 1..<k]\<rparr>)"
    by (rule Suc.hyps(1)) (use Suc lt rep in auto)
  moreover have "[attempt..<k] = attempt # [attempt + 1..<k]" using lt by (simp add: upt_conv_Cons)
  moreover have "Suc (k - attempt) = Suc (Suc (k - (attempt + 1)))" using lt by simp
  ultimately show ?case unfolding step by (simp del: upt_Suc)
qed

text \<open>
  The webhook notifier's retry loop always ends. It posts the alert at least once
  and at most \<open>max_retries + 1\<close> times, always to the configured address with the same body and
  headers; it stops at the first attempt that succeeds, that is refused with a client error other
  than 429, or that is the last one allowed, reports success exactly when that attempt succeeded,
  and sleeps the base delay doubled with each attempt in between.
\<close>

theorem webhook_retries:
  assumes "wh_url w \<noteq> []"
  shows "\<exists>k. int k \<le> max 0 (wh_max_retries w) \<and>
    (\<forall>i<k. case reply n (length (posts n) + i) of Http_Error c \<Rightarrow> c < 400 \<or> 500 \<le> c \<or> c = 429 | Network_Error \<Rightarrow> True | _ \<Rightarrow> False) \<and>
    webhook_send SL w a n =
      (reply n (length (posts n) + k) = Posted,
       n\<lparr>posts := posts n @ replicate (Suc k)
             \<lparr>post_url = wh_url w, post_data = to_json SL a, post_headers = build_headers SL w a (to_json SL a)\<rparr>,
         slept := slept n @ map (\<lambda>i. wh_retry_backoff_sec w * 2 ^ i) [0..<k]\<rparr>)"
proof -
  define r where "r = (\<lambda>i. reply n (length (posts n) + i))"
  define k where "k = (LEAST i. ends_at w r i)"
  have ex: "ends_at w r (nat (max 0 (wh_max_retries w)))" by (rule ends_at_max) simp
  have k: "ends_at w r k" "\<forall>i<k. \<not> ends_at w r i" "k \<le> nat (max 0 (wh_max_retries w))"
    unfolding k_def using ex by (blast intro: LeastI dest: not_less_Least, blast dest: not_less_Least, blast intro: Least_le)
  have "case r i of Http_Error c \<Rightarrow> c < 400 \<or> 500 \<le> c \<or> c = 429 | Network_Error \<Rightarrow> True | _ \<Rightarrow> False" if "i < k" for i
    using k(2) that by (auto simp: ends_at_def gives_up_def split: post_result.split)
  moreover have "post_loop w (to_json SL a) (build_headers SL w a (to_json SL a)) 0 n =
    (r k = Posted, n\<lparr>posts := posts n @ replicate (Suc (k - 0))
         \<lparr>post_url = wh_url w, post_data = to_json SL a, post_headers = build_headers SL w a (to_json SL a)\<rparr>,
       slept := slept n @ map (\<lambda>i. wh_retry_backoff_sec w * 2 ^ i) [0..<k]\<rparr>)"
    by (rule post_loop_spec) (use k in \<open>auto simp: r_def\<close>)
  ultimately show ?thesis using k(3) assms by (intro exI [of _ k]) (auto simp: r_def webhook_send_def Let_def)
qed

section \<open>Evaluated examples\<close>

definition demo_alert :: "alert_level \<Rightarrow> int \<Rightarrow> rat \<Rightarrow> shift_alert" where
  "demo_alert l ts delta =
     \<lparr>alert_id = ''id'', alert_level = l, alert_level_label = level_label l, timestamp_iso = ''t'', alert_timestamp_ms = ts,
      alert_market = [(''asset_id'', JStr ''a''), (''event_slug'', JStr ''ev''), (''question'', JStr ''q''), (''liquidity'', JFloat 50000)],
      shift = \<lparr>sh_direction = ''up'', sh_delta_pct = delta, sh_signed_delta_pct = delta, sh_price_start = 1 / 2,
        sh_price_end = 3 / 5, sh_price_current = 3 / 5, sh_window_sec = 60, sh_ticks_in_window = 12\<rparr>,
      signal_quality = \<lparr>sq_signal_source = ''midpoint_book'', sq_best_bid = Some (59 / 100), sq_best_ask = Some (61 / 100),
        sq_spread = Some (1 / 50), sq_quote_age_sec = Some 1, sq_liquidity_bucket = ''medium'', sq_confidence = ''moderate''\<rparr>,
      before_state = None\<rparr>"

definition demo_webhook :: webhook where
  "demo_webhook = \<lparr>wh_url = ''https://r/alerts'', wh_max_retries = 3, wh_retry_backoff_sec = 1, wh_bearer_token = ''tok'',
     wh_hmac_secret = ''key''\<rparr>"

definition demo_net :: net where
  "demo_net = \<lparr>reply = (\<lambda>i. if i < 2 then Http_Error 503 else Posted), posts = [], slept = [], files = []\<rparr>"

theorem webhook_retries_witness:
  "\<exists>k. int k \<le> 3 \<and> length (posts (snd (webhook_send demo_slib demo_webhook (demo_alert SCOUT 0 5) demo_net))) = Suc k \<and>
     fst (webhook_send demo_slib demo_webhook (demo_alert SCOUT 0 5) demo_net) = (2 \<le> k)"
proof -
  have "wh_url demo_webhook \<noteq> []" by (simp add: demo_webhook_def)
  from webhook_retries [OF this, of demo_net demo_slib "demo_alert SCOUT 0 5"] show ?thesis
    by (auto simp: demo_webhook_def demo_net_def)
qed

end
