(* ===== verification/Civil_Time.thy ===== *)
theory Civil_Time
  imports Sentinel_Prelude
begin

text \<open>
  The part of Python's \<open>datetime\<close> that the archive uses: the civil date of a time in
  milliseconds since 1970 in UTC and back, on the proleptic Gregorian calendar of the years 1 to
  9999, and zero-padded decimal numbers.
\<close>

section \<open>Calendar\<close>

definition leap :: "int \<Rightarrow> bool" where
  "leap y \<longleftrightarrow> y mod 4 = 0 \<and> (y mod 100 \<noteq> 0 \<or> y mod 400 = 0)"

definition month_lengths :: "int \<Rightarrow> int list" where
  "month_lengths y = [31, if leap y then 29 else 28, 31, 30, 31, 30, 31, 31, 30, 31, 30, 31]"

definition days_before_year :: "int \<Rightarrow> int" where
  "days_before_year y = (y - 1) * 365 + (y - 1) div 4 - (y - 1) div 100 + (y - 1) div 400"

text \<open>The ordinal of a date: 1 for the first day of year 1.\<close>

definition ordinal :: "int \<Rightarrow> int \<Rightarrow> int \<Rightarrow> int" where
  "ordinal y m d = days_before_year y + sum_list (take (nat (m - 1)) (month_lengths y)) + d"

definition valid_date :: "int \<Rightarrow> int \<Rightarrow> int \<Rightarrow> bool" where
  "valid_date y m d \<longleftrightarrow> 1 \<le> y \<and> y \<le> 9999 \<and> 1 \<le> m \<and> m \<le> 12 \<and> 1 \<le> d \<and> d \<le> month_lengths y ! nat (m - 1)"

fun split_month :: "int list \<Rightarrow> int \<Rightarrow> int \<Rightarrow> int \<times> int" where
  "split_month [] m r = (m, r + 1)"
| "split_month (l # ls) m r = (if r < l then (m, r + 1) else split_month ls (m + 1) (r - l))"

definition civil_of_ordinal :: "int \<Rightarrow> int \<times> int \<times> int" where
  "civil_of_ordinal n =
     (let k = n - 1; a = k div 146097; k1 = k mod 146097; b = k1 div 36524; k2 = k1 mod 36524;
          c = k2 div 1461; k3 = k2 mod 1461; e = k3 div 365; r = k3 mod 365;
          y = a * 400 + b * 100 + c * 4 + e + 1 in
      if e = 4 \<or> b = 4 then (y - 1, 12, 31)
      else case split_month (month_lengths y) 1 r of (m, d) \<Rightarrow> (y, m, d))"

lemma split_month_spec:
  assumes "0 \<le> r" "r < sum_list ls" "split_month ls m r = (m', d)"
  shows "m \<le> m' \<and> nat (m' - m) < length ls \<and> 1 \<le> d \<and> d \<le> ls ! nat (m' - m) \<and>
    sum_list (take (nat (m' - m)) ls) + d = r + 1"
  using assms
proof (induction ls arbitrary: m r)
  case Nil
  then show ?case by simp
next
  case (Cons l ls)
  show ?case
  proof (cases "r < l")
    case True
    with Cons.prems show ?thesis by auto
  next
    case False
    with Cons.prems Cons.IH [of "r - l" "m + 1"] have *: "m + 1 \<le> m'" "nat (m' - (m + 1)) < length ls" "1 \<le> d"
        "d \<le> ls ! nat (m' - (m + 1))" "sum_list (take (nat (m' - (m + 1))) ls) + d = r - l + 1" by auto
    then have "nat (m' - m) = Suc (nat (m' - (m + 1)))" by linarith
    with * show ?thesis by simp
  qed
qed

lemma days_before_year_parts:
  assumes "0 \<le> b" "b \<le> 3" "0 \<le> c" "c \<le> 24" "0 \<le> e" "e \<le> 3"
  shows "days_before_year (a * 400 + b * 100 + c * 4 + e + 1) = 146097 * a + 36524 * b + 1461 * c + 365 * e"
proof -
  have "(a * 400 + b * 100 + c * 4 + e) div 4 = a * 100 + b * 25 + c" using assms by linarith
  moreover have "(a * 400 + b * 100 + c * 4 + e) div 100 = a * 4 + b" using assms by linarith
  moreover have "(a * 400 + b * 100 + c * 4 + e) div 400 = a" using assms by linarith
  ultimately show ?thesis by (simp add: days_before_year_def)
qed

lemma sum_month_lengths: "sum_list (month_lengths y) = (if leap y then 366 else 365)"
  by (simp add: month_lengths_def)

lemma last_day_ordinal: "ordinal y 12 31 = days_before_year y + (if leap y then 366 else 365)"
  by (simp add: ordinal_def month_lengths_def)

text \<open>The date of an ordinal has that ordinal.\<close>

lemma civil_ordinal:
  assumes "1 \<le> n" "civil_of_ordinal n = (y, m, d)"
  shows "ordinal y m d = n \<and> 1 \<le> m \<and> m \<le> 12 \<and> 1 \<le> d \<and> d \<le> month_lengths y ! nat (m - 1)"
proof -
  define k where "k = n - 1"
  define a k1 where "a = k div 146097" "k1 = k mod 146097"
  define b k2 where "b = k1 div 36524" "k2 = k1 mod 36524"
  define c k3 where "c = k2 div 1461" "k3 = k2 mod 1461"
  define e r where "e = k3 div 365" "r = k3 mod 365"
  note defs = k_def a_k1_def b_k2_def c_k3_def e_r_def
  define Y where "Y = a * 400 + b * 100 + c * 4 + e + 1"
  have k: "k = 146097 * a + k1" "k1 = 36524 * b + k2" "k2 = 1461 * c + k3" "k3 = 365 * e + r"
    unfolding defs by simp_all
  have bounds: "0 \<le> k1" "k1 < 146097" "0 \<le> k2" "k2 < 36524" "0 \<le> k3" "k3 < 1461" "0 \<le> r" "r < 365"
    unfolding defs by simp_all
  have pos: "0 \<le> b" "0 \<le> c" "0 \<le> e" "b \<le> 4" "c \<le> 24" "e \<le> 4" using k bounds by linarith+
  have civil: "civil_of_ordinal n = (if e = 4 \<or> b = 4 then (Y - 1, 12, 31)
      else case split_month (month_lengths Y) 1 r of (m, d) \<Rightarrow> (Y, m, d))"
    unfolding civil_of_ordinal_def Let_def defs Y_def ..
  consider "b = 4" | "b \<le> 3" "e = 4" | "b \<le> 3" "e \<le> 3" using pos by linarith
  then show ?thesis
  proof cases
    case 1
    then have z: "c = 0" "e = 0" "r = 0" using k bounds pos by linarith+
    then have "Y - 1 = (a * 4 + 4) * 100" "Y - 1 = a * 400 + 3 * 100 + 24 * 4 + 3 + 1" using 1 by (simp_all add: Y_def)
    moreover have "leap (Y - 1)" unfolding leap_def using z 1 by (simp add: Y_def)
    moreover have "days_before_year (a * 400 + 3 * 100 + 24 * 4 + 3 + 1) = 146097 * a + 36524 * 3 + 1461 * 24 + 365 * 3"
      by (rule days_before_year_parts) simp_all
    ultimately have "ordinal (Y - 1) 12 31 = n" using k z 1 by (simp add: last_day_ordinal k_def)
    then show ?thesis using civil 1 assms(2) by (auto simp: month_lengths_def)
  next
    case 2
    then have "r = 0" "c \<le> 23" using k bounds pos by linarith+
    have Y: "Y - 1 = a * 400 + b * 100 + c * 4 + 3 + 1" using 2 by (simp add: Y_def)
    have "Y - 1 = (a * 100 + b * 25 + c + 1) * 4" "Y - 1 = (c * 4 + 4) + (a * 4 + b) * 100" unfolding Y by simp_all
    then have "(Y - 1) mod 4 = 0" "(Y - 1) mod 100 = (c * 4 + 4) mod 100" by (simp, metis mod_mult_self1)
    moreover have "(c * 4 + 4) mod 100 = c * 4 + 4" using \<open>c \<le> 23\<close> pos by (intro mod_pos_pos_trivial) simp_all
    ultimately have "leap (Y - 1)" using pos by (simp add: leap_def)
    moreover have "days_before_year (a * 400 + b * 100 + c * 4 + 3 + 1) = 146097 * a + 36524 * b + 1461 * c + 365 * 3"
      by (rule days_before_year_parts) (use pos 2 in simp_all)
    ultimately have "ordinal (Y - 1) 12 31 = n" using k Y 2 \<open>r = 0\<close> by (simp add: last_day_ordinal k_def)
    then show ?thesis using civil 2 assms(2) by (auto simp: month_lengths_def)
  next
    case 3
    then obtain m0 d0 where s: "split_month (month_lengths Y) 1 r = (m0, d0)" by fastforce
    then have ymd: "y = Y" "m = m0" "d = d0" using civil 3 assms(2) by auto
    have "r < sum_list (month_lengths Y)" using bounds by (simp add: sum_month_lengths)
    from split_month_spec [OF bounds(7) this s] have *: "1 \<le> m" "nat (m - 1) < 12" "1 \<le> d"
        "d \<le> month_lengths Y ! nat (m - 1)" "sum_list (take (nat (m - 1)) (month_lengths Y)) + d = r + 1"
      unfolding ymd by (simp_all add: month_lengths_def)
    have "days_before_year Y = 146097 * a + 36524 * b + 1461 * c + 365 * e"
      unfolding Y_def by (rule days_before_year_parts) (use pos 3 in simp_all)
    then have "ordinal y m d = n" using * k ymd by (simp add: ordinal_def k_def)
    then show ?thesis using * ymd by auto
  qed
qed

section \<open>Times\<close>

definition epoch_ordinal :: int where
  "epoch_ordinal = 719163"

text \<open>
  \<open>datetime.fromtimestamp(ms / 1000, tz=utc)\<close> down to the hour; \<open>None\<close> outside the
  years 1 to 9999.
\<close>

definition civil_hour :: "int \<Rightarrow> (int \<times> int \<times> int \<times> int) option" where
  "civil_hour ms =
     (let n = ms div 86400000 + epoch_ordinal in
      if 1 \<le> n \<and> n \<le> 3652059
      then (case civil_of_ordinal n of (y, m, d) \<Rightarrow> Some (y, m, d, (ms mod 86400000) div 3600000))
      else None)"

text \<open>\<open>int(datetime(y, m, d, h, tzinfo=utc).timestamp() * 1000)\<close>; \<open>None\<close> is its \<open>ValueError\<close>.\<close>

definition hour_ms :: "int \<Rightarrow> int \<Rightarrow> int \<Rightarrow> int \<Rightarrow> int option" where
  "hour_ms y m d h =
     (if valid_date y m d \<and> 0 \<le> h \<and> h \<le> 23
      then Some ((ordinal y m d - epoch_ordinal) * 86400000 + h * 3600000) else None)"

lemma days_before_year_mono: "y \<le> z \<Longrightarrow> days_before_year y \<le> days_before_year z"
proof (cases "y = z")
  case False
  assume "y \<le> z"
  with False have lt: "y + 1 \<le> z" by simp
  define q4 q4' q100 q100' q400 q400' where "q4 = (y - 1) div 4" "q4' = (z - 1) div 4" "q100 = (y - 1) div 100"
    "q100' = (z - 1) div 100" "q400 = (y - 1) div 400" "q400' = (z - 1) div 400"
  note qs = this
  have "q4 \<le> q4'" "q400 \<le> q400'" unfolding qs using \<open>y \<le> z\<close> by (simp_all add: zdiv_mono1)
  moreover have "q100' - q100 \<le> (z - y) + 1" unfolding qs using \<open>y \<le> z\<close> by linarith
  ultimately show ?thesis unfolding days_before_year_def qs [symmetric] using lt by (simp add: algebra_simps)
qed simp

lemma month_day_bounds:
  assumes "1 \<le> m" "m \<le> 12" "1 \<le> d" "d \<le> month_lengths y ! nat (m - 1)"
  shows "0 < sum_list (take (nat (m - 1)) (month_lengths y)) + d"
    "sum_list (take (nat (m - 1)) (month_lengths y)) + d \<le> 366"
proof -
  have "m \<in> {1, 2, 3, 4, 5, 6, 7, 8, 9, 10, 11, 12}" using assms(1,2) unfolding insert_iff empty_iff by presburger
  then have "0 < sum_list (take (nat (m - 1)) (month_lengths y)) + d \<and>
      sum_list (take (nat (m - 1)) (month_lengths y)) + d \<le> 366"
    using assms(3,4) by (elim insertE emptyE) (auto simp: month_lengths_def split: if_splits)
  then show "0 < sum_list (take (nat (m - 1)) (month_lengths y)) + d"
    "sum_list (take (nat (m - 1)) (month_lengths y)) + d \<le> 366" by auto
qed

lemma civil_hour_roundtrip:
  assumes "civil_hour ms = Some (y, m, d, h)" "ms mod 3600000 = 0"
  shows "hour_ms y m d h = Some ms \<and> 1 \<le> y \<and> y \<le> 9999 \<and> 1 \<le> m \<and> m \<le> 12 \<and> 1 \<le> d \<and> d \<le> 31 \<and> 0 \<le> h \<and> h \<le> 23"
proof -
  let ?n = "ms div 86400000 + epoch_ordinal"
  from assms(1) have n: "1 \<le> ?n" "?n \<le> 3652059" "civil_of_ordinal ?n = (y, m, d)" "h = (ms mod 86400000) div 3600000"
    by (auto simp: civil_hour_def Let_def split: if_splits prod.splits)
  from civil_ordinal [OF n(1,3)] have o: "ordinal y m d = ?n" "1 \<le> m" "m \<le> 12" "1 \<le> d" "d \<le> month_lengths y ! nat (m - 1)" by auto
  note md = month_day_bounds [OF o(2-5)]
  have y1: "1 \<le> y"
  proof (rule ccontr)
    assume "\<not> 1 \<le> y"
    then have "days_before_year y \<le> days_before_year 0" by (intro days_before_year_mono) simp
    with o(1) n(1) md(2) show False by (simp add: ordinal_def days_before_year_def)
  qed
  have y2: "y \<le> 9999"
  proof (rule ccontr)
    assume "\<not> y \<le> 9999"
    then have "days_before_year 10000 \<le> days_before_year y" by (intro days_before_year_mono) simp
    with o(1) n(2) md(1) show False by (simp add: ordinal_def days_before_year_def)
  qed
  have h: "0 \<le> h" "h \<le> 23" unfolding n(4) by linarith+
  have "ms mod 86400000 mod 3600000 = 0" using assms(2) by (simp add: mod_mod_cancel)
  then have "ms mod 86400000 = h * 3600000" unfolding n(4) using div_mult_mod_eq [of "ms mod 86400000" 3600000] by simp
  then have "ms div 86400000 * 86400000 + h * 3600000 = ms" using div_mult_mod_eq [of ms 86400000] by simp
  then have "(ordinal y m d - epoch_ordinal) * 86400000 + h * 3600000 = ms" unfolding o(1) by simp
  moreover have "d \<le> 31"
  proof -
    have "nat (m - 1) < 12" using o(3) by linarith
    then have "month_lengths y ! nat (m - 1) \<in> set (month_lengths y)" by (intro nth_mem) (simp add: month_lengths_def)
    then show ?thesis using o(5) by (auto simp: month_lengths_def split: if_splits)
  qed
  ultimately show ?thesis using y1 y2 h o by (simp add: hour_ms_def valid_date_def)
qed

section \<open>Padded numbers\<close>

text \<open>\<open>f"{k:0nd}"\<close> of a number that is not negative.\<close>

definition pad :: "nat \<Rightarrow> nat \<Rightarrow> string" where
  "pad n k = replicate (n - length (str_nat k)) CHR ''0'' @ str_nat k"

lemma foldl_zeros: "foldl (\<lambda>n c. 10 * n + digit_value c) 0 (replicate j CHR ''0'') = 0"
  by (induction j) (simp_all add: digit_value_def)

lemma nat_of_digits_pad [simp]: "nat_of_digits (pad n k) = k"
  using nat_of_digits_str_nat [of k] by (simp add: nat_of_digits_def pad_def foldl_zeros)

lemma pad_digits: "list_all is_digit (pad n k)"
  using str_nat_digits [of k] by (auto simp: pad_def list_all_iff is_digit_def)

lemma pad_isdigit [simp]: "str_isdigit (pad n k)"
  using pad_digits [of n k] by (simp add: str_isdigit_def pad_def)

end
