(* ===== verification/Archive.thy ===== *)
theory Archive
  imports Notifications Civil_Time
begin

text \<open>
  \<open>Archiver\<close> and \<open>RetentionManager\<close> (\<open>src/src/sentinel/storage/archiver.py\<close>,
  \<open>retention.py\<close>): hourly files written from the hot table, and the removal of old rows and
  files. A file of the archive is known by its path below the archive directory; directories are
  not modelled apart from the files in them. Failures of the disk are not modelled; a time outside
  the calendar and a path that names no valid date raise.
\<close>

section \<open>Archive paths\<close>

definition hour_path :: "string \<Rightarrow> int \<Rightarrow> string list option" where
  "hour_path suffix hour_start =
     map_option (\<lambda>(y, m, d, h). [pad 4 (nat y), pad 2 (nat m), pad 2 (nat d), pad 2 (nat h) @ suffix]) (civil_hour hour_start)"

abbreviation parquet_path :: "int \<Rightarrow> string list option" where
  "parquet_path \<equiv> hour_path ''.parquet''"

abbreviation snapshot_path :: "int \<Rightarrow> string list option" where
  "snapshot_path \<equiv> hour_path ''.markets.json''"

text \<open>The outer \<open>None\<close> is a \<open>ValueError\<close>, the inner one a path that names no hour.\<close>

definition parse_archive_hour_ms :: "string list \<Rightarrow> int option option" where
  "parse_archive_hour_ms parts = (case parts of
       [year, month, day, filename] \<Rightarrow>
         (let hour_token = takeWhile (\<lambda>c. c \<noteq> CHR ''.'') filename; num = (\<lambda>s. int (nat_of_digits s)) in
          if str_isdigit year \<and> str_isdigit month \<and> str_isdigit day \<and> str_isdigit hour_token
          then map_option Some (hour_ms (num year) (num month) (num day) (num hour_token))
          else Some None)
     | _ \<Rightarrow> Some None)"

lemma takeWhile_pad: "takeWhile (\<lambda>c. c \<noteq> CHR ''.'') (pad n k @ CHR ''.'' # s) = pad n k"
proof -
  have "\<forall>c\<in>set (pad n k). c \<noteq> CHR ''.''"
    using pad_digits [of n k] by (auto simp: list_all_iff is_digit_def)
  then show ?thesis by (simp add: takeWhile_tail)
qed

lemma hour_path_parse:
  assumes "hour_path (CHR ''.'' # s) t = Some p" "t mod 3600000 = 0"
  shows "parse_archive_hour_ms p = Some (Some t)"
proof -
  from assms(1) obtain y m d h where c: "civil_hour t = Some (y, m, d, h)"
      and p: "p = [pad 4 (nat y), pad 2 (nat m), pad 2 (nat d), pad 2 (nat h) @ CHR ''.'' # s]"
    by (auto simp: hour_path_def)
  from civil_hour_roundtrip [OF c assms(2)] show ?thesis
    by (simp add: p parse_archive_hour_ms_def Let_def takeWhile_pad)
qed

lemma hour_path_range:
  "0 \<le> t \<Longrightarrow> t < 253402300800000 \<Longrightarrow> \<exists>p. hour_path s t = Some p"
proof -
  assume "0 \<le> t" "t < 253402300800000"
  then have "0 \<le> t div 86400000" "t div 86400000 < 2932897"
    by (simp_all add: pos_imp_zdiv_nonneg_iff div_less_iff_less_mult)
  then show ?thesis by (simp add: hour_path_def civil_hour_def epoch_ordinal_def Let_def split: prod.split)
qed

lemma path_kind: "parquet_path t = Some p \<Longrightarrow> snapshot_path t' \<noteq> Some p"
proof
  assume "parquet_path t = Some p" "snapshot_path t' = Some p"
  then obtain h h' where "pad 2 h @ ''.parquet'' = pad 2 h' @ ''.markets.json''" by (auto simp: hour_path_def)
  then have "last (pad 2 h @ ''.parquet'') = last (pad 2 h' @ ''.markets.json'')" by (rule arg_cong)
  then show False by simp
qed

text \<open>
  C33 (roundtrip): the retention reads from a path the hour for which the archiver wrote it, for
  both kinds of files of the archive and every full hour of the calendar.
\<close>

theorem archive_path_roundtrip:
  assumes "hour_path suffix t = Some p" "t mod 3600000 = 0" "suffix \<in> {''.parquet'', ''.markets.json''}"
  shows "parse_archive_hour_ms p = Some (Some t)"
  using assms hour_path_parse by auto

section \<open>Archiver\<close>

datatype archive_file = Parquet "tick_row list" | Market_Snapshot "market_metadata list"

type_synonym archive = "(string list \<times> archive_file) list"

record archiver =
  ar_store :: store
  archive_files :: archive
  ar_metrics :: metrics

definition write_parquet :: "int \<Rightarrow> tick_row list \<Rightarrow> archive \<Rightarrow> archive option" where
  "write_parquet hour_start rows fs = map_option (\<lambda>p. AList.update p (Parquet rows) fs) (parquet_path hour_start)"

definition write_market_snapshot :: "int \<Rightarrow> store \<Rightarrow> archive \<Rightarrow> archive option" where
  "write_market_snapshot hour_start st fs =
     map_option (\<lambda>p. AList.update p (Market_Snapshot (map snd (list_tracked_markets st))) fs) (snapshot_path hour_start)"

text \<open>The loop over the hours; \<open>False\<close> where it raises, with the files written so far.\<close>

fun archive_hours :: "store \<Rightarrow> int list \<Rightarrow> archive \<Rightarrow> bool \<times> archive" where
  "archive_hours st [] fs = (True, fs)"
| "archive_hours st (hour # hours) fs =
     (let rows = fetch_price_ticks_between hour (hour + 3600000) st in
      if rows = [] then archive_hours st hours fs
      else case write_parquet hour rows fs of
          None \<Rightarrow> (False, fs)
        | Some fs1 \<Rightarrow>
            (case write_market_snapshot hour st fs1 of
               None \<Rightarrow> (False, fs1)
             | Some fs2 \<Rightarrow> archive_hours st hours fs2))"

definition archive_once :: "storage_config \<Rightarrow> int \<Rightarrow> archiver \<Rightarrow> bool \<times> archiver" where
  "archive_once cfg now a =
     (let current_hour_start = (now div 3600000) * 3600000 in
      case archive_hours (ar_store a) (list_archivable_hours current_hour_start (ar_store a)) (archive_files a) of
        (False, fs) \<Rightarrow> (False, a\<lparr>archive_files := fs\<rparr>)
      | (True, fs) \<Rightarrow>
          (True, a\<lparr>ar_store := delete_price_ticks_before (now - hot_retention_hours cfg * 3600000) (ar_store a),
                   archive_files := fs, ar_metrics := (ar_metrics a)\<lparr>archive_lag_sec := 0\<rparr>\<rparr>))"

section \<open>What the archive holds\<close>

definition dated :: "store \<Rightarrow> bool" where
  "dated st \<longleftrightarrow> (\<forall>r\<in>set (price_ticks st). 0 \<le> tk_ts r \<and> tk_ts r < 253402300800000)"

lemma hour_of_nonneg:
  assumes "0 \<le> t"
  shows "hour_of t \<le> t" "t < hour_of t + 3600000" "hour_of t mod 3600000 = 0" "0 \<le> hour_of t"
  using assms unfolding hour_of_def sql_div_def by (simp_all add: pos_imp_zdiv_nonneg_iff)

lemma hour_of_unique: "0 \<le> t \<Longrightarrow> h mod 3600000 = 0 \<Longrightarrow> h \<le> t \<Longrightarrow> t < h + 3600000 \<Longrightarrow> hour_of t = h"
proof -
  assume *: "0 \<le> t" "h mod 3600000 = 0" "h \<le> t" "t < h + 3600000"
  then obtain q where q: "h = 3600000 * q" by (auto simp: mod_eq_0_iff_dvd)
  have "t div 3600000 = q" by (rule int_div_pos_eq [of _ _ _ "t - h"]) (use * q in auto)
  with * q show ?thesis by (simp add: hour_of_def sql_div_def)
qed

lemma fetch_in:
  "r \<in> set (fetch_price_ticks_between a b st) \<longleftrightarrow> r \<in> set (price_ticks st) \<and> a \<le> tk_ts r \<and> tk_ts r < b"
  by (auto simp: fetch_price_ticks_between_def)

lemma archivable_iff:
  "h \<in> set (list_archivable_hours c st) \<longleftrightarrow> (\<exists>r\<in>set (price_ticks st). tk_ts r < c \<and> hour_of (tk_ts r) = h)"
  by (auto simp: list_archivable_hours_def)

lemma archivable_distinct: "distinct (list_archivable_hours c st)"
  by (simp add: list_archivable_hours_def)

text \<open>The loop gives every hour that has rows its file, and touches the files of no other hour.\<close>

lemma archive_hours_spec:
  assumes "distinct hours" "\<forall>h\<in>set hours. h mod 3600000 = 0 \<and> 0 \<le> h \<and> h < 253402300800000"
  shows "\<exists>fs'. archive_hours st hours fs = (True, fs') \<and>
    (\<forall>h p. h mod 3600000 = 0 \<longrightarrow> parquet_path h = Some p \<longrightarrow>
       map_of fs' p = (if h \<in> set hours \<and> fetch_price_ticks_between h (h + 3600000) st \<noteq> []
         then Some (Parquet (fetch_price_ticks_between h (h + 3600000) st)) else map_of fs p))"
  using assms
proof (induction hours arbitrary: fs)
  case Nil
  then show ?case by simp
next
  case (Cons h0 hours)
  let ?rows = "\<lambda>h. fetch_price_ticks_between h (h + 3600000) st"
  show ?case
  proof (cases "?rows h0 = []")
    case True
    with Cons.IH [of fs] Cons.prems show ?thesis by fastforce
  next
    case False
    obtain p0 where p0: "parquet_path h0 = Some p0" using hour_path_range [of h0] Cons.prems(2) by auto
    obtain s0 where s0: "snapshot_path h0 = Some s0" using hour_path_range [of h0] Cons.prems(2) by auto
    let ?fs = "AList.update s0 (Market_Snapshot (map snd (list_tracked_markets st))) (AList.update p0 (Parquet (?rows h0)) fs)"
    from Cons.IH [of ?fs] Cons.prems obtain fs' where fs': "archive_hours st hours ?fs = (True, fs')"
        "\<And>h p. h mod 3600000 = 0 \<Longrightarrow> parquet_path h = Some p \<Longrightarrow>
           map_of fs' p = (if h \<in> set hours \<and> ?rows h \<noteq> [] then Some (Parquet (?rows h)) else map_of ?fs p)" by auto
    have run: "archive_hours st (h0 # hours) fs = (True, fs')"
      using False p0 s0 fs'(1) by (simp add: write_parquet_def write_market_snapshot_def Let_def)
    have "map_of fs' p = (if h \<in> set (h0 # hours) \<and> ?rows h \<noteq> [] then Some (Parquet (?rows h)) else map_of fs p)"
      if h: "h mod 3600000 = 0" "parquet_path h = Some p" for h p
    proof (cases "h = h0")
      case True
      then have "p = p0" "h \<notin> set hours" using h(2) p0 Cons.prems(1) by auto
      moreover have "p0 \<noteq> s0" using path_kind [OF p0, of h0] s0 by auto
      ultimately show ?thesis using fs'(2) [OF h] True False by simp
    next
      case neq: False
      have "p \<noteq> p0"
      proof
        assume "p = p0"
        then have "parse_archive_hour_ms p0 = Some (Some h)"
          by (intro hour_path_parse [of "''parquet''"]) (use h in simp_all)
        moreover have "parse_archive_hour_ms p0 = Some (Some h0)"
          by (intro hour_path_parse [of "''parquet''"]) (use p0 Cons.prems(2) in simp_all)
        ultimately show False using neq by simp
      qed
      moreover have "p \<noteq> s0" using path_kind [OF h(2), of h0] s0 by auto
      ultimately show ?thesis using fs'(2) [OF h] neq by simp
    qed
    with run show ?thesis by blast
  qed
qed

lemma archive_once_spec:
  assumes "dated (ar_store a)"
  shows "\<exists>fs'. archive_once cfg now a =
      (True, a\<lparr>ar_store := delete_price_ticks_before (now - hot_retention_hours cfg * 3600000) (ar_store a),
        archive_files := fs', ar_metrics := (ar_metrics a)\<lparr>archive_lag_sec := 0\<rparr>\<rparr>) \<and>
    (\<forall>r\<in>set (price_ticks (ar_store a)). tk_ts r < (now div 3600000) * 3600000 \<longrightarrow>
       (\<exists>p. parquet_path (hour_of (tk_ts r)) = Some p \<and>
          map_of fs' p = Some (Parquet (fetch_price_ticks_between (hour_of (tk_ts r)) (hour_of (tk_ts r) + 3600000) (ar_store a)))))"
proof -
  let ?st = "ar_store a" and ?c = "(now div 3600000) * 3600000"
  have range: "h mod 3600000 = 0 \<and> 0 \<le> h \<and> h < 253402300800000" if "h \<in> set (list_archivable_hours ?c ?st)" for h
  proof -
    from that obtain r where r: "r \<in> set (price_ticks ?st)" "h = hour_of (tk_ts r)" by (auto simp: archivable_iff)
    with assms have "0 \<le> tk_ts r" "tk_ts r < 253402300800000" by (auto simp: dated_def)
    with hour_of_nonneg [of "tk_ts r"] r(2) show ?thesis by auto
  qed
  with archive_hours_spec [OF archivable_distinct, of ?c ?st ?st "archive_files a"] obtain fs' where
    fs': "archive_hours ?st (list_archivable_hours ?c ?st) (archive_files a) = (True, fs')"
      "\<And>h p. h mod 3600000 = 0 \<Longrightarrow> parquet_path h = Some p \<Longrightarrow> h \<in> set (list_archivable_hours ?c ?st) \<Longrightarrow>
         fetch_price_ticks_between h (h + 3600000) ?st \<noteq> [] \<Longrightarrow> map_of fs' p = Some (Parquet (fetch_price_ticks_between h (h + 3600000) ?st))"
    by (metis (no_types, lifting))
  have "\<exists>p. parquet_path (hour_of (tk_ts r)) = Some p \<and>
      map_of fs' p = Some (Parquet (fetch_price_ticks_between (hour_of (tk_ts r)) (hour_of (tk_ts r) + 3600000) ?st))"
    if r: "r \<in> set (price_ticks ?st)" "tk_ts r < ?c" for r
  proof -
    let ?h = "hour_of (tk_ts r)"
    have h: "?h \<in> set (list_archivable_hours ?c ?st)" using r by (auto simp: archivable_iff)
    have ts: "0 \<le> tk_ts r" using assms r(1) by (auto simp: dated_def)
    have "r \<in> set (fetch_price_ticks_between ?h (?h + 3600000) ?st)" using hour_of_nonneg [OF ts] r(1) by (simp add: fetch_in)
    moreover obtain p where "parquet_path ?h = Some p" using hour_path_range [of ?h] range [OF h] by auto
    ultimately show ?thesis using fs'(2) [of ?h p] h range [OF h] by (metis empty_iff list.set(1))
  qed
  with fs'(1) show ?thesis by (auto simp: archive_once_def Let_def)
qed

text \<open>The rows archived for a tick's hour are the rows of that hour.\<close>

lemma fetched_hour:
  assumes "dated st" and "r \<in> set (price_ticks st)"
  shows "set (fetch_price_ticks_between (hour_of (tk_ts r)) (hour_of (tk_ts r) + 3600000) st) =
    {q \<in> set (price_ticks st). hour_of (tk_ts q) = hour_of (tk_ts r)}"
proof (intro set_eqI iffI)
  have nn: "0 \<le> tk_ts q" if "q \<in> set (price_ticks st)" for q using assms(1) that by (auto simp: dated_def)
  fix q
  {
    assume "q \<in> set (fetch_price_ticks_between (hour_of (tk_ts r)) (hour_of (tk_ts r) + 3600000) st)"
    then have q: "q \<in> set (price_ticks st)" "hour_of (tk_ts r) \<le> tk_ts q" "tk_ts q < hour_of (tk_ts r) + 3600000"
      by (simp_all add: fetch_in)
    with hour_of_unique [OF nn [OF q(1)] hour_of_nonneg(3) [OF nn [OF assms(2)]]]
    show "q \<in> {q \<in> set (price_ticks st). hour_of (tk_ts q) = hour_of (tk_ts r)}" by simp
  next
    assume "q \<in> {q \<in> set (price_ticks st). hour_of (tk_ts q) = hour_of (tk_ts r)}"
    then show "q \<in> set (fetch_price_ticks_between (hour_of (tk_ts r)) (hour_of (tk_ts r) + 3600000) st)"
      using hour_of_nonneg [of "tk_ts q"] nn [of q] by (simp add: fetch_in)
  }
qed

text \<open>
  C32 (safety): a tick is archived before it is deleted. When at least one hour is kept hot, a run of
  the archiver on ticks of the years 1970 to 9999 succeeds; every tick it removes from the table,
  and every other tick of a past hour, is afterwards in the file of its hour, together with all
  ticks that the table held of that hour; and every tick it does not archive stays in the table.
\<close>

theorem archived_before_deleted:
  assumes "dated (ar_store a)" "1 \<le> hot_retention_hours cfg"
  shows "\<exists>a'. archive_once cfg now a = (True, a') \<and>
    (\<forall>r\<in>set (price_ticks (ar_store a)).
       (tk_ts r < (now div 3600000) * 3600000 \<longrightarrow> (\<exists>p rows. parquet_path (hour_of (tk_ts r)) = Some p \<and>
          map_of (archive_files a') p = Some (Parquet rows) \<and> r \<in> set rows \<and>
          set rows = {q \<in> set (price_ticks (ar_store a)). hour_of (tk_ts q) = hour_of (tk_ts r)})) \<and>
       (r \<notin> set (price_ticks (ar_store a')) \<longrightarrow> tk_ts r < (now div 3600000) * 3600000))"
proof -
  let ?st = "ar_store a"
  from archive_once_spec [OF assms(1), of cfg now] obtain fs' where
    run: "archive_once cfg now a = (True, a\<lparr>ar_store := delete_price_ticks_before (now - hot_retention_hours cfg * 3600000) ?st,
        archive_files := fs', ar_metrics := (ar_metrics a)\<lparr>archive_lag_sec := 0\<rparr>\<rparr>)" and
    files: "\<And>r. r \<in> set (price_ticks ?st) \<Longrightarrow> tk_ts r < (now div 3600000) * 3600000 \<Longrightarrow>
       \<exists>p. parquet_path (hour_of (tk_ts r)) = Some p \<and>
          map_of fs' p = Some (Parquet (fetch_price_ticks_between (hour_of (tk_ts r)) (hour_of (tk_ts r) + 3600000) ?st))"
    by blast
  note rows = fetched_hour [OF assms(1)]
  have "now - hot_retention_hours cfg * 3600000 \<le> (now div 3600000) * 3600000"
    using assms(2) minus_mod_eq_div_mult [of now 3600000] pos_mod_bound [of 3600000 now] by linarith
  then have gone: "tk_ts r < (now div 3600000) * 3600000"
    if "r \<in> set (price_ticks ?st)" "r \<notin> set (price_ticks (delete_price_ticks_before (now - hot_retention_hours cfg * 3600000) ?st))" for r
    using that by (simp add: delete_price_ticks_before_def)
  have kept: "\<exists>p rows. parquet_path (hour_of (tk_ts r)) = Some p \<and> map_of fs' p = Some (Parquet rows) \<and> r \<in> set rows \<and>
      set rows = {q \<in> set (price_ticks ?st). hour_of (tk_ts q) = hour_of (tk_ts r)}"
    if "r \<in> set (price_ticks ?st)" "tk_ts r < (now div 3600000) * 3600000" for r
  proof -
    from files [OF that] obtain p where "parquet_path (hour_of (tk_ts r)) = Some p"
      "map_of fs' p = Some (Parquet (fetch_price_ticks_between (hour_of (tk_ts r)) (hour_of (tk_ts r) + 3600000) ?st))" by blast
    moreover have "r \<in> set (fetch_price_ticks_between (hour_of (tk_ts r)) (hour_of (tk_ts r) + 3600000) ?st)"
      using rows [OF that(1)] that(1) by simp
    ultimately show ?thesis using rows [OF that(1)] by blast
  qed
  show ?thesis
    by (rule exI, rule conjI, rule run) (use gone kept in simp)
qed

text \<open>
  The next run can lose archived ticks. When the hot retention ends inside an hour, the
  ticks of that hour before the cutoff leave the table, and the next run that sees a later tick of
  the hour rewrites the hour's file from what the table still holds: a tick deleted by the first
  run is then neither in the table nor in the file of its hour.
\<close>

theorem archive_rewrite_loses_ticks:
  assumes "dated (ar_store a)" "archive_once cfg now a = (True, a1)" "archive_once cfg now' a1 = (True, a2)"
    and "r \<in> set (price_ticks (ar_store a))" "q \<in> set (price_ticks (ar_store a))" "hour_of (tk_ts q) = hour_of (tk_ts r)"
    and "tk_ts r < now - hot_retention_hours cfg * 3600000" "now - hot_retention_hours cfg * 3600000 \<le> tk_ts q"
    and "tk_ts q < (now' div 3600000) * 3600000"
  shows "r \<notin> set (price_ticks (ar_store a2)) \<and>
    (\<exists>p rows. parquet_path (hour_of (tk_ts r)) = Some p \<and> map_of (archive_files a2) p = Some (Parquet rows) \<and> r \<notin> set rows)"
proof -
  from archive_once_spec [OF assms(1), of cfg now] assms(2)
  have st1: "ar_store a1 = delete_price_ticks_before (now - hot_retention_hours cfg * 3600000) (ar_store a)" by auto
  then have d1: "dated (ar_store a1)" "q \<in> set (price_ticks (ar_store a1))" "r \<notin> set (price_ticks (ar_store a1))"
    using assms(1,5,7,8) by (auto simp: dated_def delete_price_ticks_before_def)
  from archive_once_spec [OF d1(1), of cfg now'] obtain fs' where
    fs: "archive_once cfg now' a1 = (True, a1\<lparr>ar_store := delete_price_ticks_before (now' - hot_retention_hours cfg * 3600000) (ar_store a1),
        archive_files := fs', ar_metrics := (ar_metrics a1)\<lparr>archive_lag_sec := 0\<rparr>\<rparr>)"
      "\<forall>r\<in>set (price_ticks (ar_store a1)). tk_ts r < (now' div 3600000) * 3600000 \<longrightarrow>
       (\<exists>p. parquet_path (hour_of (tk_ts r)) = Some p \<and>
          map_of fs' p = Some (Parquet (fetch_price_ticks_between (hour_of (tk_ts r)) (hour_of (tk_ts r) + 3600000) (ar_store a1))))"
    by blast
  from fs(1) assms(3) have a2: "archive_files a2 = fs'" "set (price_ticks (ar_store a2)) \<subseteq> set (price_ticks (ar_store a1))"
    by (auto simp: delete_price_ticks_before_def)
  from fs(2) d1(2) assms(6,9) obtain p where "parquet_path (hour_of (tk_ts r)) = Some p"
      "map_of fs' p = Some (Parquet (fetch_price_ticks_between (hour_of (tk_ts r)) (hour_of (tk_ts r) + 3600000) (ar_store a1)))"
    by auto
  moreover have "r \<notin> set (fetch_price_ticks_between (hour_of (tk_ts r)) (hour_of (tk_ts r) + 3600000) (ar_store a1))"
    using d1(3) by (simp add: fetch_in)
  ultimately show ?thesis using a2 d1(3) by blast
qed

section \<open>Retention\<close>

text \<open>\<open>Path(name).suffix\<close> and \<open>stem\<close>.\<close>

definition py_suffix :: "string \<Rightarrow> string" where
  "py_suffix name =
     (let tail = takeWhile (\<lambda>c. c \<noteq> CHR ''.'') (rev name) in
      if tail \<noteq> [] \<and> length tail + 1 < length name then CHR ''.'' # rev tail else [])"

definition py_stem :: "string \<Rightarrow> string" where
  "py_stem name = take (length name - length (py_suffix name)) name"

definition ends_with :: "string \<Rightarrow> string \<Rightarrow> bool" where
  "ends_with suf s \<longleftrightarrow> (length suf \<le> length s \<and> drop (length s - length suf) s = suf)"

text \<open>The modification time in milliseconds; \<open>None\<close> where \<open>stat\<close> raises.\<close>

definition parse_alert_ts_ms :: "string \<Rightarrow> int option \<Rightarrow> int option" where
  "parse_alert_ts_ms name mtime =
     (let prefix = takeWhile (\<lambda>c. c \<noteq> CHR ''_'') (py_stem name) in
      if str_isdigit prefix then Some (int (nat_of_digits prefix)) else mtime)"

type_synonym alert_dir = "(string \<times> int option) list"

definition old_alert_file :: "int \<Rightarrow> string \<times> int option \<Rightarrow> bool" where
  "old_alert_file cutoff f = (case f of (name, mtime) \<Rightarrow>
     ends_with ''.json'' name \<and> (case parse_alert_ts_ms name mtime of None \<Rightarrow> False | Some t \<Rightarrow> t < cutoff))"

definition prune_alert_files :: "int \<Rightarrow> alert_dir \<Rightarrow> nat \<times> alert_dir" where
  "prune_alert_files cutoff fs =
     (length (filter (old_alert_file cutoff) fs), filter (\<lambda>f. \<not> old_alert_file cutoff f) fs)"

text \<open>The walk stops at the first path whose date is not valid; \<open>None\<close> instead of a count.\<close>

fun prune_archive_files :: "int \<Rightarrow> archive \<Rightarrow> nat option \<times> archive" where
  "prune_archive_files cutoff [] = (Some 0, [])"
| "prune_archive_files cutoff ((p, f) # fs) =
     (if py_suffix (last p) \<notin> {''.parquet'', ''.json''}
      then map_prod id ((#) (p, f)) (prune_archive_files cutoff fs)
      else case parse_archive_hour_ms p of
          None \<Rightarrow> (None, (p, f) # fs)
        | Some None \<Rightarrow> map_prod id ((#) (p, f)) (prune_archive_files cutoff fs)
        | Some (Some t) \<Rightarrow>
            if t < cutoff then map_prod (map_option Suc) id (prune_archive_files cutoff fs)
            else map_prod id ((#) (p, f)) (prune_archive_files cutoff fs))"

record retention =
  rt_store :: store
  alert_files :: alert_dir
  rt_archive :: archive
  rt_metrics :: metrics

definition days_ms :: "int \<Rightarrow> int" where
  "days_ms d = d * 86400000"

definition prune_once :: "storage_config \<Rightarrow> notifications_config \<Rightarrow> int \<Rightarrow> string \<Rightarrow> retention \<Rightarrow> bool \<times> retention" where
  "prune_once cfg ncfg now now_iso r0 =
     (let r1 = (if shift_event_retention_days cfg > 0
                then case delete_shift_events_before (now - days_ms (shift_event_retention_days cfg)) (rt_store r0) of (n, st) \<Rightarrow>
                  r0\<lparr>rt_store := st, rt_metrics := increment ''retention_deleted_shift_events'' (int n) (rt_metrics r0)\<rparr>
                else r0);
          r2 = (if json_file_retention_days ncfg > 0
                then case prune_alert_files (now - days_ms (json_file_retention_days ncfg)) (alert_files r1) of (n, fs) \<Rightarrow>
                  r1\<lparr>alert_files := fs, rt_metrics := increment ''retention_deleted_alert_files'' (int n) (rt_metrics r1)\<rparr>
                else r1);
          mark = (\<lambda>r. r\<lparr>rt_metrics := mark_retention_run now_iso (rt_metrics r)\<rparr>) in
      if archive_retention_days cfg > 0
      then case prune_archive_files (now - days_ms (archive_retention_days cfg)) (rt_archive r2) of
          (None, fs) \<Rightarrow> (False, r2\<lparr>rt_archive := fs\<rparr>)
        | (Some n, fs) \<Rightarrow>
            (True, mark (r2\<lparr>rt_archive := fs, rt_metrics := increment ''retention_deleted_archive_files'' (int n) (rt_metrics r2)\<rparr>))
      else (True, mark r2))"

section \<open>What retention keeps\<close>

lemma takeWhile_rev_dot:
  "CHR ''.'' \<notin> set suf \<Longrightarrow> takeWhile (\<lambda>c. c \<noteq> CHR ''.'') (rev (s @ CHR ''.'' # suf)) = rev suf"
  by (simp add: takeWhile_tail) (metis (mono_tags, lifting) set_rev takeWhile_tail takeWhile_eq_all_conv append_Nil2)

lemma py_suffix_dot: "s \<noteq> [] \<Longrightarrow> suf \<noteq> [] \<Longrightarrow> CHR ''.'' \<notin> set suf \<Longrightarrow> py_suffix (s @ CHR ''.'' # suf) = CHR ''.'' # suf"
  using takeWhile_rev_dot [of suf s] by (simp add: py_suffix_def Let_def)

lemma parse_alert_filename:
  assumes "0 \<le> alert_timestamp_ms a"
  shows "ends_with ''.json'' (alert_filename SL a asset)" "parse_alert_ts_ms (alert_filename SL a asset) mtime = Some (alert_timestamp_ms a)"
proof -
  let ?s = "str_nat (nat (alert_timestamp_ms a))" and ?rest = "sstr SL asset"
  have name: "alert_filename SL a asset = (?s @ ''_'' @ ?rest) @ CHR ''.'' # ''json''"
    using assms by (simp add: alert_filename_def str_int_def)
  show "ends_with ''.json'' (alert_filename SL a asset)" unfolding name by (simp add: ends_with_def)
  have "py_suffix (alert_filename SL a asset) = ''.json''"
    unfolding name by (subst py_suffix_dot) simp_all
  then have stem: "py_stem (alert_filename SL a asset) = ?s @ CHR ''_'' # ?rest" unfolding py_stem_def by (simp add: name)
  have "\<forall>c\<in>set ?s. c \<noteq> CHR ''_''"
    using str_nat_digits [of "nat (alert_timestamp_ms a)"] by (auto simp: list_all_iff is_digit_def)
  then have "takeWhile (\<lambda>c. c \<noteq> CHR ''_'') (py_stem (alert_filename SL a asset)) = ?s"
    unfolding stem by (simp add: takeWhile_tail)
  then show "parse_alert_ts_ms (alert_filename SL a asset) mtime = Some (alert_timestamp_ms a)"
    using assms by (simp add: parse_alert_ts_ms_def str_nat_isdigit nat_of_digits_str_nat)
qed

text \<open>The paths of an hour in the archive.\<close>

definition archive_path :: "string list \<Rightarrow> int \<Rightarrow> bool" where
  "archive_path p t \<longleftrightarrow> t mod 3600000 = 0 \<and> (parquet_path t = Some p \<or> snapshot_path t = Some p)"

definition archive_written :: "archive \<Rightarrow> bool" where
  "archive_written fs \<longleftrightarrow> (\<forall>p\<in>set (map fst fs). \<exists>t. archive_path p t)"

lemma archive_path_parse: "archive_path p t \<Longrightarrow> parse_archive_hour_ms p = Some (Some t)"
  unfolding archive_path_def using hour_path_parse [of "''parquet''" t p] hour_path_parse [of "''markets.json''" t p] by auto

lemma archive_path_suffix: "archive_path p t \<Longrightarrow> py_suffix (last p) \<in> {''.parquet'', ''.json''}"
proof -
  assume "archive_path p t"
  then obtain h where "last p = pad 2 h @ CHR ''.'' # ''parquet'' \<or> last p = (pad 2 h @ ''.markets'') @ CHR ''.'' # ''json''"
    by (auto simp: archive_path_def hour_path_def)
  moreover have "pad 2 h \<noteq> []" by (simp add: pad_def)
  ultimately show ?thesis
    using py_suffix_dot [of "pad 2 h" "''parquet''"] py_suffix_dot [of "pad 2 h @ ''.markets''" "''json''"] by auto
qed

lemma prune_archive_spec:
  assumes "archive_written fs"
  shows "\<exists>n. prune_archive_files cutoff fs =
    (Some n, filter (\<lambda>(p, f). case parse_archive_hour_ms p of Some (Some t) \<Rightarrow> cutoff \<le> t | _ \<Rightarrow> True) fs)"
  using assms
proof (induction fs)
  case Nil
  then show ?case by simp
next
  case (Cons pf fs)
  obtain p f where pf: "pf = (p, f)" by fastforce
  from Cons.prems pf obtain t where t: "archive_path p t" by (auto simp: archive_written_def)
  from Cons obtain n where "prune_archive_files cutoff fs =
      (Some n, filter (\<lambda>(p, f). case parse_archive_hour_ms p of Some (Some t) \<Rightarrow> cutoff \<le> t | _ \<Rightarrow> True) fs)"
    by (auto simp: archive_written_def)
  then show ?case using pf archive_path_parse [OF t] archive_path_suffix [OF t] by (auto simp: not_less)
qed

text \<open>
  Retention removes exactly what is too old. On an archive that the archiver
  wrote, a run with all three limits set succeeds. Of the shift events, of the archive's files and
  of the alert files that the file notifier wrote it keeps exactly those whose time, for files the
  time they were named after, is not before the respective cutoff.
\<close>

theorem retention_exact:
  assumes "0 < shift_event_retention_days cfg" "0 < json_file_retention_days ncfg" "0 < archive_retention_days cfg"
    and "archive_written (rt_archive r)"
  shows "\<exists>r'. prune_once cfg ncfg now now_iso r = (True, r') \<and>
    shift_events (rt_store r') = filter (\<lambda>e. now - shift_event_retention_days cfg * 86400000 \<le> se_ts_ms e) (shift_events (rt_store r)) \<and>
    (\<forall>SL a asset mtime. 0 \<le> alert_timestamp_ms a \<longrightarrow>
       ((alert_filename SL a asset, mtime) \<in> set (alert_files r') \<longleftrightarrow>
        (alert_filename SL a asset, mtime) \<in> set (alert_files r) \<and> now - json_file_retention_days ncfg * 86400000 \<le> alert_timestamp_ms a)) \<and>
    (\<forall>p t f. archive_path p t \<longrightarrow>
       ((p, f) \<in> set (rt_archive r') \<longleftrightarrow> (p, f) \<in> set (rt_archive r) \<and> now - archive_retention_days cfg * 86400000 \<le> t))"
proof -
  let ?keep = "\<lambda>(p, f). case parse_archive_hour_ms p of Some (Some t) \<Rightarrow> now - days_ms (archive_retention_days cfg) \<le> t | _ \<Rightarrow> True"
  obtain n where n: "prune_archive_files (now - days_ms (archive_retention_days cfg)) (rt_archive r) = (Some n, filter ?keep (rt_archive r))"
    using prune_archive_spec [OF assms(4)] by blast
  obtain r' where r': "prune_once cfg ncfg now now_iso r = (True, r')"
      "shift_events (rt_store r') = filter (\<lambda>e. now - shift_event_retention_days cfg * 86400000 \<le> se_ts_ms e) (shift_events (rt_store r))"
      "alert_files r' = filter (\<lambda>f. \<not> old_alert_file (now - days_ms (json_file_retention_days ncfg)) f) (alert_files r)"
      "rt_archive r' = filter ?keep (rt_archive r)"
    using assms(1-3) n
    by (simp add: prune_once_def Let_def delete_shift_events_before_def prune_alert_files_def days_ms_def not_less)
  have "old_alert_file c (alert_filename SL a asset, mtime) \<longleftrightarrow> alert_timestamp_ms a < c"
    if "0 \<le> alert_timestamp_ms a" for SL a asset mtime c
    using parse_alert_filename [OF that] by (simp add: old_alert_file_def)
  then have "\<forall>SL a asset mtime. 0 \<le> alert_timestamp_ms a \<longrightarrow>
       ((alert_filename SL a asset, mtime) \<in> set (alert_files r') \<longleftrightarrow>
        (alert_filename SL a asset, mtime) \<in> set (alert_files r) \<and> now - json_file_retention_days ncfg * 86400000 \<le> alert_timestamp_ms a)"
    unfolding r'(3) by (auto simp: days_ms_def)
  moreover have "\<forall>p t f. archive_path p t \<longrightarrow>
       ((p, f) \<in> set (rt_archive r') \<longleftrightarrow> (p, f) \<in> set (rt_archive r) \<and> now - archive_retention_days cfg * 86400000 \<le> t)"
    unfolding r'(4) by (auto simp: days_ms_def dest!: archive_path_parse)
  ultimately show ?thesis using r'(1,2) by blast
qed

section \<open>Evaluated examples\<close>

definition demo_storage :: storage_config where
  "demo_storage = \<lparr>sqlite_path = ''s'', hot_retention_hours = 1, archive_dir = ''a'', archive_interval_sec = 300,
     shift_event_retention_days = 30, archive_retention_days = 30\<rparr>"

definition demo_row :: "int \<Rightarrow> tick_row" where
  "demo_row ts = \<lparr>tk_market_slug = ''slug'', tk_tick = \<lparr>tick_asset_id = ''a'', price = 1 / 2, best_bid = None, best_ask = None,
     spread = None, signal_source = ''last_trade'', quote_ts_ms = None, timestamp_ms = ts\<rparr>\<rparr>"

definition demo_archiver :: archiver where
  "demo_archiver = \<lparr>ar_store = empty_store\<lparr>price_ticks := [demo_row 600000, demo_row 3000000]\<rparr>, archive_files = [],
     ar_metrics = new_metrics\<rparr>"

lemma demo_dated: "dated (ar_store demo_archiver)"
  by (simp add: dated_def demo_archiver_def demo_row_def)

lemma demo_hour_path: "hour_path s 0 = Some [''1970'', ''01'', ''01'', ''00'' @ s]"
proof -
  have "pad 4 1970 = ''1970''" "pad 2 1 = ''01''" "pad 2 0 = ''00''" by code_simp+
  then show ?thesis
    by (simp add: hour_path_def civil_hour_def civil_of_ordinal_def epoch_ordinal_def Let_def month_lengths_def leap_def)
qed

theorem archive_path_roundtrip_witness:
  "parse_archive_hour_ms [''1970'', ''01'', ''01'', ''00.parquet''] = Some (Some 0)"
  using archive_path_roundtrip [OF demo_hour_path, of "''.parquet''"] by simp

theorem archived_before_deleted_witness:
  "\<exists>a' p rows. archive_once demo_storage 4800000 demo_archiver = (True, a') \<and> parquet_path 0 = Some p \<and>
     map_of (archive_files a') p = Some (Parquet rows) \<and> demo_row 600000 \<in> set rows"
proof -
  have hour: "(4800000 div 3600000) * 3600000 = (3600000 :: int)" by simp
  have "1 \<le> hot_retention_hours demo_storage" by (simp add: demo_storage_def)
  from archived_before_deleted [OF demo_dated this, of 4800000] obtain a' where
    a': "archive_once demo_storage 4800000 demo_archiver = (True, a')"
      "\<forall>r\<in>set (price_ticks (ar_store demo_archiver)). tk_ts r < 3600000 \<longrightarrow>
         (\<exists>p rows. parquet_path (hour_of (tk_ts r)) = Some p \<and> map_of (archive_files a') p = Some (Parquet rows) \<and> r \<in> set rows)"
    unfolding hour by blast
  have "demo_row 600000 \<in> set (price_ticks (ar_store demo_archiver))" by (simp add: demo_archiver_def)
  moreover have "tk_ts (demo_row 600000) < 3600000" "hour_of (tk_ts (demo_row 600000)) = 0"
    by (simp_all add: demo_row_def hour_of_def sql_div_def)
  ultimately have "\<exists>p rows. parquet_path 0 = Some p \<and> map_of (archive_files a') p = Some (Parquet rows) \<and> demo_row 600000 \<in> set rows"
    using a'(2) by fastforce
  with a'(1) show ?thesis by blast
qed

theorem archive_rewrite_loses_ticks_witness:
  "\<exists>a1 a2 p rows. archive_once demo_storage 4800000 demo_archiver = (True, a1) \<and> archive_once demo_storage 5100000 a1 = (True, a2) \<and>
     demo_row 600000 \<notin> set (price_ticks (ar_store a2)) \<and>
     parquet_path 0 = Some p \<and> map_of (archive_files a2) p = Some (Parquet rows) \<and> demo_row 600000 \<notin> set rows"
proof -
  obtain a1 where a1: "archive_once demo_storage 4800000 demo_archiver = (True, a1)"
      "ar_store a1 = delete_price_ticks_before 1200000 (ar_store demo_archiver)"
    using archive_once_spec [OF demo_dated, of demo_storage 4800000] by (auto simp: demo_storage_def)
  have "dated (ar_store a1)" using demo_dated by (auto simp: a1(2) dated_def delete_price_ticks_before_def)
  then obtain a2 where a2: "archive_once demo_storage 5100000 a1 = (True, a2)"
    using archive_once_spec by blast
  have h: "hour_of (tk_ts (demo_row 3000000)) = hour_of (tk_ts (demo_row 600000))" "hour_of (tk_ts (demo_row 600000)) = 0"
    by (simp_all add: demo_row_def hour_of_def sql_div_def)
  have "demo_row 600000 \<notin> set (price_ticks (ar_store a2)) \<and> (\<exists>p rows. parquet_path (hour_of (tk_ts (demo_row 600000))) = Some p \<and>
      map_of (archive_files a2) p = Some (Parquet rows) \<and> demo_row 600000 \<notin> set rows)"
    by (rule archive_rewrite_loses_ticks [OF demo_dated a1(1) a2 _ _ h(1)])
       (simp_all add: demo_archiver_def demo_row_def demo_storage_def)
  with a1(1) a2 h(2) show ?thesis by auto
qed

definition demo_retention :: retention where
  "demo_retention = \<lparr>rt_store = empty_store, alert_files = [(alert_filename demo_slib (demo_alert SCOUT 5 1) (JStr ''a''), None)],
     rt_archive = [([''1970'', ''01'', ''01'', ''00.parquet''], Parquet [])], rt_metrics = new_metrics\<rparr>"

definition demo_notifications :: notifications_config where
  "demo_notifications = \<lparr>enabled_channels = [''json_file''], cfg_min_severity = ''scout'', cfg_allowed_levels = [], cfg_excluded_confidences = [],
     cfg_excluded_signal_sources = [], cfg_min_price = 0, cfg_max_price = 1, cfg_min_liquidity = 0, cfg_min_abs_move = 0,
     cfg_event_dedup_sec = 0, json_file_dir = ''d'', json_webhook_url = [], discord_webhook_url = [], telegram_bot_token = [],
     telegram_chat_id = [], json_file_retention_days = 7, json_webhook_bearer_token = [], json_webhook_hmac_secret = [],
     json_webhook_timeout_sec = 10, json_webhook_max_retries = 3, json_webhook_retry_backoff_sec = 1\<rparr>"

theorem retention_exact_witness:
  "\<exists>r'. prune_once demo_storage demo_notifications 2592000005 ''t'' demo_retention = (True, r') \<and>
     (alert_filename demo_slib (demo_alert SCOUT 5 1) (JStr ''a''), None) \<notin> set (alert_files r') \<and>
     ([''1970'', ''01'', ''01'', ''00.parquet''], Parquet []) \<notin> set (rt_archive r')"
proof -
  have path: "archive_path [''1970'', ''01'', ''01'', ''00.parquet''] 0" by (simp add: archive_path_def demo_hour_path)
  then have "archive_written (rt_archive demo_retention)" by (auto simp: archive_written_def demo_retention_def)
  moreover have "0 < shift_event_retention_days demo_storage" "0 < json_file_retention_days demo_notifications"
      "0 < archive_retention_days demo_storage" by (simp_all add: demo_storage_def demo_notifications_def)
  ultimately obtain r' where r': "prune_once demo_storage demo_notifications 2592000005 ''t'' demo_retention = (True, r')"
    "\<forall>SL a asset mtime. 0 \<le> alert_timestamp_ms a \<longrightarrow>
       ((alert_filename SL a asset, mtime) \<in> set (alert_files r') \<longleftrightarrow>
        (alert_filename SL a asset, mtime) \<in> set (alert_files demo_retention) \<and>
        2592000005 - json_file_retention_days demo_notifications * 86400000 \<le> alert_timestamp_ms a)"
    "\<forall>p t f. archive_path p t \<longrightarrow>
       ((p, f) \<in> set (rt_archive r') \<longleftrightarrow> (p, f) \<in> set (rt_archive demo_retention) \<and>
        2592000005 - archive_retention_days demo_storage * 86400000 \<le> t)"
    using retention_exact [of demo_storage demo_notifications demo_retention 2592000005 "''t''"] by blast
  have "(alert_filename demo_slib (demo_alert SCOUT 5 1) (JStr ''a''), None) \<notin> set (alert_files r')"
    using r'(2) by (simp add: demo_alert_def demo_notifications_def)
  moreover have "([''1970'', ''01'', ''01'', ''00.parquet''], Parquet []) \<notin> set (rt_archive r')"
    using r'(3) path by (auto simp: demo_storage_def)
  ultimately show ?thesis using r'(1) by blast
qed

end
