(* ===== verification/Detector_Bars.thy ===== *)
theory Detector_Bars
  imports Shift_Detector
begin

text \<open>
  What the one-second bars of the detector stand for. The bars are a summary of the ticks of an
  asset; here the price move and the quote that the detector reads off the bars are shown to be
  the ones a reader of the ticks themselves would compute, pruning included.
\<close>

section \<open>The move and the quote over the ticks themselves\<close>

abbreviation tick_second :: "price_tick \<Rightarrow> int" where
  "tick_second t \<equiv> bucket_ms (timestamp_ms t)"

definition bars_from :: "price_tick list \<Rightarrow> second_bar list" where
  "bars_from ts = foldl upsert_bar [] ts"

definition price_move :: "threshold_config \<Rightarrow> price_tick list \<Rightarrow> delta option" where
  "price_move th ts =
     (if card (set (map tick_second ts)) < 2 then None
      else case filter (\<lambda>t. tick_second (last ts) - window_sec th * 1000 \<le> tick_second t) ts of
          [] \<Rightarrow> None
        | t0 # w \<Rightarrow>
            if price t0 = 0 \<or> int (length (t0 # w)) < min_ticks th then None
            else
              let move = (price (last ts) - price t0) / price t0 * 100 in
              Some \<lparr>dl_abs = \<bar>move\<bar>, dl_signed = move, dl_start = price t0, dl_end = price (last ts),
                    dl_ticks = int (length (t0 # w))\<rparr>)"

definition latest_quoted :: "price_tick list \<Rightarrow> price_tick option" where
  "latest_quoted ts = List.find (\<lambda>t. spread t \<noteq> None) (rev ts)"

definition recent_ticks :: "detector_config \<Rightarrow> int \<Rightarrow> price_tick list \<Rightarrow> price_tick list" where
  "recent_ticks cfg now ts = filter (\<lambda>t. now - buffer_max_age_sec cfg * 1000 \<le> tick_second t) ts"

section \<open>Bars of a list of ticks\<close>

lemma bars_from_Nil [simp]: "bars_from [] = []"
  by (simp add: bars_from_def)

lemma bars_from_snoc [simp]: "bars_from (ts @ [t]) = upsert_bar (bars_from ts) t"
  by (simp add: bars_from_def)

lemma extend_bar_fields [simp]:
  "second_ts_ms (extend_bar t b) = second_ts_ms b" "price_open (extend_bar t b) = price_open b"
  "price_last (extend_bar t b) = price t" "tick_count (extend_bar t b) = tick_count b + 1"
  by (simp_all add: extend_bar_def Let_def)

lemma new_bar_fields [simp]:
  "second_ts_ms (new_bar t) = tick_second t" "price_open (new_bar t) = price t" "price_last (new_bar t) = price t"
  "tick_count (new_bar t) = 1"
  by (simp_all add: new_bar_def)

lemma bars_from_last:
  "ts \<noteq> [] \<Longrightarrow> bars_from ts \<noteq> [] \<and> second_ts_ms (last (bars_from ts)) = tick_second (last ts) \<and>
     price_last (last (bars_from ts)) = price (last ts)"
  by (induction ts rule: rev_induct) (auto simp: upsert_bar_def)

lemma bars_from_empty [simp]: "bars_from ts = [] \<longleftrightarrow> ts = []"
  using bars_from_last by (cases "ts = []") auto

text \<open>A tick changes the sum over the bars as it changes the sum over the ticks.\<close>

lemma window_upsert:
  "foldl (window_step c) acc (upsert_bar bs t) =
     (case foldl (window_step c) acc bs of (sp, n) \<Rightarrow>
        if c \<le> tick_second t then (Some (case sp of None \<Rightarrow> price t | Some p \<Rightarrow> p), n + 1) else (sp, n))"
proof (cases "bs \<noteq> [] \<and> second_ts_ms (last bs) = tick_second t")
  case True
  then obtain xs b where bs: "bs = xs @ [b]" "second_ts_ms b = tick_second t" by (cases bs rule: rev_cases) auto
  then show ?thesis
    by (auto simp: upsert_bar_def window_step_def split: prod.split option.split)
next
  case False
  then have "upsert_bar bs t = bs @ [new_bar t]" by (auto simp: upsert_bar_def)
  then show ?thesis by (auto simp: window_step_def split: prod.split option.split)
qed

lemma window_bars_from:
  "foldl (window_step c) (None, 0) (bars_from ts) =
     (case filter (\<lambda>t. c \<le> tick_second t) ts of [] \<Rightarrow> None | t # _ \<Rightarrow> Some (price t),
      int (length (filter (\<lambda>t. c \<le> tick_second t) ts)))"
proof (induction ts rule: rev_induct)
  case Nil
  then show ?case by simp
next
  case (snoc t ts)
  then show ?case
    by (cases "filter (\<lambda>t. c \<le> tick_second t) ts") (auto simp: window_upsert)
qed

lemma seconds_upsert:
  "map second_ts_ms (upsert_bar bs t) =
     (if bs \<noteq> [] \<and> second_ts_ms (last bs) = tick_second t then map second_ts_ms bs else map second_ts_ms bs @ [tick_second t])"
  by (cases bs rule: rev_cases) (auto simp: upsert_bar_def)

lemma seconds_bars_from:
  assumes "sorted (map timestamp_ms ts)"
  shows "sorted_wrt (<) (map second_ts_ms (bars_from ts)) \<and> set (map second_ts_ms (bars_from ts)) = set (map tick_second ts)"
  using assms
proof (induction ts rule: rev_induct)
  case Nil
  then show ?case by simp
next
  case (snoc t ts)
  then have IH: "sorted_wrt (<) (map second_ts_ms (bars_from ts))" "set (map second_ts_ms (bars_from ts)) = set (map tick_second ts)"
    and le: "\<forall>u\<in>set ts. tick_second u \<le> tick_second t"
    by (auto simp: sorted_append bucket_ms_def intro!: zdiv_mono1)
  show ?case
  proof (cases "ts = []")
    case True
    then show ?thesis by (simp add: bars_from_def upsert_bar_def)
  next
    case False
    from bars_from_last [OF False] have l: "second_ts_ms (last (bars_from ts)) = tick_second (last ts)" by simp
    show ?thesis
    proof (cases "tick_second (last ts) = tick_second t")
      case True
      then have "tick_second t \<in> tick_second ` set ts"
        using False by (intro image_eqI [of _ _ "last ts"]) simp_all
      then have "set (map tick_second (ts @ [t])) = set (map tick_second ts)" by auto
      with IH show ?thesis
        unfolding bars_from_snoc seconds_upsert using True False l by simp
    next
      case neq: False
      have "x < tick_second t" if "x \<in> set (map second_ts_ms (bars_from ts))" for x
      proof -
        have "x \<le> second_ts_ms (last (bars_from ts))"
          using IH(1) that False
          by (cases "bars_from ts" rule: rev_cases) (auto simp: sorted_wrt_append less_imp_le)
        moreover have "tick_second (last ts) \<le> tick_second t" using le False by simp
        ultimately show ?thesis using l neq by linarith
      qed
      with neq False IH l show ?thesis
        by (simp only: bars_from_snoc seconds_upsert) (auto simp: sorted_wrt_append)
    qed
  qed
qed

lemma length_bars_from:
  "sorted (map timestamp_ms ts) \<Longrightarrow> length (bars_from ts) = card (set (map tick_second ts))"
  using seconds_bars_from [of ts] distinct_card [of "map second_ts_ms (bars_from ts)"]
  by (auto simp: strict_sorted_iff)

lemma compute_delta_bars_from:
  assumes "sorted (map timestamp_ms ts)"
  shows "compute_delta (bars_from ts) th = price_move th ts"
proof (cases "ts = []")
  case True
  then show ?thesis by (simp add: compute_delta_def price_move_def)
next
  case False
  show ?thesis
    using bars_from_last [OF False] length_bars_from [OF assms]
    by (auto simp: compute_delta_def price_move_def window_bars_from Let_def split: list.split)
qed

lemma latest_quote_bars_from:
  "map_option (\<lambda>b. (spread_last b, bar_quote_ts_ms b)) (List.find (\<lambda>b. spread_last b \<noteq> None) (rev (bars_from ts))) =
   map_option (\<lambda>t. (spread t, quote_ts_ms t)) (latest_quoted ts)"
proof (induction ts rule: rev_induct)
  case Nil
  then show ?case by (simp add: latest_quoted_def)
next
  case (snoc t ts)
  show ?case
  proof (cases "bars_from ts \<noteq> [] \<and> second_ts_ms (last (bars_from ts)) = tick_second t")
    case True
    then obtain xs b where bs: "bars_from ts = xs @ [b]" "second_ts_ms b = tick_second t"
      by (cases "bars_from ts" rule: rev_cases) auto
    with snoc show ?thesis by (auto simp: upsert_bar_def extend_bar_def Let_def latest_quoted_def)
  next
    case False
    then have "upsert_bar (bars_from ts) t = bars_from ts @ [new_bar t]" by (auto simp: upsert_bar_def)
    with snoc show ?thesis by (auto simp: new_bar_def latest_quoted_def)
  qed
qed

section \<open>Pruning\<close>

lemma prune_bars_filter:
  assumes "sorted_wrt (<) (map second_ts_ms bs)"
  shows "prune_bars cfg now bs = filter (\<lambda>b. now - buffer_max_age_sec cfg * 1000 \<le> second_ts_ms b) bs"
  unfolding prune_bars_def
  by (rule dropWhile_eq_filter_sorted) (use assms strict_sorted_iff in blast)

lemma filter_bars_from:
  assumes "sorted (map timestamp_ms ts)"
  shows "filter (\<lambda>b. c \<le> second_ts_ms b) (bars_from ts) = bars_from (filter (\<lambda>t. c \<le> tick_second t) ts)"
  using assms
proof (induction ts rule: rev_induct)
  case Nil
  then show ?case by simp
next
  case (snoc t ts)
  then have IH: "filter (\<lambda>b. c \<le> second_ts_ms b) (bars_from ts) = bars_from (filter (\<lambda>t. c \<le> tick_second t) ts)"
    and le: "\<forall>u\<in>set ts. tick_second u \<le> tick_second t"
    by (auto simp: sorted_append bucket_ms_def intro!: zdiv_mono1)
  show ?case
  proof (cases "c \<le> tick_second t")
    case False
    with le have "filter (\<lambda>t. c \<le> tick_second t) (ts @ [t]) = []" by (auto simp: filter_empty_conv)
    moreover have "\<forall>x\<in>set (map second_ts_ms (bars_from (ts @ [t]))). x < c"
      using seconds_bars_from [OF snoc.prems] False le by auto
    ultimately show ?thesis by (auto simp: filter_empty_conv simp del: bars_from_snoc)
  next
    case True
    show ?thesis
    proof (cases "bars_from ts \<noteq> [] \<and> second_ts_ms (last (bars_from ts)) = tick_second t")
      case same: True
      then obtain xs b where bs: "bars_from ts = xs @ [b]" "second_ts_ms b = tick_second t"
        by (cases "bars_from ts" rule: rev_cases) auto
      with True IH have "bars_from (filter (\<lambda>t. c \<le> tick_second t) ts) = filter (\<lambda>b. c \<le> second_ts_ms b) xs @ [b]" by simp
      with True bs show ?thesis by (simp add: upsert_bar_def)
    next
      case new: False
      have "second_ts_ms (last (bars_from (filter (\<lambda>t. c \<le> tick_second t) ts))) \<noteq> tick_second t"
        if "filter (\<lambda>t. c \<le> tick_second t) ts \<noteq> []"
      proof -
        from that have ne: "ts \<noteq> []" by auto
        with bars_from_last [OF ne] new have "tick_second (last ts) \<noteq> tick_second t" by auto
        moreover have "tick_second u \<le> tick_second (last ts)" if "u \<in> set ts" for u
          using snoc.prems that ne
          by (cases ts rule: rev_cases) (auto simp: sorted_append bucket_ms_def intro!: zdiv_mono1)
        ultimately have "\<forall>u\<in>set ts. tick_second u \<noteq> tick_second t" using le ne
          by (metis antisym last_in_set)
        with bars_from_last [OF that] that show ?thesis
          by (metis (no_types, lifting) filter_is_subset last_in_set subsetD)
      qed
      then have "upsert_bar (bars_from (filter (\<lambda>t. c \<le> tick_second t) ts)) t =
          bars_from (filter (\<lambda>t. c \<le> tick_second t) ts) @ [new_bar t]" by (auto simp: upsert_bar_def)
      moreover have "upsert_bar (bars_from ts) t = bars_from ts @ [new_bar t]" using new by (auto simp: upsert_bar_def)
      ultimately show ?thesis using True IH by simp
    qed
  qed
qed

lemma prune_bars_from:
  "sorted (map timestamp_ms ts) \<Longrightarrow> prune_bars cfg now (bars_from ts) = bars_from (recent_ticks cfg now ts)"
  using seconds_bars_from [of ts] by (simp add: prune_bars_filter filter_bars_from recent_ticks_def)

lemma sorted_recent: "sorted (map timestamp_ms ts) \<Longrightarrow> sorted (map timestamp_ms (recent_ticks cfg now ts))"
  unfolding recent_ticks_def by (rule sorted_filter)

lemma recent_append [simp]: "recent_ticks cfg now (xs @ ys) = recent_ticks cfg now xs @ recent_ticks cfg now ys"
  by (simp add: recent_ticks_def)

lemma recent_recent: "n \<le> m \<Longrightarrow> recent_ticks cfg m (recent_ticks cfg n ts) = recent_ticks cfg m ts"
  by (auto simp: recent_ticks_def intro!: filter_cong)

end
