(* ===== verification/Detector_Alerts.thy ===== *)
theory Detector_Alerts
  imports Detector_Bars
begin

text \<open>
  What the detector reports: the move a scan sees is the move of the ticks ingested, a scan raises
  exactly the alerts that those ticks, the market and the cooldowns call for, and alerts of one
  asset and level keep the cooldown apart over any run.
\<close>

section \<open>Ingested ticks\<close>

definition ticks_of :: "string \<Rightarrow> price_tick list \<Rightarrow> price_tick list" where
  "ticks_of a ts = filter (\<lambda>t. tick_asset_id t = a) ts"

lemma ingest_tick_fields [simp]:
  "ms_clock (ingest_tick cfg t d) = ms_clock d" "ms_reads (ingest_tick cfg t d) = Suc (ms_reads d)"
  "cooldowns (ingest_tick cfg t d) = cooldowns d"
  "dict_get (latest_tick_by_asset (ingest_tick cfg t d)) a =
     (if a = tick_asset_id t then Some t else dict_get (latest_tick_by_asset d) a)"
  by (simp_all add: ingest_tick_def time_fn_def Let_def)

lemma bars_of_ingest:
  "bars_of (ingest_tick cfg t d) a =
     (if a = tick_asset_id t then prune_bars cfg (ms_clock d (ms_reads d)) (upsert_bar (bars_of d a) t) else bars_of d a)"
  by (simp add: ingest_tick_def time_fn_def Let_def bars_of_def)

lemma ingest_all_fields [simp]:
  "ms_clock (fold (ingest_tick cfg) ts d) = ms_clock d" "ms_reads (fold (ingest_tick cfg) ts d) = ms_reads d + length ts"
  "cooldowns (fold (ingest_tick cfg) ts d) = cooldowns d"
  by (induction ts arbitrary: d) simp_all

lemma latest_after_ingest:
  "ticks_of a ts \<noteq> [] \<Longrightarrow>
     dict_get (latest_tick_by_asset (fold (ingest_tick cfg) ts d)) a = Some (last (ticks_of a ts))"
  by (induction ts rule: rev_induct) (auto simp: ticks_of_def)

text \<open>The bars kept are those of the ticks that the last pruning left.\<close>

lemma bars_after_ingest:
  assumes "mono (ms_clock d)" "bars_of d a = []" "sorted (map timestamp_ms (ticks_of a ts))"
  shows "\<exists>n \<le> ms_clock d (ms_reads d + length ts).
    bars_of (fold (ingest_tick cfg) ts d) a = bars_from (recent_ticks cfg n (ticks_of a ts))"
  using assms(3)
proof (induction ts rule: rev_induct)
  case Nil
  show ?case using assms(2) by (auto simp: ticks_of_def recent_ticks_def)
next
  case (snoc t ts)
  let ?d = "fold (ingest_tick cfg) ts d" and ?now = "ms_clock d (ms_reads d + length ts)"
  from snoc.prems have "sorted (map timestamp_ms (ticks_of a ts))" by (auto simp: ticks_of_def sorted_append)
  with snoc.IH obtain n where n: "n \<le> ?now" "bars_of ?d a = bars_from (recent_ticks cfg n (ticks_of a ts))" by blast
  have later: "?now \<le> ms_clock d (ms_reads d + length (ts @ [t]))"
    using assms(1) by (simp add: monoD)
  show ?case
  proof (cases "tick_asset_id t = a")
    case False
    then have "bars_of (fold (ingest_tick cfg) (ts @ [t]) d) a = bars_from (recent_ticks cfg n (ticks_of a (ts @ [t])))"
      using n(2) by (simp add: bars_of_ingest ticks_of_def)
    then show ?thesis using n(1) later by (intro exI [of _ n] conjI) simp_all
  next
    case True
    let ?r = "recent_ticks cfg n (ticks_of a ts) @ [t]"
    have s: "sorted (map timestamp_ms ?r)"
      using snoc.prems True sorted_recent [of "ticks_of a ts" cfg n] by (auto simp: ticks_of_def sorted_append recent_ticks_def)
    have "bars_of (fold (ingest_tick cfg) (ts @ [t]) d) a = prune_bars cfg ?now (bars_from ?r)"
      using n(2) True by (simp add: bars_of_ingest)
    also have "\<dots> = bars_from (recent_ticks cfg ?now ?r)" by (rule prune_bars_from [OF s])
    also have "recent_ticks cfg ?now ?r = recent_ticks cfg ?now (ticks_of a (ts @ [t]))"
      using recent_recent [OF n(1)] True by (simp add: ticks_of_def)
    finally show ?thesis using later by blast
  qed
qed

lemma pruned_after_ingest:
  assumes "mono (ms_clock d)" "bars_of d a = []" "sorted (map timestamp_ms (ticks_of a ts))"
    and "ms_clock d (ms_reads d + length ts) \<le> now"
  shows "prune_bars cfg now (bars_of (fold (ingest_tick cfg) ts d) a) = bars_from (recent_ticks cfg now (ticks_of a ts))"
proof -
  from bars_after_ingest [OF assms(1-3), of cfg] obtain n where
    n: "n \<le> now" "bars_of (fold (ingest_tick cfg) ts d) a = bars_from (recent_ticks cfg n (ticks_of a ts))"
    using assms(4) order_trans by blast
  then show ?thesis
    using prune_bars_from [OF sorted_recent [OF assms(3), of cfg n], of cfg now] recent_recent [OF n(1)] by simp
qed

text \<open>
  C9 (refinement): the bars are a faithful summary of the ticks. After ticks of any assets were
  ingested with a clock that never runs back, those of one asset in time order, the move that a scan
  computes from the pruned one-second bars of that asset is the move over the ticks themselves:
  from the first tick of the window to the last tick, with the number of ticks of the window, over
  the ticks of the seconds that are young enough to be kept; and the bar that the quality check
  reads carries the spread and the quote time of the latest of those ticks that has a quote.
\<close>

theorem bars_refine_ticks:
  assumes "mono (ms_clock d)" "bars_of d a = []" "sorted (map timestamp_ms (ticks_of a ts))"
    and "ms_clock d (ms_reads d + length ts) \<le> now"
  shows "let bars = prune_bars cfg now (bars_of (fold (ingest_tick cfg) ts d) a);
             recent = recent_ticks cfg now (ticks_of a ts) in
     (bars = [] \<longleftrightarrow> recent = []) \<and> compute_delta bars th = price_move th recent \<and>
     map_option (\<lambda>b. (spread_last b, bar_quote_ts_ms b)) (List.find (\<lambda>b. spread_last b \<noteq> None) (rev bars)) =
       map_option (\<lambda>t. (spread t, quote_ts_ms t)) (latest_quoted recent)"
  using compute_delta_bars_from [OF sorted_recent [OF assms(3)]] latest_quote_bars_from
  by (simp add: pruned_after_ingest [OF assms] Let_def)

section \<open>The alerts of a scan\<close>

definition stands_still :: "int \<Rightarrow> detector \<Rightarrow> bool" where
  "stands_still now d \<longleftrightarrow> (\<forall>n \<ge> ms_reads d. ms_clock d n = now)"

definition quality_ok :: "detector_config \<Rightarrow> int \<Rightarrow> market_metadata \<Rightarrow> price_tick list \<Rightarrow> bool" where
  "quality_ok cfg now m ts \<longleftrightarrow>
     now - tick_second (last ts) \<le> stale_threshold_sec cfg * 1000 \<and>
     (case latest_quoted ts of
        None \<Rightarrow> now - subscribed_at_ms m \<le> warmup_grace_sec cfg * 1000
      | Some t \<Rightarrow> now - (case quote_ts_ms t of None \<Rightarrow> 0 | Some q \<Rightarrow> q) \<le> max_quote_age_sec cfg * 1000 \<and>
          (case spread t of None \<Rightarrow> False | Some sp \<Rightarrow> sp \<le> max_spread_for_detection cfg) \<and> active m)"

definition due_delta ::
  "detector_config \<Rightarrow> int \<Rightarrow> string \<Rightarrow> ((string \<times> alert_level) \<times> int) list \<Rightarrow> (threshold_config \<Rightarrow> delta option) \<Rightarrow>
   alert_level \<Rightarrow> delta option" where
  "due_delta cfg now a cds move l =
     (case move (thresholds cfg l) of None \<Rightarrow> None
      | Some dl \<Rightarrow> if th_delta_pct (thresholds cfg l) \<le> dl_abs dl \<and> until_of cds (a, l) \<le> now then Some dl else None)"

text \<open>What an attempt at one level leaves as it was for the next level.\<close>

definition scan_kept :: "string \<Rightarrow> alert_level list \<Rightarrow> detector \<Rightarrow> detector \<Rightarrow> bool" where
  "scan_kept a ls d d' \<longleftrightarrow> ms_clock d' = ms_clock d \<and> ms_reads d \<le> ms_reads d' \<and>
     latest_tick_by_asset d' = latest_tick_by_asset d \<and> tracked_cache (d_store d') = tracked_cache (d_store d) \<and>
     (\<forall>l. l \<in> set ls \<longrightarrow> until_of (cooldowns d') (a, l) = until_of (cooldowns d) (a, l))"

lemma bump_fields [simp]:
  "ms_clock (bump s d) = ms_clock d" "ms_reads (bump s d) = ms_reads d" "bars_by_asset (bump s d) = bars_by_asset d"
  "latest_tick_by_asset (bump s d) = latest_tick_by_asset d" "cooldowns (bump s d) = cooldowns d" "d_store (bump s d) = d_store d"
  by (simp_all add: bump_def)

lemma tracked_insert_event [simp]:
  "tracked_cache (insert_shift_event al st) = tracked_cache st" "tracked_markets (insert_shift_event al st) = tracked_markets st"
  by (simp_all add: insert_shift_event_def Let_def)

lemma maybe_create_alert_still:
  assumes "stands_still now d" "get_tracked_market (d_store d) a = Some m" "dict_get (latest_tick_by_asset d) a = Some t"
    and "l \<notin> set ls"
  shows "\<exists>d'. maybe_create_alert SL cfg a bars l d =
      (map_option (build_alert SL cfg a l now m t) (due_delta cfg now a (cooldowns d) (compute_delta bars) l), d') \<and>
    scan_kept a ls d d'"
proof (cases "compute_delta bars (thresholds cfg l)")
  case None
  then show ?thesis by (simp add: maybe_create_alert_def due_delta_def scan_kept_def)
next
  case (Some dl)
  have now: "ms_clock d (ms_reads d) = now" using assms(1) by (simp add: stands_still_def)
  have "scan_kept a ls d (bump x (d\<lparr>ms_reads := Suc (ms_reads d), cooldowns := close_until p (a, l) now (cooldowns d),
      d_store := insert_shift_event al (d_store d)\<rparr>))" for p al x
    using assms(4) by (auto simp: scan_kept_def dict_gate.blocked_until_fire)
  then show ?thesis
    using Some assms(2,3) now
    by (auto simp: maybe_create_alert_def due_delta_def time_fn_def Let_def get_tracked_market_def scan_kept_def)
qed

lemma scan_kept_still: "scan_kept a ls d d' \<Longrightarrow> stands_still now d \<Longrightarrow> stands_still now d'"
  by (simp add: scan_kept_def stands_still_def)

lemma scan_levels_still:
  assumes "stands_still now d" "get_tracked_market (d_store d) a = Some m" "dict_get (latest_tick_by_asset d) a = Some t"
    and "distinct ls"
  shows "fst (scan_levels SL cfg a bars ls d) =
    List.map_filter (\<lambda>l. map_option (build_alert SL cfg a l now m t) (due_delta cfg now a (cooldowns d) (compute_delta bars) l)) ls"
  using assms
proof (induction ls arbitrary: d)
  case Nil
  then show ?case by (simp add: map_filter_simps)
next
  case (Cons l ls)
  from maybe_create_alert_still [OF Cons.prems(1-3), of l ls SL cfg bars] Cons.prems(4) obtain d' where
    d': "maybe_create_alert SL cfg a bars l d =
        (map_option (build_alert SL cfg a l now m t) (due_delta cfg now a (cooldowns d) (compute_delta bars) l), d')"
      "scan_kept a ls d d'" by auto
  have "fst (scan_levels SL cfg a bars ls d') =
      List.map_filter (\<lambda>l. map_option (build_alert SL cfg a l now m t) (due_delta cfg now a (cooldowns d') (compute_delta bars) l)) ls"
    using Cons.prems d'(2) scan_kept_still [OF d'(2)]
    by (intro Cons.IH) (simp_all add: scan_kept_def get_tracked_market_def)
  also have "\<dots> = List.map_filter (\<lambda>l. map_option (build_alert SL cfg a l now m t) (due_delta cfg now a (cooldowns d) (compute_delta bars) l)) ls"
    using d'(2) by (auto simp: List.map_filter_def due_delta_def scan_kept_def intro!: map_cong filter_cong split: option.splits)
  finally show ?case
    using d'(1) by (auto simp: map_filter_simps split: prod.split option.split)
qed

lemma should_skip_fields:
  "should_skip cfg a bars d = (b, d') \<Longrightarrow> ms_clock d' = ms_clock d \<and> ms_reads d' = Suc (ms_reads d) \<and>
     cooldowns d' = cooldowns d \<and> latest_tick_by_asset d' = latest_tick_by_asset d \<and> d_store d' = d_store d \<and>
     bars_by_asset d' = bars_by_asset d"
  by (auto simp: should_skip_def time_fn_def Let_def split: option.splits if_splits)

lemma should_skip_still:
  assumes "stands_still now d" "get_tracked_market (d_store d) a = Some m" "ts \<noteq> []"
  shows "fst (should_skip cfg a (bars_from ts) d) \<longleftrightarrow> \<not> quality_ok cfg now m ts"
proof -
  have now: "ms_clock d (ms_reads d) = now" using assms(1) by (simp add: stands_still_def)
  have sp: "spread t \<noteq> None" if "latest_quoted ts = Some t" for t
    using that by (auto simp: latest_quoted_def dest: find_Some_in)
  show ?thesis
    using latest_quote_bars_from [of ts] bars_from_last [OF assms(3)] now assms(2) sp
    by (auto simp: should_skip_def quality_ok_def time_fn_def Let_def split: option.splits if_splits)
qed

lemma scan_asset_due:
  assumes "mono (ms_clock d)" "bars_of d a = []" "sorted (map timestamp_ms (ticks_of a ts))"
    and "d' = fold (ingest_tick cfg) ts d" "stands_still now d'" "get_tracked_market (d_store d') a = Some m"
  shows "fst (scan_asset SL cfg a d') =
    (let recent = recent_ticks cfg now (ticks_of a ts) in
     if recent = [] \<or> \<not> quality_ok cfg now m recent then []
     else List.map_filter (\<lambda>l. map_option (build_alert SL cfg a l now m (last (ticks_of a ts)))
       (due_delta cfg now a (cooldowns d) (\<lambda>th. price_move th recent) l)) [SCOUT, CONFIRMATION, TREND])"
proof -
  let ?r = "recent_ticks cfg now (ticks_of a ts)"
  have now: "ms_clock d (ms_reads d + length ts) = now" using assms(4,5) by (simp add: stands_still_def)
  have pruned: "prune_bars cfg now (bars_of d' a) = bars_from ?r"
    using pruned_after_ingest [OF assms(1-3)] now assms(4) by simp
  show ?thesis
  proof (cases "bars_of d' a = [] \<or> ?r = []")
    case True
    with pruned have "?r = []" by (auto simp: prune_bars_def eq_commute [of "[]"])
    then show ?thesis using pruned now assms(4) by (simp add: scan_asset_def time_fn_def Let_def)
  next
    case False
    then have ne: "bars_of d' a \<noteq> []" "?r \<noteq> []" "ticks_of a ts \<noteq> []" by (auto simp: recent_ticks_def)
    define d2 where "d2 = d'\<lparr>ms_reads := Suc (ms_reads d'), bars_by_asset := dict_set a (bars_from ?r) (bars_by_asset d')\<rparr>"
    have still: "stands_still now d2" using assms(5) by (simp add: d2_def stands_still_def)
    obtain b d3 where sk: "should_skip cfg a (bars_from ?r) d2 = (b, d3)" by fastforce
    have b: "b \<longleftrightarrow> \<not> quality_ok cfg now m ?r"
      using should_skip_still [OF still _ ne(2), of a m cfg] assms(6) sk by (simp add: d2_def)
    have move: "compute_delta (bars_from ?r) = (\<lambda>th. price_move th ?r)"
      by (rule ext) (rule compute_delta_bars_from [OF sorted_recent [OF assms(3)]])
    have "fst (scan_levels SL cfg a (bars_from ?r) [SCOUT, CONFIRMATION, TREND] d3) =
      List.map_filter (\<lambda>l. map_option (build_alert SL cfg a l now m (last (ticks_of a ts)))
        (due_delta cfg now a (cooldowns d3) (compute_delta (bars_from ?r)) l)) [SCOUT, CONFIRMATION, TREND]"
      by (rule scan_levels_still)
        (use should_skip_fields [OF sk] still assms(4,6) latest_after_ingest [OF ne(3), of cfg d] in
          \<open>simp_all add: d2_def stands_still_def\<close>)
    moreover have "cooldowns d3 = cooldowns d" using should_skip_fields [OF sk] assms(4) by (simp add: d2_def)
    moreover note move
    moreover have "scan_asset SL cfg a d' = (if b then ([], bump ''alerts_skipped_quality'' d3)
        else scan_levels SL cfg a (bars_from ?r) [SCOUT, CONFIRMATION, TREND] d3)"
      using ne now assms(4) pruned sk by (simp add: scan_asset_def time_fn_def Let_def d2_def)
    ultimately show ?thesis using b ne(2) by (simp add: Let_def del: map_filter_simps)
  qed
qed


section \<open>Cooldown over a run\<close>

definition alert_key :: "shift_alert \<Rightarrow> string \<times> alert_level" where
  "alert_key al = (case jget (alert_market al) ''asset_id'' of JStr s \<Rightarrow> s | _ \<Rightarrow> [], alert_level al)"

abbreviation alert_entry :: "shift_alert \<Rightarrow> (string \<times> alert_level) \<times> int \<times> int" where
  "alert_entry al \<equiv> (alert_key al, alert_timestamp_ms al, alert_timestamp_ms al)"

text \<open>
  A run of the detector with the alerts it raised; other parts may change the store and set the
  clock in between.
\<close>

inductive detector_run :: "slib \<Rightarrow> detector_config \<Rightarrow> detector \<Rightarrow> shift_alert list \<Rightarrow> detector \<Rightarrow> bool"
  for SL cfg d0 where
  run_start: "detector_run SL cfg d0 [] d0"
| run_ingest: "detector_run SL cfg d0 als d \<Longrightarrow> detector_run SL cfg d0 als (ingest_tick cfg t d)"
| run_scan: "detector_run SL cfg d0 als d \<Longrightarrow> scan_once SL cfg d = (alerts, d') \<Longrightarrow> detector_run SL cfg d0 (als @ alerts) d'"
| run_store: "detector_run SL cfg d0 als d \<Longrightarrow> store_step (d_store d) st \<Longrightarrow> detector_run SL cfg d0 als (d\<lparr>d_store := st\<rparr>)"
| run_clock: "detector_run SL cfg d0 als d \<Longrightarrow> detector_run SL cfg d0 als (d\<lparr>ms_clock := c\<rparr>)"

definition gated :: "detector_config \<Rightarrow> shift_alert list \<Rightarrow> detector \<Rightarrow> bool" where
  "gated cfg als d \<longleftrightarrow> coherent (d_store d) \<and> dict_gate.spaced (cooldown_sec cfg * 1000) (map alert_entry als) (cooldowns d)"

lemma gated_same: "gated cfg als d \<Longrightarrow> cooldowns d' = cooldowns d \<Longrightarrow> coherent (d_store d') \<Longrightarrow> gated cfg als d'"
  by (simp add: gated_def)

lemma coherent_insert_event: "coherent st \<Longrightarrow> coherent (insert_shift_event al st)"
  by (simp add: coherent_def)

lemma coherent_empty: "coherent empty_store"
  by (simp add: coherent_def empty_store_def table_map_def fun_eq_iff)

lemma coherent_asset: "coherent st \<Longrightarrow> get_tracked_market st a = Some m \<Longrightarrow> asset_id m = a"
  by (auto simp: coherent_def get_tracked_market_def intro: table_map_asset)

lemma alert_key_build: "asset_id m = a \<Longrightarrow> alert_key (build_alert SL cfg a l now m t dl) = (a, l)"
  by (simp add: alert_key_def build_alert_def Let_def market_payload_def jget_def jget_default_def)

lemma build_alert_ts: "alert_timestamp_ms (build_alert SL cfg a l now m t dl) = now"
  by (simp add: build_alert_def Let_def)

lemma gated_maybe:
  assumes "gated cfg als d" "0 \<le> cooldown_sec cfg" "maybe_create_alert SL cfg a bars l d = (r, d')"
  shows "gated cfg (als @ (case r of None \<Rightarrow> [] | Some al \<Rightarrow> [al])) d'"
proof (cases r)
  case None
  then have "cooldowns d' = cooldowns d \<and> d_store d' = d_store d"
    using assms(3) by (auto simp: maybe_create_alert_def time_fn_def Let_def split: option.splits if_splits)
  then show ?thesis using assms(1) None by (simp add: gated_def)
next
  case (Some al)
  then obtain m t dl where *: "get_tracked_market (d_store d) a = Some m"
    "until_of (cooldowns d) (a, l) \<le> ms_clock d (ms_reads d)"
    "al = build_alert SL cfg a l (ms_clock d (ms_reads d)) m t dl"
    "cooldowns d' = close_until (cooldown_sec cfg * 1000) (a, l) (ms_clock d (ms_reads d)) (cooldowns d)"
    "d_store d' = insert_shift_event al (d_store d)"
    using assms(3) by (auto simp: maybe_create_alert_def time_fn_def Let_def split: option.splits if_splits)
  have "asset_id m = a" using assms(1) *(1) by (auto simp: gated_def intro: coherent_asset)
  then have "alert_key al = (a, l)" using *(3) by (simp add: alert_key_build)
  moreover have "alert_timestamp_ms al = ms_clock d (ms_reads d)" using *(3) by (simp add: build_alert_ts)
  ultimately show ?thesis
    using dict_gate.spaced_fire_now [of "cooldown_sec cfg * 1000" "map alert_entry als" "cooldowns d" "(a, l)", OF _ *(2)]
      assms(1,2) Some *(4,5) coherent_insert_event by (simp add: gated_def)
qed

lemma gated_scan_levels:
  assumes "gated cfg als d" "0 \<le> cooldown_sec cfg" "scan_levels SL cfg a bars ls d = (alerts, d')"
  shows "gated cfg (als @ alerts) d'"
  using assms
proof (induction ls arbitrary: als alerts d)
  case Nil
  then show ?case by simp
next
  case (Cons l ls)
  obtain r d1 alerts1 where *: "maybe_create_alert SL cfg a bars l d = (r, d1)" "scan_levels SL cfg a bars ls d1 = (alerts1, d')"
    "alerts = (case r of None \<Rightarrow> alerts1 | Some al \<Rightarrow> al # alerts1)"
    using Cons.prems(3) by (auto split: prod.splits)
  from Cons.IH [OF gated_maybe [OF Cons.prems(1,2) *(1)] Cons.prems(2) *(2)] *(3) show ?case
    by (auto split: option.splits)
qed

lemma gated_scan_asset:
  assumes "gated cfg als d" "0 \<le> cooldown_sec cfg" "scan_asset SL cfg a d = (alerts, d')"
  shows "gated cfg (als @ alerts) d'"
proof -
  let ?bs = "prune_bars cfg (ms_clock d (ms_reads d)) (bars_of d a)"
  define d2 where "d2 = d\<lparr>ms_reads := Suc (ms_reads d), bars_by_asset := dict_set a ?bs (bars_by_asset d)\<rparr>"
  obtain b d3 where sk: "should_skip cfg a ?bs d2 = (b, d3)" by fastforce
  have g3: "gated cfg als d3"
    using should_skip_fields [OF sk] assms(1) by (simp add: gated_def d2_def)
  consider "bars_of d a = [] \<or> ?bs = []" | "bars_of d a \<noteq> []" "?bs \<noteq> []" by blast
  then show ?thesis
  proof cases
    case 1
    then have "alerts = [] \<and> cooldowns d' = cooldowns d \<and> d_store d' = d_store d"
      using assms(3) by (auto simp: scan_asset_def time_fn_def Let_def split: if_splits)
    then show ?thesis using assms(1) by (simp add: gated_def)
  next
    case 2
    then have eq: "(alerts, d') = (if b then ([], bump ''alerts_skipped_quality'' d3)
        else scan_levels SL cfg a ?bs [SCOUT, CONFIRMATION, TREND] d3)"
      using assms(3) sk by (simp add: scan_asset_def time_fn_def Let_def d2_def)
    show ?thesis
    proof (cases b)
      case True
      with eq g3 show ?thesis by (simp add: gated_def)
    next
      case False
      with eq have "scan_levels SL cfg a ?bs [SCOUT, CONFIRMATION, TREND] d3 = (alerts, d')" by (simp del: scan_levels.simps)
      then show ?thesis by (rule gated_scan_levels [OF g3 assms(2)])
    qed
  qed
qed

lemma gated_scan_assets:
  "gated cfg als d \<Longrightarrow> 0 \<le> cooldown_sec cfg \<Longrightarrow> scan_assets SL cfg as d = (alerts, d') \<Longrightarrow> gated cfg (als @ alerts) d'"
proof (induction as arbitrary: als alerts d)
  case Nil
  then show ?case by simp
next
  case (Cons a as)
  obtain al1 d1 al2 where *: "scan_asset SL cfg a d = (al1, d1)" "scan_assets SL cfg as d1 = (al2, d')" "alerts = al1 @ al2"
    using Cons.prems(3) by (auto split: prod.splits)
  from Cons.IH [OF gated_scan_asset [OF Cons.prems(1,2) *(1)] Cons.prems(2) *(2)] *(3) show ?case by simp
qed

lemma gated_ingest: "gated cfg als d \<Longrightarrow> gated cfg als (ingest_tick cfg t d)"
proof (rule gated_same)
  assume "gated cfg als d"
  then have "coherent (d_store d)" by (simp add: gated_def)
  then have "coherent (insert_price_tick t s (d_store d))" for s by (simp add: coherent_def insert_price_tick_def)
  with \<open>coherent (d_store d)\<close> show "coherent (d_store (ingest_tick cfg t d))"
    by (auto simp: ingest_tick_def time_fn_def Let_def intro: coherent_last_tick split: option.split)
qed simp_all

lemma detector_run_gated:
  assumes "detector_run SL cfg d als d'" "coherent (d_store d)" "0 \<le> cooldown_sec cfg"
  shows "gated cfg als d'"
  using assms(1)
proof induction
  case run_start
  then show ?case using assms(2) by (simp add: gated_def dict_gate.spaced_Nil)
next
  case (run_ingest als d t)
  then show ?case by (simp add: gated_ingest)
next
  case (run_scan als d alerts d')
  then show ?case using gated_scan_assets [OF _ assms(3)] by (simp add: scan_once_def)
next
  case (run_store als d st)
  then show ?case by (auto simp: gated_def intro: store_step_coherent)
next
  case (run_clock als d c)
  then show ?case by (simp add: gated_def)
qed

lemma gated_spaced:
  "gated cfg als d \<Longrightarrow> sorted_wrt (\<lambda>x y. alert_key x = alert_key y \<longrightarrow>
     alert_timestamp_ms x + cooldown_sec cfg * 1000 \<le> alert_timestamp_ms y) als"
  by (simp add: gated_def dict_gate.spaced_def sorted_wrt_map)

text \<open>
  C24 (safety): no alert storms. Over any run of ingested ticks and scans, with the store changed by
  other parts in between, two alerts of the same asset and level are at least the configured
  cooldown apart, whatever the clock does.
\<close>

theorem alerts_keep_cooldown:
  assumes "detector_run SL cfg d als d'" "coherent (d_store d)" "0 \<le> cooldown_sec cfg"
  shows "sorted_wrt (\<lambda>x y. alert_key x = alert_key y \<longrightarrow>
    alert_timestamp_ms x + cooldown_sec cfg * 1000 \<le> alert_timestamp_ms y) als"
  by (rule gated_spaced [OF detector_run_gated [OF assms]])

section \<open>Evaluated examples\<close>

definition demo_tick :: "int \<Rightarrow> rat \<Rightarrow> price_tick" where
  "demo_tick ts p = \<lparr>tick_asset_id = ''a'', price = p, best_bid = Some (p - 1 / 100), best_ask = Some (p + 1 / 100),
     spread = Some (1 / 50), signal_source = ''midpoint'', quote_ts_ms = Some ts, timestamp_ms = ts\<rparr>"

definition demo_detector_config :: detector_config where
  "demo_detector_config = \<lparr>check_interval_sec = 5, buffer_max_age_sec = 900, bar_interval_sec = 1, cooldown_sec = 300, stale_threshold_sec = 60,
     max_spread_for_detection = 1 / 10, max_quote_age_sec = 60, warmup_grace_sec = 30,
     thresholds = (\<lambda>l. \<lparr>window_sec = 60, th_delta_pct = 5, min_ticks = 3\<rparr>)\<rparr>"

definition demo_detector :: detector where
  "demo_detector = \<lparr>ms_clock = (\<lambda>n. 10000), ms_reads = 0, bars_by_asset = [], latest_tick_by_asset = [], cooldowns = [],
     d_metrics = new_metrics, d_store = upsert_tracked_markets [demo_metadata ''a''] 0 empty_store\<rparr>"

definition demo_ticks :: "price_tick list" where
  "demo_ticks = [demo_tick 7000 (1 / 2), demo_tick 8100 (3 / 5), demo_tick 8900 (11 / 20)]"

lemmas demo_detector_defs = demo_tick_def demo_detector_config_def demo_detector_def demo_slib_def demo_ticks_def

lemma demo_move:
  "price_move \<lparr>window_sec = 60, th_delta_pct = 5, min_ticks = 3\<rparr>
     (recent_ticks demo_detector_config 10000 (ticks_of ''a'' demo_ticks)) =
   Some \<lparr>dl_abs = 10, dl_signed = 10, dl_start = 1 / 2, dl_end = 11 / 20, dl_ticks = 3\<rparr>"
  by (simp add: price_move_def recent_ticks_def ticks_of_def demo_detector_defs bucket_ms_def Let_def)

theorem bars_refine_ticks_witness:
  "compute_delta (prune_bars demo_detector_config 10000 (bars_of (fold (ingest_tick demo_detector_config) demo_ticks demo_detector) ''a''))
     \<lparr>window_sec = 60, th_delta_pct = 5, min_ticks = 3\<rparr> =
   Some \<lparr>dl_abs = 10, dl_signed = 10, dl_start = 1 / 2, dl_end = 11 / 20, dl_ticks = 3\<rparr>"
proof -
  have "mono (ms_clock demo_detector)" "bars_of demo_detector ''a'' = []"
      "sorted (map timestamp_ms (ticks_of ''a'' demo_ticks))"
      "ms_clock demo_detector (ms_reads demo_detector + length demo_ticks) \<le> 10000"
    by (simp_all add: mono_def bars_of_def ticks_of_def demo_detector_defs)
  from bars_refine_ticks [OF this, of demo_detector_config "\<lparr>window_sec = 60, th_delta_pct = 5, min_ticks = 3\<rparr>"] demo_move
  show ?thesis by (simp add: Let_def)
qed

lemma demo_tracked:
  "\<exists>m. get_tracked_market (d_store (fold (ingest_tick demo_detector_config) demo_ticks demo_detector)) ''a'' = Some m \<and> active m"
  by (simp add: demo_detector_defs ingest_tick_def time_fn_def Let_def get_tracked_market_def upsert_tracked_markets_def
      empty_store_def keep_liveness_def demo_metadata_def insert_price_tick_def update_last_tick_def)


theorem alerts_keep_cooldown_witness:
  "sorted_wrt (\<lambda>x y. alert_key x = alert_key y \<longrightarrow> alert_timestamp_ms x + 300000 \<le> alert_timestamp_ms y)
     (fst (scan_once demo_slib demo_detector_config (fold (ingest_tick demo_detector_config) demo_ticks demo_detector)))"
proof -
  let ?d = "fold (ingest_tick demo_detector_config) demo_ticks demo_detector"
  obtain als d' where sc: "scan_once demo_slib demo_detector_config ?d = (als, d')" by fastforce
  have "detector_run demo_slib demo_detector_config demo_detector [] ?d"
    by (simp add: demo_ticks_def run_start run_ingest)
  from run_scan [OF this sc] have run: "detector_run demo_slib demo_detector_config demo_detector als d'" by simp
  have "coherent (d_store demo_detector)"
    using coherent_upsert [of empty_store] by (simp add: demo_detector_def coherent_empty)
  from alerts_keep_cooldown [OF run this] sc show ?thesis by (simp add: demo_detector_config_def)
qed

end
