(* ===== verification/Alert_Dispatcher.thy ===== *)
theory Alert_Dispatcher
  imports Notifications
begin

text \<open>
  \<open>NotificationDispatcher\<close> (\<open>src/src/sentinel/notifications/base.py\<close>): the policy, the
  choice of one alert per event with its cooldown, enrichment and fan-out to the notifiers.
  \<open>float(...)\<close> of a malformed liquidity raises out of the dispatch, which is the result
  \<open>None\<close> here.
\<close>

section \<open>State\<close>

record agent_alert_policy =
  allowed_levels :: "alert_level set"
  excluded_confidences :: "string set"
  excluded_signal_sources :: "string set"
  pol_min_price :: rat
  pol_max_price :: rat
  pol_min_liquidity :: rat
  min_abs_move :: rat
  event_dedup_sec :: int

record dispatcher =
  notifiers :: "notifier list"
  min_severity :: alert_level
  policy :: agent_alert_policy
  dp_metrics :: "metrics option"
  enricher :: "(shift_alert \<Rightarrow> shift_alert option) option"
  event_cooldowns :: "(string \<times> int) list"

text \<open>The enricher gives \<open>None\<close> where it raises.\<close>

definition dp_bump :: "string \<Rightarrow> nat \<Rightarrow> dispatcher \<Rightarrow> dispatcher" where
  "dp_bump name k dp = dp\<lparr>dp_metrics := map_option (increment name (int k)) (dp_metrics dp)\<rparr>"

section \<open>Policy, event and rank\<close>

definition alert_liquidity :: "shift_alert \<Rightarrow> rat option" where
  "alert_liquidity a = float_of_json (jget_default (alert_market a) ''liquidity'' (JFloat 0))"

definition abs_move :: "shift_alert \<Rightarrow> rat" where
  "abs_move a = \<bar>sh_price_end (shift a) - sh_price_start (shift a)\<bar>"

definition is_allowed :: "agent_alert_policy \<Rightarrow> shift_alert \<Rightarrow> bool option" where
  "is_allowed p a =
     (if alert_level a \<notin> allowed_levels p then Some False
      else if str_lower (sq_confidence (signal_quality a)) \<in> excluded_confidences p then Some False
      else if str_lower (sq_signal_source (signal_quality a)) \<in> excluded_signal_sources p then Some False
      else if sh_price_current (shift a) < pol_min_price p \<or> sh_price_current (shift a) > pol_max_price p then Some False
      else if abs_move a < min_abs_move p then Some False
      else case alert_liquidity a of None \<Rightarrow> None
        | Some l \<Rightarrow> Some (\<not> l < pol_min_liquidity p))"

definition event_key :: "slib \<Rightarrow> shift_alert \<Rightarrow> string" where
  "event_key SL a =
     (let market = alert_market a in
      sstr SL (jor (jor (jget market ''event_slug'') (jget market ''event_id'')) (jget market ''asset_id'')))"

fun level_score :: "alert_level \<Rightarrow> int" where
  "level_score CONFIRMATION = 2"
| "level_score TREND = 1"
| "level_score SCOUT = 0"

definition confidence_score :: "string \<Rightarrow> int" where
  "confidence_score c = (if c = ''moderate'' then 1 else if c = ''strong'' then 2 else 0)"

text \<open>Only alerts that passed \<open>is_allowed\<close> are ranked, so their liquidity is a number.\<close>

definition rank_key :: "shift_alert \<Rightarrow> int \<times> int \<times> rat \<times> rat \<times> int \<times> rat" where
  "rank_key a =
     (level_score (alert_level a), confidence_score (str_lower (sq_confidence (signal_quality a))),
      sh_delta_pct (shift a), abs_move a, sh_ticks_in_window (shift a),
      case alert_liquidity a of None \<Rightarrow> 0 | Some l \<Rightarrow> l)"

section \<open>Selection\<close>

fun split_eligible :: "shift_alert list \<Rightarrow> dispatcher \<Rightarrow> (shift_alert list \<times> dispatcher) option" where
  "split_eligible [] dp = Some ([], dp)"
| "split_eligible (a # as) dp =
     (case is_allowed (policy dp) a of
        None \<Rightarrow> None
      | Some True \<Rightarrow> map_option (\<lambda>(es, dp'). (a # es, dp')) (split_eligible as dp)
      | Some False \<Rightarrow> split_eligible as (dp_bump ''alerts_skipped_policy'' 1 dp))"

definition group_of :: "shift_alert list dict \<Rightarrow> string \<Rightarrow> shift_alert list" where
  "group_of d k = (case dict_get d k of None \<Rightarrow> [] | Some g \<Rightarrow> g)"

definition by_event :: "slib \<Rightarrow> shift_alert list \<Rightarrow> shift_alert list dict" where
  "by_event SL alerts =
     foldl (\<lambda>d a. dict_set (event_key SL a) (group_of d (event_key SL a) @ [a]) d) [] alerts"

definition batch_time :: "shift_alert list \<Rightarrow> int" where
  "batch_time eligible = (if eligible = [] then 0 else Max (set (map alert_timestamp_ms eligible)))"

fun select_groups :: "int \<Rightarrow> shift_alert list dict \<Rightarrow> dispatcher \<Rightarrow> shift_alert list \<times> dispatcher" where
  "select_groups now [] dp = ([], dp)"
| "select_groups now ((key, grp) # gs) dp =
     (if until_of (event_cooldowns dp) key > now
      then select_groups now gs (dp_bump ''alerts_skipped_event_dedup'' (length grp) dp)
      else case first_max rank_key grp of
          None \<Rightarrow> select_groups now gs dp
        | Some best \<Rightarrow>
            (case select_groups now gs
                (dp\<lparr>event_cooldowns := close_until (event_dedup_sec (policy dp) * 1000) key (alert_timestamp_ms best)
                   (event_cooldowns dp)\<rparr>) of
               (sel, dp') \<Rightarrow> (best # sel, dp')))"

definition select_for_dispatch :: "slib \<Rightarrow> shift_alert list \<Rightarrow> dispatcher \<Rightarrow> (shift_alert list \<times> dispatcher) option" where
  "select_for_dispatch SL alerts dp =
     (case split_eligible alerts dp of
        None \<Rightarrow> None
      | Some (eligible, dp1) \<Rightarrow> Some (select_groups (batch_time eligible) (by_event SL eligible) dp1))"

section \<open>Delivery\<close>

definition enrich_one :: "(shift_alert \<Rightarrow> shift_alert option) \<Rightarrow> shift_alert \<Rightarrow> shift_alert" where
  "enrich_one enrich a = (case enrich a of None \<Rightarrow> a | Some a' \<Rightarrow> a')"

definition dispatch_one :: "notifier \<Rightarrow> shift_alert \<Rightarrow> dispatcher \<times> net \<Rightarrow> dispatcher \<times> net" where
  "dispatch_one send a s = (case s of (dp, n) \<Rightarrow>
     case send a n of (ok, n') \<Rightarrow> (if ok then dp else dp_bump ''notifier_failures'' 1 dp, n'))"

definition fan_out :: "shift_alert \<Rightarrow> dispatcher \<times> net \<Rightarrow> dispatcher \<times> net" where
  "fan_out a s = (case s of (dp, n) \<Rightarrow>
     if \<not> level_at_least (alert_level a) (min_severity dp) then (dp, n)
     else fold (\<lambda>send. dispatch_one send a) (notifiers dp)
       (if notifiers dp \<noteq> [] then dp_bump ''alerts_dispatched'' 1 dp else dp, n))"

definition dispatch_many ::
  "slib \<Rightarrow> shift_alert list \<Rightarrow> dispatcher \<times> net \<Rightarrow> (shift_alert list \<times> dispatcher \<times> net) option" where
  "dispatch_many SL alerts s = (case s of (dp, n) \<Rightarrow>
     case select_for_dispatch SL alerts dp of
       None \<Rightarrow> None
     | Some (selected, dp1) \<Rightarrow>
         let out = (case enricher dp1 of None \<Rightarrow> selected | Some enrich \<Rightarrow> map (enrich_one enrich) selected) in
         Some (out, fold fan_out out (dp1, n)))"

definition dispatch :: "slib \<Rightarrow> shift_alert \<Rightarrow> dispatcher \<times> net \<Rightarrow> (dispatcher \<times> net) option" where
  "dispatch SL a s = map_option snd (dispatch_many SL [a] s)"

section \<open>What is selected\<close>

lemma dp_bump_fields [simp]:
  "notifiers (dp_bump x k dp) = notifiers dp" "min_severity (dp_bump x k dp) = min_severity dp" "policy (dp_bump x k dp) = policy dp"
  "enricher (dp_bump x k dp) = enricher dp" "event_cooldowns (dp_bump x k dp) = event_cooldowns dp"
  by (simp_all add: dp_bump_def)

definition eligible_of :: "agent_alert_policy \<Rightarrow> shift_alert list \<Rightarrow> shift_alert list" where
  "eligible_of p alerts = filter (\<lambda>a. is_allowed p a = Some True) alerts"

definition events_in_order :: "slib \<Rightarrow> shift_alert list \<Rightarrow> string list" where
  "events_in_order SL alerts = rev (remdups (rev (map (event_key SL) alerts)))"

lemma split_eligible_Some:
  "split_eligible alerts dp = Some (es, dp') \<Longrightarrow>
     es = eligible_of (policy dp) alerts \<and> event_cooldowns dp' = event_cooldowns dp \<and> policy dp' = policy dp"
proof (induction alerts dp arbitrary: es dp' rule: split_eligible.induct)
  case (1 dp)
  then show ?case by (simp add: eligible_of_def)
next
  case (2 a as dp)
  from "2.prems" obtain b where b: "is_allowed (policy dp) a = Some b" by (auto split: option.splits)
  show ?case
  proof (cases b)
    case True
    with b "2.prems" obtain es1 where "split_eligible as dp = Some (es1, dp')" "es = a # es1" by auto
    with "2.IH"(1) [OF b] True b show ?thesis by (auto simp: eligible_of_def)
  next
    case False
    with b "2.prems" have "split_eligible as (dp_bump ''alerts_skipped_policy'' 1 dp) = Some (es, dp')" by simp
    with "2.IH"(2) [OF b] False b show ?thesis by (auto simp: eligible_of_def)
  qed
qed

lemma by_event_snoc:
  "by_event SL (as @ [a]) = dict_set (event_key SL a) (group_of (by_event SL as) (event_key SL a) @ [a]) (by_event SL as)"
  by (simp add: by_event_def)

lemma by_event_keys: "map fst (by_event SL as) = events_in_order SL as"
proof (induction as rule: rev_induct)
  case Nil
  then show ?case by (simp add: by_event_def events_in_order_def)
next
  case (snoc a as)
  then show ?case by (auto simp: by_event_snoc update_keys events_in_order_def)
qed

lemma by_event_groups:
  "dict_get (by_event SL as) k =
     (let g = filter (\<lambda>a. event_key SL a = k) as in if g = [] then None else Some g)"
proof (induction as rule: rev_induct)
  case Nil
  then show ?case by (simp add: by_event_def)
next
  case (snoc a as)
  then show ?case by (auto simp: by_event_snoc group_of_def Let_def)
qed

lemma by_event_distinct: "distinct (map fst (by_event SL as))"
  by (simp add: by_event_keys events_in_order_def)

lemma by_event_group:
  "(k, g) \<in> set (by_event SL as) \<Longrightarrow> g = filter (\<lambda>a. event_key SL a = k) as \<and> g \<noteq> []"
  using map_of_is_SomeI [OF by_event_distinct, of k g SL as] by (auto simp: by_event_groups Let_def split: if_splits)

lemma select_groups_spec:
  assumes "distinct (map fst gs)" "\<And>k g. (k, g) \<in> set gs \<Longrightarrow> g \<noteq> []"
  shows "fst (select_groups now gs dp) =
    map (\<lambda>(k, g). the (first_max rank_key g)) (filter (\<lambda>(k, g). until_of (event_cooldowns dp) k \<le> now) gs)"
  using assms
proof (induction gs arbitrary: dp)
  case Nil
  then show ?case by simp
next
  case (Cons kg gs)
  obtain k g where kg: "kg = (k, g)" by fastforce
  from Cons.prems(2) [of k g] kg obtain best where best: "first_max rank_key g = Some best"
    by (cases "first_max rank_key g") auto
  have other: "fst k' \<noteq> k" if "k' \<in> set gs" for k'
    using Cons.prems(1) kg that by (auto simp: image_iff)
  have "filter (\<lambda>(k', g). until_of (close_until p k t (event_cooldowns dp)) k' \<le> now) gs =
      filter (\<lambda>(k', g). until_of (event_cooldowns dp) k' \<le> now) gs" for p t
    using other by (intro filter_cong) (auto simp: dict_gate.blocked_until_fire)
  moreover have IH: "fst (select_groups now gs dp') =
      map (\<lambda>(k, g). the (first_max rank_key g)) (filter (\<lambda>(k, g). until_of (event_cooldowns dp') k \<le> now) gs)" for dp'
    using Cons.prems kg by (intro Cons.IH) auto
  ultimately show ?case using kg best by (simp add: IH case_prod_unfold)
qed

text \<open>
  C8 (functional): what is dispatched. From a batch of alerts, exactly one alert goes out for each
  event that has an alert within the policy and whose cooldown is over at the latest time of those
  alerts, in the order in which the events first appear; the one chosen is within the policy and
  ranks at least as high as every other such alert of its event.
\<close>

theorem select_for_dispatch_correct:
  assumes "select_for_dispatch SL alerts dp = Some (sel, dp')"
  shows "let eligible = filter (\<lambda>a. is_allowed (policy dp) a = Some True) alerts in
     map (event_key SL) sel =
       filter (\<lambda>k. until_of (event_cooldowns dp) k \<le> batch_time eligible) (rev (remdups (rev (map (event_key SL) eligible)))) \<and>
     (\<forall>a\<in>set sel. a \<in> set eligible \<and> (\<forall>b\<in>set eligible. event_key SL b = event_key SL a \<longrightarrow> rank_key b \<le> rank_key a))"
proof -
  let ?es = "eligible_of (policy dp) alerts" and ?now = "batch_time (eligible_of (policy dp) alerts)"
  let ?best = "\<lambda>(k, g). the (first_max rank_key g)" and ?open = "\<lambda>(k, g). until_of (event_cooldowns dp) k \<le> ?now"
  from assms obtain dp1 where "split_eligible alerts dp = Some (?es, dp1)" "event_cooldowns dp1 = event_cooldowns dp"
      "select_groups ?now (by_event SL ?es) dp1 = (sel, dp')"
    by (auto simp: select_for_dispatch_def split: option.splits dest: split_eligible_Some)
  with select_groups_spec [OF by_event_distinct, of SL ?es ?now dp1] by_event_group
  have sel: "sel = map ?best (filter ?open (by_event SL ?es))" by fastforce
  have best: "event_key SL (?best (k, g)) = k" "?best (k, g) \<in> set ?es"
      "b \<in> set ?es \<Longrightarrow> event_key SL b = k \<Longrightarrow> rank_key b \<le> rank_key (?best (k, g))"
    if "(k, g) \<in> set (by_event SL ?es)" for k g b
  proof -
    from by_event_group [OF that] have g: "g = filter (\<lambda>a. event_key SL a = k) ?es" "g \<noteq> []" by auto
    then obtain x where x: "first_max rank_key g = Some x" by (cases "first_max rank_key g") auto
    from first_max_in [OF x] g show "event_key SL (?best (k, g)) = k" "?best (k, g) \<in> set ?es" using x by auto
    show "rank_key b \<le> rank_key (?best (k, g))" if "b \<in> set ?es" "event_key SL b = k"
      using first_max_greatest [OF x, of b] g that x by simp
  qed
  have "map (event_key SL) sel = map fst (filter ?open (by_event SL ?es))"
    unfolding sel map_map by (rule map_cong) (use best(1) in auto)
  also have "\<dots> = filter (\<lambda>k. until_of (event_cooldowns dp) k \<le> ?now) (map fst (by_event SL ?es))"
    by (simp add: filter_map o_def case_prod_unfold)
  finally have "map (event_key SL) sel = filter (\<lambda>k. until_of (event_cooldowns dp) k \<le> ?now) (events_in_order SL ?es)"
    by (simp only: by_event_keys)
  moreover have "a \<in> set ?es \<and> (\<forall>b\<in>set ?es. event_key SL b = event_key SL a \<longrightarrow> rank_key b \<le> rank_key a)" if "a \<in> set sel" for a
  proof -
    from that sel obtain k g where "(k, g) \<in> set (by_event SL ?es)" "a = ?best (k, g)" by auto
    with best [of k g] show ?thesis by auto
  qed
  ultimately show ?thesis by (simp add: Let_def eligible_of_def events_in_order_def)
qed

section \<open>Event cooldown over a run\<close>

definition dispatch_entry :: "slib \<Rightarrow> int \<Rightarrow> shift_alert \<Rightarrow> string \<times> int \<times> int" where
  "dispatch_entry SL now a = (event_key SL a, now, alert_timestamp_ms a)"

fun dispatch_batches :: "slib \<Rightarrow> shift_alert list list \<Rightarrow> dispatcher \<Rightarrow> ((string \<times> int \<times> int) list \<times> dispatcher) option" where
  "dispatch_batches SL [] dp = Some ([], dp)"
| "dispatch_batches SL (b # bs) dp =
     (case select_for_dispatch SL b dp of
        None \<Rightarrow> None
      | Some (sel, dp1) \<Rightarrow>
          map_option (\<lambda>(es, dp2). (map (dispatch_entry SL (batch_time (eligible_of (policy dp) b))) sel @ es, dp2))
            (dispatch_batches SL bs dp1))"

lemma select_groups_policy: "policy (snd (select_groups now gs dp)) = policy dp"
  by (induction now gs dp rule: select_groups.induct) (auto split: option.split prod.split)

lemma select_groups_spaced:
  assumes "dict_gate.spaced (event_dedup_sec (policy dp) * 1000) es (event_cooldowns dp)" "distinct (map fst gs)"
    and "\<forall>(k, g)\<in>set gs. \<forall>a\<in>set g. event_key SL a = k \<and> (\<forall>n t. (k, n, t) \<in> set es \<longrightarrow> t \<le> alert_timestamp_ms a)"
    and "select_groups now gs dp = (sel, dp')"
  shows "dict_gate.spaced (event_dedup_sec (policy dp) * 1000) (es @ map (dispatch_entry SL now) sel) (event_cooldowns dp') \<and>
    set sel \<subseteq> (\<Union>(k, g)\<in>set gs. set g)"
  using assms
proof (induction gs arbitrary: dp es sel)
  case Nil
  then show ?case by simp
next
  case (Cons kg gs)
  obtain k g where kg: "kg = (k, g)" by fastforce
  consider "until_of (event_cooldowns dp) k > now" | "until_of (event_cooldowns dp) k \<le> now" "g = []"
    | b where "until_of (event_cooldowns dp) k \<le> now" "first_max rank_key g = Some b"
    by (cases "first_max rank_key g") force+
  then show ?case
  proof cases
    case 1
    with Cons.prems(4) kg have "select_groups now gs (dp_bump ''alerts_skipped_event_dedup'' (length g) dp) = (sel, dp')" by simp
    from Cons.IH [OF _ _ _ this, of es] Cons.prems(1-3) kg show ?thesis by auto
  next
    case 2
    with Cons.prems(4) kg have "select_groups now gs dp = (sel, dp')" by simp
    from Cons.IH [OF Cons.prems(1) _ _ this] Cons.prems(2,3) kg show ?thesis by auto
  next
    case (3 b)
    let ?p = "event_dedup_sec (policy dp) * 1000"
    let ?dp = "dp\<lparr>event_cooldowns := close_until ?p k (alert_timestamp_ms b) (event_cooldowns dp)\<rparr>"
    from 3 Cons.prems(4) kg obtain sel1 where s1: "select_groups now gs ?dp = (sel1, dp')" "sel = b # sel1"
      by (auto split: prod.splits)
    have bg: "b \<in> set g" by (rule first_max_in [OF 3(2)])
    with Cons.prems(3) kg have key: "event_key SL b = k"
      and old: "\<And>n t. (k, n, t) \<in> set es \<Longrightarrow> t \<le> alert_timestamp_ms b" by auto
    have sp: "dict_gate.spaced ?p (es @ [dispatch_entry SL now b]) (event_cooldowns ?dp)"
      using dict_gate.spaced_fire [OF Cons.prems(1) 3(1) old] key by (simp add: dispatch_entry_def)
    have "\<forall>(k', g')\<in>set gs. \<forall>a\<in>set g'. event_key SL a = k' \<and>
        (\<forall>n t. (k', n, t) \<in> set (es @ [dispatch_entry SL now b]) \<longrightarrow> t \<le> alert_timestamp_ms a)"
      using Cons.prems(2,3) kg key by (fastforce simp: dispatch_entry_def image_iff)
    from Cons.IH [of ?dp "es @ [dispatch_entry SL now b]", OF _ _ this s1(1)] sp Cons.prems(2) kg s1(2) bg
    show ?thesis by auto
  qed
qed

lemma select_spaced:
  assumes "dict_gate.spaced (event_dedup_sec (policy dp) * 1000) es (event_cooldowns dp)"
    and "\<forall>(k, n, t)\<in>set es. \<forall>a\<in>set alerts. t \<le> alert_timestamp_ms a"
    and "select_for_dispatch SL alerts dp = Some (sel, dp')"
  shows "dict_gate.spaced (event_dedup_sec (policy dp) * 1000)
      (es @ map (dispatch_entry SL (batch_time (eligible_of (policy dp) alerts))) sel) (event_cooldowns dp') \<and>
    policy dp' = policy dp \<and> set sel \<subseteq> set (eligible_of (policy dp) alerts)"
proof -
  let ?es = "eligible_of (policy dp) alerts"
  from assms(3) obtain dp1 where dp1: "event_cooldowns dp1 = event_cooldowns dp" "policy dp1 = policy dp"
      "select_groups (batch_time ?es) (by_event SL ?es) dp1 = (sel, dp')"
    by (auto simp: select_for_dispatch_def split: option.splits dest: split_eligible_Some)
  have g: "event_key SL a = k \<and> (\<forall>n t. (k, n, t) \<in> set es \<longrightarrow> t \<le> alert_timestamp_ms a)" "a \<in> set ?es"
    if "(k, g) \<in> set (by_event SL ?es)" "a \<in> set g" for k g a
    using by_event_group [OF that(1)] that(2) assms(2) by (auto simp: eligible_of_def)
  have "dict_gate.spaced (event_dedup_sec (policy dp1) * 1000) (es @ map (dispatch_entry SL (batch_time ?es)) sel) (event_cooldowns dp') \<and>
      set sel \<subseteq> (\<Union>(k, g)\<in>set (by_event SL ?es). set g)"
    by (rule select_groups_spaced [OF _ by_event_distinct _ dp1(3)]) (use assms(1) dp1 g(1) in auto)
  moreover have "policy dp' = policy dp" using select_groups_policy [of "batch_time ?es" "by_event SL ?es" dp1] dp1 by simp
  ultimately show ?thesis using g(2) dp1(2) by auto
qed

text \<open>
  Event deduplication. Over any sequence of batches whose alerts come in time order,
  an alert of an event is dispatched only when the latest time of its batch is at least the
  configured span after the time of every alert of that event dispatched before.
\<close>

theorem event_dedup_spacing:
  assumes "dispatch_batches SL batches dp = Some (es, dp')" "event_cooldowns dp = []"
    and "sorted_wrt (\<lambda>xs ys. \<forall>x\<in>set xs. \<forall>y\<in>set ys. alert_timestamp_ms x \<le> alert_timestamp_ms y) batches"
  shows "sorted_wrt (\<lambda>(k, now, t) (k', now', t'). k = k' \<longrightarrow> t + event_dedup_sec (policy dp) * 1000 \<le> now') es"
proof -
  have "dict_gate.spaced (event_dedup_sec (policy dp) * 1000) (es0 @ es) (event_cooldowns dp')"
    if "dict_gate.spaced (event_dedup_sec (policy dp) * 1000) es0 (event_cooldowns dp)"
      "dispatch_batches SL batches dp = Some (es, dp')"
      "\<And>k n t b a. (k, n, t) \<in> set es0 \<Longrightarrow> b \<in> set batches \<Longrightarrow> a \<in> set b \<Longrightarrow> t \<le> alert_timestamp_ms a" for es0
    using that assms(3)
  proof (induction batches arbitrary: dp es es0)
    case Nil
    then show ?case by simp
  next
    case (Cons b bs)
    from Cons.prems(2) obtain sel dp1 es1 where *: "select_for_dispatch SL b dp = Some (sel, dp1)"
      "dispatch_batches SL bs dp1 = Some (es1, dp')"
      "es = map (dispatch_entry SL (batch_time (eligible_of (policy dp) b))) sel @ es1"
      by (auto split: option.splits)
    let ?new = "map (dispatch_entry SL (batch_time (eligible_of (policy dp) b))) sel"
    have "\<forall>(k, n, t)\<in>set es0. \<forall>a\<in>set b. t \<le> alert_timestamp_ms a"
      using Cons.prems(3) [of _ _ _ b] by fastforce
    from select_spaced [OF Cons.prems(1) this *(1)]
    have sp: "dict_gate.spaced (event_dedup_sec (policy dp) * 1000) (es0 @ ?new) (event_cooldowns dp1)"
        "policy dp1 = policy dp" "set sel \<subseteq> set b" by (auto simp: eligible_of_def)
    have "t \<le> alert_timestamp_ms a" if "(k, n, t) \<in> set (es0 @ ?new)" "c \<in> set bs" "a \<in> set c" for k n t c a
      using that Cons.prems(3) [of k n t c a] Cons.prems(4) sp(3) by (auto simp: dispatch_entry_def)
    then have "dict_gate.spaced (event_dedup_sec (policy dp1) * 1000) ((es0 @ ?new) @ es1) (event_cooldowns dp')"
      by (intro Cons.IH [OF _ *(2)]) (use sp Cons.prems(4) in auto)
    then show ?case using sp(2) *(3) by simp
  qed
  from this [of "[]"] assms(1,2) show ?thesis by (simp add: dict_gate.spaced_Nil) (simp add: dict_gate.spaced_def)
qed

section \<open>Fan-out\<close>

definition failures :: "notifier list \<Rightarrow> shift_alert \<Rightarrow> net \<Rightarrow> nat" where
  "failures sends a n = fst (fold (\<lambda>send (k, n). case send a n of (ok, n') \<Rightarrow> (if ok then k else Suc k, n')) sends (0, n))"

lemma increment_zero [simp]: "increment x 0 m = m"
  by (simp add: increment_def)

lemma increment_twice [simp]: "increment x k (increment x j m) = increment x (j + k) m"
  by (simp add: increment_def add.assoc)

lemma fold_dispatch_one:
  "fold (\<lambda>send. dispatch_one send a) sends (dp, n) = (dp', n') \<Longrightarrow>
   fold (\<lambda>send (k, n). case send a n of (ok, n') \<Rightarrow> (if ok then k else Suc k, n')) sends (j, n) = (m, n'') \<Longrightarrow>
   n' = fold (\<lambda>send n. snd (send a n)) sends n \<and> n'' = n' \<and> j \<le> m \<and>
   dp_metrics dp' = map_option (increment ''notifier_failures'' (int m - int j)) (dp_metrics dp)"
proof (induction sends arbitrary: dp n j)
  case Nil
  then show ?case by (cases "dp_metrics dp") auto
next
  case (Cons send sends)
  obtain ok n1 where s: "send a n = (ok, n1)" by fastforce
  show ?case
  proof (cases ok)
    case True
    with Cons.prems s Cons.IH [of dp n1 j] show ?thesis by (simp add: dispatch_one_def)
  next
    case False
    with Cons.prems s Cons.IH [of "dp_bump ''notifier_failures'' 1 dp" n1 "Suc j"] show ?thesis
      by (cases "dp_metrics dp") (auto simp: dispatch_one_def dp_bump_def)
  qed
qed

text \<open>
  C38 (error): a failing notifier does not keep an alert from the others. An alert below the minimum
  severity is sent to nobody; any other alert is handed to every configured notifier in turn,
  whatever happened to the ones before, and the failure counter grows by the number of notifiers
  that raised.
\<close>

theorem fan_out_isolated:
  "let out = fan_out a (dp, n); start = (if notifiers dp \<noteq> [] then dp_bump ''alerts_dispatched'' 1 dp else dp) in
   if level_at_least (alert_level a) (min_severity dp)
   then snd out = fold (\<lambda>send n. snd (send a n)) (notifiers dp) n \<and>
     dp_metrics (fst out) = map_option (increment ''notifier_failures'' (int (failures (notifiers dp) a n))) (dp_metrics start)
   else out = (dp, n)"
proof -
  define start where "start = (if notifiers dp \<noteq> [] then dp_bump ''alerts_dispatched'' 1 dp else dp)"
  obtain dp' n' where f: "fold (\<lambda>send. dispatch_one send a) (notifiers dp) (start, n) = (dp', n')" by fastforce
  obtain m n'' where g: "fold (\<lambda>send (k, n). case send a n of (ok, n') \<Rightarrow> (if ok then k else Suc k, n')) (notifiers dp) (0, n) = (m, n'')"
    by fastforce
  from fold_dispatch_one [OF f g] f g show ?thesis
    by (auto simp: fan_out_def Let_def failures_def start_def [symmetric])
qed

section \<open>Evaluated examples\<close>

definition demo_policy :: agent_alert_policy where
  "demo_policy = \<lparr>allowed_levels = {CONFIRMATION, TREND}, excluded_confidences = {''weak''}, excluded_signal_sources = {''last_trade''},
     pol_min_price = 1 / 10, pol_max_price = 9 / 10, pol_min_liquidity = 25000, min_abs_move = 1 / 50, event_dedup_sec = 900\<rparr>"

definition demo_dispatcher :: dispatcher where
  "demo_dispatcher = \<lparr>notifiers = [], min_severity = SCOUT, policy = demo_policy, dp_metrics = None, enricher = None,
     event_cooldowns = []\<rparr>"

definition demo_batch :: "int \<Rightarrow> shift_alert list" where
  "demo_batch ts = [demo_alert SCOUT ts 30, demo_alert TREND ts 20, demo_alert CONFIRMATION ts 10]"

lemmas demo_dispatch_defs = demo_policy_def demo_dispatcher_def demo_batch_def demo_alert_def demo_slib_def

lemma demo_allowed:
  "is_allowed demo_policy (demo_alert l ts delta) = Some (l \<noteq> SCOUT)"
  by (cases l) (simp_all add: is_allowed_def demo_dispatch_defs str_lower_def lower_char_def abs_move_def alert_liquidity_def
      jget_default_def)

lemma demo_event: "event_key demo_slib (demo_alert l ts delta) = ''ev''"
  by (simp add: event_key_def Let_def demo_dispatch_defs jget_def jget_default_def jor_def sstr_def py_str_def)

lemma demo_select:
  "select_for_dispatch demo_slib (demo_batch ts) (demo_dispatcher\<lparr>event_cooldowns := cds\<rparr>) =
     (if until_of cds ''ev'' > ts then Some ([], demo_dispatcher\<lparr>event_cooldowns := cds\<rparr>)
      else Some ([demo_alert CONFIRMATION ts 10], demo_dispatcher\<lparr>event_cooldowns := close_until 900000 ''ev'' ts cds\<rparr>))"
proof -
  have r: "\<not> rank_key (demo_alert CONFIRMATION ts 10) \<le> rank_key (demo_alert TREND ts 20)"
    by (simp add: rank_key_def demo_alert_def)
  have ts: "alert_timestamp_ms (demo_alert l ts delta) = ts" for l delta by (simp add: demo_alert_def)
  have p: "policy demo_dispatcher = demo_policy" "dp_metrics demo_dispatcher = None" "event_dedup_sec demo_policy = 900"
    by (simp_all add: demo_dispatcher_def demo_policy_def)
  have bump: "dp_bump x k (demo_dispatcher\<lparr>event_cooldowns := cds\<rparr>) = demo_dispatcher\<lparr>event_cooldowns := cds\<rparr>" for x k
    by (simp add: dp_bump_def demo_dispatcher_def)
  show ?thesis
    by (simp add: demo_batch_def select_for_dispatch_def demo_allowed demo_event p bump r ts by_event_def group_of_def batch_time_def)
qed

theorem select_for_dispatch_correct_witness:
  "\<exists>sel dp. select_for_dispatch demo_slib (demo_batch 7) demo_dispatcher = Some (sel, dp) \<and>
     map alert_level sel = [CONFIRMATION] \<and> rank_key (demo_alert TREND 7 20) \<le> rank_key (hd sel)"
proof -
  have d: "demo_dispatcher\<lparr>event_cooldowns := []\<rparr> = demo_dispatcher" by (simp add: demo_dispatcher_def)
  have s: "select_for_dispatch demo_slib (demo_batch 7) demo_dispatcher =
      Some ([demo_alert CONFIRMATION 7 10], demo_dispatcher\<lparr>event_cooldowns := close_until 900000 ''ev'' 7 []\<rparr>)"
    using demo_select [of 7 "[]"] unfolding d by (simp add: until_of_def)
  have el: "filter (\<lambda>a. is_allowed (policy demo_dispatcher) a = Some True) (demo_batch 7) =
      [demo_alert TREND 7 20, demo_alert CONFIRMATION 7 10]"
    by (simp add: demo_dispatcher_def demo_batch_def demo_allowed)
  from select_for_dispatch_correct [OF s, unfolded el Let_def, THEN conjunct2]
  have "rank_key (demo_alert TREND 7 20) \<le> rank_key (demo_alert CONFIRMATION 7 10)"
    using demo_event by simp
  with s show ?thesis by (simp add: demo_alert_def)
qed

theorem event_dedup_spacing_witness:
  "\<exists>es dp. dispatch_batches demo_slib [demo_batch 7, demo_batch 8, demo_batch 900007] demo_dispatcher = Some (es, dp) \<and>
     map snd es = [(7, 7), (900007, 900007)] \<and>
     sorted_wrt (\<lambda>(k, now, t) (k', now', t'). k = k' \<longrightarrow> t + 900000 \<le> now') es"
proof -
  have d: "demo_dispatcher\<lparr>event_cooldowns := []\<rparr> = demo_dispatcher" by (simp add: demo_dispatcher_def)
  have p: "policy (demo_dispatcher\<lparr>event_cooldowns := cds\<rparr>) = demo_policy" for cds by (simp add: demo_dispatcher_def)
  have b: "batch_time (eligible_of demo_policy (demo_batch ts)) = ts" for ts
    by (simp add: demo_batch_def eligible_of_def demo_allowed batch_time_def) (simp add: demo_alert_def)
  have e: "dispatch_entry demo_slib now (demo_alert CONFIRMATION ts 10) = (''ev'', now, ts)" for now ts
    by (simp add: dispatch_entry_def demo_event) (simp add: demo_alert_def)
  have "dispatch_batches demo_slib [demo_batch 7, demo_batch 8, demo_batch 900007] (demo_dispatcher\<lparr>event_cooldowns := []\<rparr>) =
      Some ([(''ev'', 7, 7), (''ev'', 900007, 900007)],
        demo_dispatcher\<lparr>event_cooldowns := close_until 900000 ''ev'' 900007 (close_until 900000 ''ev'' 7 [])\<rparr>)"
    by (simp add: demo_select p b e until_of_def close_until_def)
  then have run: "dispatch_batches demo_slib [demo_batch 7, demo_batch 8, demo_batch 900007] demo_dispatcher =
      Some ([(''ev'', 7, 7), (''ev'', 900007, 900007)],
        demo_dispatcher\<lparr>event_cooldowns := close_until 900000 ''ev'' 900007 (close_until 900000 ''ev'' 7 [])\<rparr>)"
    unfolding d .
  have "sorted_wrt (\<lambda>(k, now, t) (k', now', t'). k = k' \<longrightarrow> t + event_dedup_sec (policy demo_dispatcher) * 1000 \<le> now')
      [(''ev'', 7, 7), (''ev'', 900007, 900007)]"
    by (rule event_dedup_spacing [OF run]) (simp_all add: demo_dispatcher_def demo_batch_def demo_alert_def)
  with run show ?thesis by (simp add: demo_dispatcher_def demo_policy_def)
qed

end
