(* ===== verification/Backtest.thy ===== *)
theory Backtest
  imports Detector_Alerts Alert_Dispatcher
begin

text \<open>
  The detector and the dispatcher together, live (\<open>ShiftDetector.scan_once\<close> with its
  dispatcher, \<open>src/src/sentinel/processing/detector.py\<close>) and replayed
  (\<open>src/src/sentinel/processing/stream.py\<close>, \<open>src/scripts/backtest.py\<close>).
\<close>

section \<open>Scan and dispatch\<close>

text \<open>\<open>None\<close> where the dispatch raises.\<close>

definition scan_and_dispatch ::
  "slib \<Rightarrow> detector_config \<Rightarrow> detector \<times> dispatcher \<times> net \<Rightarrow> (shift_alert list \<times> detector \<times> dispatcher \<times> net) option" where
  "scan_and_dispatch SL cfg s = (case s of (d, dp, n) \<Rightarrow>
     case scan_once SL cfg d of (alerts, d') \<Rightarrow>
     map_option (\<lambda>(out, dp', n'). (alerts, d', dp', n')) (dispatch_many SL alerts (dp, n)))"

definition from_detector :: "shift_alert \<Rightarrow> bool" where
  "from_detector al \<longleftrightarrow> (\<exists>SL cfg a l now m t dl. al = build_alert SL cfg a l now m t dl)"

lemma from_detector_build: "from_detector (build_alert SL cfg a l now m t dl)"
  unfolding from_detector_def by blast

lemma maybe_from_detector: "maybe_create_alert SL cfg a bars l d = (Some al, d') \<Longrightarrow> from_detector al"
  by (auto simp: maybe_create_alert_def Let_def intro: from_detector_build split: option.splits if_splits prod.splits)

lemma levels_from_detector: "scan_levels SL cfg a bars ls d = (alerts, d') \<Longrightarrow> al \<in> set alerts \<Longrightarrow> from_detector al"
proof (induction ls arbitrary: d alerts)
  case (Cons l ls)
  obtain r d1 alerts1 where *: "maybe_create_alert SL cfg a bars l d = (r, d1)" "scan_levels SL cfg a bars ls d1 = (alerts1, d')"
    "alerts = (case r of None \<Rightarrow> alerts1 | Some al \<Rightarrow> al # alerts1)"
    using Cons.prems(1) by (auto split: prod.splits)
  with Cons.IH [OF *(2)] Cons.prems(2) show ?case by (cases r) (auto intro: maybe_from_detector)
qed simp

lemma asset_from_detector: "scan_asset SL cfg a d = (alerts, d') \<Longrightarrow> al \<in> set alerts \<Longrightarrow> from_detector al"
  unfolding scan_asset_def
  by (auto simp: Let_def intro: levels_from_detector split: if_splits prod.splits simp del: scan_levels.simps)

lemma scan_from_detector: "scan_assets SL cfg as d = (alerts, d') \<Longrightarrow> al \<in> set alerts \<Longrightarrow> from_detector al"
proof (induction as arbitrary: d alerts)
  case (Cons a as)
  then show ?case by (auto split: prod.splits intro: asset_from_detector)
qed simp

lemma from_detector_allowed: "from_detector al \<Longrightarrow> is_allowed p al \<noteq> None"
  by (auto simp: from_detector_def is_allowed_def alert_liquidity_def build_alert_def Let_def market_payload_def jget_default_def)

lemma split_eligible_total:
  "\<forall>al\<in>set alerts. is_allowed (policy dp) al \<noteq> None \<Longrightarrow> split_eligible alerts dp \<noteq> None"
proof (induction alerts dp rule: split_eligible.induct)
  case (2 a as dp)
  then obtain b where "is_allowed (policy dp) a = Some b" by auto
  with 2 show ?case by (cases b) auto
qed simp

lemma scan_selects:
  assumes "scan_once SL cfg d = (alerts, d')"
  shows "\<exists>sel dp'. select_for_dispatch SL alerts dp = Some (sel, dp')"
proof -
  have "\<forall>al\<in>set alerts. is_allowed (policy dp) al \<noteq> None"
    using assms from_detector_allowed scan_from_detector unfolding scan_once_def by blast
  then obtain es dp1 where "split_eligible alerts dp = Some (es, dp1)" using split_eligible_total by fastforce
  then show ?thesis by (cases "select_groups (batch_time es) (by_event SL es) dp1") (simp add: select_for_dispatch_def)
qed

lemma scan_dispatch_some:
  "\<exists>alerts d' dp' n'. scan_and_dispatch SL cfg (d, dp, n) = Some (alerts, d', dp', n')"
proof -
  obtain alerts d' where sc: "scan_once SL cfg d = (alerts, d')" by fastforce
  from scan_selects [OF this] obtain sel dp2 where "select_for_dispatch SL alerts dp = Some (sel, dp2)" by blast
  then show ?thesis using sc by (simp add: scan_and_dispatch_def dispatch_many_def Let_def split: prod.split)
qed

text \<open>
  The detector's alerts never break the dispatcher. Whatever the state, a scan hands the
  dispatcher alerts whose fields have the types it expects, so the dispatch does not raise and the
  scan loop goes on.
\<close>

theorem scan_dispatch_total:
  "\<exists>alerts d' dp' n'. scan_and_dispatch SL cfg (d, dp, n) = Some (alerts, d', dp', n')"
  by (rule scan_dispatch_some)

section \<open>Replay\<close>

text \<open>\<open>VirtualClock.set\<close>: the clock reads the given time until it is set again.\<close>

definition set_clock :: "int \<Rightarrow> detector \<Rightarrow> detector" where
  "set_clock ts d = d\<lparr>ms_clock := (\<lambda>_. ts)\<rparr>"

text \<open>The ticks of the archived rows in the order of their time, and the time slept before each.\<close>

definition replay_ticks :: "price_tick list \<Rightarrow> price_tick list" where
  "replay_ticks rows = sort_key timestamp_ms rows"

lemma replay_ticks_sorted: "sorted (map timestamp_ms (replay_ticks rows))"
  by (simp add: replay_ticks_def)

fun replay_delays :: "rat \<Rightarrow> int option \<Rightarrow> price_tick list \<Rightarrow> rat list" where
  "replay_delays speed prev [] = []"
| "replay_delays speed prev (t # ts) =
     (case prev of
        Some p \<Rightarrow>
          if speed > 0
          then (let delay = max (of_int (timestamp_ms t - p) / 1000 / speed) 0 in if delay \<noteq> 0 then [delay] else [])
          else []
      | None \<Rightarrow> []) @ replay_delays speed (Some (timestamp_ms t)) ts"

record backtest =
  bt_detector :: detector
  bt_dispatcher :: dispatcher
  bt_net :: net
  seen_assets :: "string set"
  bt_alerts :: "shift_alert list"

definition activate_seen :: "price_tick \<Rightarrow> backtest \<Rightarrow> backtest" where
  "activate_seen t b =
     (let d = bt_detector b; a = tick_asset_id t in
      if a \<notin> seen_assets b \<and> get_tracked_market (d_store d) a \<noteq> None
      then b\<lparr>bt_detector := d\<lparr>d_store := set_market_active [a] True (timestamp_ms t) (d_store d)\<rparr>,
             seen_assets := insert a (seen_assets b)\<rparr>
      else b)"

definition backtest_tick :: "slib \<Rightarrow> detector_config \<Rightarrow> price_tick \<Rightarrow> backtest \<Rightarrow> backtest option" where
  "backtest_tick SL cfg t b0 =
     (let b = activate_seen t (b0\<lparr>bt_detector := set_clock (timestamp_ms t) (bt_detector b0)\<rparr>);
          d = ingest_tick cfg t (bt_detector b) in
      map_option (\<lambda>(alerts, d', dp', n'). b\<lparr>bt_detector := d', bt_dispatcher := dp', bt_net := n', bt_alerts := bt_alerts b @ alerts\<rparr>)
        (scan_and_dispatch SL cfg (d, bt_dispatcher b, bt_net b)))"

fun run_backtest :: "slib \<Rightarrow> detector_config \<Rightarrow> price_tick list \<Rightarrow> backtest \<Rightarrow> backtest option" where
  "run_backtest SL cfg [] b = Some b"
| "run_backtest SL cfg (t # ts) b =
     (case backtest_tick SL cfg t b of None \<Rightarrow> None | Some b' \<Rightarrow> run_backtest SL cfg ts b')"

lemma backtest_tick_run:
  assumes "detector_run SL cfg d0 (bt_alerts b) (bt_detector b)"
  shows "\<exists>b'. backtest_tick SL cfg t b = Some b' \<and> detector_run SL cfg d0 (bt_alerts b') (bt_detector b')"
proof -
  let ?b1 = "b\<lparr>bt_detector := set_clock (timestamp_ms t) (bt_detector b)\<rparr>"
  let ?b2 = "activate_seen t ?b1"
  have "detector_run SL cfg d0 (bt_alerts ?b1) (bt_detector ?b1)" using run_clock [OF assms] by (simp add: set_clock_def)
  then have "detector_run SL cfg d0 (bt_alerts ?b2) (bt_detector ?b2)"
    using run_store [OF _ store_step.intros(3)] by (auto simp: activate_seen_def Let_def)
  from run_ingest [OF this, of t] have r: "detector_run SL cfg d0 (bt_alerts ?b2) (ingest_tick cfg t (bt_detector ?b2))" .
  obtain alerts d' where sc: "scan_once SL cfg (ingest_tick cfg t (bt_detector ?b2)) = (alerts, d')" by fastforce
  from scan_dispatch_some [of SL cfg "ingest_tick cfg t (bt_detector ?b2)" "bt_dispatcher ?b2" "bt_net ?b2"] sc obtain dp' n' where
    "scan_and_dispatch SL cfg (ingest_tick cfg t (bt_detector ?b2), bt_dispatcher ?b2, bt_net ?b2) = Some (alerts, d', dp', n')"
    by (auto simp: scan_and_dispatch_def)
  with run_scan [OF r sc] show ?thesis by (simp add: backtest_tick_def Let_def)
qed

lemma run_backtest_run:
  "detector_run SL cfg d0 (bt_alerts b) (bt_detector b) \<Longrightarrow>
   \<exists>b'. run_backtest SL cfg ts b = Some b' \<and> detector_run SL cfg d0 (bt_alerts b') (bt_detector b')"
proof (induction ts arbitrary: b)
  case (Cons t ts)
  from backtest_tick_run [OF Cons.prems, of t] Cons.IH show ?case by fastforce
qed simp

section \<open>The backtest script\<close>

text \<open>
  The last metadata of each asset wins. The store is seeded only when there is any, at time 0.
\<close>

definition seed_market_metadata :: "market_metadata list \<Rightarrow> store \<Rightarrow> store" where
  "seed_market_metadata items st =
     (let latest = foldl (\<lambda>d m. dict_set (asset_id m) m d) [] items in
      if latest \<noteq> [] then upsert_tracked_markets (map snd latest) 0 st else st)"

definition backtest_policy :: agent_alert_policy where
  "backtest_policy = \<lparr>allowed_levels = {SCOUT, CONFIRMATION, TREND}, excluded_confidences = {}, excluded_signal_sources = {},
     pol_min_price = 0, pol_max_price = 1, pol_min_liquidity = 0, min_abs_move = 0, event_dedup_sec = 0\<rparr>"

text \<open>The clock starts at 0; the printing notifier stands for the notifiers \<open>ns\<close>.\<close>

definition backtest_start :: "market_metadata list \<Rightarrow> notifier list \<Rightarrow> net \<Rightarrow> backtest" where
  "backtest_start items ns n =
     \<lparr>bt_detector = \<lparr>ms_clock = (\<lambda>_. 0), ms_reads = 0, bars_by_asset = [], latest_tick_by_asset = [], cooldowns = [],
        d_metrics = new_metrics, d_store = seed_market_metadata items empty_store\<rparr>,
      bt_dispatcher = \<lparr>notifiers = ns, min_severity = SCOUT, policy = backtest_policy, dp_metrics = None, enricher = None,
        event_cooldowns = []\<rparr>,
      bt_net = n, seen_assets = {}, bt_alerts = []\<rparr>"

definition backtest_main ::
  "slib \<Rightarrow> detector_config \<Rightarrow> market_metadata list \<Rightarrow> price_tick list \<Rightarrow> notifier list \<Rightarrow> net \<Rightarrow> backtest option" where
  "backtest_main SL cfg items rows ns n = run_backtest SL cfg (replay_ticks rows) (backtest_start items ns n)"

lemma backtest_start_coherent: "coherent (d_store (bt_detector (backtest_start items ns n)))"
  by (simp add: backtest_start_def seed_market_metadata_def Let_def coherent_empty coherent_upsert)



end
