(* ===== verification/Sentinel_App.thy ===== *)
theory Sentinel_App
  imports Subscriptions Enrichment Archive Backtest
begin

text \<open>
  The sentinel as a whole (\<open>SentinelApp\<close>, \<open>src/src/sentinel/app.py\<close>): its parts share one
  store, one clock, one set of metrics and two queues, and its tasks take steps in any order. The
  detector's record holds the shared store, clock and metrics; each other part is given them for
  its step. A step is one round of a task.
\<close>

section \<open>Building the dispatcher\<close>

text \<open>\<open>AlertLevel(s)\<close>, which raises on any other text.\<close>

definition level_of :: "string \<Rightarrow> alert_level option" where
  "level_of s = List.find (\<lambda>l. level_value l = s) [SCOUT, CONFIRMATION, TREND]"

fun levels_of :: "string list \<Rightarrow> alert_level list option" where
  "levels_of [] = Some []"
| "levels_of (s # ss) =
     (case level_of s of None \<Rightarrow> None | Some l \<Rightarrow> map_option ((#) l) (levels_of ss))"

definition build_policy :: "notifications_config \<Rightarrow> agent_alert_policy option" where
  "build_policy cfg =
     map_option (\<lambda>ls. \<lparr>allowed_levels = set ls, excluded_confidences = str_lower ` set (cfg_excluded_confidences cfg),
         excluded_signal_sources = str_lower ` set (cfg_excluded_signal_sources cfg), pol_min_price = cfg_min_price cfg,
         pol_max_price = cfg_max_price cfg, pol_min_liquidity = cfg_min_liquidity cfg, min_abs_move = cfg_min_abs_move cfg,
         event_dedup_sec = cfg_event_dedup_sec cfg\<rparr>)
       (levels_of (cfg_allowed_levels cfg))"

text \<open>The enricher reads the store when it is called: a step that dispatches gives it the store of that moment.\<close>

definition enricher_on :: "slib \<Rightarrow> store \<Rightarrow> (shift_alert \<Rightarrow> shift_alert option) option" where
  "enricher_on SL st = Some (\<lambda>al. Some (enrich SL st al))"

definition build_dispatcher ::
  "slib \<Rightarrow> (string \<Rightarrow> string) \<Rightarrow> notifications_config \<Rightarrow> metrics \<Rightarrow> store \<Rightarrow> dispatcher option" where
  "build_dispatcher SL quote cfg m st =
     (case level_of (cfg_min_severity cfg) of
        None \<Rightarrow> None
      | Some sev \<Rightarrow>
          map_option (\<lambda>pol. \<lparr>notifiers = build_notifiers SL quote cfg, min_severity = sev, policy = pol, dp_metrics = Some m,
              enricher = enricher_on SL st, event_cooldowns = []\<rparr>)
            (build_policy cfg))"

section \<open>The application\<close>

record sentinel_config =
  sc_gatekeeper :: gatekeeper_config
  sc_websocket :: websocket_config
  sc_detector :: detector_config
  sc_storage :: storage_config
  sc_notifications :: notifications_config

record sentinel_app =
  sa_detector :: detector
  sa_dispatcher :: dispatcher
  sa_net :: net
  sa_commands :: "subscription_command list"
  sa_client :: ws_client
  sa_archive :: archive

abbreviation sa_store :: "sentinel_app \<Rightarrow> store" where
  "sa_store a \<equiv> d_store (sa_detector a)"

definition share :: "store \<Rightarrow> metrics \<Rightarrow> sentinel_app \<Rightarrow> sentinel_app" where
  "share st m a = a\<lparr>sa_detector := (sa_detector a)\<lparr>d_store := st, d_metrics := m\<rparr>\<rparr>"

text \<open>Reading the clock.\<close>

definition app_now :: "sentinel_app \<Rightarrow> int \<times> sentinel_app" where
  "app_now a = (case time_fn (sa_detector a) of (now, d) \<Rightarrow> (now, a\<lparr>sa_detector := d\<rparr>))"

text \<open>
  The start, up to the first gatekeeper run: the tables and files are those on disk; \<open>None\<close>
  where the configuration names a level that does not exist.
\<close>

definition app_start ::
  "slib \<Rightarrow> (string \<Rightarrow> string) \<Rightarrow> sentinel_config \<Rightarrow> (nat \<Rightarrow> int) \<Rightarrow> store \<Rightarrow> archive \<Rightarrow> net \<Rightarrow> sentinel_app option" where
  "app_start SL quote cfg clock disk arch n =
     map_option (\<lambda>dp. \<lparr>sa_detector = \<lparr>ms_clock = clock, ms_reads = 0, bars_by_asset = [], latest_tick_by_asset = [],
           cooldowns = [], d_metrics = new_metrics, d_store = refresh_cache disk\<rparr>,
         sa_dispatcher = dp, sa_net = n, sa_commands = [],
         sa_client = \<lparr>ws_assets = {}, sent = [], output_queue = [], ws_metrics = new_metrics\<rparr>,
         sa_archive = arch\<rparr>)
       (build_dispatcher SL quote (sc_notifications cfg) new_metrics (refresh_cache disk))"

section \<open>Steps\<close>

text \<open>\<open>None\<close> where the run raises or does not end: the loop logs the exception and changes nothing.\<close>

definition app_poll :: "slib \<Rightarrow> sentinel_config \<Rightarrow> events_api \<Rightarrow> string \<Rightarrow> sentinel_app \<Rightarrow> sentinel_app option" where
  "app_poll SL cfg api now_iso a0 =
     (case app_now a0 of (now, a) \<Rightarrow>
      case run_once SL (sc_gatekeeper cfg) api now now_iso
          \<lparr>gk_store = sa_store a, command_queue = sa_commands a, gk_metrics = d_metrics (sa_detector a)\<rparr> of
        Some (Some (diff, g)) \<Rightarrow> Some (share (gk_store g) (gk_metrics g) (a\<lparr>sa_commands := command_queue g\<rparr>))
      | _ \<Rightarrow> None)"

definition app_command :: "sentinel_config \<Rightarrow> sentinel_app \<Rightarrow> sentinel_app" where
  "app_command cfg a = (case sa_commands a of
       [] \<Rightarrow> a
     | c # q \<Rightarrow> a\<lparr>sa_commands := q, sa_client := on_command (sc_websocket cfg) c (sa_client a)\<rparr>)"

definition app_connect :: "sentinel_config \<Rightarrow> sentinel_app \<Rightarrow> sentinel_app" where
  "app_connect cfg a = a\<lparr>sa_client := on_connect (sc_websocket cfg) (sa_client a)\<rparr>"

text \<open>A message: its ticks go to the queue, its resolved markets to the callback.\<close>

definition app_message :: "slib \<Rightarrow> sentinel_config \<Rightarrow> string \<Rightarrow> sentinel_app \<Rightarrow> market_resolved_event list \<times> sentinel_app" where
  "app_message SL cfg raw a =
     (case on_message SL (sc_websocket cfg) raw ((sa_client a)\<lparr>ws_metrics := d_metrics (sa_detector a)\<rparr>) of (evs, w) \<Rightarrow>
      (evs, a\<lparr>sa_client := w, sa_detector := fold on_market_resolved evs ((sa_detector a)\<lparr>d_metrics := ws_metrics w\<rparr>)\<rparr>))"

definition app_ingest :: "sentinel_config \<Rightarrow> sentinel_app \<Rightarrow> sentinel_app" where
  "app_ingest cfg a = (case output_queue (sa_client a) of
       [] \<Rightarrow> a
     | t # q \<Rightarrow> a\<lparr>sa_client := (sa_client a)\<lparr>output_queue := q\<rparr>, sa_detector := ingest_tick (sc_detector cfg) t (sa_detector a)\<rparr>)"

definition app_archive :: "sentinel_config \<Rightarrow> sentinel_app \<Rightarrow> sentinel_app" where
  "app_archive cfg a0 =
     (case app_now a0 of (now, a) \<Rightarrow>
      case archive_once (sc_storage cfg) now \<lparr>ar_store = sa_store a, archive_files = sa_archive a, ar_metrics = d_metrics (sa_detector a)\<rparr> of
        (ok, r) \<Rightarrow> share (ar_store r) (ar_metrics r) (a\<lparr>sa_archive := archive_files r\<rparr>))"

text \<open>The directory of alert files is what the file system lists when the step is taken.\<close>

definition app_prune :: "sentinel_config \<Rightarrow> string \<Rightarrow> alert_dir \<Rightarrow> sentinel_app \<Rightarrow> alert_dir \<times> sentinel_app" where
  "app_prune cfg now_iso dir a0 =
     (case app_now a0 of (now, a) \<Rightarrow>
      case prune_once (sc_storage cfg) (sc_notifications cfg) now now_iso
          \<lparr>rt_store = sa_store a, alert_files = dir, rt_archive = sa_archive a, rt_metrics = d_metrics (sa_detector a)\<rparr> of
        (ok, r) \<Rightarrow> (alert_files r, share (rt_store r) (rt_metrics r) (a\<lparr>sa_archive := rt_archive r\<rparr>)))"

text \<open>
  A scan with its dispatch, giving the alerts that were handed to the notifiers; \<open>None\<close> where
  the dispatch raises.
\<close>

definition app_scan :: "slib \<Rightarrow> sentinel_config \<Rightarrow> sentinel_app \<Rightarrow> (shift_alert list \<times> sentinel_app) option" where
  "app_scan SL cfg a =
     (case scan_once SL (sc_detector cfg) (sa_detector a) of (alerts, d) \<Rightarrow>
      case dispatch_many SL alerts
          ((sa_dispatcher a)\<lparr>dp_metrics := Some (d_metrics d), enricher := enricher_on SL (d_store d)\<rparr>, sa_net a) of
        None \<Rightarrow> None
      | Some (out, dp, n) \<Rightarrow>
          Some (filter (\<lambda>al. level_at_least (alert_level al) (min_severity dp)) out,
            a\<lparr>sa_detector := d\<lparr>d_metrics := (case dp_metrics dp of None \<Rightarrow> d_metrics d | Some m \<Rightarrow> m)\<rparr>,
              sa_dispatcher := dp, sa_net := n\<rparr>))"

text \<open>
  Runs of the application, with the assets reported resolved and the alerts that were handed to
  the notifiers, each with the time at which it was: what the clock shows when the scan is over.
\<close>

inductive app_step :: "slib \<Rightarrow> sentinel_config \<Rightarrow> sentinel_app \<Rightarrow> string set \<Rightarrow> sentinel_app \<Rightarrow> bool" for SL cfg where
  step_poll: "app_poll SL cfg api now_iso a = Some a' \<Longrightarrow> app_step SL cfg a {} a'"
| step_command: "app_step SL cfg a {} (app_command cfg a)"
| step_connect: "app_step SL cfg a {} (app_connect cfg a)"
| step_message: "app_message SL cfg raw a = (evs, a') \<Longrightarrow> app_step SL cfg a (\<Union>ev\<in>set evs. set (resolved_ids ev)) a'"
| step_ingest: "app_step SL cfg a {} (app_ingest cfg a)"
| step_archive: "app_step SL cfg a {} (app_archive cfg a)"
| step_prune: "app_prune cfg now_iso dir a = (dir', a') \<Longrightarrow> app_step SL cfg a {} a'"

inductive app_run ::
  "slib \<Rightarrow> sentinel_config \<Rightarrow> sentinel_app \<Rightarrow> string set \<Rightarrow> (shift_alert \<times> int) list \<Rightarrow> sentinel_app \<Rightarrow> bool"
  for SL cfg a0 where
  app_init: "app_run SL cfg a0 {} [] a0"
| app_other: "app_run SL cfg a0 R hist a \<Longrightarrow> app_step SL cfg a R' a' \<Longrightarrow> app_run SL cfg a0 (R \<union> R') hist a'"
| app_scanned: "app_run SL cfg a0 R hist a \<Longrightarrow> app_scan SL cfg a = Some (out, a') \<Longrightarrow>
    app_run SL cfg a0 R (hist @ map (\<lambda>al. (al, ms_clock (sa_detector a') (ms_reads (sa_detector a')))) out) a'"

section \<open>What a scan changes\<close>

text \<open>
  The alerts raised between two states carry readings of the clock made between them, and the
  tracked markets are left alone.
\<close>

definition scanned :: "detector \<Rightarrow> shift_alert list \<Rightarrow> detector \<Rightarrow> bool" where
  "scanned d als d' \<longleftrightarrow> ms_clock d' = ms_clock d \<and> ms_reads d \<le> ms_reads d' \<and>
     tracked_cache (d_store d') = tracked_cache (d_store d) \<and> tracked_markets (d_store d') = tracked_markets (d_store d) \<and>
     (\<forall>al\<in>set als. \<exists>i. ms_reads d \<le> i \<and> i \<le> ms_reads d' \<and> alert_timestamp_ms al = ms_clock d i)"

lemma scanned_refl: "scanned d [] d"
  by (simp add: scanned_def)

lemma scanned_append:
  assumes "scanned d xs d1" "scanned d1 ys d2"
  shows "scanned d (xs @ ys) d2"
proof -
  have c: "ms_clock d1 = ms_clock d" "ms_clock d2 = ms_clock d" "ms_reads d \<le> ms_reads d1" "ms_reads d1 \<le> ms_reads d2"
      "tracked_cache (d_store d2) = tracked_cache (d_store d)" "tracked_markets (d_store d2) = tracked_markets (d_store d)"
    using assms by (simp_all add: scanned_def)
  moreover have "\<exists>i. ms_reads d \<le> i \<and> i \<le> ms_reads d2 \<and> alert_timestamp_ms al = ms_clock d i" if "al \<in> set (xs @ ys)" for al
  proof -
    from that assms obtain i where "ms_reads d \<le> i \<and> i \<le> ms_reads d1 \<or> ms_reads d1 \<le> i \<and> i \<le> ms_reads d2"
        "alert_timestamp_ms al = ms_clock d i"
      using c(1) unfolding scanned_def by (auto 4 3)
    with c(3,4) show ?thesis by (intro exI [of _ i]) linarith
  qed
  ultimately show ?thesis by (simp add: scanned_def)
qed

lemma scanned_maybe:
  assumes "maybe_create_alert SL cfg a bars l d = (r, d')"
  shows "scanned d (case r of None \<Rightarrow> [] | Some al \<Rightarrow> [al]) d'"
proof -
  have "ms_reads d \<le> ms_reads d'" "ms_clock d' = ms_clock d"
      "tracked_cache (d_store d') = tracked_cache (d_store d)" "tracked_markets (d_store d') = tracked_markets (d_store d)"
      "r = Some al \<Longrightarrow> alert_timestamp_ms al = ms_clock d (ms_reads d)" for al
    using assms by (auto simp: maybe_create_alert_def time_fn_def Let_def build_alert_ts split: option.splits if_splits)
  then show ?thesis unfolding scanned_def by (auto split: option.split)
qed

lemma scanned_levels: "scan_levels SL cfg a bars ls d = (alerts, d') \<Longrightarrow> scanned d alerts d'"
proof (induction ls arbitrary: d alerts)
  case (Cons l ls)
  obtain r d1 alerts1 where *: "maybe_create_alert SL cfg a bars l d = (r, d1)" "scan_levels SL cfg a bars ls d1 = (alerts1, d')"
    "alerts = (case r of None \<Rightarrow> [] | Some al \<Rightarrow> [al]) @ alerts1"
    using Cons.prems by (auto split: prod.splits option.splits)
  from scanned_append [OF scanned_maybe [OF *(1)] Cons.IH [OF *(2)]] *(3) show ?case by simp
qed (simp add: scanned_refl)

lemma scanned_asset:
  assumes "scan_asset SL cfg a d = (alerts, d')"
  shows "scanned d alerts d'"
proof -
  let ?bs = "prune_bars cfg (ms_clock d (ms_reads d)) (bars_of d a)"
  let ?d2 = "d\<lparr>ms_reads := Suc (ms_reads d), bars_by_asset := dict_set a ?bs (bars_by_asset d)\<rparr>"
  obtain b d3 where sk: "should_skip cfg a ?bs ?d2 = (b, d3)" by fastforce
  have t3: "scanned d [] d3" "scanned d [] (bump x d3)" for x using should_skip_fields [OF sk] by (simp_all add: scanned_def)
  consider "bars_of d a = [] \<or> ?bs = []" | "bars_of d a \<noteq> []" "?bs \<noteq> []" "b" | "bars_of d a \<noteq> []" "?bs \<noteq> []" "\<not> b" by blast
  then show ?thesis
  proof cases
    case 1
    then show ?thesis using assms by (auto simp: scan_asset_def time_fn_def Let_def scanned_def split: if_splits)
  next
    case 2
    then show ?thesis using assms sk t3(2) by (auto simp: scan_asset_def time_fn_def Let_def)
  next
    case 3
    then have "scan_levels SL cfg a ?bs [SCOUT, CONFIRMATION, TREND] d3 = (alerts, d')"
      using assms sk by (simp add: scan_asset_def time_fn_def Let_def del: scan_levels.simps)
    from scanned_append [OF t3(1) scanned_levels [OF this]] show ?thesis by simp
  qed
qed

lemma scanned_assets: "scan_assets SL cfg as d = (alerts, d') \<Longrightarrow> scanned d alerts d'"
proof (induction as arbitrary: d alerts)
  case (Cons a as)
  then obtain al1 d1 al2 where *: "scan_asset SL cfg a d = (al1, d1)" "scan_assets SL cfg as d1 = (al2, d')" "alerts = al1 @ al2"
    by (auto split: prod.splits)
  from scanned_append [OF scanned_asset [OF *(1)] Cons.IH [OF *(2)]] *(3) show ?case by simp
qed (simp add: scanned_refl)

section \<open>What a dispatch sends\<close>

definition deliver :: "notifier list \<Rightarrow> shift_alert \<Rightarrow> net \<Rightarrow> net" where
  "deliver sends al n = fold (\<lambda>send n. snd (send al n)) sends n"

definition same_rules :: "dispatcher \<Rightarrow> dispatcher \<Rightarrow> bool" where
  "same_rules dp dp' \<longleftrightarrow> notifiers dp' = notifiers dp \<and> min_severity dp' = min_severity dp \<and> policy dp' = policy dp"

definition kept :: "dispatcher \<Rightarrow> dispatcher \<Rightarrow> bool" where
  "kept dp dp' \<longleftrightarrow> same_rules dp dp' \<and> enricher dp' = enricher dp"

lemma kept_trans: "kept dp dp1 \<Longrightarrow> kept dp1 dp2 \<Longrightarrow> kept dp dp2"
  by (simp add: kept_def same_rules_def)

lemma kept_bump: "kept dp (dp_bump x k dp)"
  by (simp add: kept_def same_rules_def)

lemma split_eligible_kept: "split_eligible alerts dp = Some (es, dp') \<Longrightarrow> kept dp dp'"
proof (induction alerts arbitrary: dp es)
  case (Cons al alerts)
  then obtain b where b: "is_allowed (policy dp) al = Some b" by (auto split: option.splits)
  show ?case
  proof (cases b)
    case True
    with b Cons.prems obtain es1 where "split_eligible alerts dp = Some (es1, dp')" by auto
    then show ?thesis by (rule Cons.IH)
  next
    case False
    with b Cons.prems have "split_eligible alerts (dp_bump ''alerts_skipped_policy'' 1 dp) = Some (es, dp')" by simp
    from kept_trans [OF kept_bump Cons.IH [OF this]] show ?thesis .
  qed
qed (simp add: kept_def same_rules_def)

lemma select_groups_kept: "kept dp (snd (select_groups now gs dp))"
  by (induction now gs dp rule: select_groups.induct) (auto simp: kept_def same_rules_def split: option.split prod.split)

lemma select_kept:
  assumes "select_for_dispatch SL alerts dp = Some (sel, dp')"
  shows "kept dp dp'"
proof -
  from assms obtain es dp1 where e: "split_eligible alerts dp = Some (es, dp1)"
      "select_groups (batch_time es) (by_event SL es) dp1 = (sel, dp')"
    by (auto simp: select_for_dispatch_def split: option.splits)
  from select_groups_kept [of dp1 "batch_time es" "by_event SL es"] e(2) have "kept dp1 dp'" by simp
  with split_eligible_kept [OF e(1)] show ?thesis by (rule kept_trans)
qed

lemma fold_dispatch_net:
  "\<exists>dp'. fold (\<lambda>send. dispatch_one send al) sends (dp, n) = (dp', deliver sends al n) \<and>
     same_rules dp dp' \<and> event_cooldowns dp' = event_cooldowns dp"
proof (induction sends arbitrary: dp n)
  case (Cons send sends)
  obtain ok n1 where s: "send al n = (ok, n1)" by fastforce
  let ?dp = "if ok then dp else dp_bump ''notifier_failures'' 1 dp"
  from Cons.IH [of ?dp n1] obtain dp' where
    "fold (\<lambda>send. dispatch_one send al) sends (?dp, n1) = (dp', deliver sends al n1)" "same_rules ?dp dp'"
    "event_cooldowns dp' = event_cooldowns ?dp" by blast
  moreover have "dispatch_one send al (dp, n) = (?dp, n1)" by (simp add: dispatch_one_def s)
  ultimately show ?case by (cases ok) (simp_all add: s deliver_def same_rules_def)
qed (simp add: deliver_def same_rules_def)

lemma fan_out_net:
  "\<exists>dp'. fan_out al (dp, n) = (dp', if level_at_least (alert_level al) (min_severity dp) then deliver (notifiers dp) al n else n) \<and>
     same_rules dp dp' \<and> event_cooldowns dp' = event_cooldowns dp"
proof (cases "level_at_least (alert_level al) (min_severity dp)")
  case True
  let ?dp = "if notifiers dp \<noteq> [] then dp_bump ''alerts_dispatched'' 1 dp else dp"
  from fold_dispatch_net [of al "notifiers dp" ?dp n] True show ?thesis
    by (fastforce simp: fan_out_def same_rules_def)
qed (simp add: fan_out_def same_rules_def)

lemma fold_fan_out_net:
  "\<exists>dp'. fold fan_out out (dp, n) =
       (dp', fold (deliver (notifiers dp)) (filter (\<lambda>al. level_at_least (alert_level al) (min_severity dp)) out) n) \<and>
     same_rules dp dp' \<and> event_cooldowns dp' = event_cooldowns dp"
proof (induction out arbitrary: dp n)
  case (Cons al out)
  from fan_out_net [of al dp n] obtain dp1 where
    1: "fan_out al (dp, n) = (dp1, if level_at_least (alert_level al) (min_severity dp) then deliver (notifiers dp) al n else n)"
      "same_rules dp dp1" "event_cooldowns dp1 = event_cooldowns dp" by blast
  show ?case using Cons.IH [of dp1] 1 by (auto simp: same_rules_def)
qed (simp add: same_rules_def)

lemma enrich_fields:
  "alert_level (enrich SL st al) = alert_level al" "alert_timestamp_ms (enrich SL st al) = alert_timestamp_ms al"
  "alert_market (enrich SL st al) = alert_market al" "shift (enrich SL st al) = shift al"
  "signal_quality (enrich SL st al) = signal_quality al"
  by (simp_all add: enrich_def Let_def)

lemma enrich_same:
  "event_key SL' (enrich SL st al) = event_key SL' al" "is_allowed p (enrich SL st al) = is_allowed p al"
  by (simp_all add: event_key_def is_allowed_def abs_move_def alert_liquidity_def enrich_fields)

lemma dispatch_manyD:
  assumes "dispatch_many SL alerts (dp, n) = Some (out, dp', n')" "enricher dp = enricher_on SL st"
  obtains sel dp1 where "select_for_dispatch SL alerts dp = Some (sel, dp1)" "out = map (enrich SL st) sel"
    "n' = fold (deliver (notifiers dp)) (filter (\<lambda>al. level_at_least (alert_level al) (min_severity dp)) out) n"
    "same_rules dp dp'" "event_cooldowns dp' = event_cooldowns dp1"
proof -
  from assms(1) obtain sel dp1 where s: "select_for_dispatch SL alerts dp = Some (sel, dp1)"
      "out = (case enricher dp1 of None \<Rightarrow> sel | Some f \<Rightarrow> map (enrich_one f) sel)" "fold fan_out out (dp1, n) = (dp', n')"
    by (auto simp: dispatch_many_def Let_def split: option.splits)
  have r: "same_rules dp dp1" and "enricher dp1 = enricher dp" using select_kept [OF s(1)] by (simp_all add: kept_def)
  with s(2) assms(2) have "out = map (enrich SL st) sel" by (simp add: enricher_on_def enrich_one_def)
  with s(1,3) r fold_fan_out_net [of out dp1 n] show ?thesis
    by (intro that [of sel dp1]) (auto simp: same_rules_def)
qed

section \<open>Steps of the other tasks\<close>

text \<open>What every step but a scan leaves alone: dispatcher, network and clock, which only moves on.\<close>

definition sends_nothing :: "sentinel_app \<Rightarrow> sentinel_app \<Rightarrow> bool" where
  "sends_nothing a a' \<longleftrightarrow> sa_dispatcher a' = sa_dispatcher a \<and> sa_net a' = sa_net a \<and>
     ms_clock (sa_detector a') = ms_clock (sa_detector a) \<and> ms_reads (sa_detector a) \<le> ms_reads (sa_detector a')"

lemma remove_assets_clock:
  "ms_clock (fold remove_asset ids d) = ms_clock d \<and> ms_reads (fold remove_asset ids d) = ms_reads d"
  by (induction ids arbitrary: d) (simp_all add: remove_asset_def)

lemma resolved_clock:
  "ms_clock (fold on_market_resolved evs d) = ms_clock d \<and> ms_reads d \<le> ms_reads (fold on_market_resolved evs d)"
proof (induction evs arbitrary: d)
  case (Cons ev evs)
  have "ms_clock (on_market_resolved ev d) = ms_clock d \<and> ms_reads d \<le> ms_reads (on_market_resolved ev d)"
    by (simp add: on_market_resolved_def time_fn_def remove_assets_clock)
  with Cons.IH [of "on_market_resolved ev d"] show ?case by auto
qed simp

lemma app_step_sends_nothing: "app_step SL cfg a R a' \<Longrightarrow> sends_nothing a a'"
proof (induction rule: app_step.induct)
  case (step_poll api now_iso a a')
  then show ?case
    by (auto simp: app_poll_def app_now_def time_fn_def share_def sends_nothing_def split: option.splits)
next
  case (step_message raw a evs a')
  then obtain w where "a' = a\<lparr>sa_client := w, sa_detector := fold on_market_resolved evs ((sa_detector a)\<lparr>d_metrics := ws_metrics w\<rparr>)\<rparr>"
    by (auto simp: app_message_def split: prod.splits)
  then show ?case
    using resolved_clock [of evs "(sa_detector a)\<lparr>d_metrics := ws_metrics w\<rparr>"] by (simp add: sends_nothing_def)
next
  case (step_prune now_iso dir a dir' a')
  then show ?case by (auto simp: app_prune_def app_now_def time_fn_def share_def sends_nothing_def split: prod.splits)
qed (auto simp: app_command_def app_connect_def app_ingest_def app_archive_def app_now_def time_fn_def share_def sends_nothing_def
    split: list.split prod.split)

section \<open>What the notifiers are given\<close>

definition sent_entry :: "slib \<Rightarrow> shift_alert \<times> int \<Rightarrow> string \<times> int \<times> int" where
  "sent_entry SL = (\<lambda>(al, t). (event_key SL al, t, alert_timestamp_ms al))"

definition sent_inv :: "slib \<Rightarrow> sentinel_app \<Rightarrow> (shift_alert \<times> int) list \<Rightarrow> sentinel_app \<Rightarrow> bool" where
  "sent_inv SL a0 hist a \<longleftrightarrow>
     (let dp0 = sa_dispatcher a0; d = sa_detector a in
      same_rules dp0 (sa_dispatcher a) \<and> ms_clock d = ms_clock (sa_detector a0) \<and>
      dict_gate.spaced (event_dedup_sec (policy dp0) * 1000) (map (sent_entry SL) hist) (event_cooldowns (sa_dispatcher a)) \<and>
      (\<forall>(al, t)\<in>set hist. alert_timestamp_ms al \<le> ms_clock d (ms_reads d) \<and> is_allowed (policy dp0) al = Some True \<and>
         level_at_least (alert_level al) (min_severity dp0)) \<and>
      sa_net a = fold (\<lambda>(al, t). deliver (notifiers dp0) al) hist (sa_net a0))"

lemma spaced_later:
  assumes "dict_gate.spaced p (es @ map (dispatch_entry SL now) sel) cds" "now \<le> t"
  shows "dict_gate.spaced p (es @ map (dispatch_entry SL t) (filter P sel)) cds"
proof -
  have "sorted_wrt (\<lambda>x y. event_key SL x = event_key SL y \<longrightarrow> alert_timestamp_ms x + p \<le> now) sel"
    using assms(1) by (simp add: dict_gate.spaced_def sorted_wrt_append sorted_wrt_map dispatch_entry_def)
  then have "sorted_wrt (\<lambda>x y. event_key SL x = event_key SL y \<longrightarrow> alert_timestamp_ms x + p \<le> t) sel"
    by (rule sorted_wrt_mono_rel [rotated]) (use assms(2) in auto)
  moreover have "b + p \<le> t" if "(event_key SL x, c, b) \<in> set es" "x \<in> set sel" for x b c
    using assms that by (fastforce simp: dict_gate.spaced_def sorted_wrt_append dispatch_entry_def)
  moreover have "sorted_wrt (\<lambda>(k, now, stamp) (k', now', stamp'). k = k' \<longrightarrow> stamp + p \<le> now') es"
    using assms(1) by (simp add: dict_gate.spaced_def sorted_wrt_append)
  moreover have "\<forall>(k, n, b)\<in>set es \<union> dispatch_entry SL now ` set sel. b + p \<le> until_of cds k"
    using assms(1) by (simp add: dict_gate.spaced_def)
  ultimately show ?thesis
    by (auto simp: dict_gate.spaced_def sorted_wrt_append sorted_wrt_map dispatch_entry_def sorted_wrt_filter ball_Un)
qed

lemma batch_time_le: "\<forall>al\<in>set es. alert_timestamp_ms al \<le> t \<Longrightarrow> es \<noteq> [] \<Longrightarrow> batch_time es \<le> t"
  by (simp add: batch_time_def)

lemma select_spaced_now:
  assumes "dict_gate.spaced (event_dedup_sec (policy dp) * 1000) es (event_cooldowns dp)"
    and "select_for_dispatch SL alerts dp = Some (sel, dp')"
    and "\<forall>(k, n, t)\<in>set es. t \<le> before" "\<forall>al\<in>set alerts. before \<le> alert_timestamp_ms al \<and> alert_timestamp_ms al \<le> now"
  shows "dict_gate.spaced (event_dedup_sec (policy dp) * 1000) (es @ map (dispatch_entry SL now) (filter P sel)) (event_cooldowns dp')"
    "set sel \<subseteq> set (eligible_of (policy dp) alerts)"
proof -
  let ?el = "eligible_of (policy dp) alerts"
  have "\<forall>(k, n, t)\<in>set es. \<forall>al\<in>set alerts. t \<le> alert_timestamp_ms al" using assms(3,4) by (fastforce intro: order_trans)
  from select_spaced [OF assms(1) this assms(2)]
  have sp: "dict_gate.spaced (event_dedup_sec (policy dp) * 1000) (es @ map (dispatch_entry SL (batch_time ?el)) sel) (event_cooldowns dp')"
      "set sel \<subseteq> set ?el" by blast+
  have "\<forall>al\<in>set ?el. alert_timestamp_ms al \<le> now" using assms(4) by (simp add: eligible_of_def)
  with batch_time_le [of ?el now] sp(2) have "batch_time ?el \<le> now \<or> sel = []" by (cases "?el = []") simp_all
  then show "dict_gate.spaced (event_dedup_sec (policy dp) * 1000) (es @ map (dispatch_entry SL now) (filter P sel)) (event_cooldowns dp')"
    using spaced_later [OF sp(1)] sp(1) by auto
  show "set sel \<subseteq> set ?el" by (rule sp(2))
qed

lemma fold_deliver_map: "fold (\<lambda>(al, t). deliver ns al) (map (\<lambda>al. (al, t)) out) n = fold (deliver ns) out n"
  by (induction out arbitrary: n) simp_all

lemma app_scanD:
  assumes "app_scan SL cfg a = Some (out, a')"
  obtains alerts d dp sel dp1 where "scanned (sa_detector a) alerts d"
    "same_rules (sa_dispatcher a) dp" "event_cooldowns dp = event_cooldowns (sa_dispatcher a)"
    "select_for_dispatch SL alerts dp = Some (sel, dp1)"
    "same_rules (sa_dispatcher a) (sa_dispatcher a')" "event_cooldowns (sa_dispatcher a') = event_cooldowns dp1"
    "out = map (enrich SL (d_store d)) (filter (\<lambda>al. level_at_least (alert_level al) (min_severity (sa_dispatcher a))) sel)"
    "sa_net a' = fold (deliver (notifiers (sa_dispatcher a))) out (sa_net a)"
    "ms_clock (sa_detector a') = ms_clock d" "ms_reads (sa_detector a') = ms_reads d"
proof -
  obtain alerts d where sc: "scan_once SL (sc_detector cfg) (sa_detector a) = (alerts, d)" by fastforce
  define dp where "dp = (sa_dispatcher a)\<lparr>dp_metrics := Some (d_metrics d), enricher := enricher_on SL (d_store d)\<rparr>"
  have dp: "same_rules (sa_dispatcher a) dp" "event_cooldowns dp = event_cooldowns (sa_dispatcher a)"
      "enricher dp = enricher_on SL (d_store d)" by (simp_all add: dp_def same_rules_def)
  from assms sc obtain res dp' n' where dm: "dispatch_many SL alerts (dp, sa_net a) = Some (res, dp', n')"
      and out: "out = filter (\<lambda>al. level_at_least (alert_level al) (min_severity dp')) res"
      and a': "sa_dispatcher a' = dp'" "sa_net a' = n'" "ms_clock (sa_detector a') = ms_clock d" "ms_reads (sa_detector a') = ms_reads d"
    by (auto simp: app_scan_def dp_def split: option.splits)
  from dispatch_manyD [OF dm dp(3)] obtain sel dp1 where sel: "select_for_dispatch SL alerts dp = Some (sel, dp1)"
      "res = map (enrich SL (d_store d)) sel"
      "n' = fold (deliver (notifiers dp)) (filter (\<lambda>al. level_at_least (alert_level al) (min_severity dp)) res) (sa_net a)"
      "same_rules dp dp'" "event_cooldowns dp' = event_cooldowns dp1" by blast
  have "scanned (sa_detector a) alerts d" using sc scanned_assets by (simp add: scan_once_def)
  moreover have "same_rules (sa_dispatcher a) dp'" "min_severity dp' = min_severity (sa_dispatcher a)"
      "min_severity dp = min_severity (sa_dispatcher a)" "notifiers dp = notifiers (sa_dispatcher a)"
    using dp(1) sel(4) by (simp_all add: same_rules_def)
  ultimately show ?thesis
    using dp(1,2) sel a' out by (intro that [of alerts d dp sel dp1]) (simp_all add: filter_map o_def enrich_fields)
qed

lemma sent_inv_scan:
  assumes inv: "sent_inv SL a0 hist a" and mono: "mono (ms_clock (sa_detector a0))"
    and scan: "app_scan SL cfg a = Some (out, a')"
  shows "sent_inv SL a0 (hist @ map (\<lambda>al. (al, ms_clock (sa_detector a') (ms_reads (sa_detector a')))) out) a'"
proof -
  let ?dp0 = "sa_dispatcher a0" and ?c = "ms_clock (sa_detector a0)" and ?r = "ms_reads (sa_detector a)"
  let ?p = "event_dedup_sec (policy ?dp0) * 1000" and ?now = "ms_clock (sa_detector a0) (ms_reads (sa_detector a'))"
  let ?sev = "\<lambda>al. level_at_least (alert_level al) (min_severity ?dp0)"
  have i: "same_rules ?dp0 (sa_dispatcher a)" "ms_clock (sa_detector a) = ?c"
      "dict_gate.spaced ?p (map (sent_entry SL) hist) (event_cooldowns (sa_dispatcher a))"
      "\<And>al t. (al, t) \<in> set hist \<Longrightarrow> alert_timestamp_ms al \<le> ?c ?r \<and> is_allowed (policy ?dp0) al = Some True \<and> ?sev al"
      "sa_net a = fold (\<lambda>(al, t). deliver (notifiers ?dp0) al) hist (sa_net a0)"
    using inv by (auto simp: sent_inv_def Let_def)
  from scan obtain alerts d dp sel dp1 where s: "scanned (sa_detector a) alerts d"
    "same_rules (sa_dispatcher a) dp" "event_cooldowns dp = event_cooldowns (sa_dispatcher a)"
    "select_for_dispatch SL alerts dp = Some (sel, dp1)"
    "same_rules (sa_dispatcher a) (sa_dispatcher a')" "event_cooldowns (sa_dispatcher a') = event_cooldowns dp1"
    "out = map (enrich SL (d_store d)) (filter (\<lambda>al. level_at_least (alert_level al) (min_severity (sa_dispatcher a))) sel)"
    "sa_net a' = fold (deliver (notifiers (sa_dispatcher a))) out (sa_net a)"
    "ms_clock (sa_detector a') = ms_clock d" "ms_reads (sa_detector a') = ms_reads d" by (rule app_scanD)
  have r: "policy dp = policy ?dp0" "same_rules ?dp0 (sa_dispatcher a')" "min_severity (sa_dispatcher a) = min_severity ?dp0"
      "notifiers (sa_dispatcher a) = notifiers ?dp0" using i(1) s(2,5) by (simp_all add: same_rules_def)
  have tm: "\<forall>al\<in>set alerts. ?c ?r \<le> alert_timestamp_ms al \<and> alert_timestamp_ms al \<le> ?now"
    using s(1,10) monoD [OF mono] i(2) by (auto simp: scanned_def)
  have later: "?c ?r \<le> ?now" using s(1,10) monoD [OF mono] by (simp add: scanned_def)
  have "\<forall>(k, n, t)\<in>set (map (sent_entry SL) hist). t \<le> ?c ?r" using i(4) by (auto simp: sent_entry_def)
  note sel = select_spaced_now [of dp "map (sent_entry SL) hist", OF _ s(4) this tm, unfolded s(3) r(1), OF i(3)]
  from sel(1) have sp: "dict_gate.spaced ?p (map (sent_entry SL) hist @ map (dispatch_entry SL ?now) (filter ?sev sel)) (event_cooldowns dp1)" .
  from sel(2) have el: "al \<in> set alerts \<and> is_allowed (policy ?dp0) al = Some True" if "al \<in> set sel" for al
    using that by (auto simp: eligible_of_def)
  from sp have "dict_gate.spaced ?p (map (sent_entry SL) (hist @ map (\<lambda>al. (al, ?now)) out)) (event_cooldowns (sa_dispatcher a'))"
    by (simp add: s(6,7) r(3) o_def enrich_fields enrich_same sent_entry_def dispatch_entry_def [abs_def])
  moreover have "\<forall>(al, t)\<in>set (hist @ map (\<lambda>al. (al, ?now)) out).
      alert_timestamp_ms al \<le> ?now \<and> is_allowed (policy ?dp0) al = Some True \<and> ?sev al"
    using i(4) later el tm by (auto simp: s(7) r(3) enrich_fields enrich_same intro: order_trans)
  moreover have "ms_clock (sa_detector a') = ?c" using s(1,9) i(2) by (simp add: scanned_def)
  moreover have "sa_net a' = fold (\<lambda>(al, t). deliver (notifiers ?dp0) al) (hist @ map (\<lambda>al. (al, ?now)) out) (sa_net a0)"
    by (simp add: s(8) r(4) i(5) fold_deliver_map)
  ultimately show ?thesis using r(2) unfolding sent_inv_def Let_def by simp
qed

lemma app_run_sent:
  assumes "app_run SL cfg a0 R hist a" "mono (ms_clock (sa_detector a0))" "event_cooldowns (sa_dispatcher a0) = []"
  shows "sent_inv SL a0 hist a"
  using assms(1)
proof induction
  case app_init
  show ?case by (simp add: sent_inv_def Let_def same_rules_def dict_gate.spaced_Nil)
next
  case (app_other R hist a R' a')
  from app_step_sends_nothing [OF app_other.hyps(2)] have k: "sends_nothing a a'" .
  then have "ms_clock (sa_detector a) (ms_reads (sa_detector a)) \<le> ms_clock (sa_detector a) (ms_reads (sa_detector a'))"
    using app_other.IH monoD [OF assms(2)] by (simp add: sends_nothing_def sent_inv_def Let_def)
  with app_other.IH k show ?case by (fastforce simp: sends_nothing_def sent_inv_def Let_def)
next
  case (app_scanned R hist a out a')
  from sent_inv_scan [OF app_scanned.IH assms(2) app_scanned.hyps(2)] show ?case .
qed

lemma level_value_inject [simp]: "level_value l = level_value l' \<longleftrightarrow> l = l'"
  by (cases l; cases l') simp_all

lemma level_of_iff: "level_of s = Some l \<longleftrightarrow> s = level_value l"
  by (cases l) (auto simp: level_of_def)

lemma levels_of_set: "levels_of ss = Some ls \<Longrightarrow> l \<in> set ls \<longleftrightarrow> level_value l \<in> set ss"
  by (induction ss arbitrary: ls) (auto simp: level_of_iff split: option.splits)

text \<open>What the configuration lets through.\<close>

definition may_be_sent :: "notifications_config \<Rightarrow> shift_alert \<Rightarrow> bool" where
  "may_be_sent cfg al \<longleftrightarrow>
     (\<exists>sev. level_value sev = cfg_min_severity cfg \<and> level_order sev \<le> level_order (alert_level al)) \<and>
     level_value (alert_level al) \<in> set (cfg_allowed_levels cfg) \<and>
     (\<forall>c\<in>set (cfg_excluded_confidences cfg). str_lower (sq_confidence (signal_quality al)) \<noteq> str_lower c) \<and>
     (\<forall>c\<in>set (cfg_excluded_signal_sources cfg). str_lower (sq_signal_source (signal_quality al)) \<noteq> str_lower c) \<and>
     cfg_min_price cfg \<le> sh_price_current (shift al) \<and> sh_price_current (shift al) \<le> cfg_max_price cfg \<and>
     cfg_min_abs_move cfg \<le> \<bar>sh_price_end (shift al) - sh_price_start (shift al)\<bar> \<and>
     (\<exists>l. alert_liquidity al = Some l \<and> cfg_min_liquidity cfg \<le> l)"

lemma built_dispatcher:
  assumes "build_dispatcher SL quote cfg m st = Some dp"
  shows "notifiers dp = build_notifiers SL quote cfg" "event_dedup_sec (policy dp) = cfg_event_dedup_sec cfg" "event_cooldowns dp = []"
    "is_allowed (policy dp) al = Some True \<Longrightarrow> level_at_least (alert_level al) (min_severity dp) \<Longrightarrow> may_be_sent cfg al"
proof -
  from assms obtain ls where dp: "level_value (min_severity dp) = cfg_min_severity cfg" "levels_of (cfg_allowed_levels cfg) = Some ls"
      "notifiers dp = build_notifiers SL quote cfg" "event_cooldowns dp = []"
      "policy dp = \<lparr>allowed_levels = set ls, excluded_confidences = str_lower ` set (cfg_excluded_confidences cfg),
         excluded_signal_sources = str_lower ` set (cfg_excluded_signal_sources cfg), pol_min_price = cfg_min_price cfg,
         pol_max_price = cfg_max_price cfg, pol_min_liquidity = cfg_min_liquidity cfg, min_abs_move = cfg_min_abs_move cfg,
         event_dedup_sec = cfg_event_dedup_sec cfg\<rparr>"
    by (auto simp: build_dispatcher_def build_policy_def level_of_iff split: option.splits)
  then show "notifiers dp = build_notifiers SL quote cfg" "event_dedup_sec (policy dp) = cfg_event_dedup_sec cfg" "event_cooldowns dp = []"
    by simp_all
  assume "is_allowed (policy dp) al = Some True" "level_at_least (alert_level al) (min_severity dp)"
  then show "may_be_sent cfg al"
    using dp(1,5) levels_of_set [OF dp(2)]
    by (auto simp: may_be_sent_def is_allowed_def level_at_least_def abs_move_def image_iff split: if_splits option.splits)
qed

text \<open>
  C7 (safety): what the sentinel sends. In any run of the application from its start, with the
  tasks interleaved in any order and a clock that never runs back, the notifiers are called for the
  recorded alerts only, all configured notifiers in order for each; every such alert is within what
  the configuration lets through (severity, levels, confidences, sources, price band, move,
  liquidity); and an alert of an event is sent only when the configured span has passed since the
  time of every alert of that event sent before.
\<close>

theorem sent_alerts_admissible:
  assumes "app_start SL quote cfg clock disk arch n = Some a0" "mono clock" "app_run SL cfg a0 R hist a"
  shows "sa_net a = fold (\<lambda>(al, t) n. fold (\<lambda>send n. snd (send al n)) (build_notifiers SL quote (sc_notifications cfg)) n) hist n \<and>
    (\<forall>(al, t)\<in>set hist. may_be_sent (sc_notifications cfg) al) \<and>
    sorted_wrt (\<lambda>(x, tx) (y, ty). event_key SL x = event_key SL y \<longrightarrow>
      alert_timestamp_ms x + cfg_event_dedup_sec (sc_notifications cfg) * 1000 \<le> ty) hist"
proof -
  from assms(1) obtain m st where dp: "build_dispatcher SL quote (sc_notifications cfg) m st = Some (sa_dispatcher a0)"
      and a0: "ms_clock (sa_detector a0) = clock" "sa_net a0 = n"
    by (auto simp: app_start_def)
  note b = built_dispatcher [OF dp]
  have "sent_inv SL a0 hist a" using app_run_sent [OF assms(3)] a0 assms(2) b(3) by simp
  then show ?thesis
    using b a0 by (auto simp: sent_inv_def Let_def dict_gate.spaced_def sorted_wrt_map sent_entry_def deliver_def [abs_def]
        case_prod_unfold)
qed

section \<open>Subscriptions in the application\<close>

definition feed_of :: "sentinel_app \<Rightarrow> feed" where
  "feed_of a = \<lparr>gate = \<lparr>gk_store = sa_store a, command_queue = sa_commands a, gk_metrics = d_metrics (sa_detector a)\<rparr>, ws = sa_client a\<rparr>"

lemma tracked_same:
  "tracked_cache st' = tracked_cache st \<Longrightarrow> tracked_markets st' = tracked_markets st \<Longrightarrow>
     coherent st' = coherent st \<and> active_asset_ids st' = active_asset_ids st"
  by (simp add: coherent_def active_asset_ids_def)

lemma ingest_effect:
  assumes "coherent (d_store d)"
  shows "coherent (d_store (ingest_tick cfg t d)) \<and> active_asset_ids (d_store (ingest_tick cfg t d)) = active_asset_ids (d_store d)"
proof -
  have "coherent (insert_price_tick t s (d_store d))" for s using assms by (simp add: coherent_def insert_price_tick_def)
  with assms show ?thesis
    by (auto simp: ingest_tick_def time_fn_def Let_def active_after_tick intro: coherent_last_tick split: option.split)
qed

lemma archive_once_tracked:
  "archive_once cfg now r = (ok, r') \<Longrightarrow>
     tracked_cache (ar_store r') = tracked_cache (ar_store r) \<and> tracked_markets (ar_store r') = tracked_markets (ar_store r)"
  by (auto simp: archive_once_def Let_def delete_price_ticks_before_def split: prod.splits bool.splits)

lemma prune_once_tracked:
  "prune_once cfg ncfg now now_iso r = (ok, r') \<Longrightarrow>
     tracked_cache (rt_store r') = tracked_cache (rt_store r) \<and> tracked_markets (rt_store r') = tracked_markets (rt_store r)"
  by (auto simp: prune_once_def Let_def delete_shift_events_before_def split: prod.splits option.splits if_splits)

lemma app_poll_in_sync:
  assumes "in_sync (sc_websocket cfg) R (feed_of a)" "app_poll SL cfg api now_iso a = Some a'"
  shows "in_sync (sc_websocket cfg) R (feed_of a')"
proof -
  from assms(2) obtain now a1 diff g where g: "app_now a = (now, a1)"
      "run_once SL (sc_gatekeeper cfg) api now now_iso (gate (feed_of a)) = Some (Some (diff, g))"
      "a' = share (gk_store g) (gk_metrics g) (a1\<lparr>sa_commands := command_queue g\<rparr>)"
    by (auto simp: app_poll_def app_now_def time_fn_def feed_of_def split: option.splits)
  then have "feed_of a' = (feed_of a)\<lparr>gate := g\<rparr>" by (auto simp: feed_of_def share_def app_now_def time_fn_def)
  with in_sync_gate [OF assms(1) g(2)] show ?thesis by simp
qed

lemma app_command_in_sync:
  assumes "in_sync (sc_websocket cfg) R (feed_of a)"
  shows "in_sync (sc_websocket cfg) R (feed_of (app_command cfg a))"
proof (cases "sa_commands a")
  case (Cons c q)
  then have "feed_of (app_command cfg a) = (feed_of a)\<lparr>gate := (gate (feed_of a))\<lparr>command_queue := q\<rparr>,
      ws := on_command (sc_websocket cfg) c (ws (feed_of a))\<rparr>" by (simp add: feed_of_def app_command_def)
  with in_sync_command [OF assms, of c q] Cons show ?thesis by (simp add: feed_of_def)
qed (use assms in \<open>simp add: app_command_def\<close>)

lemma app_message_in_sync:
  assumes "in_sync (sc_websocket cfg) R (feed_of a)" "app_message SL cfg raw a = (evs, a')"
  shows "in_sync (sc_websocket cfg) (R \<union> (\<Union>ev\<in>set evs. set (resolved_ids ev))) (feed_of a')"
proof -
  from assms(2) obtain w where w: "on_message SL (sc_websocket cfg) raw ((sa_client a)\<lparr>ws_metrics := d_metrics (sa_detector a)\<rparr>) = (evs, w)"
      "a' = a\<lparr>sa_client := w, sa_detector := fold on_market_resolved evs ((sa_detector a)\<lparr>d_metrics := ws_metrics w\<rparr>)\<rparr>"
    by (auto simp: app_message_def split: prod.splits)
  have keep: "ws_assets w = ws_assets (sa_client a)" "sent w = sent (sa_client a)"
    using w(1) by (auto simp: on_message_def split: option.splits)
  have "d_store ((sa_detector a)\<lparr>d_metrics := ws_metrics w\<rparr>) = gk_store (gate (feed_of a))" by (simp add: feed_of_def)
  note sync = in_sync_resolved [OF assms(1) this, of evs]
  show ?thesis
    by (rule in_sync_same [OF sync]) (use sync keep in \<open>simp_all add: in_sync_def feed_of_def w(2)\<close>)
qed

lemma app_ingest_in_sync:
  assumes "in_sync (sc_websocket cfg) R (feed_of a)"
  shows "in_sync (sc_websocket cfg) R (feed_of (app_ingest cfg a))"
proof (rule in_sync_same [OF assms])
  have "coherent (sa_store a)" using assms by (simp add: in_sync_def feed_of_def)
  from ingest_effect [OF this] this
  show "coherent (gk_store (gate (feed_of (app_ingest cfg a))))"
    "set (active_asset_ids (gk_store (gate (feed_of (app_ingest cfg a))))) = set (active_asset_ids (gk_store (gate (feed_of a))))"
    by (simp_all add: feed_of_def app_ingest_def split: list.split)
qed (simp_all add: feed_of_def app_ingest_def split: list.split)

text \<open>Steps that change neither the tracked markets nor the client.\<close>

lemma tracked_in_sync:
  assumes "in_sync wcfg R (feed_of a)" "tracked_cache (sa_store a') = tracked_cache (sa_store a)"
    and "tracked_markets (sa_store a') = tracked_markets (sa_store a)" "sa_commands a' = sa_commands a" "sa_client a' = sa_client a"
  shows "in_sync wcfg R (feed_of a')"
  by (rule in_sync_same [OF assms(1)])
    (use assms tracked_same [OF assms(2,3)] in \<open>simp_all add: feed_of_def in_sync_def\<close>)

lemma app_archive_in_sync:
  "in_sync (sc_websocket cfg) R (feed_of a) \<Longrightarrow> in_sync (sc_websocket cfg) R (feed_of (app_archive cfg a))"
  by (erule tracked_in_sync)
    (auto simp: app_archive_def app_now_def time_fn_def share_def dest!: archive_once_tracked split: prod.split)

lemma app_prune_in_sync:
  "in_sync (sc_websocket cfg) R (feed_of a) \<Longrightarrow> app_prune cfg now_iso dir a = (dir', a') \<Longrightarrow> in_sync (sc_websocket cfg) R (feed_of a')"
  by (erule tracked_in_sync)
    (auto simp: app_prune_def app_now_def time_fn_def share_def dest!: prune_once_tracked split: prod.splits)

lemma app_scan_in_sync:
  assumes "in_sync (sc_websocket cfg) R (feed_of a)" "app_scan SL cfg a = Some (out, a')"
  shows "in_sync (sc_websocket cfg) R (feed_of a')"
proof (rule tracked_in_sync [OF assms(1)])
  obtain alerts d where sc: "scan_once SL (sc_detector cfg) (sa_detector a) = (alerts, d)" by fastforce
  then have "scanned (sa_detector a) alerts d" using scanned_assets by (simp add: scan_once_def)
  moreover have "sa_store a' = d_store d" "sa_commands a' = sa_commands a" "sa_client a' = sa_client a"
    using assms(2) sc by (auto simp: app_scan_def split: option.splits)
  ultimately show "tracked_cache (sa_store a') = tracked_cache (sa_store a)" "tracked_markets (sa_store a') = tracked_markets (sa_store a)"
    "sa_commands a' = sa_commands a" "sa_client a' = sa_client a" by (simp_all add: scanned_def)
qed

lemma app_step_in_sync:
  "app_step SL cfg a R' a' \<Longrightarrow> in_sync (sc_websocket cfg) R (feed_of a) \<Longrightarrow> in_sync (sc_websocket cfg) (R \<union> R') (feed_of a')"
proof (induction rule: app_step.induct)
  case (step_connect a)
  then show ?case using in_sync_connect [of "sc_websocket cfg" R "feed_of a"] by (simp add: app_connect_def feed_of_def)
qed (auto intro: app_poll_in_sync app_command_in_sync app_message_in_sync app_ingest_in_sync app_archive_in_sync app_prune_in_sync)

lemma app_run_in_sync:
  "app_run SL cfg a0 R hist a \<Longrightarrow> in_sync (sc_websocket cfg) {} (feed_of a0) \<Longrightarrow> in_sync (sc_websocket cfg) R (feed_of a)"
  by (induction rule: app_run.induct) (auto intro: app_step_in_sync app_scan_in_sync)


text \<open>The scan loop of the application never ends in an exception of the dispatcher.\<close>

lemma app_scan_total: "\<exists>out a'. app_scan SL cfg a = Some (out, a')"
proof -
  obtain alerts d where sc: "scan_once SL (sc_detector cfg) (sa_detector a) = (alerts, d)" by fastforce
  let ?dp = "(sa_dispatcher a)\<lparr>dp_metrics := Some (d_metrics d), enricher := enricher_on SL (d_store d)\<rparr>"
  from scan_selects [OF sc] obtain sel dp1 where "select_for_dispatch SL alerts ?dp = Some (sel, dp1)" by blast
  then show ?thesis using sc by (simp add: app_scan_def dispatch_many_def Let_def split: prod.split)
qed

section \<open>Evaluated examples\<close>

definition demo_quote :: "price_tick \<Rightarrow> json" where
  "demo_quote t = JDict [(''event_type'', JStr ''best_bid_ask''), (''asset_id'', JStr (tick_asset_id t)), (''timestamp'', JInt (timestamp_ms t)),
     (''best_bid'', JFloat (price t - 1 / 100)), (''best_ask'', JFloat (price t + 1 / 100))]"

definition demo_live :: slib where
  "demo_live = demo_slib\<lparr>s_json_loads := (\<lambda>_. Some (JList (map demo_quote demo_ticks)))\<rparr>"

definition demo_sentinel :: sentinel_config where
  "demo_sentinel = \<lparr>sc_gatekeeper = demo_gk_config, sc_websocket = demo_ws, sc_detector = demo_detector_config, sc_storage = demo_storage,
     sc_notifications = demo_notifications\<lparr>cfg_allowed_levels := [''trend''], cfg_event_dedup_sec := 900\<rparr>\<rparr>"

definition demo_start :: sentinel_app where
  "demo_start = the (app_start demo_live id demo_sentinel (\<lambda>_. 10000)
     (empty_store\<lparr>tracked_markets := [\<lparr>tm_market = demo_metadata ''a'', tm_last_update = 0\<rparr>]\<rparr>) [] demo_net)"

definition demo_received :: sentinel_app where
  "demo_received = snd (app_message demo_live demo_sentinel ''m'' demo_start)"

definition live_ticks :: "price_tick list" where
  "live_ticks = map (\<lambda>t. t\<lparr>signal_source := ''midpoint_book''\<rparr>) demo_ticks"

definition live_delta :: delta where
  "live_delta = \<lparr>dl_abs = 10, dl_signed = 10, dl_start = 1 / 2, dl_end = 11 / 20, dl_ticks = 3\<rparr>"

definition live_alert :: "market_metadata \<Rightarrow> price_tick \<Rightarrow> alert_level \<Rightarrow> shift_alert" where
  "live_alert m t l = build_alert demo_live demo_detector_config ''a'' l 10000 m t live_delta"

definition demo_fed :: sentinel_app where
  "demo_fed = app_ingest demo_sentinel (app_ingest demo_sentinel (app_ingest demo_sentinel demo_received))"

lemma demo_start: "app_start demo_live id demo_sentinel (\<lambda>_. 10000)
     (empty_store\<lparr>tracked_markets := [\<lparr>tm_market = demo_metadata ''a'', tm_last_update = 0\<rparr>]\<rparr>) [] demo_net = Some demo_start"
  by (simp add: demo_start_def app_start_def build_dispatcher_def build_policy_def level_of_def demo_sentinel_def demo_notifications_def)

lemma demo_parse: "parse_message demo_live demo_ws ''m'' = Some (live_ticks, [])"
  by (simp add: parse_message_def parse_item_def Let_def extract_best_bid_ask_def jget_def jget_default_def jor_def sstr_def
        py_str_def parse_float_def parse_ts_ms_def demo_ws_def demo_quote_def demo_live_def demo_ticks_def live_ticks_def demo_tick_def
        midpoint_tick_def demo_slib_def)

lemma demo_start_fields:
  "sa_client demo_start = \<lparr>ws_assets = {}, sent = [], output_queue = [], ws_metrics = new_metrics\<rparr>"
  "sa_detector demo_start = \<lparr>ms_clock = (\<lambda>_. 10000), ms_reads = 0, bars_by_asset = [], latest_tick_by_asset = [], cooldowns = [],
     d_metrics = new_metrics, d_store = refresh_cache (empty_store\<lparr>tracked_markets := [\<lparr>tm_market = demo_metadata ''a'', tm_last_update = 0\<rparr>]\<rparr>)\<rparr>"
  "min_severity (sa_dispatcher demo_start) = SCOUT" "event_cooldowns (sa_dispatcher demo_start) = []"
  "policy (sa_dispatcher demo_start) = \<lparr>allowed_levels = {TREND}, excluded_confidences = {}, excluded_signal_sources = {},
     pol_min_price = 0, pol_max_price = 1, pol_min_liquidity = 0, min_abs_move = 0, event_dedup_sec = 900\<rparr>"
  by (simp_all add: demo_start_def app_start_def build_dispatcher_def build_policy_def level_of_def demo_sentinel_def demo_notifications_def)

lemma demo_received:
   "app_message demo_live demo_sentinel ''m'' demo_start = ([], demo_received)"
   "sa_client demo_received = (sa_client demo_start)\<lparr>output_queue := live_ticks\<rparr>"
   "sa_detector demo_received = sa_detector demo_start" "sa_dispatcher demo_received = sa_dispatcher demo_start"
  by (simp_all add: demo_received_def app_message_def on_message_def demo_parse demo_sentinel_def demo_start_fields)

lemma demo_fed: "sa_detector demo_fed = fold (ingest_tick demo_detector_config) live_ticks (sa_detector demo_start)"
   "sa_dispatcher demo_fed = sa_dispatcher demo_start"
  by (simp_all add: demo_fed_def app_ingest_def demo_received live_ticks_def demo_ticks_def demo_sentinel_def)

lemma live_move:
  "price_move \<lparr>window_sec = 60, th_delta_pct = 5, min_ticks = 3\<rparr>
     (recent_ticks demo_detector_config 10000 (ticks_of ''a'' live_ticks)) = Some live_delta"
  by (simp add: live_delta_def price_move_def recent_ticks_def ticks_of_def live_ticks_def demo_detector_defs bucket_ms_def Let_def)

lemma live_tracked:
  "\<exists>m. get_tracked_market (d_store (sa_detector demo_fed)) ''a'' = Some m \<and> active m \<and> liquidity m = 50000"
  by (simp add: demo_fed demo_start_fields live_ticks_def demo_detector_defs ingest_tick_def time_fn_def Let_def get_tracked_market_def refresh_cache_def
      empty_store_def keep_liveness_def demo_metadata_def insert_price_tick_def update_last_tick_def)

lemma live_scan: "\<exists>m t. liquidity m = 50000 \<and> price t = 11 / 20 \<and>
    fst (scan_asset demo_live demo_detector_config ''a'' (sa_detector demo_fed)) =
    map (live_alert m t) [SCOUT, CONFIRMATION, TREND]"
proof -
  obtain m where m: "get_tracked_market (d_store (sa_detector demo_fed)) ''a'' = Some m" "active m" "liquidity m = 50000"
    using live_tracked by blast
  let ?d = "sa_detector demo_start"
  have h: "mono (ms_clock ?d)" "bars_of ?d ''a'' = []" "sorted (map timestamp_ms (ticks_of ''a'' live_ticks))"
      "stands_still 10000 (sa_detector demo_fed)"
    by (simp_all add: mono_def bars_of_def ticks_of_def live_ticks_def demo_detector_defs stands_still_def demo_fed demo_start_fields)
  have q: "quality_ok demo_detector_config 10000 m (recent_ticks demo_detector_config 10000 (ticks_of ''a'' live_ticks))"
    using m(2) by (simp add: quality_ok_def recent_ticks_def ticks_of_def live_ticks_def demo_detector_defs bucket_ms_def latest_quoted_def
        del: not_None_eq)
  have "recent_ticks demo_detector_config 10000 (ticks_of ''a'' live_ticks) \<noteq> []"
    by (simp add: recent_ticks_def ticks_of_def live_ticks_def demo_detector_defs bucket_ms_def)
  moreover have "thresholds demo_detector_config l = \<lparr>window_sec = 60, th_delta_pct = 5, min_ticks = 3\<rparr>" for l
    by (simp add: demo_detector_config_def)
  moreover have "price (last (ticks_of ''a'' live_ticks)) = 11 / 20" by (simp add: ticks_of_def live_ticks_def demo_detector_defs)
  moreover have "cooldowns ?d = []" by (simp add: demo_start_fields)
  ultimately show ?thesis
    using scan_asset_due [OF h(1-3) demo_fed(1) h(4) m(1), of demo_live] q live_move m(3)
    by (intro exI [of _ m] exI [of _ "last (ticks_of ''a'' live_ticks)"])
      (simp add: Let_def due_delta_def until_of_def map_filter_simps live_alert_def live_delta_def)
qed


lemma live_assets: "map fst (bars_by_asset (sa_detector demo_fed)) = [''a'']"
  by (simp add: demo_fed demo_start_fields live_ticks_def demo_detector_defs ingest_tick_def time_fn_def Let_def)

lemma live_select:
  assumes "policy dp = policy (sa_dispatcher demo_start)" "event_cooldowns dp = []" "liquidity m = 50000" "price t = 11 / 20"
  shows "\<exists>dp'. select_for_dispatch demo_live (map (live_alert m t) [SCOUT, CONFIRMATION, TREND]) dp =
    Some ([live_alert m t TREND], dp')"
proof -
  let ?al = "live_alert m t"
  have r: "\<not> py_round 6 (price t) < 0" "\<not> 1 < py_round 6 (price t)" using py_round_unit [of "11 / 20" 6] 
    unfolding assms(4) by simp_all
  have a: "is_allowed (policy dp) (?al l) = Some (l = TREND)" for l
    using assms(3) r
    by (simp add: assms(1) demo_start_fields is_allowed_def live_alert_def build_alert_def Let_def abs_move_def alert_liquidity_def market_payload_def
        jget_default_def)
  have "split_eligible (map ?al [SCOUT, CONFIRMATION, TREND]) dp =
      Some ([?al TREND], dp_bump ''alerts_skipped_policy'' 1 (dp_bump ''alerts_skipped_policy'' 1 dp))"
    by (simp add: a)
  moreover have "batch_time [?al TREND] = 10000" by (simp add: batch_time_def live_alert_def build_alert_ts)
  moreover have "first_max rank_key [?al TREND] = Some (?al TREND)" by simp
  ultimately show ?thesis
    using assms(2) by (simp add: select_for_dispatch_def by_event_def group_of_def until_of_def del: first_max.simps)
qed

lemma live_sent: "\<exists>al a'. app_scan demo_live demo_sentinel demo_fed = Some ([al], a') \<and> alert_level al = TREND \<and>
    ms_clock (sa_detector a') = (\<lambda>_. 10000)"
proof -
  obtain d where d: "scan_asset demo_live demo_detector_config ''a'' (sa_detector demo_fed) =
      (fst (scan_asset demo_live demo_detector_config ''a'' (sa_detector demo_fed)), d)" by (metis prod.collapse)
  from live_scan obtain m t where m: "liquidity m = 50000" "price t = 11 / 20"
    "scan_once demo_live demo_detector_config (sa_detector demo_fed) = (map (live_alert m t) [SCOUT, CONFIRMATION, TREND], d)"
    using d by (auto simp: scan_once_def live_assets)
  have c: "ms_clock d = (\<lambda>_. 10000)" using scanned_asset [OF d] by (simp add: scanned_def demo_fed demo_start_fields)
  define dp where "dp = (sa_dispatcher demo_fed)\<lparr>dp_metrics := Some (d_metrics d), enricher := enricher_on demo_live (d_store d)\<rparr>"
  have dp: "policy dp = policy (sa_dispatcher demo_start)" "event_cooldowns dp = []" "min_severity dp = SCOUT"
    by (simp_all add: dp_def demo_fed demo_start_fields)
  let ?al = "live_alert m t TREND"
  from live_select [OF dp(1,2) m(1,2)] obtain dp' where
    s: "select_for_dispatch demo_live (map (live_alert m t) [SCOUT, CONFIRMATION, TREND]) dp = Some ([?al], dp')" by blast
  have e: "enricher dp' = enricher_on demo_live (d_store d)" "min_severity dp' = SCOUT"
    using select_kept [OF s] dp(3) by (simp_all add: kept_def same_rules_def dp_def)
  let ?out = "enrich demo_live (d_store d) ?al"
  obtain dp2 n2 where f: "fan_out ?out (dp', sa_net demo_fed) = (dp2, n2)" by fastforce
  then have "min_severity dp2 = SCOUT" using fan_out_net [of ?out dp' "sa_net demo_fed"] e(2) by (auto simp: same_rules_def)
  moreover have "alert_level ?out = TREND" by (simp add: enrich_fields) (simp add: live_alert_def build_alert_def Let_def)
  moreover have "dispatch_many demo_live (map (live_alert m t) [SCOUT, CONFIRMATION, TREND]) (dp, sa_net demo_fed) = Some ([?out], dp2, n2)"
    using s e(1) f by (simp add: dispatch_many_def Let_def enricher_on_def enrich_one_def)
  ultimately show ?thesis using m(3) c
    by (simp add: app_scan_def demo_sentinel_def dp_def level_at_least_def)
qed

theorem sent_alerts_admissible_witness:
  "\<exists>al a. app_run demo_live demo_sentinel demo_start {} [(al, 10000)] a \<and> alert_level al = TREND \<and>
     may_be_sent (sc_notifications demo_sentinel) al"
proof -
  obtain al a where s: "app_scan demo_live demo_sentinel demo_fed = Some ([al], a)" "alert_level al = TREND"
    "ms_clock (sa_detector a) = (\<lambda>_. 10000)" using live_sent by blast
  have "app_run demo_live demo_sentinel demo_start {} [] demo_fed"
    using app_other [OF app_other [OF app_other [OF app_other [OF app_init step_message [OF demo_received(1)]] step_ingest] step_ingest] step_ingest]
    by (simp add: demo_fed_def)
  from app_scanned [OF this s(1)] s(3) have run: "app_run demo_live demo_sentinel demo_start {} [(al, 10000)] a" by simp
  from sent_alerts_admissible [OF demo_start _ run] have "may_be_sent (sc_notifications demo_sentinel) al" by (simp add: mono_def)
  with run s(2) show ?thesis by blast
qed


end
