(* ===== verification/Ingress_Handoff.thy ===== *)
theory Ingress_Handoff
  imports Researcher Notifications
begin

text \<open>
  From the sentinel's webhook notifier to the researcher's ingress: the two halves of the
  authentication, \<open>build_headers\<close> on one side and the checks of \<open>handle_alert\<close> on
  the other, and the script that replays a stored alert (\<open>src/scripts/replay_alert.py\<close>).
\<close>

lemma header_names:
  "str_lower ''Content-Type'' = ''content-type''" "str_lower ''User-Agent'' = ''user-agent''"
  "str_lower ''X-Sentinel-Alert-Id'' = ''x-sentinel-alert-id''" "str_lower ''X-Sentinel-Alert-Level'' = ''x-sentinel-alert-level''"
  "str_lower ''X-Sentinel-Timestamp-Ms'' = ''x-sentinel-timestamp-ms''" "str_lower ''X-Sentinel-Event-Slug'' = ''x-sentinel-event-slug''"
  "str_lower ''Authorization'' = ''authorization''" "str_lower ''X-Sentinel-Signature'' = ''x-sentinel-signature''"
  by code_simp+

lemma lower_headers_snoc: "lower_headers (hs @ [(k, v)]) = dict_set (str_lower k) v (lower_headers hs)"
  by (simp add: lower_headers_def)

lemma header_lower_append:
  "str_lower k \<noteq> n \<Longrightarrow> header_or_empty (lower_headers (hs @ [(k, v)])) n = header_or_empty (lower_headers hs) n"
  "header_or_empty (lower_headers (hs @ [(k, v)])) (str_lower k) = v"
  by (simp_all add: lower_headers_snoc header_or_empty_def)

definition fixed_headers :: "shift_alert \<Rightarrow> string dict" where
  "fixed_headers a =
     [(''Content-Type'', ''application/json''), (''User-Agent'', ''polymarket-sentinel/0.1.0''), (''X-Sentinel-Alert-Id'', alert_id a),
      (''X-Sentinel-Alert-Level'', level_value (alert_level a)), (''X-Sentinel-Timestamp-Ms'', str_int (alert_timestamp_ms a))]"

lemma fixed_headers_lookup:
  "header_or_empty (lower_headers (fixed_headers a)) ''x-sentinel-alert-id'' = alert_id a"
  "header_or_empty (lower_headers (fixed_headers a)) ''authorization'' = []"
  "header_or_empty (lower_headers (fixed_headers a)) ''x-sentinel-signature'' = []"
  by (simp_all add: fixed_headers_def lower_headers_def header_or_empty_def header_names)

lemma build_headers_lookup:
  "header_or_empty (lower_headers (build_headers SL w a data)) ''x-sentinel-alert-id'' = alert_id a"
  "header_or_empty (lower_headers (build_headers SL w a data)) ''authorization'' =
     (if wh_bearer_token w = [] then [] else ''Bearer '' @ wh_bearer_token w)"
  "header_or_empty (lower_headers (build_headers SL w a data)) ''x-sentinel-signature'' =
     (if wh_hmac_secret w = [] then [] else ''sha256='' @ s_hmac SL (wh_hmac_secret w) data)"
proof -
  let ?slug = "sstr SL (jor (jget (alert_market a) ''event_slug'') (JStr []))"
  define h1 where "h1 = fixed_headers a @ (if ?slug \<noteq> [] then [(''X-Sentinel-Event-Slug'', ?slug)] else [])"
  define h2 where "h2 = h1 @ (if wh_bearer_token w \<noteq> [] then [(''Authorization'', ''Bearer '' @ wh_bearer_token w)] else [])"
  have b: "build_headers SL w a data = h2 @ (if wh_hmac_secret w \<noteq> [] then
      [(''X-Sentinel-Signature'', ''sha256='' @ s_hmac SL (wh_hmac_secret w) data)] else [])"
    by (simp add: build_headers_def h1_def h2_def fixed_headers_def Let_def)
  have h1: "header_or_empty (lower_headers h1) ''x-sentinel-alert-id'' = alert_id a"
      "header_or_empty (lower_headers h1) ''authorization'' = []" "header_or_empty (lower_headers h1) ''x-sentinel-signature'' = []"
    unfolding h1_def by (simp_all add: header_lower_append header_names fixed_headers_lookup)
  have h2: "header_or_empty (lower_headers h2) ''x-sentinel-alert-id'' = alert_id a"
      "header_or_empty (lower_headers h2) ''authorization'' = (if wh_bearer_token w = [] then [] else ''Bearer '' @ wh_bearer_token w)"
      "header_or_empty (lower_headers h2) ''x-sentinel-signature'' = []"
    unfolding h2_def using h1 header_lower_append(2) [of h1 "''Authorization''"]
    by (simp_all add: header_lower_append(1) header_names)
  show "header_or_empty (lower_headers (build_headers SL w a data)) ''x-sentinel-alert-id'' = alert_id a"
      "header_or_empty (lower_headers (build_headers SL w a data)) ''authorization'' =
        (if wh_bearer_token w = [] then [] else ''Bearer '' @ wh_bearer_token w)"
      "header_or_empty (lower_headers (build_headers SL w a data)) ''x-sentinel-signature'' =
        (if wh_hmac_secret w = [] then [] else ''sha256='' @ s_hmac SL (wh_hmac_secret w) data)"
    unfolding b using h2 header_lower_append(2) [of h2 "''X-Sentinel-Signature''"]
    by (simp_all add: header_lower_append(1) header_names)
qed

lemma starts_with_append [simp]: "starts_with p (p @ s)"
  by (simp add: starts_with_iff)

text \<open>
  C34 (roundtrip): what the webhook notifier sends, the ingress accepts. When both sides are
  configured with the same token and secret and compute the same HMAC, and the body reads back as
  an alert with the sender's id, the ingress passes the authorization, the signature and the id
  check and stores the alert.
\<close>

theorem webhook_accepted_by_ingress:
  assumes "wh_bearer_token w = webhook_bearer_token (cfg_researcher cfg)" "wh_hmac_secret w = webhook_hmac_secret (cfg_researcher cfg)"
    and "\<And>key body. s_hmac SL key body = hmac_sha256_hexdigest L key body"
    and "validate_mirror_json L (to_json SL a) = Some m" "mirror_alert_id m = alert_id a"
  shows "handle_alert L ve cfg sv (to_json SL a) (build_headers SL w a (to_json SL a)) src = store_alert L sv m src"
  using assms build_headers_lookup [of SL w a "to_json SL a"]
  by (simp add: handle_alert_def Let_def authorize_def verify_signature_def)

text \<open>
  A webhook with the wrong credentials changes nothing. When the ingress demands a
  token other than the sender's, or a secret under which the sender's signature of the body is not
  the expected one, the answer is 401 and the world is left as it was.
\<close>

theorem wrong_credentials_rejected:
  assumes "webhook_bearer_token (cfg_researcher cfg) \<noteq> [] \<and> wh_bearer_token w \<noteq> webhook_bearer_token (cfg_researcher cfg) \<or>
      webhook_hmac_secret (cfg_researcher cfg) \<noteq> [] \<and>
        (wh_hmac_secret w = [] \<or>
         s_hmac SL (wh_hmac_secret w) body \<noteq> hmac_sha256_hexdigest L (webhook_hmac_secret (cfg_researcher cfg)) body)"
  shows "\<exists>r. handle_alert L ve cfg sv body (build_headers SL w a body) src s = (Inr r, s) \<and> status_code r = 401"
  using assms build_headers_lookup [of SL w a body]
  by (auto simp: handle_alert_def Let_def authorize_def verify_signature_def error_response_def ret_def split: if_splits)

section \<open>Replaying an alert\<close>

text \<open>\<open>replay_alert.py\<close>: the headers carry the alert's id and, unless skipped, the signature.\<close>

definition replay_headers :: "lib \<Rightarrow> pipeline_config \<Rightarrow> bool \<Rightarrow> string \<Rightarrow> string \<Rightarrow> string dict" where
  "replay_headers L cfg skip_hmac body a_id =
     [(''x-sentinel-alert-id'', a_id)] @
     (if \<not> skip_hmac \<and> webhook_hmac_secret (cfg_researcher cfg) \<noteq> []
      then [(''x-sentinel-signature'', ''sha256='' @ hmac_sha256_hexdigest L (webhook_hmac_secret (cfg_researcher cfg)) body)]
      else [])"

definition replay_alert ::
  "lib \<Rightarrow> (string \<Rightarrow> json) \<Rightarrow> pipeline_config \<Rightarrow> string \<Rightarrow> bool \<Rightarrow> string \<Rightarrow> string \<Rightarrow> string \<Rightarrow> ingress_response op" where
  "replay_alert L ve cfg sv skip_hmac path body a_id =
     handle_alert L ve cfg sv body (replay_headers L cfg skip_hmac body a_id) (Some path)"

lemma replay_header_names:
  "str_lower ''x-sentinel-alert-id'' = ''x-sentinel-alert-id''" "str_lower ''x-sentinel-signature'' = ''x-sentinel-signature''"
  by code_simp+

text \<open>
  The replay script cannot pass a token check. Where the ingress is configured with a
  bearer token, replaying an alert is answered with 401 and stores nothing, since the script sends
  no token.
\<close>

theorem replay_alert_unauthorized:
  assumes "webhook_bearer_token (cfg_researcher cfg) \<noteq> []"
  shows "replay_alert L ve cfg sv skip path body a_id s = (Inr (error_response 401 ''unauthorized''), s)"
proof -
  have "header_or_empty (lower_headers (replay_headers L cfg skip body a_id)) ''authorization'' = []"
    by (simp add: replay_headers_def lower_headers_def header_or_empty_def replay_header_names)
  then show ?thesis using assms by (simp add: replay_alert_def handle_alert_def authorize_def Let_def ret_def)
qed

section \<open>Evaluated examples\<close>

definition handoff_lib :: "shift_alert_mirror \<Rightarrow> lib" where
  "handoff_lib m = demo_lib\<lparr>validate_mirror_json := (\<lambda>_. Some m), hmac_sha256_hexdigest := (\<lambda>k b. b)\<rparr>"

definition secured_config :: pipeline_config where
  "secured_config = demo_config\<lparr>cfg_researcher := (cfg_researcher demo_config)\<lparr>webhook_bearer_token := ''tok'', webhook_hmac_secret := ''key''\<rparr>\<rparr>"

theorem webhook_accepted_by_ingress_witness:
  "handle_alert (handoff_lib (demo_mirror\<lparr>mirror_alert_id := ''id''\<rparr>)) (\<lambda>_. JNull) secured_config ''v1'' ''{}''
     (build_headers demo_slib demo_webhook (demo_alert SCOUT 0 5) ''{}'') None =
   store_alert (handoff_lib (demo_mirror\<lparr>mirror_alert_id := ''id''\<rparr>)) ''v1'' (demo_mirror\<lparr>mirror_alert_id := ''id''\<rparr>) None"
  using webhook_accepted_by_ingress [of demo_webhook secured_config demo_slib "handoff_lib (demo_mirror\<lparr>mirror_alert_id := ''id''\<rparr>)"
      "demo_alert SCOUT 0 5" "demo_mirror\<lparr>mirror_alert_id := ''id''\<rparr>" "\<lambda>_. JNull" "''v1''" None]
  by (simp add: demo_webhook_def secured_config_def handoff_lib_def demo_slib_def demo_alert_def to_json_def)

theorem wrong_credentials_rejected_witness:
  "\<exists>r. handle_alert demo_lib (\<lambda>_. JNull) secured_config ''v1'' ''{}''
     (build_headers demo_slib (demo_webhook\<lparr>wh_bearer_token := ''no''\<rparr>) (demo_alert SCOUT 0 5) ''{}'') None (demo_world empty_pdb) =
       (Inr r, demo_world empty_pdb) \<and> status_code r = 401"
  by (rule wrong_credentials_rejected) (simp add: secured_config_def demo_webhook_def)

theorem replay_alert_unauthorized_witness:
  "replay_alert demo_lib (\<lambda>_. JNull) secured_config ''v1'' False ''p'' ''{}'' ''a1'' (demo_world empty_pdb) =
     (Inr (error_response 401 ''unauthorized''), demo_world empty_pdb)"
  by (rule replay_alert_unauthorized) (simp add: secured_config_def)

end
