(* ===== verification/Operations.thy ===== *)
theory Operations
  imports Pipeline_Records Sentinel_Store
begin

text \<open>
  What surrounds the two programs: the approval endpoints of the executor
  (\<open>src/src/executor/server.py\<close>) and the health check
  (\<open>src/scripts/healthcheck.py\<close>).
\<close>

section \<open>Approval endpoints\<close>

record http_response =
  http_status :: int
  http_body :: "json dict"

definition decision_endpoint :: "approval_decision op \<Rightarrow> http_response op" where
  "decision_endpoint decide =
     tryM (bindM decide (\<lambda>dec.
             ret \<lparr>http_status = 200, http_body = [(''approval_id'', JStr (apd_approval_id dec)), (''status'', JStr (apd_status dec))]\<rparr>))
       (\<lambda>e. case e of
            KeyError m \<Rightarrow> ret \<lparr>http_status = 404, http_body = [(''detail'', JStr (str_exc e))]\<rparr>
          | _ \<Rightarrow> raise e)"

definition approve_endpoint :: "string \<Rightarrow> string \<Rightarrow> string option \<Rightarrow> http_response op" where
  "approve_endpoint token approver_id reason = decision_endpoint (approve token approver_id reason)"

definition reject_endpoint :: "string \<Rightarrow> string \<Rightarrow> string option \<Rightarrow> http_response op" where
  "reject_endpoint token approver_id reason = decision_endpoint (reject token approver_id reason)"

section \<open>Health check\<close>

record health_args =
  max_tick_age_sec :: int
  max_gatekeeper_age_sec :: int
  min_active_markets :: int

definition sql_max :: "int list \<Rightarrow> int option" where
  "sql_max xs = (if xs = [] then None else Some (Max (set xs)))"

definition latest_tick_ms :: "store \<Rightarrow> int option" where
  "latest_tick_ms st = sql_max (map tk_ts (price_ticks st))"

definition latest_gatekeeper_ms :: "store \<Rightarrow> int option" where
  "latest_gatekeeper_ms st = sql_max (map tm_last_update (tracked_markets st))"

definition active_markets :: "store \<Rightarrow> int" where
  "active_markets st = int (length (filter (\<lambda>r. active (tm_market r)) (tracked_markets st)))"

definition health_failures :: "health_args \<Rightarrow> int \<Rightarrow> store \<Rightarrow> string list" where
  "health_failures args now st =
     (if active_markets st < min_active_markets args then [''too_few_active_markets''] else []) @
     (case latest_tick_ms st of
        None \<Rightarrow> [''no_price_ticks'']
      | Some t \<Rightarrow> if now - t > max_tick_age_sec args * 1000 then [''stale_price_ticks''] else []) @
     (case latest_gatekeeper_ms st of
        None \<Rightarrow> [''no_gatekeeper_update'']
      | Some t \<Rightarrow> if now - t > max_gatekeeper_age_sec args * 1000 then [''stale_gatekeeper_update''] else [])"

definition age_json :: "int \<Rightarrow> int option \<Rightarrow> json" where
  "age_json now t = (case t of None \<Rightarrow> JNull | Some u \<Rightarrow> JFloat (py_round 1 (of_int (now - u) / 1000)))"

text \<open>The exit code and what is printed; \<open>None\<close> for a database file that does not exist.\<close>

definition healthcheck_main :: "health_args \<Rightarrow> string \<Rightarrow> int \<Rightarrow> store option \<Rightarrow> int \<times> json dict" where
  "healthcheck_main args path now disk = (case disk of
       None \<Rightarrow> (1, [(''status'', JStr ''error''), (''reason'', JStr ''missing_sqlite''), (''path'', JStr path)])
     | Some st \<Rightarrow>
         (let failures = health_failures args now st in
          (if failures = [] then 0 else 1,
           [(''status'', JStr (if failures = [] then ''ok'' else ''error'')), (''active_markets'', JInt (active_markets st)),
            (''latest_tick_age_sec'', age_json now (latest_tick_ms st)),
            (''latest_gatekeeper_age_sec'', age_json now (latest_gatekeeper_ms st)),
            (''failures'', JList (map JStr failures))])))"

lemma sql_max_ge: "x \<in> set xs \<Longrightarrow> \<exists>m. sql_max xs = Some m \<and> x \<le> m"
  by (auto simp: sql_max_def)

text \<open>
  A tick hides a dead gatekeeper. The check takes the latest change of any tracked
  market for the last gatekeeper run, but storing a tick changes it too: after a tick of a tracked
  market no older than the allowed age, the check never reports a stale gatekeeper, however long
  ago the gatekeeper last ran.
\<close>

theorem tick_hides_stale_gatekeeper:
  assumes "\<exists>r\<in>set (tracked_markets st). asset_id (tm_market r) = a" "now - ts \<le> max_gatekeeper_age_sec args * 1000"
  shows "''stale_gatekeeper_update'' \<notin> set (health_failures args now (update_last_tick a ts st)) \<and>
    ''no_gatekeeper_update'' \<notin> set (health_failures args now (update_last_tick a ts st))"
proof -
  from assms(1) have "ts \<in> set (map tm_last_update (tracked_markets (update_last_tick a ts st)))"
    by (force simp: update_last_tick_def)
  then obtain m where m: "latest_gatekeeper_ms (update_last_tick a ts st) = Some m" "ts \<le> m"
    unfolding latest_gatekeeper_ms_def using sql_max_ge by blast
  with assms(2) have "\<not> now - m > max_gatekeeper_age_sec args * 1000" by linarith
  with m(1) show ?thesis by (auto simp: health_failures_def split: option.splits)
qed

theorem tick_hides_stale_gatekeeper_witness:
  "''stale_gatekeeper_update'' \<notin> set (health_failures \<lparr>max_tick_age_sec = 300, max_gatekeeper_age_sec = 900, min_active_markets = 1\<rparr>
     1000000000 (update_last_tick ''a'' 999999000 (upsert_tracked_markets [demo_metadata ''a''] 0 empty_store)))"
proof -
  have "\<exists>r\<in>set (tracked_markets (upsert_tracked_markets [demo_metadata ''a''] 0 empty_store)). asset_id (tm_market r) = ''a''"
    by (simp add: upsert_tracked_markets_def get_tracked_market_def empty_store_def keep_liveness_def demo_metadata_def)
  from tick_hides_stale_gatekeeper [OF this, of 1000000000 999999000 "\<lparr>max_tick_age_sec = 300, max_gatekeeper_age_sec = 900, min_active_markets = 1\<rparr>"]
  show ?thesis by simp
qed

end
