(* ===== verification/Configuration.thy ===== *)
theory Configuration
  imports Json_Values
begin

text \<open>
  Loading of the two configuration files (\<open>src/src/sentinel/config.py\<close>,
  \<open>src/src/pipeline/config.py\<close>): references to environment variables are replaced in every
  text, and each section is handed as keyword arguments to its data class. The parsed YAML
  document is the argument, a JSON value (mappings with text keys).
\<close>

section \<open>Environment variables\<close>

definition is_env_char :: "char \<Rightarrow> bool" where
  "is_env_char c \<longleftrightarrow> (let n = of_char c :: nat in (65 \<le> n \<and> n \<le> 90) \<or> (48 \<le> n \<and> n \<le> 57) \<or> n = 95)"

text \<open>
  A match of the pattern \<open>\${([A-Z0-9_]+)}\<close> at the start of a text: the name and what follows. An
  unset variable is the empty text.
\<close>

definition env_match :: "string \<Rightarrow> (string \<times> string) option" where
  "env_match s = (case s of
       CHR ''$'' # CHR ''{'' # t \<Rightarrow>
         (let name = takeWhile is_env_char t; rest = dropWhile is_env_char t in
          if name \<noteq> [] then (case rest of CHR ''}'' # u \<Rightarrow> Some (name, u) | _ \<Rightarrow> None) else None)
     | _ \<Rightarrow> None)"

lemma env_match_shorter: "env_match s = Some (name, u) \<Longrightarrow> length u < length s"
proof -
  assume "env_match s = Some (name, u)"
  then obtain t where t: "s = CHR ''$'' # CHR ''{'' # t" "dropWhile is_env_char t = CHR ''}'' # u"
    by (auto simp: env_match_def Let_def split: list.splits char.splits bool.splits if_splits)
  have "length (dropWhile is_env_char t) \<le> length t" by (rule length_dropWhile_le)
  with t show ?thesis by simp
qed

function subst_env :: "(string \<Rightarrow> string) \<Rightarrow> string \<Rightarrow> string" where
  "subst_env env s =
     (case env_match s of
        Some (name, u) \<Rightarrow> env name @ subst_env env u
      | None \<Rightarrow> (case s of [] \<Rightarrow> [] | c # t \<Rightarrow> c # subst_env env t))"
  by pat_completeness auto

termination
  by (relation "measure (\<lambda>(env, s). length s)") (auto dest: env_match_shorter)

declare subst_env.simps [simp del]

fun resolve_env :: "(string \<Rightarrow> string) \<Rightarrow> json \<Rightarrow> json" where
  "resolve_env env (JStr s) = JStr (subst_env env s)"
| "resolve_env env (JList xs) = JList (map (resolve_env env) xs)"
| "resolve_env env (JDict d) = JDict (map (\<lambda>(k, v). (k, resolve_env env v)) d)"
| "resolve_env env v = v"

lemma subst_env_plain: "CHR ''$'' \<notin> set a \<Longrightarrow> subst_env env (a @ s) = a @ subst_env env s"
proof (induction a)
  case (Cons c a)
  then have "env_match ((c # a) @ s) = None" by (auto simp: env_match_def split: list.split char.split bool.split)
  with Cons show ?case by (subst subst_env.simps) simp
qed simp

lemma subst_env_Nil [simp]: "subst_env env [] = []"
  by (subst subst_env.simps) (simp add: env_match_def)

text \<open>
  Environment variables. A text without a dollar sign is left alone; where the
  first dollar sign starts a reference to a variable, the reference is replaced by the variable's
  value, which is not searched again, and the substitution goes on behind it.
\<close>

theorem subst_env_correct:
  assumes "CHR ''$'' \<notin> set a" "name \<noteq> []" "list_all is_env_char name"
  shows "subst_env env a = a \<and> subst_env env (a @ ''${'' @ name @ ''}'' @ b) = a @ env name @ subst_env env b"
proof -
  have "\<forall>c\<in>set name. is_env_char c" using assms(3) by (simp add: list_all_iff)
  moreover have "\<not> is_env_char CHR ''}''" by code_simp
  ultimately have "takeWhile is_env_char (name @ CHR ''}'' # b) = name" "dropWhile is_env_char (name @ CHR ''}'' # b) = CHR ''}'' # b"
    by (simp_all add: takeWhile_tail dropWhile_append1 dropWhile_append2)
  then have "env_match (''${'' @ name @ ''}'' @ b) = Some (name, b)" using assms(2) by (simp add: env_match_def)
  then have "subst_env env (''${'' @ name @ ''}'' @ b) = env name @ subst_env env b" by (subst subst_env.simps) simp
  then show ?thesis using subst_env_plain [OF assms(1), of env] subst_env_plain [OF assms(1), of env "[]"] by simp
qed

theorem subst_env_correct_witness:
  "subst_env (\<lambda>n. if n = ''TOKEN'' then ''${X}'' else ''x'') ''Bearer ${TOKEN}!'' = ''Bearer ${X}!''"
proof -
  have b: "subst_env env ''!'' = ''!''" for env by (subst subst_env.simps) (simp add: env_match_def)
  have n: "list_all is_env_char ''TOKEN''" by code_simp
  show ?thesis
    using subst_env_correct [of "''Bearer ''" "''TOKEN''" "\<lambda>n. if n = ''TOKEN'' then ''${X}'' else ''x''" "''!''", OF _ _ n] b by simp
qed

section \<open>Data classes\<close>

text \<open>
  \<open>C(**kwargs)\<close> for a data class whose fields are given with their defaults: the arguments have
  to be a mapping, name only fields, and name every field without a default. The fields hold the
  arguments as they are: data classes check no types.
\<close>

datatype config_error =
    Not_An_Object
  | Missing_Key string
  | Not_A_Mapping string
  | Unexpected_Argument string
  | Missing_Argument string

type_synonym fields = "(string \<times> json option) list"

definition unknown_arguments :: "fields \<Rightarrow> json dict \<Rightarrow> string list" where
  "unknown_arguments fs kw = filter (\<lambda>k. k \<notin> fst ` set fs) (map fst kw)"

definition missing_arguments :: "fields \<Rightarrow> json dict \<Rightarrow> string list" where
  "missing_arguments fs kw = map fst (filter (\<lambda>(n, d). d = None \<and> dict_get kw n = None) fs)"

definition construct :: "string \<Rightarrow> fields \<Rightarrow> json \<Rightarrow> config_error + json dict" where
  "construct cls fs v = (case as_dict v of
       None \<Rightarrow> Inl (Not_A_Mapping cls)
     | Some kw \<Rightarrow>
         (case unknown_arguments fs kw of
            k # ks \<Rightarrow> Inl (Unexpected_Argument k)
          | [] \<Rightarrow>
              (case missing_arguments fs kw of
                 n # ns \<Rightarrow> Inl (Missing_Argument n)
               | [] \<Rightarrow> Inr (map (\<lambda>(n, d). (n, case dict_get kw n of Some x \<Rightarrow> x | None \<Rightarrow> the d)) fs))))"

text \<open>The sections in the order in which they are built; the first that fails is what is raised.\<close>

fun load_sections :: "(string \<times> fields) list \<Rightarrow> json dict \<Rightarrow> config_error + json dict dict" where
  "load_sections [] raw = Inr []"
| "load_sections ((name, fs) # secs) raw =
     (case dict_get raw name of
        None \<Rightarrow> Inl (Missing_Key name)
      | Some v \<Rightarrow>
          (case construct name fs v of
             Inl e \<Rightarrow> Inl e
           | Inr c \<Rightarrow> (case load_sections secs raw of Inl e \<Rightarrow> Inl e | Inr cs \<Rightarrow> Inr ((name, c) # cs))))"

text \<open>\<open>yaml.safe_load(text) or {}\<close>, and what is not a mapping is refused.\<close>

definition load_yaml :: "json \<Rightarrow> config_error + json dict" where
  "load_yaml doc = (case as_dict (jor doc (JDict [])) of None \<Rightarrow> Inl Not_An_Object | Some d \<Rightarrow> Inr d)"

definition resolved :: "(string \<Rightarrow> string) \<Rightarrow> json dict \<Rightarrow> json dict" where
  "resolved env d = map (\<lambda>(k, v). (k, resolve_env env v)) d"

lemma resolve_env_dict: "resolve_env env (JDict d) = JDict (resolved env d)"
  by (simp add: resolved_def)

section \<open>The pipeline's configuration\<close>

abbreviation required :: "string \<Rightarrow> string \<times> json option" where
  "required n \<equiv> (n, None)"

abbreviation text_default :: "string \<Rightarrow> string \<Rightarrow> string \<times> json option" where
  "text_default n s \<equiv> (n, Some (JStr s))"

abbreviation int_default :: "string \<Rightarrow> int \<Rightarrow> string \<times> json option" where
  "int_default n i \<equiv> (n, Some (JInt i))"

abbreviation float_default :: "string \<Rightarrow> rat \<Rightarrow> string \<times> json option" where
  "float_default n q \<equiv> (n, Some (JFloat q))"

definition pipeline_sections :: "(string \<times> fields) list" where
  "pipeline_sections =
     [(''app'', [required ''env'', required ''log_level'']),
      (''database'', [required ''url'', int_default ''pool_size'' 10]),
      (''queue'', [required ''lease_sec'', required ''max_attempts'', required ''retry_backoff_sec'']),
      (''researcher'', [required ''http_host'', required ''http_port'', text_default ''webhook_bearer_token'' [],
         text_default ''webhook_hmac_secret'' [], text_default ''prompt_version'' ''v1'', int_default ''source_freshness_sec'' 21600]),
      (''analyst'', [text_default ''ruleset_version'' ''v1'', int_default ''min_avg_dollar_volume'' 2000000,
         int_default ''max_spread_bps'' 50, float_default ''min_price'' 5, float_default ''max_price'' 500]),
      (''executor'', [text_default ''approval_mode'' ''manual_all'', text_default ''risk_ruleset_version'' ''v1'',
         float_default ''max_position_pct'' (5 / 100), float_default ''max_sector_exposure_pct'' (20 / 100),
         float_default ''max_gross_invested_pct'' (80 / 100), float_default ''max_daily_drawdown_pct'' (2 / 100),
         int_default ''consecutive_loss_limit'' 3, int_default ''cooldown_minutes'' 60, int_default ''stale_quote_sec'' 30,
         int_default ''approval_timeout_minutes'' 15]),
      (''broker'', [text_default ''provider'' ''alpaca'', (''paper'', Some (JBool True)), text_default ''api_key'' [],
         text_default ''api_secret'' []]),
      (''notifications'', [text_default ''discord_webhook_url'' [], text_default ''telegram_bot_token'' [],
         text_default ''telegram_chat_id'' []])]"

definition load_pipeline_config :: "(string \<Rightarrow> string) \<Rightarrow> json \<Rightarrow> config_error + json dict dict" where
  "load_pipeline_config env doc =
     (case load_yaml doc of Inl e \<Rightarrow> Inl e | Inr raw \<Rightarrow> load_sections pipeline_sections (resolved env raw))"

section \<open>The sentinel's configuration\<close>

definition gatekeeper_fields :: fields where
  "gatekeeper_fields =
     map required [''gamma_api_url'', ''endpoint'', ''poll_interval_sec'', ''min_volume_24h'', ''min_liquidity'', ''max_markets'',
       ''excluded_categories'', ''excluded_tag_slugs'', ''stale_timeout_sec''] @
     [int_default ''page_size'' 100, text_default ''order_by'' ''volume24hr'', (''ascending'', Some (JBool False))]"

definition websocket_fields :: fields where
  "websocket_fields =
     map required [''url'', ''heartbeat_interval_sec'', ''reconnect_base_delay_sec'', ''reconnect_max_delay_sec'',
       ''custom_feature_enabled'', ''max_spread_for_midpoint'', ''max_quote_age_sec'']"

definition threshold_fields :: fields where
  "threshold_fields = map required [''window_sec'', ''delta_pct'', ''min_ticks'']"

text \<open>The fields of \<open>DetectorConfig\<close> but the thresholds, which are built separately.\<close>

definition detector_fields :: fields where
  "detector_fields =
     map required [''check_interval_sec'', ''buffer_max_age_sec'', ''bar_interval_sec'', ''cooldown_sec'', ''stale_threshold_sec'',
       ''max_spread_for_detection'', ''max_quote_age_sec'', ''warmup_grace_sec'']"

definition storage_fields :: fields where
  "storage_fields =
     map required [''sqlite_path'', ''hot_retention_hours'', ''archive_dir'', ''archive_interval_sec''] @
     [int_default ''shift_event_retention_days'' 30, int_default ''archive_retention_days'' 30]"

definition notifications_fields :: fields where
  "notifications_fields =
     map required [''enabled_channels'', ''min_severity'', ''allowed_levels'', ''excluded_confidences'', ''excluded_signal_sources'',
       ''min_price'', ''max_price'', ''min_liquidity'', ''min_abs_move'', ''event_dedup_sec'', ''json_file_dir'', ''json_webhook_url'',
       ''discord_webhook_url'', ''telegram_bot_token'', ''telegram_chat_id''] @
     [int_default ''json_file_retention_days'' 7, text_default ''json_webhook_bearer_token'' [],
      text_default ''json_webhook_hmac_secret'' [], int_default ''json_webhook_timeout_sec'' 10,
      int_default ''json_webhook_max_retries'' 3, float_default ''json_webhook_retry_backoff_sec'' 1]"

record app_config =
  before_detector :: "json dict dict"
  detector_section :: "json dict"
  detector_thresholds :: "json dict dict"
  after_detector :: "json dict dict"

fun load_thresholds :: "json dict \<Rightarrow> config_error + json dict dict" where
  "load_thresholds [] = Inr []"
| "load_thresholds ((level, payload) # ts) =
     (case construct ''ThresholdConfig'' threshold_fields payload of
        Inl e \<Rightarrow> Inl e
      | Inr c \<Rightarrow> (case load_thresholds ts of Inl e \<Rightarrow> Inl e | Inr cs \<Rightarrow> Inr ((level, c) # cs)))"

definition load_detector :: "json dict \<Rightarrow> config_error + json dict \<times> json dict dict" where
  "load_detector raw =
     (case dict_get raw ''detector'' of
        None \<Rightarrow> Inl (Missing_Key ''detector'')
      | Some v \<Rightarrow>
          (case as_dict v of
             None \<Rightarrow> Inl (Not_A_Mapping ''detector'')
           | Some kw \<Rightarrow>
               (case dict_get kw ''thresholds'' of
                  None \<Rightarrow> Inl (Missing_Key ''thresholds'')
                | Some t \<Rightarrow>
                    (case as_dict t of
                       None \<Rightarrow> Inl (Not_A_Mapping ''thresholds'')
                     | Some ts \<Rightarrow>
                         (case load_thresholds ts of
                            Inl e \<Rightarrow> Inl e
                          | Inr th \<Rightarrow>
                              (case construct ''detector'' detector_fields (JDict (filter (\<lambda>(k, _). k \<noteq> ''thresholds'') kw)) of
                                 Inl e \<Rightarrow> Inl e
                               | Inr c \<Rightarrow> Inr (c, th)))))))"

definition load_config :: "(string \<Rightarrow> string) \<Rightarrow> json \<Rightarrow> config_error + app_config" where
  "load_config env doc =
     (case load_yaml doc of
        Inl e \<Rightarrow> Inl e
      | Inr raw0 \<Rightarrow>
          let raw = resolved env raw0 in
          (case load_sections [(''gatekeeper'', gatekeeper_fields), (''websocket'', websocket_fields)] raw of
             Inl e \<Rightarrow> Inl e
           | Inr b \<Rightarrow>
               (case load_detector raw of
                  Inl e \<Rightarrow> Inl e
                | Inr (d, th) \<Rightarrow>
                    (case load_sections [(''storage'', storage_fields), (''notifications'', notifications_fields),
                        (''metrics'', [required ''log_interval_sec'']), (''logging'', [required ''level'', required ''file''])] raw of
                       Inl e \<Rightarrow> Inl e
                     | Inr a \<Rightarrow> Inr \<lparr>before_detector = b, detector_section = d, detector_thresholds = th, after_detector = a\<rparr>))))"

section \<open>What is loaded\<close>

text \<open>
  \<open>fills env fs kw c\<close>: the arguments name only fields, every field without a default is among
  them, and \<open>c\<close> holds for each field its argument with the environment variables replaced, or
  the default.
\<close>

definition fills :: "(string \<Rightarrow> string) \<Rightarrow> fields \<Rightarrow> json dict \<Rightarrow> json dict \<Rightarrow> bool" where
  "fills env fs kw c \<longleftrightarrow> set (map fst kw) \<subseteq> set (map fst fs) \<and> map fst c = map fst fs \<and>
     (\<forall>(n, d)\<in>set fs. case dict_get kw n of
        Some x \<Rightarrow> dict_get c n = Some (resolve_env env x)
      | None \<Rightarrow> d \<noteq> None \<and> dict_get c n = d)"

lemma as_dict_resolve: "as_dict (resolve_env env v) = map_option (resolved env) (as_dict v)"
  by (cases v) (simp_all add: resolved_def)

lemma get_resolved: "dict_get (resolved env d) k = map_option (resolve_env env) (dict_get d k)"
  by (simp add: resolved_def map_of_map)

lemma keys_resolved: "map fst (resolved env d) = map fst d"
  by (simp add: resolved_def case_prod_beta comp_def)

lemma dict_tabulate:
  assumes "distinct (map fst c)"
  shows "map (\<lambda>k. (k, the (dict_get c k))) (map fst c) = c"
proof -
  have "map (\<lambda>x. (fst x, the (dict_get c (fst x)))) c = c"
    by (rule map_idI) (use assms in \<open>auto simp: map_of_is_SomeI\<close>)
  then show ?thesis by (simp add: comp_def)
qed

lemma construct_iff:
  assumes "distinct (map fst fs)"
  shows "construct cls fs (JDict (resolved env kw)) = Inr c \<longleftrightarrow> fills env fs kw c"
proof -
  let ?f = "\<lambda>(n, d). (n, case dict_get (resolved env kw) n of Some x \<Rightarrow> x | None \<Rightarrow> the d)"
  have u: "unknown_arguments fs (resolved env kw) = [] \<longleftrightarrow> set (map fst kw) \<subseteq> set (map fst fs)"
    unfolding unknown_arguments_def keys_resolved by (auto simp: filter_empty_conv)
  have m: "missing_arguments fs (resolved env kw) = [] \<longleftrightarrow> (\<forall>(n, d)\<in>set fs. dict_get kw n = None \<longrightarrow> d \<noteq> None)"
    by (auto simp: missing_arguments_def filter_empty_conv get_resolved)
  have fst_f: "map fst (map ?f fs) = map fst fs" by (simp add: case_prod_beta comp_def)
  have get_f: "dict_get (map ?f fs) n = Some (snd (?f (n, d)))" if "(n, d) \<in> set fs" for n d
  proof (rule map_of_is_SomeI)
    show "distinct (map fst (map ?f fs))" unfolding fst_f by (rule assms)
    show "(n, snd (?f (n, d))) \<in> set (map ?f fs)" using that by force
  qed
  have "c = map ?f fs" if "map fst c = map fst fs" "\<forall>(n, d)\<in>set fs. dict_get c n = Some (snd (?f (n, d)))"
  proof -
    have "c = map (\<lambda>k. (k, the (dict_get c k))) (map fst fs)" using dict_tabulate [of c] assms that(1) by simp
    also have "\<dots> = map ?f fs" using that(2) by (auto simp: case_prod_beta)
    finally show ?thesis .
  qed
  moreover have "construct cls fs (JDict (resolved env kw)) = Inr c \<longleftrightarrow>
      set (map fst kw) \<subseteq> set (map fst fs) \<and> (\<forall>(n, d)\<in>set fs. dict_get kw n = None \<longrightarrow> d \<noteq> None) \<and> c = map ?f fs"
    unfolding u [symmetric] m [symmetric]
    by (cases "unknown_arguments fs (resolved env kw)"; cases "missing_arguments fs (resolved env kw)")
      (auto simp: construct_def)
  moreover have "fills env fs kw c \<longleftrightarrow>
      set (map fst kw) \<subseteq> set (map fst fs) \<and> (\<forall>(n, d)\<in>set fs. dict_get kw n = None \<longrightarrow> d \<noteq> None) \<and>
      map fst c = map fst fs \<and> (\<forall>(n, d)\<in>set fs. dict_get c n = Some (snd (?f (n, d))))"
    unfolding fills_def get_resolved by (fastforce split: option.splits)
  ultimately show ?thesis using get_f fst_f by (metis (mono_tags, lifting) case_prodI2)
qed

definition section_of :: "(string \<Rightarrow> string) \<Rightarrow> json dict \<Rightarrow> string \<times> fields \<Rightarrow> string \<times> json dict \<Rightarrow> bool" where
  "section_of env raw = (\<lambda>(name, fs) (name', c). name' = name \<and> (\<exists>kw. dict_get raw name = Some (JDict kw) \<and> fills env fs kw c))"

lemma as_dict_iff: "as_dict v = Some d \<longleftrightarrow> v = JDict d"
  by (cases v) auto

lemma construct_value:
  assumes "distinct (map fst fs)"
  shows "construct cls fs (resolve_env env v) = Inr c \<longleftrightarrow> (\<exists>kw. v = JDict kw \<and> fills env fs kw c)"
proof (cases "as_dict v")
  case None
  then show ?thesis by (auto simp: construct_def as_dict_resolve)
next
  case (Some kw)
  with construct_iff [OF assms, of cls env kw c] show ?thesis by (auto simp: as_dict_iff simp flip: resolve_env_dict)
qed

lemma load_sections_iff:
  "\<forall>(n, fs)\<in>set secs. distinct (map fst fs) \<Longrightarrow>
   load_sections secs (resolved env raw) = Inr c \<longleftrightarrow> list_all2 (section_of env raw) secs c"
proof (induction secs arbitrary: c)
  case (Cons sec secs)
  obtain name fs where sec: "sec = (name, fs)" by fastforce
  have d: "distinct (map fst fs)" using Cons.prems sec by auto
  have "load_sections (sec # secs) (resolved env raw) = Inr c \<longleftrightarrow>
      (\<exists>v c1 cs. dict_get raw name = Some v \<and> construct name fs (resolve_env env v) = Inr c1 \<and>
        load_sections secs (resolved env raw) = Inr cs \<and> c = (name, c1) # cs)"
    by (auto simp: sec get_resolved split: option.splits sum.splits)
  also have "\<dots> \<longleftrightarrow> list_all2 (section_of env raw) (sec # secs) c"
    using Cons.IH Cons.prems unfolding construct_value [OF d] by (auto simp: list_all2_Cons1 section_of_def sec)
  finally show ?case .
qed auto

lemma load_thresholds_iff:
  "load_thresholds (resolved env ts) = Inr c \<longleftrightarrow>
     list_all2 (\<lambda>(l, v) (l', c). l' = l \<and> (\<exists>kw. v = JDict kw \<and> fills env threshold_fields kw c)) ts c"
proof (induction ts arbitrary: c)
  case (Cons t ts)
  obtain l v where t: "t = (l, v)" by fastforce
  have d: "distinct (map fst threshold_fields)" by (simp add: threshold_fields_def)
  have "load_thresholds (resolved env (t # ts)) = Inr c \<longleftrightarrow>
      (\<exists>c1 cs. construct ''ThresholdConfig'' threshold_fields (resolve_env env v) = Inr c1 \<and>
        load_thresholds (resolved env ts) = Inr cs \<and> c = (l, c1) # cs)"
    by (auto simp: t resolved_def split: sum.splits)
  also have "\<dots> \<longleftrightarrow> list_all2 (\<lambda>(l, v) (l', c). l' = l \<and> (\<exists>kw. v = JDict kw \<and> fills env threshold_fields kw c)) (t # ts) c"
    using Cons.IH unfolding construct_value [OF d] by (auto simp: list_all2_Cons1 t)
  finally show ?case .
qed (auto simp: resolved_def)

lemma filter_resolved: "filter (\<lambda>(k, _). P k) (resolved env d) = resolved env (filter (\<lambda>(k, _). P k) d)"
  by (induction d) (auto simp: resolved_def)

lemma load_detector_iff:
  "load_detector (resolved env raw) = Inr (c, th) \<longleftrightarrow>
     (\<exists>kw ts. dict_get raw ''detector'' = Some (JDict kw) \<and> dict_get kw ''thresholds'' = Some (JDict ts) \<and>
        list_all2 (\<lambda>(l, v) (l', c). l' = l \<and> (\<exists>kw. v = JDict kw \<and> fills env threshold_fields kw c)) ts th \<and>
        fills env detector_fields (filter (\<lambda>(k, _). k \<noteq> ''thresholds'') kw) c)"
proof -
  have d: "distinct (map fst detector_fields)" by (simp add: detector_fields_def)
  show ?thesis
    unfolding load_thresholds_iff [symmetric] construct_iff [OF d, symmetric, of _ _ _ "''detector''"]
    by (auto simp: load_detector_def get_resolved as_dict_resolve as_dict_iff filter_resolved split: option.splits sum.splits)
qed

lemma load_yaml_dict: "load_yaml (JDict raw) = Inr raw"
  by (simp add: load_yaml_def jor_def)

text \<open>
  What the pipeline's configuration holds. Loading succeeds exactly when the file
  has a mapping for each of the eight sections, with no key that is not a field of the section and
  with every field that has no default; then each field holds the value of the file with the
  environment variables replaced in its texts, or the default of the field.
\<close>

theorem load_pipeline_config_correct:
  "load_pipeline_config env (JDict raw) = Inr c \<longleftrightarrow>
     list_all2 (\<lambda>(name, fs) (name', sec). name' = name \<and>
       (\<exists>kw. dict_get raw name = Some (JDict kw) \<and> fills env fs kw sec)) pipeline_sections c"
proof -
  have "\<forall>(n, fs)\<in>set pipeline_sections. distinct (map fst fs)" by (simp add: pipeline_sections_def)
  from load_sections_iff [OF this, of env raw c] show ?thesis
    by (simp add: load_pipeline_config_def load_yaml_dict section_of_def)
qed

text \<open>The same for the sentinel's configuration, whose detector section has one part per alert level.\<close>

theorem load_config_correct:
  "load_config env (JDict raw) = Inr c \<longleftrightarrow>
     list_all2 (section_of env raw) [(''gatekeeper'', gatekeeper_fields), (''websocket'', websocket_fields)] (before_detector c) \<and>
     (\<exists>kw ts. dict_get raw ''detector'' = Some (JDict kw) \<and> dict_get kw ''thresholds'' = Some (JDict ts) \<and>
        list_all2 (\<lambda>(l, v) (l', c). l' = l \<and> (\<exists>kw. v = JDict kw \<and> fills env threshold_fields kw c)) ts (detector_thresholds c) \<and>
        fills env detector_fields (filter (\<lambda>(k, _). k \<noteq> ''thresholds'') kw) (detector_section c)) \<and>
     list_all2 (section_of env raw) [(''storage'', storage_fields), (''notifications'', notifications_fields),
       (''metrics'', [required ''log_interval_sec'']), (''logging'', [required ''level'', required ''file''])] (after_detector c)"
proof -
  let ?b = "[(''gatekeeper'', gatekeeper_fields), (''websocket'', websocket_fields)]"
  let ?a = "[(''storage'', storage_fields), (''notifications'', notifications_fields),
       (''metrics'', [required ''log_interval_sec'']), (''logging'', [required ''level'', required ''file''])]"
  have d: "\<forall>(n, fs)\<in>set ?b. distinct (map fst fs)" "\<forall>(n, fs)\<in>set ?a. distinct (map fst fs)"
    by (simp_all add: gatekeeper_fields_def websocket_fields_def storage_fields_def notifications_fields_def)
  have "load_config env (JDict raw) = Inr c \<longleftrightarrow>
      load_sections ?b (resolved env raw) = Inr (before_detector c) \<and>
      load_detector (resolved env raw) = Inr (detector_section c, detector_thresholds c) \<and>
      load_sections ?a (resolved env raw) = Inr (after_detector c)"
    by (cases c) (auto simp: load_config_def load_yaml_dict Let_def simp del: load_sections.simps split: sum.splits prod.splits)
  then show ?thesis unfolding load_sections_iff [OF d(1)] load_sections_iff [OF d(2)] load_detector_iff .
qed

text \<open>A pipeline configured without an approval mode asks for manual approval.\<close>

theorem manual_approval_by_default:
  assumes "load_pipeline_config env (JDict raw) = Inr c" "dict_get raw ''executor'' = Some (JDict kw)"
    and "dict_get kw ''approval_mode'' = None"
  shows "\<exists>sec. (''executor'', sec) \<in> set c \<and> dict_get sec ''approval_mode'' = Some (JStr ''manual_all'')"
proof -
  have "\<forall>(n, fs)\<in>set pipeline_sections. distinct (map fst fs)" by (simp add: pipeline_sections_def)
  from load_sections_iff [OF this, of env raw c] assms(1)
  have l: "list_all2 (section_of env raw) pipeline_sections c" by (simp add: load_pipeline_config_def load_yaml_dict)
  obtain fs where fs: "(''executor'', fs) \<in> set pipeline_sections" "(''approval_mode'', Some (JStr ''manual_all'')) \<in> set fs"
    by (simp add: pipeline_sections_def)
  from l fs(1) obtain sec where "(''executor'', sec) \<in> set c" "section_of env raw (''executor'', fs) (''executor'', sec)"
    by (fastforce simp: list_all2_conv_all_nth in_set_conv_nth section_of_def)
  then show ?thesis using assms(2,3) fs(2) by (force simp: section_of_def fills_def)
qed

end
