(* ===== verification/Canonical_Json.thy ===== *)
theory Canonical_Json
  imports Python_Numbers
begin

text \<open>
  The text form of payloads: \<open>canonical_json\<close> and \<open>payload_hash\<close> of
  \<open>src/src/pipeline/tracing.py\<close> over \<open>json.dumps\<close> as the source calls it, and
  \<open>json.loads\<close>, which reads the text back. Strings are sequences of the 256 first code
  points; how a float is printed (\<open>fl\<close>) and read (\<open>pf\<close>) are arguments.
\<close>

section \<open>Writing\<close>

definition quote_mark :: char where "quote_mark = CHR 0x22"
definition backslash :: char where "backslash = CHR 0x5C"

definition hex_digit :: "nat \<Rightarrow> char" where
  "hex_digit n = ''0123456789abcdef'' ! n"

text \<open>The default \<open>ensure_ascii=True\<close>.\<close>

definition escape_char :: "char \<Rightarrow> string" where
  "escape_char c = (let n = of_char c :: nat in
     if c = quote_mark \<or> c = backslash then [backslash, c]
     else if n = 10 then [backslash, CHR ''n''] else if n = 13 then [backslash, CHR ''r'']
     else if n = 9 then [backslash, CHR ''t''] else if n = 12 then [backslash, CHR ''f'']
     else if n = 8 then [backslash, CHR ''b'']
     else if 32 \<le> n \<and> n \<le> 126 then [c]
     else [backslash, CHR ''u'', CHR ''0'', CHR ''0'', hex_digit (n div 16), hex_digit (n mod 16)])"

definition json_string :: "string \<Rightarrow> string" where
  "json_string s = quote_mark # concat (map escape_char s) @ [quote_mark]"

fun join_texts :: "string \<Rightarrow> string list \<Rightarrow> string" where
  "join_texts sep [] = []"
| "join_texts sep [x] = x"
| "join_texts sep (x # y # xs) = x @ sep @ join_texts sep (y # xs)"

text \<open>\<open>json.dumps(v, separators=(isep, ksep))\<close>, keys in the order of the dict.\<close>

fun json_text :: "(rat \<Rightarrow> string) \<Rightarrow> string \<Rightarrow> string \<Rightarrow> json \<Rightarrow> string" where
  "json_text fl isep ksep JNull = ''null''"
| "json_text fl isep ksep (JBool b) = (if b then ''true'' else ''false'')"
| "json_text fl isep ksep (JInt i) = str_int i"
| "json_text fl isep ksep (JFloat q) = fl q"
| "json_text fl isep ksep (JStr s) = json_string s"
| "json_text fl isep ksep (JList xs) = ''['' @ join_texts isep (map (json_text fl isep ksep) xs) @ '']''"
| "json_text fl isep ksep (JDict kvs) =
     ''{'' @ join_texts isep (map (\<lambda>kv. json_string (fst kv) @ ksep @ json_text fl isep ksep (snd kv)) kvs) @ ''}''"

text \<open>\<open>sort_keys=True\<close>, at every depth.\<close>

fun sort_keys :: "json \<Rightarrow> json" where
  "sort_keys (JList xs) = JList (map sort_keys xs)"
| "sort_keys (JDict kvs) = JDict (sort_key fst (map (\<lambda>kv. (fst kv, sort_keys (snd kv))) kvs))"
| "sort_keys v = v"

definition canonical_json :: "(rat \<Rightarrow> string) \<Rightarrow> json \<Rightarrow> string" where
  "canonical_json fl payload = json_text fl '','' '':'' (sort_keys payload)"

definition payload_hash :: "(rat \<Rightarrow> string) \<Rightarrow> (string \<Rightarrow> string) \<Rightarrow> json \<Rightarrow> string" where
  "payload_hash fl sha256 payload = sha256 (canonical_json fl payload)"

section \<open>Reading\<close>

definition hex_value :: "char \<Rightarrow> nat option" where
  "hex_value c = (let n = of_char c :: nat in
     if 48 \<le> n \<and> n \<le> 57 then Some (n - 48)
     else if 97 \<le> n \<and> n \<le> 102 then Some (n - 87)
     else if 65 \<le> n \<and> n \<le> 70 then Some (n - 55) else None)"

definition hex4_value :: "char \<Rightarrow> char \<Rightarrow> char \<Rightarrow> char \<Rightarrow> nat option" where
  "hex4_value a b c d = (case (hex_value a, hex_value b, hex_value c, hex_value d) of
     (Some w, Some x, Some y, Some z) \<Rightarrow> Some (4096 * w + 256 * x + 16 * y + z) | _ \<Rightarrow> None)"

definition unescape :: "char \<Rightarrow> char option" where
  "unescape c = (if c = quote_mark \<or> c = backslash \<or> c = CHR ''/'' then Some c
     else if c = CHR ''n'' then Some (char_of (10 :: nat)) else if c = CHR ''r'' then Some (char_of (13 :: nat))
     else if c = CHR ''t'' then Some (char_of (9 :: nat)) else if c = CHR ''f'' then Some (char_of (12 :: nat))
     else if c = CHR ''b'' then Some (char_of (8 :: nat)) else None)"

definition push_char :: "char \<Rightarrow> (string \<times> string) option \<Rightarrow> (string \<times> string) option" where
  "push_char c = map_option (apfst (Cons c))"

text \<open>
  The rest of a string after its opening quote. An escape beyond code point 255 has no character in
  the model.
\<close>

fun scan_string :: "string \<Rightarrow> (string \<times> string) option" where
  "scan_string [] = None"
| "scan_string (c # cs) =
     (if c = quote_mark then Some ([], cs)
      else if c = backslash then
        (case cs of
           [] \<Rightarrow> None
         | e # es \<Rightarrow>
             if e = CHR ''u'' then
               (case es of
                  w # x # y # z # rest \<Rightarrow>
                    (case hex4_value w x y z of
                       Some n \<Rightarrow> if n < 256 then push_char (char_of n) (scan_string rest) else None
                     | None \<Rightarrow> None)
                | _ \<Rightarrow> None)
             else (case unescape e of Some d \<Rightarrow> push_char d (scan_string es) | None \<Rightarrow> None))
      else if (of_char c :: nat) < 32 then None
      else push_char c (scan_string cs))"

definition is_json_space :: "char \<Rightarrow> bool" where
  "is_json_space c \<longleftrightarrow> (of_char c :: nat) \<in> {32, 9, 10, 13}"

definition skip_space :: "string \<Rightarrow> string" where
  "skip_space = dropWhile is_json_space"

text \<open>The integer part, the fraction and the exponent of a number, and what follows it.\<close>

definition scan_digits :: "string \<Rightarrow> (string \<times> string) option" where
  "scan_digits s = (case s of
       [] \<Rightarrow> None
     | c # cs \<Rightarrow>
         if c = CHR ''0'' then Some ([c], cs)
         else if is_digit c then Some (c # takeWhile is_digit cs, dropWhile is_digit cs)
         else None)"

definition scan_int :: "string \<Rightarrow> (string \<times> string) option" where
  "scan_int s = (case s of
       [] \<Rightarrow> None
     | c # cs \<Rightarrow> if c = CHR ''-'' then map_option (apfst (Cons c)) (scan_digits cs) else scan_digits s)"

definition scan_fraction :: "string \<Rightarrow> string \<times> string" where
  "scan_fraction s = (case s of
       c # d # cs \<Rightarrow> if c = CHR ''.'' \<and> is_digit d then (c # takeWhile is_digit (d # cs), dropWhile is_digit (d # cs)) else ([], s)
     | _ \<Rightarrow> ([], s))"

definition scan_exponent :: "string \<Rightarrow> string \<times> string" where
  "scan_exponent s = (case s of
       c # cs \<Rightarrow>
         if c = CHR ''e'' \<or> c = CHR ''E'' then
           (let (sign, t) = (case cs of [] \<Rightarrow> ([], cs) | d # ds \<Rightarrow> if d = CHR ''+'' \<or> d = CHR ''-'' then ([d], ds) else ([], cs)) in
            if takeWhile is_digit t = [] then ([], s) else (c # sign @ takeWhile is_digit t, dropWhile is_digit t))
         else ([], s)
     | _ \<Rightarrow> ([], s))"

definition int_of_text :: "string \<Rightarrow> int" where
  "int_of_text s = (case s of [] \<Rightarrow> 0 | c # cs \<Rightarrow> if c = CHR ''-'' then - int (nat_of_digits cs) else int (nat_of_digits s))"

definition scan_number :: "(string \<Rightarrow> rat option) \<Rightarrow> string \<Rightarrow> (json \<times> string) option" where
  "scan_number pf s = (case scan_int s of
       None \<Rightarrow> None
     | Some (i, r) \<Rightarrow>
         (let (f, r1) = scan_fraction r; (e, r2) = scan_exponent r1 in
          if f = [] \<and> e = [] then Some (JInt (int_of_text i), r2)
          else map_option (\<lambda>q. (JFloat q, r2)) (pf (i @ f @ e))))"

text \<open>
  Values, the rest of a list after its bracket or a comma, the rest of an object after its brace or a
  comma. Every call costs one unit of fuel; twice the length of the text is enough, as shown below.
  A repeated key keeps its place and takes the last value.
\<close>

fun parse_value :: "(string \<Rightarrow> rat option) \<Rightarrow> nat \<Rightarrow> string \<Rightarrow> (json \<times> string) option"
  and parse_items :: "(string \<Rightarrow> rat option) \<Rightarrow> nat \<Rightarrow> string \<Rightarrow> (json list \<times> string) option"
  and parse_members :: "(string \<Rightarrow> rat option) \<Rightarrow> nat \<Rightarrow> string \<Rightarrow> ((string \<times> json) list \<times> string) option" where
  "parse_value pf 0 s = None"
| "parse_value pf (Suc n) [] = None"
| "parse_value pf (Suc n) (c # cs) =
     (if c = quote_mark then map_option (apfst JStr) (scan_string cs)
      else if c = CHR ''{'' then
        (case skip_space cs of
           [] \<Rightarrow> None
         | d # ds \<Rightarrow>
             if d = CHR ''}'' then Some (JDict [], ds)
             else map_option (apfst (\<lambda>kvs. JDict (foldl (\<lambda>m kv. dict_set (fst kv) (snd kv) m) [] kvs))) (parse_members pf n (d # ds)))
      else if c = CHR ''['' then
        (case skip_space cs of
           [] \<Rightarrow> None
         | d # ds \<Rightarrow>
             if d = CHR '']'' then Some (JList [], ds)
             else map_option (apfst JList) (parse_items pf n (d # ds)))
      else if starts_with ''null'' (c # cs) then Some (JNull, drop 3 cs)
      else if starts_with ''true'' (c # cs) then Some (JBool True, drop 3 cs)
      else if starts_with ''false'' (c # cs) then Some (JBool False, drop 4 cs)
      else scan_number pf (c # cs))"
| "parse_items pf 0 s = None"
| "parse_items pf (Suc n) s =
     (case parse_value pf n s of
        None \<Rightarrow> None
      | Some (v, r) \<Rightarrow>
          (case skip_space r of
             [] \<Rightarrow> None
           | d # ds \<Rightarrow>
               if d = CHR '']'' then Some ([v], ds)
               else if d = CHR '','' then map_option (apfst (Cons v)) (parse_items pf n (skip_space ds))
               else None))"
| "parse_members pf 0 s = None"
| "parse_members pf (Suc n) s =
     (case s of
        [] \<Rightarrow> None
      | q # qs \<Rightarrow>
          if q \<noteq> quote_mark then None
          else
            (case scan_string qs of
               None \<Rightarrow> None
             | Some (k, r) \<Rightarrow>
                 (case skip_space r of
                    [] \<Rightarrow> None
                  | d # ds \<Rightarrow>
                      if d \<noteq> CHR '':'' then None
                      else
                        (case parse_value pf n (skip_space ds) of
                           None \<Rightarrow> None
                         | Some (v, r1) \<Rightarrow>
                             (case skip_space r1 of
                                [] \<Rightarrow> None
                              | e # es \<Rightarrow>
                                  if e = CHR ''}'' then Some ([(k, v)], es)
                                  else if e = CHR '','' then map_option (apfst (Cons (k, v))) (parse_members pf n (skip_space es))
                                  else None)))))"

definition json_loads_text :: "(string \<Rightarrow> rat option) \<Rightarrow> string \<Rightarrow> json option" where
  "json_loads_text pf s = (case parse_value pf (Suc (2 * length s)) (skip_space s) of
       Some (v, r) \<Rightarrow> if skip_space r = [] then Some v else None
     | None \<Rightarrow> None)"

section \<open>Strings and numbers read back\<close>

lemma hex_value_digit: "k < 16 \<Longrightarrow> hex_value (hex_digit k) = Some k"
proof -
  have "list_all (\<lambda>k. hex_value (hex_digit k) = Some k) [0..<16]" by code_simp
  then show "k < 16 \<Longrightarrow> ?thesis" by (simp add: list_all_iff)
qed

lemma hex4_escape: "(n :: nat) < 256 \<Longrightarrow> hex4_value CHR ''0'' CHR ''0'' (hex_digit (n div 16)) (hex_digit (n mod 16)) = Some n"
proof -
  have "hex_value CHR ''0'' = Some 0" by (simp add: hex_value_def Let_def)
  moreover assume "n < 256"
  ultimately show ?thesis by (simp add: hex4_value_def hex_value_digit)
qed

lemma scan_escaped: "scan_string (escape_char c @ t) = push_char c (scan_string t)"
proof -
  have n: "(of_char c :: nat) < 256" "char_of (of_char c :: nat) = c" by simp_all
  have eq: "c = d" if "(of_char c :: nat) = of_char d" for d using that by simp
  show ?thesis
  proof (cases "32 \<le> (of_char c :: nat) \<and> (of_char c :: nat) \<le> 126 \<or> c = quote_mark \<or> c = backslash \<or> (of_char c :: nat) \<in> {8, 9, 10, 12, 13}")
    case True
    then show ?thesis
      by (auto simp: escape_char_def Let_def quote_mark_def backslash_def unescape_def dest!: arg_cong [of "of_char c" _ "char_of :: nat \<Rightarrow> char"])
  next
    case False
    then have "escape_char c = [backslash, CHR ''u'', CHR ''0'', CHR ''0'', hex_digit (of_char c div 16), hex_digit (of_char c mod 16)]"
      by (auto simp: escape_char_def Let_def)
    then show ?thesis using hex4_escape [OF n(1)] n by (simp add: quote_mark_def backslash_def)
  qed
qed

lemma scan_json_string: "scan_string (concat (map escape_char s) @ quote_mark # r) = Some (s, r)"
  by (induction s) (simp_all add: scan_escaped push_char_def)

text \<open>What may follow a number.\<close>

definition delimited :: "string \<Rightarrow> bool" where
  "delimited r \<longleftrightarrow> (case r of [] \<Rightarrow> True | c # _ \<Rightarrow> \<not> is_digit c \<and> c \<notin> set ''.eE+-'')"

lemma digits_delimited:
  assumes "delimited r"
  shows "takeWhile is_digit (t @ r) = takeWhile is_digit t" "dropWhile is_digit (t @ r) = dropWhile is_digit t @ r"
proof -
  have "takeWhile is_digit r = []" "dropWhile is_digit r = r" using assms by (auto simp: delimited_def split: list.splits)
  then show "takeWhile is_digit (t @ r) = takeWhile is_digit t" "dropWhile is_digit (t @ r) = dropWhile is_digit t @ r"
    by (induction t) auto
qed

lemma scan_digits_append:
  "delimited r \<Longrightarrow> scan_digits t = Some (i, u) \<Longrightarrow> scan_digits (t @ r) = Some (i, u @ r)"
  by (cases t) (auto simp: scan_digits_def digits_delimited split: if_splits)

lemma scan_int_append:
  "delimited r \<Longrightarrow> scan_int t = Some (i, u) \<Longrightarrow> scan_int (t @ r) = Some (i, u @ r)"
  by (cases t) (auto simp: scan_int_def dest: scan_digits_append split: if_splits)

lemma scan_fraction_append:
  assumes "delimited r" and "scan_fraction t = (f, u)"
  shows "scan_fraction (t @ r) = (f, u @ r)"
  using assms digits_delimited [OF assms(1)]
  by (auto simp: scan_fraction_def delimited_def split: list.splits if_splits)

lemma scan_exponent_append:
  assumes "delimited r" and "scan_exponent t = (e, u)"
  shows "scan_exponent (t @ r) = (e, u @ r)"
  using assms digits_delimited [OF assms(1)]
  by (auto simp: scan_exponent_def delimited_def Let_def split: list.splits if_splits prod.splits)

lemma scan_number_append:
  assumes "delimited r" and "scan_number pf t = Some (v, u)"
  shows "scan_number pf (t @ r) = Some (v, u @ r)"
proof -
  from assms(2) obtain i s where i: "scan_int t = Some (i, s)" by (auto simp: scan_number_def split: option.splits)
  obtain f s1 where f: "scan_fraction s = (f, s1)" by fastforce
  obtain e s2 where e: "scan_exponent s1 = (e, s2)" by fastforce
  from assms(2) i f e scan_int_append [OF assms(1) i] scan_fraction_append [OF assms(1) f] scan_exponent_append [OF assms(1) e]
  show ?thesis by (auto simp: scan_number_def split: if_splits)
qed

lemma zero_char: "char_of (48 :: nat) = CHR ''0''"
  by code_simp

lemma str_nat_zero: "hd (str_nat n) = CHR ''0'' \<longleftrightarrow> n = 0"
proof (induction n rule: str_nat.induct)
  case (1 n)
  show ?case
  proof (cases "n < 10")
    case True
    have "CHR ''0'' = char_of (48 + 0 :: nat)" by (simp add: zero_char)
    with True show ?thesis by (subst str_nat.simps) (auto dest!: arg_cong [of _ _ digit_value] simp: digit_value_char_of)
  next
    case False
    with 1 show ?thesis by (subst str_nat.simps) simp
  qed
qed

lemma str_nat_minus: "hd (str_nat n) \<noteq> CHR ''-''"
  using str_nat_digits [of n] by (cases "str_nat n") (auto simp: is_digit_def)

lemma scan_digits_str_nat: "scan_digits (str_nat n) = Some (str_nat n, [])"
proof (cases "str_nat n")
  case (Cons c cs)
  have d: "list_all is_digit (c # cs)" using str_nat_digits [of n] Cons by simp
  have "cs = []" if "c = CHR ''0''"
  proof -
    have "n = 0" using str_nat_zero [of n] Cons that by simp
    then have "str_nat n = ''0''" by (subst str_nat.simps) (simp add: zero_char)
    with Cons show ?thesis by simp
  qed
  moreover have "takeWhile is_digit cs = cs" "dropWhile is_digit cs = []"
    using d by (auto simp: list_all_iff)
  ultimately show ?thesis using d Cons by (auto simp: scan_digits_def)
qed simp

lemma scan_int_str_int: "scan_int (str_int i) = Some (str_int i, [])"
proof (cases "i < 0")
  case True
  then show ?thesis by (simp add: str_int_def scan_int_def scan_digits_str_nat)
next
  case False
  obtain c cs where "str_nat (nat i) = c # cs" by (cases "str_nat (nat i)") auto
  with False str_nat_minus [of "nat i"] scan_digits_str_nat [of "nat i"] show ?thesis
    by (simp add: str_int_def scan_int_def)
qed

lemma int_of_text_str_int: "int_of_text (str_int i) = i"
proof (cases "i < 0")
  case False
  obtain c cs where c: "str_nat (nat i) = c # cs" by (cases "str_nat (nat i)") auto
  with str_nat_minus [of "nat i"] nat_of_digits_str_nat [of "nat i"] False show ?thesis
    by (simp add: str_int_def int_of_text_def)
qed (simp add: str_int_def int_of_text_def nat_of_digits_str_nat)

lemma scan_number_str_int: "delimited r \<Longrightarrow> scan_number pf (str_int i @ r) = Some (JInt i, r)"
proof -
  have "scan_number pf (str_int i) = Some (JInt i, [])"
    by (simp add: scan_number_def scan_int_str_int scan_fraction_def scan_exponent_def int_of_text_str_int)
  then show "delimited r \<Longrightarrow> ?thesis" using scan_number_append by fastforce
qed

section \<open>Values read back\<close>

text \<open>Keys are distinct at every depth, and every float is one the reader and the printer agree on.\<close>

fun proper_json :: "(rat \<Rightarrow> string) \<Rightarrow> (string \<Rightarrow> rat option) \<Rightarrow> json \<Rightarrow> bool" where
  "proper_json fl pf (JFloat q) = (scan_number pf (fl q) = Some (JFloat q, []))"
| "proper_json fl pf (JList xs) = (\<forall>x\<in>set xs. proper_json fl pf x)"
| "proper_json fl pf (JDict kvs) = (distinct (map fst kvs) \<and> (\<forall>kv\<in>set kvs. proper_json fl pf (snd kv)))"
| "proper_json fl pf JNull = True"
| "proper_json fl pf (JBool b) = True"
| "proper_json fl pf (JInt i) = True"
| "proper_json fl pf (JStr t) = True"

definition value_start :: "char \<Rightarrow> bool" where
  "value_start c \<longleftrightarrow> \<not> is_json_space c \<and> c \<notin> {CHR '']'', CHR ''}'', CHR '',''}"

lemma scan_number_start:
  assumes "scan_number pf t = Some (v, u)"
  obtains c cs where "t = c # cs" "is_digit c \<or> c = CHR ''-''"
proof (cases t)
  case Nil
  with assms show thesis by (simp add: scan_number_def scan_int_def)
next
  case (Cons c cs)
  from assms have "scan_int t \<noteq> None" by (auto simp: scan_number_def split: option.splits)
  with Cons have "is_digit c \<or> c = CHR ''-''"
    by (auto simp: scan_int_def scan_digits_def is_digit_def split: if_splits)
  with Cons that show thesis by blast
qed

lemma str_int_start:
  obtains c cs where "str_int i = c # cs" "is_digit c \<or> c = CHR ''-''"
proof -
  have "scan_number (\<lambda>_. None) (str_int i) = Some (JInt i, [])" using scan_number_str_int [of "[]"] by (simp add: delimited_def)
  then obtain c cs where "str_int i = c # cs" "is_digit c \<or> c = CHR ''-''" by (rule scan_number_start)
  with that show thesis by blast
qed

lemma number_start:
  assumes "is_digit c \<or> c = CHR ''-''"
  shows "value_start c" "parse_value pf (Suc n) (c # cs) = scan_number pf (c # cs)" "c \<noteq> quote_mark"
proof -
  from assms have ne: "c \<noteq> quote_mark" "c \<noteq> CHR ''{''" "c \<noteq> CHR ''[''" "c \<noteq> CHR ''n''" "c \<noteq> CHR ''t''" "c \<noteq> CHR ''f''" "value_start c"
    by (auto simp: is_digit_def quote_mark_def value_start_def is_json_space_def)
  then show "value_start c" "parse_value pf (Suc n) (c # cs) = scan_number pf (c # cs)" "c \<noteq> quote_mark" by simp_all
qed

lemma text_start:
  assumes "proper_json fl pf v"
  obtains c cs where "json_text fl isep ksep v = c # cs" "value_start c"
proof -
  have s: "value_start CHR ''n''" "value_start CHR ''t''" "value_start CHR ''f''" "value_start quote_mark" "value_start CHR ''[''" "value_start CHR ''{''"
    by (simp_all add: value_start_def is_json_space_def quote_mark_def)
  show thesis
  proof (cases v)
    case (JInt i)
    obtain c cs where c: "str_int i = c # cs" "is_digit c \<or> c = CHR ''-''" by (rule str_int_start)
    show thesis by (rule that [OF _ number_start(1) [OF c(2)]]) (simp add: JInt c(1))
  next
    case (JFloat q)
    with assms have "scan_number pf (fl q) = Some (JFloat q, [])" by simp
    then obtain c cs where c: "fl q = c # cs" "is_digit c \<or> c = CHR ''-''" by (rule scan_number_start)
    show thesis by (rule that [OF _ number_start(1) [OF c(2)]]) (simp add: JFloat c(1))
  next
    case JNull
    show thesis by (rule that [of "CHR ''n''" "''ull''"]) (simp_all add: JNull s)
  next
    case (JBool b)
    show thesis by (cases b) (rule that, simp add: JBool, simp add: s)+
  next
    case (JStr t)
    show thesis by (rule that, simp add: JStr json_string_def, simp add: s)
  next
    case (JList xs)
    show thesis by (rule that, simp add: JList, simp add: s)
  next
    case (JDict kvs)
    show thesis by (rule that, simp add: JDict, simp add: s)
  qed
qed

lemma skip_start: "value_start c \<Longrightarrow> skip_space (replicate k CHR '' '' @ c # cs) = c # cs"
  by (induction k) (simp_all add: skip_space_def value_start_def is_json_space_def)

definition separator :: "char \<Rightarrow> nat \<Rightarrow> string" where
  "separator c k = c # replicate k CHR '' ''"

lemma space_not: "skip_space (c # cs) = c # cs" if "c \<in> {CHR '','', CHR '']'', CHR ''}'', CHR '':'', quote_mark}"
  using that by (auto simp: skip_space_def is_json_space_def quote_mark_def)

definition reads_back :: "(rat \<Rightarrow> string) \<Rightarrow> (string \<Rightarrow> rat option) \<Rightarrow> string \<Rightarrow> string \<Rightarrow> json \<Rightarrow> bool" where
  "reads_back fl pf isep ksep v \<longleftrightarrow>
     (\<forall>n r. 2 * length (json_text fl isep ksep v) \<le> n \<longrightarrow> delimited r \<longrightarrow> parse_value pf n (json_text fl isep ksep v @ r) = Some (v, r))"

lemma reads_backD:
  "reads_back fl pf isep ksep v \<Longrightarrow> 2 * length (json_text fl isep ksep v) \<le> n \<Longrightarrow> delimited r \<Longrightarrow>
     parse_value pf n (json_text fl isep ksep v @ r) = Some (v, r)"
  by (simp add: reads_back_def)

lemma delimited_simps: "delimited (CHR '','' # r)" "delimited (CHR '']'' # r)" "delimited (CHR ''}'' # r)"
  by (simp_all add: delimited_def is_digit_def)

lemma items_read_back:
  assumes "xs \<noteq> []" and "\<forall>x\<in>set xs. proper_json fl pf x \<and> reads_back fl pf (separator CHR '','' a) ksep x"
    and "2 * length (join_texts (separator CHR '','' a) (map (json_text fl (separator CHR '','' a) ksep) xs)) < n"
  shows "parse_items pf n (join_texts (separator CHR '','' a) (map (json_text fl (separator CHR '','' a) ksep) xs) @ CHR '']'' # r) = Some (xs, r)"
  using assms
proof (induction xs arbitrary: n)
  case (Cons x xs)
  let ?t = "json_text fl (separator CHR '','' a) ksep"
  from Cons.prems(3) obtain m where n: "n = Suc m" by (cases n) auto
  from Cons.prems(2) have x: "reads_back fl pf (separator CHR '','' a) ksep x" by simp
  show ?case
  proof (cases xs)
    case Nil
    with Cons.prems(3) n have "2 * length (?t x) \<le> m" by simp
    from reads_backD [OF x this, of "CHR '']'' # r"] Nil n show ?thesis by (simp add: delimited_simps space_not)
  next
    case (Cons y ys)
    let ?rest = "join_texts (separator CHR '','' a) (map ?t xs) @ CHR '']'' # r"
    have eq: "join_texts (separator CHR '','' a) (map ?t (x # xs)) @ CHR '']'' # r = ?t x @ CHR '','' # replicate a CHR '' '' @ ?rest"
      by (simp add: Cons separator_def)
    from Cons.prems(2) Cons have "proper_json fl pf y" by simp
    then obtain c cs where c: "?t y = c # cs" "value_start c" by (rule text_start)
    then obtain cs' where rest: "?rest = c # cs'" by (cases ys) (simp_all add: Cons)
    have m: "2 * length (?t x) \<le> m" "2 * length (join_texts (separator CHR '','' a) (map ?t xs)) < m"
      using Cons.prems(3) n by (simp_all add: Cons separator_def)
    have "parse_items pf m ?rest = Some (xs, r)"
      using Cons.IH [of m] Cons.prems(2) m(2) Cons by simp
    moreover have "parse_value pf m (?t x @ CHR '','' # replicate a CHR '' '' @ ?rest) = Some (x, CHR '','' # replicate a CHR '' '' @ ?rest)"
      by (rule reads_backD [OF x m(1)]) (simp add: delimited_simps)
    moreover have "skip_space (replicate a CHR '' '' @ ?rest) = ?rest" unfolding rest by (rule skip_start [OF c(2)])
    ultimately show ?thesis unfolding eq n by (simp add: space_not)
  qed
qed simp

lemma members_read_back:
  assumes "kvs \<noteq> []" and "\<forall>kv\<in>set kvs. proper_json fl pf (snd kv) \<and> reads_back fl pf (separator CHR '','' a) (separator CHR '':'' b) (snd kv)"
    and "2 * length (join_texts (separator CHR '','' a) (map (\<lambda>kv. json_string (fst kv) @ separator CHR '':'' b @
        json_text fl (separator CHR '','' a) (separator CHR '':'' b) (snd kv)) kvs)) < n"
  shows "parse_members pf n (join_texts (separator CHR '','' a) (map (\<lambda>kv. json_string (fst kv) @ separator CHR '':'' b @
      json_text fl (separator CHR '','' a) (separator CHR '':'' b) (snd kv)) kvs) @ CHR ''}'' # r) = Some (kvs, r)"
  using assms
proof (induction kvs arbitrary: n)
  case (Cons kv kvs)
  let ?v = "\<lambda>kv. json_text fl (separator CHR '','' a) (separator CHR '':'' b) (snd kv)"
  let ?t = "\<lambda>kv. json_string (fst kv) @ separator CHR '':'' b @ ?v kv"
  from Cons.prems(3) obtain m where n: "n = Suc m" by (cases n) auto
  from Cons.prems(2) have x: "reads_back fl pf (separator CHR '','' a) (separator CHR '':'' b) (snd kv)" "proper_json fl pf (snd kv)" by simp_all
  from text_start [OF x(2)] obtain c cs where c: "?v kv = c # cs" "value_start c" by blast
  have key: "scan_string (concat (map escape_char (fst kv)) @ quote_mark # CHR '':'' # replicate b CHR '' '' @ u) = Some (fst kv, CHR '':'' # replicate b CHR '' '' @ u)" for u
    by (rule scan_json_string)
  have val: "skip_space (replicate b CHR '' '' @ ?v kv @ u) = ?v kv @ u" for u
    unfolding c(1) by (simp add: skip_start [OF c(2)])
  show ?case
  proof (cases kvs)
    case Nil
    with Cons.prems(3) n have "2 * length (?v kv) \<le> m" by simp
    from reads_backD [OF x(1) this, of "CHR ''}'' # r"] Nil n key val show ?thesis
      by (simp add: delimited_simps space_not json_string_def separator_def)
  next
    case (Cons y ys)
    let ?rest = "join_texts (separator CHR '','' a) (map ?t kvs) @ CHR ''}'' # r"
    have eq: "join_texts (separator CHR '','' a) (map ?t (kv # kvs)) @ CHR ''}'' # r =
        quote_mark # concat (map escape_char (fst kv)) @ quote_mark # CHR '':'' # replicate b CHR '' '' @ ?v kv @ CHR '','' # replicate a CHR '' '' @ ?rest"
      by (simp add: Cons separator_def json_string_def)
    obtain cs' where rest: "?rest = quote_mark # cs'" by (cases ys) (simp_all add: Cons json_string_def)
    have m: "2 * length (?v kv) \<le> m" "2 * length (join_texts (separator CHR '','' a) (map ?t kvs)) < m"
      using Cons.prems(3) n by (simp_all add: Cons separator_def)
    have "parse_members pf m ?rest = Some (kvs, r)"
      using Cons.IH [of m] Cons.prems(2) m(2) Cons by simp
    moreover have "parse_value pf m (?v kv @ CHR '','' # replicate a CHR '' '' @ ?rest) = Some (snd kv, CHR '','' # replicate a CHR '' '' @ ?rest)"
      by (rule reads_backD [OF x(1) m(1)]) (simp add: delimited_simps)
    moreover have "skip_space (replicate a CHR '' '' @ ?rest) = ?rest"
      unfolding rest by (rule skip_start) (simp add: value_start_def is_json_space_def quote_mark_def)
    ultimately show ?thesis unfolding eq n by (simp add: space_not key val)
  qed
qed simp

lemma dict_of_distinct:
  assumes "distinct (map fst kvs)"
  shows "foldl (\<lambda>m kv. dict_set (fst kv) (snd kv) m) [] kvs = kvs"
proof -
  have new: "dict_set k v m = m @ [(k, v)]" if "k \<notin> fst ` set m" for k v and m :: "'a dict"
    using that by (induction m) auto
  have "foldl (\<lambda>m kv. dict_set (fst kv) (snd kv) m) m kvs = m @ kvs" if "distinct (map fst (m @ kvs))" for m :: "'a dict"
    using that
  proof (induction kvs arbitrary: m)
    case (Cons kv kvs)
    then have "fst kv \<notin> fst ` set m" by auto
    from new [OF this] have "dict_set (fst kv) (snd kv) m = m @ [kv]" by simp
    with Cons show ?case by simp
  qed simp
  from this [of "[]"] assms show ?thesis by simp
qed

lemma text_reads_back:
  "proper_json fl pf v \<Longrightarrow> reads_back fl pf (separator CHR '','' a) (separator CHR '':'' b) v"
proof (induction fl pf v rule: proper_json.induct)
  case (2 fl pf xs)
  let ?t = "json_text fl (separator CHR '','' a) (separator CHR '':'' b)"
  show ?case unfolding reads_back_def
  proof (intro allI impI)
    fix n r assume n: "2 * length (?t (JList xs)) \<le> n"
    then obtain m where m: "n = Suc m" by (cases n) auto
    show "parse_value pf n (?t (JList xs) @ r) = Some (JList xs, r)"
    proof (cases xs)
      case Nil
      then show ?thesis by (simp add: m space_not quote_mark_def)
    next
      case (Cons x ys)
      then obtain c cs where c: "?t x = c # cs" "value_start c" using 2 text_start [of fl pf x] by (metis list.set_intros(1) proper_json.simps(2))
      let ?items = "join_texts (separator CHR '','' a) (map ?t xs) @ CHR '']'' # r"
      obtain cs' where items: "?items = c # cs'" using c(1) Cons by (cases ys) simp_all
      have "parse_items pf m ?items = Some (xs, r)"
        using 2 n by (intro items_read_back) (auto simp: Cons m)
      moreover have "skip_space ?items = ?items" unfolding items using skip_start [OF c(2), of 0] by simp
      moreover have "c \<noteq> CHR '']''" using c(2) by (auto simp: value_start_def)
      ultimately show ?thesis by (simp add: m items quote_mark_def)
    qed
  qed
next
  case (3 fl pf kvs)
  let ?t = "json_text fl (separator CHR '','' a) (separator CHR '':'' b)"
  show ?case unfolding reads_back_def
  proof (intro allI impI)
    fix n r assume n: "2 * length (?t (JDict kvs)) \<le> n"
    then obtain m where m: "n = Suc m" by (cases n) auto
    show "parse_value pf n (?t (JDict kvs) @ r) = Some (JDict kvs, r)"
    proof (cases kvs)
      case Nil
      then show ?thesis by (simp add: m space_not quote_mark_def)
    next
      case (Cons kv ys)
      let ?items = "join_texts (separator CHR '','' a) (map (\<lambda>kv. json_string (fst kv) @ separator CHR '':'' b @ ?t (snd kv)) kvs) @ CHR ''}'' # r"
      obtain cs' where items: "?items = quote_mark # cs'" using Cons by (cases ys) (simp_all add: json_string_def)
      have "parse_members pf m ?items = Some (kvs, r)"
        using 3 n by (intro members_read_back) (auto simp: Cons m)
      moreover have "skip_space ?items = ?items" unfolding items by (simp add: space_not)
      moreover have "distinct (map fst kvs)" using 3 by simp
      ultimately show ?thesis by (simp add: m items dict_of_distinct) (simp add: quote_mark_def)
    qed
  qed
next
  case (1 fl pf q)
  then have q: "scan_number pf (fl q) = Some (JFloat q, [])" by simp
  then obtain c cs where c: "fl q = c # cs" "is_digit c \<or> c = CHR ''-''" by (rule scan_number_start)
  show ?case unfolding reads_back_def
  proof (intro allI impI)
    fix n r assume n: "2 * length (json_text fl (separator CHR '','' a) (separator CHR '':'' b) (JFloat q)) \<le> n" and r: "delimited r"
    then obtain m where "n = Suc m" using c(1) by (cases n) auto
    with scan_number_append [OF r q] c show "parse_value pf n (json_text fl (separator CHR '','' a) (separator CHR '':'' b) (JFloat q) @ r) = Some (JFloat q, r)"
      by (simp del: parse_value.simps add: number_start)
  qed
next
  case (6 fl pf i)
  obtain c cs where c: "str_int i = c # cs" "is_digit c \<or> c = CHR ''-''" by (rule str_int_start)
  show ?case unfolding reads_back_def
  proof (intro allI impI)
    fix n r assume n: "2 * length (json_text fl (separator CHR '','' a) (separator CHR '':'' b) (JInt i)) \<le> n" and r: "delimited r"
    then obtain m where "n = Suc m" using c(1) by (cases n) auto
    with scan_number_str_int [OF r, of pf i] c show "parse_value pf n (json_text fl (separator CHR '','' a) (separator CHR '':'' b) (JInt i) @ r) = Some (JInt i, r)"
      by (simp del: parse_value.simps add: number_start)
  qed
next
  case (4 fl pf)
  have "parse_value pf n (''null'' @ r) = Some (JNull, r)" if "2 * length ''null'' \<le> n" for n r
    using that by (cases n) (simp_all add: quote_mark_def)
  then show ?case by (simp add: reads_back_def)
next
  case (5 fl pf x)
  have "parse_value pf n (''true'' @ r) = Some (JBool True, r)" "parse_value pf n (''false'' @ r) = Some (JBool False, r)" if "8 \<le> n" for n r
    using that by (cases n; simp add: quote_mark_def)+
  then show ?case by (cases x) (simp_all add: reads_back_def)
next
  case (7 fl pf t)
  have "parse_value pf n (json_string t @ r) = Some (JStr t, r)" if "2 * length (json_string t) \<le> n" for n r
    using that by (cases n) (simp_all add: json_string_def scan_json_string)
  then show ?case by (simp add: reads_back_def)
qed

lemma json_text_read_back:
  assumes "proper_json fl pf v"
  shows "json_loads_text pf (json_text fl (separator CHR '','' a) (separator CHR '':'' b) v) = Some v"
proof -
  let ?t = "json_text fl (separator CHR '','' a) (separator CHR '':'' b) v"
  from text_start [OF assms] obtain c cs where c: "?t = c # cs" "value_start c" by blast
  have "parse_value pf (Suc (2 * length ?t)) (?t @ []) = Some (v, [])"
    by (rule reads_backD [OF text_reads_back [OF assms]]) (simp_all add: delimited_def)
  moreover have "skip_space ?t = ?t" unfolding c(1) using skip_start [OF c(2), of 0] by simp
  ultimately show ?thesis by (simp del: parse_value.simps add: json_loads_text_def) (simp add: skip_space_def)
qed

section \<open>Fuel\<close>

lemma skip_space_length: "length (skip_space s) \<le> length s"
  by (simp add: skip_space_def length_dropWhile_le)

lemma skip_space_Cons: "skip_space s = c # cs \<Longrightarrow> length cs < length s"
  using skip_space_length [of s] by simp

lemma scan_string_length: "scan_string s = Some (t, r) \<Longrightarrow> length r < length s"
  by (induction s arbitrary: t rule: scan_string.induct)
    (fastforce simp: push_char_def split: if_splits list.splits option.splits)+

lemma scan_number_length: "scan_number pf s = Some (v, r) \<Longrightarrow> length r < length s"
proof -
  assume a: "scan_number pf s = Some (v, r)"
  then obtain i u where i: "scan_int s = Some (i, u)" by (auto simp: scan_number_def split: option.splits)
  have d: "length (dropWhile is_digit t) \<le> length t" for t by (rule length_dropWhile_le)
  have digits: "length r < length t" if "scan_digits t = Some (j, r)" for t j r
    using that d [of "tl t"] by (cases t) (auto simp: scan_digits_def split: if_splits)
  have "length u < length s"
    using i digits by (cases s) (fastforce simp: scan_int_def split: if_splits)+
  moreover have f: "length (snd (scan_fraction u)) \<le> length u"
  proof (cases u)
    case (Cons c cs)
    then show ?thesis using d [of "tl cs"] by (cases cs) (auto simp: scan_fraction_def)
  qed (simp add: scan_fraction_def)
  moreover have "length (snd (scan_exponent w)) \<le> length w" for w
  proof (cases w)
    case (Cons c cs)
    then show ?thesis using d [of cs] d [of "tl cs"] by (cases cs) (auto simp: scan_exponent_def Let_def)
  qed (simp add: scan_exponent_def)
  then have "length (snd (scan_exponent (snd (scan_fraction u)))) \<le> length u" using f by (rule order.trans)
  moreover have "r = snd (scan_exponent (snd (scan_fraction u)))"
    using a i by (auto simp: scan_number_def case_prod_beta Let_def split: if_splits)
  ultimately show ?thesis by simp
qed

lemma parse_value_rest:
  assumes "\<And>us. parse_items pf n (skip_space cs) = Some (us, r) \<Longrightarrow> P r"
    and "\<And>us. parse_members pf n (skip_space cs) = Some (us, r) \<Longrightarrow> P r"
    and "\<And>d ds. skip_space cs = d # ds \<Longrightarrow> P ds" and "\<And>t. scan_string cs = Some (t, r) \<Longrightarrow> P r"
    and "\<And>k. P (drop k cs)" and "scan_number pf (c # cs) = Some (v, r) \<Longrightarrow> P r"
    and "parse_value pf (Suc n) (c # cs) = Some (v, r)"
  shows "P r"
proof -
  consider "c = quote_mark" | "c \<noteq> quote_mark" "c = CHR ''{''" | "c \<noteq> quote_mark" "c = CHR ''[''"
    | "c \<noteq> quote_mark" "c \<noteq> CHR ''{''" "c \<noteq> CHR ''[''" by blast
  then show ?thesis
  proof cases
    case 1
    with assms(4,7) show ?thesis by (auto simp del: starts_with.simps)
  next
    case 2
    with assms(2,3,7) show ?thesis by (cases "skip_space cs") (auto simp del: starts_with.simps split: if_splits)
  next
    case 3
    with assms(1,3,7) show ?thesis by (cases "skip_space cs") (auto simp del: starts_with.simps split: if_splits)
  next
    case 4
    with assms(5) [of 3] assms(5) [of 4] assms(6,7) show ?thesis by (auto simp del: starts_with.simps split: if_splits)
  qed
qed

lemma parse_rest_shorter:
  "parse_value pf n s = Some (v, r) \<Longrightarrow> length r < length s"
  "parse_items pf n s = Some (vs, r) \<Longrightarrow> length r < length s"
  "parse_members pf n s = Some (kvs, r) \<Longrightarrow> length r < length s"
proof (induction n arbitrary: s v vs kvs r)
  case (Suc n)
  {
    case 1
    then show ?case
    proof (cases s)
      case (Cons c cs)
      have "length r < length s" if "parse_items pf n (skip_space cs) = Some (us, r)" for us
        using Suc(2) [OF that] skip_space_length [of cs] by (simp add: Cons)
      moreover have "length r < length s" if "parse_members pf n (skip_space cs) = Some (us, r)" for us
        using Suc(3) [OF that] skip_space_length [of cs] by (simp add: Cons)
      moreover have "length ds < length s" if "skip_space cs = d # ds" for d ds using skip_space_Cons [OF that] by (simp add: Cons)
      moreover have "length r < length s" if "scan_string cs = Some (t, r)" for t using scan_string_length [OF that] by (simp add: Cons)
      moreover have "length (drop k cs) < length s" for k by (simp add: Cons)
      moreover have "length r < length s" if "scan_number pf (c # cs) = Some (v, r)" using scan_number_length [OF that] by (simp add: Cons)
      ultimately show ?thesis using 1 unfolding Cons by (rule parse_value_rest)
    qed simp
  next
    case 2
    then obtain v r1 where v: "parse_value pf n s = Some (v, r1)" by (auto split: option.splits)
    from 2 v obtain d ds where d: "skip_space r1 = d # ds" by (auto split: list.splits)
    have "length ds < length s" using Suc(1) [OF v] skip_space_Cons [OF d] by simp
    moreover have "length r < length ds" if "parse_items pf n (skip_space ds) = Some (us, r)" for us
      using Suc(2) [OF that] skip_space_length [of ds] by simp
    ultimately show ?case using 2 v d by (force split: if_splits)
  next
    case 3
    then obtain qs where s: "s = quote_mark # qs" by (auto split: list.splits if_splits)
    with 3 obtain k r1 where k: "scan_string qs = Some (k, r1)" by (auto split: option.splits)
    with 3 s obtain ds where d: "skip_space r1 = CHR '':'' # ds" by (auto split: list.splits if_splits)
    with 3 s k obtain v r2 where v: "parse_value pf n (skip_space ds) = Some (v, r2)" by (auto split: option.splits)
    with 3 s k d obtain e es where e: "skip_space r2 = e # es" by (auto split: list.splits)
    have "length es < length s"
      using scan_string_length [OF k] skip_space_Cons [OF d] skip_space_length [of ds] Suc(1) [OF v] skip_space_Cons [OF e] by (simp add: s)
    moreover have "length r < length es" if "parse_members pf n (skip_space es) = Some (us, r)" for us
      using Suc(3) [OF that] skip_space_length [of es] by simp
    ultimately show ?case using 3 s k d v e by (force split: if_splits)
  }
qed simp_all

lemma parse_fuel:
  "2 * length s < n \<Longrightarrow> 2 * length s < m \<Longrightarrow> parse_value pf n s = parse_value pf m s"
  "Suc (2 * length s) < n \<Longrightarrow> Suc (2 * length s) < m \<Longrightarrow> parse_items pf n s = parse_items pf m s"
  "Suc (2 * length s) < n \<Longrightarrow> Suc (2 * length s) < m \<Longrightarrow> parse_members pf n s = parse_members pf m s"
proof (induction n arbitrary: s m)
  case (Suc n)
  {
    case 1
    then obtain m' where m: "m = Suc m'" by (cases m) auto
    show ?case
    proof (cases s)
      case (Cons c cs)
      have "parse_items pf n (skip_space cs) = parse_items pf m' (skip_space cs)"
        "parse_members pf n (skip_space cs) = parse_members pf m' (skip_space cs)"
        using 1 skip_space_length [of cs] by (intro Suc(2) Suc(3); simp add: Cons m)+
      then show ?thesis by (cases "skip_space cs") (auto simp: Cons m)
    qed (simp add: m)
  next
    case 2
    then obtain m' where m: "m = Suc m'" by (cases m) auto
    have v: "parse_value pf n s = parse_value pf m' s" using 2 by (intro Suc(1)) (simp_all add: m)
    have "parse_items pf n (skip_space ds) = parse_items pf m' (skip_space ds)"
      if "parse_value pf m' s = Some (v, r)" "skip_space r = d # ds" for v r d ds
      using 2 parse_rest_shorter(1) [OF that(1)] skip_space_Cons [OF that(2)] skip_space_length [of ds]
      by (intro Suc(2)) (simp_all add: m)
    with v show ?case by (simp add: m split: option.split list.split)
  next
    case 3
    then obtain m' where m: "m = Suc m'" by (cases m) auto
    have v: "parse_value pf n (skip_space ds) = parse_value pf m' (skip_space ds)"
      if "s = q # qs" "scan_string qs = Some (k, r)" "skip_space r = d # ds" for q qs k r d ds
      using 3 scan_string_length [OF that(2)] skip_space_Cons [OF that(3)] skip_space_length [of ds] that(1)
      by (intro Suc(1)) (simp_all add: m)
    have "parse_members pf n (skip_space es) = parse_members pf m' (skip_space es)"
      if "s = q # qs" "scan_string qs = Some (k, r)" "skip_space r = d # ds" "parse_value pf m' (skip_space ds) = Some (u, r1)"
        "skip_space r1 = e # es" for q qs k r d ds u r1 e es
      using 3 scan_string_length [OF that(2)] skip_space_Cons [OF that(3)] skip_space_length [of ds] that(1)
        parse_rest_shorter(1) [OF that(4)] skip_space_Cons [OF that(5)] skip_space_length [of es]
      by (intro Suc(3)) (simp_all add: m)
    with v show ?case by (simp add: m split: list.split option.split)
  }
qed simp_all

section \<open>Keys in order\<close>

text \<open>Equality of payloads as Python compares them: the order of the keys does not matter.\<close>

fun json_same :: "json \<Rightarrow> json \<Rightarrow> bool" where
  "json_same (JList xs) w =
     (case w of JList ys \<Rightarrow> length xs = length ys \<and> list_all (\<lambda>(p, y). p y) (zip (map json_same xs) ys) | _ \<Rightarrow> False)"
| "json_same (JDict a) w =
     (case w of JDict b \<Rightarrow> length a = length b \<and>
        list_all (\<lambda>(k, p). case map_of b k of None \<Rightarrow> False | Some y \<Rightarrow> p y) (map (\<lambda>kv. (fst kv, json_same (snd kv))) a)
      | _ \<Rightarrow> False)"
| "json_same v w = (v = w)"

lemma distinct_keys_map: "distinct (map fst kvs) \<Longrightarrow> distinct (map fst (map (\<lambda>kv. (fst kv, f (snd kv))) kvs))"
  by (simp add: o_def)

lemma distinct_keys_sort: "distinct (map fst kvs) \<Longrightarrow> distinct (map fst (sort_key fst (kvs :: (string \<times> 'b) list)))"
  by (simp add: distinct_map)

lemma proper_sort_keys: "proper_json fl pf v \<Longrightarrow> proper_json fl pf (sort_keys v)"
proof (induction v rule: sort_keys.induct)
  case (2 kvs)
  have "distinct (map fst (sort_key fst (map (\<lambda>kv. (fst kv, sort_keys (snd kv))) kvs)))"
    using 2 by (intro distinct_keys_sort distinct_keys_map) simp
  with 2 show ?case by auto
qed auto

lemma sort_keys_twice [simp]: "sort_keys (sort_keys v) = sort_keys v"
proof (induction v rule: sort_keys.induct)
  case (2 kvs)
  let ?g = "\<lambda>kv. (fst kv, sort_keys (snd kv))"
  have "map ?g (sort_key fst (map ?g kvs)) = sort_key fst (map ?g kvs)"
    using 2 by (intro map_idI) auto
  then show ?case by (simp add: sort_key_id_if_sorted)
qed simp_all

lemma sort_key_eq_iff:
  assumes "distinct (map fst xs)" "distinct (map fst ys)"
  shows "sort_key fst xs = sort_key fst (ys :: (string \<times> 'b) list) \<longleftrightarrow> set xs = set ys"
proof
  assume "sort_key fst xs = sort_key fst ys"
  from arg_cong [OF this, of set] show "set xs = set ys" by simp
next
  assume eq: "set xs = set ys"
  show "sort_key fst xs = sort_key fst ys"
  proof (rule map_sorted_distinct_set_unique [of fst])
    show "inj_on fst (set (sort_key fst xs) \<union> set (sort_key fst ys))" using assms(1) eq by (simp add: distinct_map)
    show "distinct (map fst (sort_key fst xs))" "distinct (map fst (sort_key fst ys))" using assms by (simp_all add: distinct_map)
  qed (simp_all add: eq)
qed

lemma sort_keys_atom:
  "sort_keys w = JNull \<longleftrightarrow> w = JNull" "sort_keys w = JBool b \<longleftrightarrow> w = JBool b" "sort_keys w = JInt i \<longleftrightarrow> w = JInt i"
  "sort_keys w = JFloat q \<longleftrightarrow> w = JFloat q" "sort_keys w = JStr t \<longleftrightarrow> w = JStr t"
  by (cases w; simp)+

lemma json_same_sorted:
  "proper_json fl pf v \<Longrightarrow> proper_json fl pf w \<Longrightarrow> json_same v w \<longleftrightarrow> sort_keys v = sort_keys w"
proof (induction v w rule: json_same.induct)
  case (1 xs w)
  show ?case
  proof (cases w)
    case (JList ys)
    have "list_all (\<lambda>(p, y). p y) (zip (map json_same xs) ys) \<longleftrightarrow> map sort_keys xs = map sort_keys ys" if "length xs = length ys"
    proof -
      have "json_same (xs ! i) (ys ! i) \<longleftrightarrow> sort_keys (xs ! i) = sort_keys (ys ! i)" if "i < length xs" for i
        using 1 JList that \<open>length xs = length ys\<close> by (metis nth_mem proper_json.simps(2))
      with that show ?thesis by (auto simp: list_all_length list_eq_iff_nth_eq)
    qed
    then show ?thesis by (auto simp: JList dest: map_eq_imp_length_eq)
  qed simp_all
next
  case (2 a w)
  show ?case
  proof (cases w)
    case (JDict b)
    let ?s = "\<lambda>kvs. map (\<lambda>kv. (fst kv, sort_keys (snd kv))) kvs"
    from 2 JDict have da: "distinct (map fst a)" and db: "distinct (map fst b)" by simp_all
    have "sort_key fst (?s a) = sort_key fst (?s b) \<longleftrightarrow> set (?s a) = set (?s b)"
      by (intro sort_key_eq_iff distinct_keys_map da db)
    also have "\<dots> \<longleftrightarrow> length a = length b \<and> set (?s a) \<subseteq> set (?s b)"
    proof -
      have d: "distinct (?s a)" "distinct (?s b)"
        using distinct_keys_map [OF da] distinct_keys_map [OF db] unfolding distinct_map [of fst] by blast+
      have c: "card (set (?s a)) = length a" "card (set (?s b)) = length b"
        using distinct_card [OF d(1)] distinct_card [OF d(2)] by simp_all
      show ?thesis
      proof
        assume e: "set (?s a) = set (?s b)"
        with c have "length a = length b" by metis
        with e show "length a = length b \<and> set (?s a) \<subseteq> set (?s b)" by blast
      next
        assume "length a = length b \<and> set (?s a) \<subseteq> set (?s b)"
        with c show "set (?s a) = set (?s b)" by (intro card_subset_eq) (simp_all only: List.finite_set)
      qed
    qed
    also have "set (?s a) \<subseteq> set (?s b) \<longleftrightarrow>
        list_all (\<lambda>(k, p). case map_of b k of None \<Rightarrow> False | Some y \<Rightarrow> p y) (map (\<lambda>kv. (fst kv, json_same (snd kv))) a)"
    proof -
      have mem: "(fst kv, sort_keys (snd kv)) \<in> set (?s b) \<longleftrightarrow> (case map_of b (fst kv) of None \<Rightarrow> False | Some y \<Rightarrow> json_same (snd kv) y)"
        if kv: "kv \<in> set a" for kv
      proof (cases "map_of b (fst kv)")
        case None
        then have "fst kv \<notin> fst ` set b" by (simp add: map_of_eq_None_iff)
        then show ?thesis unfolding None by (auto simp: image_iff)
      next
        case (Some y)
        then have y: "(fst kv, y) \<in> set b" by (rule map_of_SomeD)
        have "proper_json fl pf (snd kv)" "proper_json fl pf y" using 2 kv y JDict by force+
        with 2 kv have same: "json_same (snd kv) y \<longleftrightarrow> sort_keys (snd kv) = sort_keys y" using JDict by blast
        have only: "(fst kv, z) \<in> set b \<longleftrightarrow> z = y" for z using y eq_key_imp_eq_value [OF db] by blast
        have "(fst kv, sort_keys (snd kv)) \<in> set (?s b) \<longleftrightarrow> (\<exists>z. (fst kv, z) \<in> set b \<and> sort_keys z = sort_keys (snd kv))"
        proof
          assume "(fst kv, sort_keys (snd kv)) \<in> set (?s b)"
          then obtain x where "x \<in> set b" "fst x = fst kv" "sort_keys (snd x) = sort_keys (snd kv)" by auto
          then show "\<exists>z. (fst kv, z) \<in> set b \<and> sort_keys z = sort_keys (snd kv)"
            by (intro exI [of _ "snd x"]) (metis prod.collapse)
        next
          assume "\<exists>z. (fst kv, z) \<in> set b \<and> sort_keys z = sort_keys (snd kv)"
          then obtain z where z: "(fst kv, z) \<in> set b" "sort_keys z = sort_keys (snd kv)" by blast
          from imageI [OF z(1), of "\<lambda>kv. (fst kv, sort_keys (snd kv))"] z(2)
          show "(fst kv, sort_keys (snd kv)) \<in> set (?s b)" by simp
        qed
        also have "\<dots> \<longleftrightarrow> json_same (snd kv) y" unfolding only same by (auto simp: eq_commute)
        finally show ?thesis unfolding Some option.case .
      qed
      have "set (?s a) \<subseteq> set (?s b) \<longleftrightarrow> (\<forall>kv\<in>set a. (fst kv, sort_keys (snd kv)) \<in> set (?s b))"
        by (simp only: set_map [of _ a] image_subset_iff)
      also have "\<dots> \<longleftrightarrow> (\<forall>kv\<in>set a. case map_of b (fst kv) of None \<Rightarrow> False | Some y \<Rightarrow> json_same (snd kv) y)"
        by (rule ball_cong [OF refl mem])
      finally show ?thesis by (simp only: list_all_iff set_map [of _ a] ball_simps prod.case)
    qed
    finally show ?thesis by (simp add: JDict)
  qed simp_all
qed (auto simp: eq_commute [of _ "sort_keys _"] sort_keys_atom)

section \<open>The canonical text\<close>

lemma canonical_read_back:
  "proper_json fl pf v \<Longrightarrow> json_loads_text pf (canonical_json fl v) = Some (sort_keys v)"
  using json_text_read_back [OF proper_sort_keys, of fl pf v 0 0] by (simp add: canonical_json_def separator_def)

text \<open>
  \<open>json.loads\<close> reads the canonical text of a payload back as that payload,
  up to the order of its keys, whatever its strings and numbers are.
\<close>

theorem canonical_json_roundtrip:
  assumes "proper_json fl pf v"
  shows "\<exists>w. json_loads_text pf (canonical_json fl v) = Some w \<and> json_same v w \<and> w = sort_keys v"
  using canonical_read_back [OF assms] json_same_sorted [OF assms proper_sort_keys [OF assms]] by simp


end
