(* ===== verification/Market_Rows.thy ===== *)
theory Market_Rows
  imports Sentinel_Store Canonical_Json
begin

text \<open>
  The columns of \<open>tracked_markets\<close> (\<open>src/src/sentinel/storage/schema.sql\<close>), how a market is
  written to them (\<open>upsert_tracked_markets\<close>) and read back (\<open>_row_to_market\<close>,
  \<open>src/src/sentinel/storage/sqlite_store.py\<close>). The store's model keeps the market itself in
  its rows; what is shown here is that nothing is lost by that.
\<close>

record market_row =
  col_asset_id :: string
  col_market_id :: string
  col_condition_id :: string
  col_market_slug :: string
  col_question :: string
  col_description :: string
  col_category :: string
  col_tags :: string
  col_event_id :: string
  col_event_title :: string
  col_event_slug :: string
  col_sibling_asset_ids :: string
  col_sibling_market_slugs :: string
  col_outcome :: string
  col_end_date :: "string option"
  col_volume_24h :: rat
  col_liquidity :: rat
  col_polymarket_url :: string
  col_active :: int
  col_subscribed_at_ms :: int
  col_last_tick_ms :: int
  col_last_update :: int

definition texts :: "string list \<Rightarrow> json" where
  "texts xs = JList (map JStr xs)"

definition market_row_of :: "slib \<Rightarrow> int \<Rightarrow> market_metadata \<Rightarrow> market_row" where
  "market_row_of SL now m =
     \<lparr>col_asset_id = asset_id m, col_market_id = market_id m, col_condition_id = condition_id m, col_market_slug = market_slug m,
      col_question = question m, col_description = description m, col_category = category m,
      col_tags = s_json_dumps SL (texts (tags m)), col_event_id = event_id m, col_event_title = event_title m,
      col_event_slug = event_slug m, col_sibling_asset_ids = s_json_dumps SL (texts (sibling_asset_ids m)),
      col_sibling_market_slugs = s_json_dumps SL (texts (sibling_market_slugs m)), col_outcome = mkt_outcome m,
      col_end_date = Some (end_date m), col_volume_24h = volume_24h m, col_liquidity = liquidity m,
      col_polymarket_url = polymarket_url m, col_active = (if active m then 1 else 0),
      col_subscribed_at_ms = subscribed_at_ms m, col_last_tick_ms = last_tick_ms m, col_last_update = now\<rparr>"

text \<open>
  The list in a column of JSON text. \<open>None\<close> stands for text that does not parse and for a value
  that is not a list of texts, neither of which the store writes.
\<close>

fun text_of :: "json \<Rightarrow> string option" where
  "text_of (JStr s) = Some s"
| "text_of _ = None"

definition texts_in :: "slib \<Rightarrow> string \<Rightarrow> string list option" where
  "texts_in SL s = (case s_json_loads SL s of Some (JList vs) \<Rightarrow> those (map text_of vs) | _ \<Rightarrow> None)"

definition row_to_market :: "slib \<Rightarrow> market_row \<Rightarrow> market_metadata option" where
  "row_to_market SL r =
     (case (texts_in SL (col_tags r), texts_in SL (col_sibling_asset_ids r), texts_in SL (col_sibling_market_slugs r)) of
        (Some ts, Some as, Some ss) \<Rightarrow>
          Some \<lparr>asset_id = col_asset_id r, market_id = col_market_id r, condition_id = col_condition_id r,
            market_slug = col_market_slug r, question = col_question r, description = col_description r, category = col_category r,
            tags = ts, event_id = col_event_id r, event_title = col_event_title r, event_slug = col_event_slug r,
            sibling_asset_ids = as, sibling_market_slugs = ss, mkt_outcome = col_outcome r,
            end_date = (case col_end_date r of None \<Rightarrow> [] | Some s \<Rightarrow> s), volume_24h = col_volume_24h r,
            liquidity = col_liquidity r, polymarket_url = col_polymarket_url r, active = (col_active r \<noteq> 0),
            last_tick_ms = col_last_tick_ms r, subscribed_at_ms = col_subscribed_at_ms r\<rparr>
      | _ \<Rightarrow> None)"

text \<open>\<open>refresh_cache\<close> on the rows as they are stored.\<close>

definition cache_of_rows :: "slib \<Rightarrow> market_row list \<Rightarrow> market_metadata dict option" where
  "cache_of_rows SL rows =
     map_option (foldl (\<lambda>d m. dict_set (asset_id m) m d) []) (those (map (row_to_market SL) rows))"

text \<open>JSON text of a list of texts is read back as that list.\<close>

definition texts_survive :: "slib \<Rightarrow> string list \<Rightarrow> bool" where
  "texts_survive SL xs \<longleftrightarrow> s_json_loads SL (s_json_dumps SL (texts xs)) = Some (texts xs)"

lemma those_texts [simp]: "those (map (text_of \<circ> JStr) xs) = Some xs"
  by (induction xs) simp_all

lemma texts_in_dumps: "texts_survive SL xs \<Longrightarrow> texts_in SL (s_json_dumps SL (texts xs)) = Some xs"
  by (simp add: texts_survive_def texts_in_def texts_def)

text \<open>A market is read back from its row as it was written, all its fields included.\<close>

lemma market_row_roundtrip:
  assumes "texts_survive SL (tags m)" "texts_survive SL (sibling_asset_ids m)" "texts_survive SL (sibling_market_slugs m)"
  shows "row_to_market SL (market_row_of SL now m) = Some m"
  by (simp add: row_to_market_def market_row_of_def texts_in_dumps assms)

text \<open>
  The cache that is read from the stored rows is the one that \<open>refresh_cache\<close> builds from the
  markets of the model.
\<close>

lemma refresh_reads_rows:
  assumes "\<And>xs. texts_survive SL xs"
  shows "cache_of_rows SL (map (\<lambda>r. market_row_of SL (tm_last_update r) (tm_market r)) (tracked_markets st)) =
    Some (tracked_cache (refresh_cache st))"
proof -
  have row: "row_to_market SL (market_row_of SL now m) = Some m" for now m
    by (simp add: row_to_market_def market_row_of_def texts_in_dumps assms)
  have "those (map (row_to_market SL) (map (\<lambda>r. market_row_of SL (tm_last_update r) (tm_market r)) rs)) = Some (map tm_market rs)"
    for rs :: "tracked_row list"
    by (induction rs) (simp_all add: row)
  then show ?thesis by (simp add: cache_of_rows_def refresh_cache_def foldl_map)
qed

text \<open>
  With the text \<open>json.dumps\<close> writes by default and \<open>json.loads\<close>, lists of texts survive
  whatever the texts are.
\<close>

definition text_slib :: "(rat \<Rightarrow> string) \<Rightarrow> (string \<Rightarrow> rat option) \<Rightarrow> slib \<Rightarrow> slib" where
  "text_slib fl pf SL = SL\<lparr>s_json_dumps := json_text fl '', '' '': '', s_json_loads := json_loads_text pf\<rparr>"

lemma text_slib_survive: "texts_survive (text_slib fl pf SL) xs"
proof -
  have "proper_json fl pf (texts xs)" by (simp add: texts_def)
  from json_text_read_back [OF this, of 1 1] show ?thesis
    by (simp add: texts_survive_def text_slib_def separator_def)
qed

text \<open>
  C31 (refinement): the cache of markets that is rebuilt from the stored columns is the one of the
  store's model, in which a row holds the market itself: every field of every market, the lists in
  their JSON text included, is read back as it was written.
\<close>

theorem refresh_reads_saved_rows:
  "cache_of_rows (text_slib fl pf SL)
     (map (\<lambda>r. market_row_of (text_slib fl pf SL) (tm_last_update r) (tm_market r)) (tracked_markets st)) =
   Some (tracked_cache (refresh_cache st))"
  by (rule refresh_reads_rows) (rule text_slib_survive)

end
