(* ===== verification/Message_Lineage.thy ===== *)
theory Message_Lineage
  imports Pipeline_System
begin

text \<open>
  The chain of custody of an order. Every message of the pipeline was written either by the ingress
  for an alert it accepted or by a worker for the message its job named, and every job was queued
  for a message whose content hands the trace on to the job's stage. Both are kept by every step of
  the pipeline, so that an order can be followed back to the alert it began with.
\<close>

section \<open>Messages and what they hand on\<close>

definition trace_ids :: "pdb \<Rightarrow> (uuid \<times> string) set" where
  "trace_ids d = set (map (\<lambda>t. (tr_trace_id t, tr_source_alert_id t)) (pipeline_traces d))"

definition ingested_from :: "lib \<Rightarrow> pipeline_config \<Rightarrow> pdb \<Rightarrow> shift_alert_mirror \<Rightarrow> message_row \<Rightarrow> bool" where
  "ingested_from L cfg d a m \<longleftrightarrow>
     (\<exists>body headers. accepted L cfg body headers = Some a) \<and>
     msg_stage m = INGEST \<and> msg_parent_message_id m = None \<and>
     (\<exists>now src. msg_payload_jsonb m = json_dumps L (dump_ingested L
        \<lparr>ing_shift_alert = a, ing_received_at = now, ing_signature_verified = True,
         ing_replay_source = src, ing_priority = 100\<rparr>)) \<and>
     (msg_trace_id m, mirror_alert_id a) \<in> trace_ids d"

text \<open>
  The message permits a job of the stage: a stored alert to be researched; a report with evidence
  and hypotheses that passed to be analysed; a report whose candidates passed every filter to be
  executed; a decision with its intent, risk checks passed, to be approved; an order that was
  submitted, or an earlier outcome round, to be observed.
\<close>

fun hands_on :: "lib \<Rightarrow> message_row \<Rightarrow> stage_name \<Rightarrow> bool" where
  "hands_on L m INGEST \<longleftrightarrow> False"
| "hands_on L m RESEARCH \<longleftrightarrow> msg_stage m = INGEST"
| "hands_on L m ANALYSIS \<longleftrightarrow> msg_stage m = RESEARCH \<and>
     (\<exists>r. msg_payload_jsonb m = json_dumps L (dump_research L r) \<and> rr_status r = RS_PASS \<and>
        rr_asset_hypotheses r \<noteq> [] \<and> rr_evidence r \<noteq> [])"
| "hands_on L m EXECUTION \<longleftrightarrow> msg_stage m = ANALYSIS \<and>
     (\<exists>r. msg_payload_jsonb m = json_dumps L (dump_analysis L r) \<and> ar_status r = AS_PASS \<and>
        ar_candidates r \<noteq> [] \<and> (\<forall>c\<in>set (ar_candidates r). list_all filter_passed (filters c)))"
| "hands_on L m APPROVAL \<longleftrightarrow> msg_stage m = EXECUTION \<and>
     (\<exists>d. msg_payload_jsonb m = json_dumps L (dump_decision L d) \<and> ed_status d = AWAITING_APPROVAL \<and>
        ed_intent d \<noteq> None \<and> list_all check_passed (ed_risk_checks d))"
| "hands_on L m OUTCOME \<longleftrightarrow> msg_stage m = OUTCOME \<or>
     msg_stage m \<in> {EXECUTION, APPROVAL} \<and>
     (\<exists>d. msg_payload_jsonb m = json_dumps L (dump_decision L d) \<and> ed_status d = SUBMITTED \<and> ed_broker_order_ids d \<noteq> [])"

definition follows :: "lib \<Rightarrow> message_row \<Rightarrow> message_row \<Rightarrow> bool" where
  "follows L p m \<longleftrightarrow> msg_parent_message_id m = Some (msg_message_id p) \<and> msg_trace_id m = msg_trace_id p \<and>
     hands_on L p (msg_stage m)"

inductive descends :: "lib \<Rightarrow> pipeline_config \<Rightarrow> pdb \<Rightarrow> shift_alert_mirror \<Rightarrow> message_row \<Rightarrow> bool"
  for L cfg d a where
  delivered: "m \<in> set (stage_messages d) \<Longrightarrow> ingested_from L cfg d a m \<Longrightarrow> descends L cfg d a m"
| handed: "descends L cfg d a p \<Longrightarrow> m \<in> set (stage_messages d) \<Longrightarrow> follows L p m \<Longrightarrow> descends L cfg d a m"

inductive_cases descendsE: "descends L cfg d a m"

definition custody :: "lib \<Rightarrow> pipeline_config \<Rightarrow> pdb \<Rightarrow> bool" where
  "custody L cfg d \<longleftrightarrow>
     (\<forall>m\<in>set (stage_messages d). \<exists>a. descends L cfg d a m) \<and>
     (\<forall>j\<in>set (stage_jobs d). \<exists>m. find_message (job_message_id j) d = Some m \<and> hands_on L m (job_stage j))"

lemma ingested_from_mono: "ingested_from L cfg d a m \<Longrightarrow> trace_ids d \<subseteq> trace_ids d' \<Longrightarrow> ingested_from L cfg d' a m"
  unfolding ingested_from_def by blast

lemma descends_mono:
  assumes "descends L cfg d a m" and "set (stage_messages d) \<subseteq> set (stage_messages d')" and "trace_ids d \<subseteq> trace_ids d'"
  shows "descends L cfg d' a m"
  using assms
proof (induction rule: descends.induct)
  case (delivered m)
  then show ?case by (intro descends.delivered) (auto intro: ingested_from_mono)
next
  case (handed p m)
  then show ?case by (intro descends.handed [of L cfg d' a p m]) auto
qed

lemma custody_rows:
  assumes "custody L cfg d" and "stage_messages d' = stage_messages d" and "trace_ids d \<subseteq> trace_ids d'"
    and "(\<lambda>j. (job_stage j, job_message_id j)) ` set (stage_jobs d') \<subseteq> (\<lambda>j. (job_stage j, job_message_id j)) ` set (stage_jobs d)"
  shows "custody L cfg d'"
  unfolding custody_def
proof (intro conjI ballI)
  fix m assume "m \<in> set (stage_messages d')"
  with assms show "\<exists>a. descends L cfg d' a m" by (metis custody_def descends_mono order_refl)
next
  fix j assume "j \<in> set (stage_jobs d')"
  with assms(4) obtain k where "k \<in> set (stage_jobs d)" "job_stage k = job_stage j" "job_message_id k = job_message_id j"
    by (fastforce simp: image_subset_iff image_iff)
  with assms(1,2) show "\<exists>m. find_message (job_message_id j) d' = Some m \<and> hands_on L m (job_stage j)"
    unfolding custody_def find_message_def by metis
qed

lemma custody_new_message:
  assumes "custody L cfg d" and "descends L cfg (d\<lparr>stage_messages := stage_messages d @ [m]\<rparr>) a m"
  shows "custody L cfg (d\<lparr>stage_messages := stage_messages d @ [m]\<rparr>)"
  unfolding custody_def
proof (intro conjI ballI)
  let ?d = "d\<lparr>stage_messages := stage_messages d @ [m]\<rparr>"
  fix x assume "x \<in> set (stage_messages ?d)"
  then consider "x \<in> set (stage_messages d)" | "x = m" by auto
  then show "\<exists>a. descends L cfg ?d a x"
  proof cases
    case 1
    with assms(1) obtain b where "descends L cfg d b x" by (auto simp: custody_def)
    from descends_mono [OF this, of ?d] show ?thesis by (auto simp: trace_ids_def)
  qed (use assms(2) in auto)
next
  fix j assume "j \<in> set (stage_jobs (d\<lparr>stage_messages := stage_messages d @ [m]\<rparr>))"
  with assms(1) obtain x where "find_message (job_message_id j) d = Some x" "hands_on L x (job_stage j)"
    by (auto simp: custody_def)
  then show "\<exists>x. find_message (job_message_id j) (d\<lparr>stage_messages := stage_messages d @ [m]\<rparr>) = Some x \<and> hands_on L x (job_stage j)"
    by (simp add: find_message_snoc)
qed

lemma custody_new_job:
  assumes "custody L cfg d" and "find_message (job_message_id j) d = Some m" and "hands_on L m (job_stage j)"
  shows "custody L cfg (d\<lparr>stage_jobs := stage_jobs d @ [j]\<rparr>)"
  unfolding custody_def
proof (intro conjI ballI)
  let ?d = "d\<lparr>stage_jobs := stage_jobs d @ [j]\<rparr>"
  fix x assume "x \<in> set (stage_messages ?d)"
  with assms(1) obtain b where "descends L cfg d b x" by (auto simp: custody_def)
  from descends_mono [OF this, of ?d] show "\<exists>a. descends L cfg ?d a x" by (auto simp: trace_ids_def)
next
  fix k assume "k \<in> set (stage_jobs (d\<lparr>stage_jobs := stage_jobs d @ [j]\<rparr>))"
  then have "k \<in> set (stage_jobs d) \<or> k = j" by auto
  with assms have "\<exists>m. find_message (job_message_id k) d = Some m \<and> hands_on L m (job_stage k)"
    by (auto simp: custody_def)
  then show "\<exists>m. find_message (job_message_id k) (d\<lparr>stage_jobs := stage_jobs d @ [j]\<rparr>) = Some m \<and> hands_on L m (job_stage k)"
    by (simp add: find_message_def)
qed

text \<open>The tables with the chain intact and the message of a job at hand.\<close>

definition holding :: "lib \<Rightarrow> pipeline_config \<Rightarrow> uuid \<Rightarrow> message_row \<Rightarrow> pdb \<Rightarrow> bool" where
  "holding L cfg i m d \<longleftrightarrow> custody L cfg d \<and> find_message i d = Some m"

lemma trace_ids_simps [simp]:
  "trace_ids (update_trace t st status now d) = trace_ids d" "trace_ids (update_job jid f d) = trace_ids d"
  "trace_ids (update_run rid g d) = trace_ids d" "trace_ids (update_approval tok h d) = trace_ids d"
  by (simp_all add: trace_ids_def update_trace_def update_approval_def o_def if_distrib image_image del: set_map cong: if_cong)

lemma job_refs_update:
  "(\<And>j. job_stage (f j) = job_stage j \<and> job_message_id (f j) = job_message_id j) \<Longrightarrow>
   (\<lambda>j. (job_stage j, job_message_id j)) ` set (stage_jobs (update_job jid f d)) \<subseteq> (\<lambda>j. (job_stage j, job_message_id j)) ` set (stage_jobs d)"
  by (auto simp: update_job_mem)

interpretation custody: pdb_leasing "custody L cfg" for L cfg
proof (unfold_locales, goal_cases)
  case (2 d t st status now)
  then show ?case by (intro custody_rows [OF 2]) auto
next
  case (3 d f jid)
  then show ?case by (intro custody_rows [OF 3(1)] job_refs_update) (auto simp: releases_def)
next
  case (13 d j rw until w now)
  have "(\<lambda>j. (job_stage j, job_message_id j)) ` set (stage_jobs (update_job (job_id j) (lease_update j until w now) d)) \<subseteq>
      (\<lambda>j. (job_stage j, job_message_id j)) ` set (stage_jobs d)"
    by (rule job_refs_update) (simp add: lease_update_def)
  with 13 show ?case by (elim custody_rows) (auto simp: trace_ids_def)
qed (auto elim!: custody_rows simp: trace_ids_def update_approval_def)

interpretation holding: pdb_leasing "holding L cfg i m" for L cfg i m
  by unfold_locales
    (auto simp: holding_def find_message_def update_approval_def custody.new_trace custody.upd_trace custody.release_job custody.finish_run
      custody.new_evidence custody.new_candidate custody.new_snapshot custody.new_approval custody.upd_approval [unfolded update_approval_def]
      custody.new_order custody.new_dead_letter custody.new_observation custody.lease_job)


section \<open>Rules for the workers\<close>

abbreviation intact :: "lib \<Rightarrow> pipeline_config \<Rightarrow> world \<Rightarrow> bool" where
  "intact L cfg s \<equiv> custody L cfg (db s)"

abbreviation held :: "lib \<Rightarrow> pipeline_config \<Rightarrow> uuid \<Rightarrow> message_row \<Rightarrow> world \<Rightarrow> bool" where
  "held L cfg i m s \<equiv> holding L cfg i m (db s)"

text \<open>What a worker writes for the message \<open>p\<close>.\<close>

definition written_for :: "lib \<Rightarrow> message_row \<Rightarrow> stage_name \<Rightarrow> json \<Rightarrow> message_row \<Rightarrow> bool" where
  "written_for L p st payload m \<longleftrightarrow> msg_parent_message_id m = Some (msg_message_id p) \<and> msg_trace_id m = msg_trace_id p \<and>
     msg_stage m = st \<and> msg_payload_jsonb m = json_dumps L payload"

lemma written_follows: "written_for L p st pl m \<Longrightarrow> hands_on L p st \<Longrightarrow> follows L p m"
  by (auto simp: written_for_def follows_def)

lemma held_intact: "held L cfg i m s \<Longrightarrow> intact L cfg s"
  by (simp add: holding_def)

lemma keep_then:
  assumes "preserves (held L cfg i m) op" and "\<And>x. hoare (held L cfg i m) (f x) (\<lambda>_. intact L cfg) (\<lambda>_. intact L cfg)"
  shows "hoare (held L cfg i m) (bindM op f) (\<lambda>_. intact L cfg) (\<lambda>_. intact L cfg)"
  by (rule hoare_bindM [OF hoare_keep [OF assms(1) held_intact] assms(2)])

lemma finish_then:
  assumes "hoare P op (\<lambda>_. intact L cfg) (\<lambda>_. intact L cfg)" and "\<And>x. preserves (intact L cfg) (f x)"
  shows "hoare P (bindM op f) (\<lambda>_. intact L cfg) (\<lambda>_. intact L cfg)"
  by (rule hoare_bindM [OF assms(1) hoare_preserves [OF assms(2)]])

lemma held_kept:
  assumes "preserves (held L cfg i m) op"
  shows "hoare (held L cfg i m) op (\<lambda>_. intact L cfg) (\<lambda>_. intact L cfg)"
  by (rule hoare_conseq [OF hoare_preserves [OF assms]]) (auto intro: held_intact)

lemma option_then:
  "(\<And>x. v = Some x \<Longrightarrow> hoare (held L cfg i m) (f x) (\<lambda>_. intact L cfg) (\<lambda>_. intact L cfg)) \<Longrightarrow>
   hoare (held L cfg i m) (bindM (from_option e v) f) (\<lambda>_. intact L cfg) (\<lambda>_. intact L cfg)"
  by (cases v) (auto simp: from_option_def intro: hoare_raise held_intact)

lemma read_then:
  assumes "\<And>p. read_from L m p \<Longrightarrow> hoare (held L cfg i m) (f p) (\<lambda>_. intact L cfg) (\<lambda>_. intact L cfg)"
  shows "hoare (held L cfg i m) (bindM (get_message L i) f) (\<lambda>_. intact L cfg) (\<lambda>_. intact L cfg)"
proof (rule hoare_bindM [where Q = "\<lambda>p s. held L cfg i m s \<and> read_from L m p"])
  show "hoare (held L cfg i m) (get_message L i) (\<lambda>p s. held L cfg i m s \<and> read_from L m p) (\<lambda>_. intact L cfg)"
  proof (rule hoareI)
    fix s e s' assume "held L cfg i m s" "get_message L i s = (Inl e, s')"
    then show "intact L cfg s'" using get_message_db [of L i s] by (simp add: holding_def)
  qed (auto dest!: get_message_row simp: holding_def)
qed (auto intro: hoare_pure assms)

lemma child_then:
  assumes "read_from L m p"
    and "\<And>e. written_for L m st pl (message_of L e) \<Longrightarrow>
      hoare (held L cfg i m) (f e) (\<lambda>_. intact L cfg) (\<lambda>_. intact L cfg)"
  shows "hoare (held L cfg i m) (bindM (child_envelope p st k pl) f) (\<lambda>_. intact L cfg) (\<lambda>_. intact L cfg)"
proof (rule hoare_bindM [where Q = "\<lambda>e s. held L cfg i m s \<and> written_for L m st pl (message_of L e)"])
  show "hoare (held L cfg i m) (child_envelope p st k pl)
      (\<lambda>e s. held L cfg i m s \<and> written_for L m st pl (message_of L e)) (\<lambda>_. intact L cfg)"
    using assms(1) by (auto simp: hoare_def child_envelope_def new_envelope_def op_defs read_from_def written_for_def message_of_def)
qed (auto intro: hoare_pure assms(2))

lemma hoare_tx:
  assumes "\<And>s x s'. I (db s) \<Longrightarrow> m s = (Inr x, s') \<Longrightarrow> J x (db s')" and "\<And>d. I d \<Longrightarrow> K d"
  shows "hoare (\<lambda>s. I (db s)) (tx m) (\<lambda>x s. J x (db s)) (\<lambda>_ s. K (db s))"
proof (rule hoareI)
  fix s s' :: world and e assume "I (db s)" "tx m s = (Inl e, s')"
  then show "K (db s')" by (metis assms(2) tx_InlD)
next
  fix s s' :: world and x assume "I (db s)" "tx m s = (Inr x, s')"
  then show "J x (db s')" by (intro assms(1) [of s]) (auto dest: tx_InrD)
qed

text \<open>Storing the output of a job and queueing the next stage's job for it.\<close>

lemma stored_output_intact:
  assumes "holding L cfg i m (db s)" and "follows L m (message_of L e)"
    and "\<And>ns. next = Some ns \<Longrightarrow> hands_on L (message_of L e) ns"
    and out: "store_output L e next p av ts now s = (Inr r, s')"
  shows "custody L cfg (db s')"
proof -
  let ?new = "\<lambda>d. d\<lparr>stage_messages := stage_messages d @ [message_of L e]\<rparr>"
  from out obtain mid ins s1 s2 where up: "upsert_message_conn L e s = (Inr (mid, ins), s1)"
    and q: "(case next of Some st \<Rightarrow> if ins then bindM (enqueue_job_conn (env_trace_id e) st mid p av) (\<lambda>_. ret ()) else ret ()
        | None \<Rightarrow> ret ()) s1 = (Inr (), s2)"
    and s': "db s' = update_trace (env_trace_id e) (env_stage e) ts now (db s2)"
    by (auto simp: store_output_def ret_def modify_db_def dest!: bindM_InrD split: prod.splits)
  have s2: "custody L cfg (db s2)"
  proof (cases "message_by_key (env_idempotency_key e) (db s)")
    case (Some r)
    with upsert_message_conn_InrD [OF up] q assms(1) show ?thesis by (auto simp: ret_def holding_def split: option.splits)
  next
    case None
    with upsert_message_conn_InrD [OF up] have ins: "ins" "mid = msg_message_id (message_of L e)"
      and new: "find_message mid (db s) = None" and db1: "db s1 = ?new (db s)" by (auto simp: message_of_def)
    from assms(1) have "custody L cfg (db s)" and m: "m \<in> set (stage_messages (db s))"
      by (auto simp: holding_def find_message_def dest!: find_Some_in)
    then obtain a where "descends L cfg (db s) a m" by (auto simp: custody_def)
    from descends_mono [OF this, of "?new (db s)"] have "descends L cfg (?new (db s)) a m" by (auto simp: trace_ids_def)
    then have "descends L cfg (?new (db s)) a (message_of L e)" using assms(2) by (auto intro: descends.handed)
    with \<open>custody L cfg (db s)\<close> have c1: "custody L cfg (db s1)" unfolding db1 by (rule custody_new_message)
    have f1: "find_message mid (db s1) = Some (message_of L e)" using new ins db1 by (simp add: find_message_snoc)
    show ?thesis
    proof (cases "next")
      case None
      with q c1 show ?thesis by (simp add: ret_def)
    next
      case (Some ns)
      with q ins obtain j s3 where "enqueue_job_conn (env_trace_id e) ns mid p av s1 = (Inr j, s3)" "s2 = s3"
        by (auto simp: ret_def dest!: bindM_InrD)
      with enqueue_job_conn_InrD [OF this(1)] c1 f1 assms(3) [OF Some] show ?thesis
        by (auto simp: Let_def queued_job_def intro: custody_new_job split: option.splits)
    qed
  qed
  then show ?thesis unfolding s' by (rule custody.upd_trace)
qed

lemma success_then:
  assumes "written_for L m st pl (message_of L e)" and "hands_on L m st"
    and "\<And>ns. next = Some ns \<Longrightarrow> hands_on L (message_of L e) ns"
  shows "hoare (held L cfg i m) (complete_job_success L l (Some e) au next p av ts) (\<lambda>_. intact L cfg) (\<lambda>_. intact L cfg)"
proof -
  note fol = written_follows [OF assms(1,2)]
  have stored: "hoare (\<lambda>s. holding L cfg i m (db s)) (tx (bindM (store_output L e next p av ts now) f))
      (\<lambda>_ s. custody L cfg (db s)) (\<lambda>_ s. custody L cfg (db s))"
    if "\<And>x. preserves (intact L cfg) (f x)" for now and f :: "uuid option \<Rightarrow> uuid option op"
  proof (rule hoare_tx)
    fix s s' x assume h: "holding L cfg i m (db s)" and "bindM (store_output L e next p av ts now) f s = (Inr x, s')"
    then obtain y s1 where "store_output L e next p av ts now s = (Inr y, s1)" "f y s1 = (Inr x, s')"
      by (auto dest!: bindM_InrD)
    with stored_output_intact [OF h fol assms(3)] preservesD [OF that] show "custody L cfg (db s')" by blast
  qed (simp add: holding_def)
  show ?thesis
    unfolding complete_job_success_def option.case
    by (intro keep_then stored preserves_env preserves_bindM preserves_modify_db preserves_ret custody.release_job custody.finish_run)
      (simp_all add: releases_def same_run_def succeeded_job_def)
qed

text \<open>A round of a worker whose job, for a message that hands on to the worker's stage, leaves the chain intact.\<close>

lemma leased_held:
  assumes "custody L cfg (db s)" and "lease_next_job st w n s = (Inr (Some l), s')"
  shows "\<exists>m. hands_on L m st \<and> holding L cfg (lease_message_id l) m (db s')"
proof -
  from lease_next_job_InrD [OF assms(2)] obtain j where j: "next_ready st (clock s (clock_reads s)) (db s) = Some j"
    "l = lease_of (uuid_source s (uuid_draws s)) j" "s' = leased_world w n j s"
    by (auto split: option.splits)
  then have "j \<in> set (stage_jobs (db s))" "job_stage j = st"
    by (auto simp: next_ready_def ready_def dest!: first_min_in)
  with assms(1) obtain m where "find_message (job_message_id j) (db s) = Some m" "hands_on L m st"
    by (auto simp: custody_def)
  moreover have "custody L cfg (db s')"
    using custody.lease_next_job_kept [of L cfg st w n] assms by (auto dest: preservesD)
  ultimately show ?thesis
    using j by (auto simp: holding_def lease_of_def leased_world_def Let_def find_message_def)
qed

lemma round_intact:
  assumes worker: "stage_worker L cfg st w start job process_next"
    and start: "\<And>i m. preserves (held L cfg i m) start"
    and job: "\<And>l m t. hands_on L m st \<Longrightarrow>
      hoare (held L cfg (lease_message_id l) m) (job l t) (\<lambda>_. intact L cfg) (\<lambda>_. intact L cfg)"
  shows "preserves (intact L cfg) process_next"
proof (rule preservesI)
  fix s :: world assume I: "intact L cfg s"
  let ?n = "lease_sec (cfg_queue cfg)"
  obtain r s1 where l: "lease_next_job st w ?n s = (r, s1)" by fastforce
  have I1: "intact L cfg s1" by (rule preservesD [OF custody.lease_next_job_kept I l])
  show "intact L cfg (snd (process_next s))"
  proof (cases r)
    case (Inl e)
    with l I1 show ?thesis by (simp add: stage_worker.round [OF worker] bindM_def)
  next
    case (Inr x)
    show ?thesis
    proof (cases x)
      case None
      with l Inr I1 show ?thesis by (simp add: stage_worker.round [OF worker] bindM_def ret_def)
    next
      case (Some lease)
      from leased_held [OF I l [unfolded Inr Some]] obtain m
        where m: "hands_on L m st" "holding L cfg (lease_message_id lease) m (db s1)" by blast
      have "hoare (held L cfg (lease_message_id lease) m)
          (bindM start (\<lambda>t. tryM (job lease t) (retry_or_dead_letter L cfg lease))) (\<lambda>_. intact L cfg) (\<lambda>_. intact L cfg)"
        by (intro keep_then start hoare_tryM [OF job [OF m(1)]] hoare_preserves custody.retry_kept)
      from hoare_fst_snd [OF this m(2) prod.collapse [symmetric]] show ?thesis
        using l Inr Some by (simp add: stage_worker.round [OF worker] bindM_def)
    qed
  qed
qed

end
