(* ===== verification/Executor_Round.thy ===== *)
theory Executor_Round
  imports Round_Evaluation
begin

text \<open>
  Whole rounds of the execution worker: exactly when the broker is called outside manual mode, and
  what a round in manual mode leaves for the approver.
\<close>

section \<open>Outside manual mode\<close>

lemma positive_price_read:
  assumes "last_price_of c = Some x" and "0 < x"
  shows "\<exists>v. dict_get (market_snapshot c) ''last_price'' = Some v \<and> decimal_of_json v = Some x"
proof (cases "dict_get (market_snapshot c) ''last_price''")
  case None
  with assms have "x = 0" by (simp add: last_price_of_def jget_def jget_default_def jor_def parse_decimal_zero)
  with assms(2) show ?thesis by simp
next
  case (Some v)
  show ?thesis
  proof (cases "truthy v")
    case True
    with Some assms show ?thesis by (simp add: last_price_of_def jget_def jget_default_def jor_def)
  next
    case False
    with Some assms have "x = 0" by (simp add: last_price_of_def jget_def jget_default_def jor_def parse_decimal_zero)
    with assms(2) show ?thesis by simp
  qed
qed

text \<open>Past the risk checks the intent goes to the approver or to the broker.\<close>

lemma execute_candidate_passes:
  assumes "get_portfolio_snapshot ctx (ar_portfolio_snapshot_id report) = Inr pf"
    and "risk_ok L (cfg_executor cfg) (clock s (clock_reads s)) cand pf (get_circuit_breaker_state ctx)"
  shows "\<exists>checks. execute_candidate L cfg ctx br lease p report cand t s =
    (let intent = intent_of cfg cand (the (last_price_of cand)) in
     if approval_mode (cfg_executor cfg) = ''manual_all'' then request_approval L cfg lease p intent (candidate_id cand) checks t
     else submit_order L cfg br lease p intent (candidate_id cand) checks t EXECUTION) (s\<lparr>clock_reads := Suc (clock_reads s)\<rparr>)"
proof -
  from assms(2) obtain x age where x: "last_price_of cand = Some x" "quote_age_of cand = Some age" "0 < x"
    by (auto simp: risk_ok_def)
  let ?checks = "risk_checks L (cfg_executor cfg) cand pf (get_circuit_breaker_state ctx) (clock s (clock_reads s)) x age"
  have re: "risk_evaluate L (cfg_executor cfg) cand pf (get_circuit_breaker_state ctx) s = (Inr ?checks, s\<lparr>clock_reads := Suc (clock_reads s)\<rparr>)"
    using x by (simp add: risk_evaluate_def op_defs)
  have "list_all check_passed ?checks" using risk_checks_passed [OF x(1,2)] assms(2) by blast
  moreover from positive_price_read [OF x(1,3)] obtain v
    where "dict_get (market_snapshot cand) ''last_price'' = Some v" "decimal_of_json v = Some x" by blast
  ultimately have "execute_candidate L cfg ctx br lease p report cand t s =
      (let intent = intent_of cfg cand x in
       if approval_mode (cfg_executor cfg) = ''manual_all'' then request_approval L cfg lease p intent (candidate_id cand) ?checks t
       else submit_order L cfg br lease p intent (candidate_id cand) ?checks t EXECUTION) (s\<lparr>clock_reads := Suc (clock_reads s)\<rparr>)"
    using re assms(1) by (simp add: execute_candidate_def from_sum_def bindM_def ret_def from_option_def Let_def)
  with x(1) show ?thesis by auto
qed

lemma execute_candidate_sends:
  assumes "approval_mode (cfg_executor cfg) \<noteq> ''manual_all''" and "get_portfolio_snapshot ctx (ar_portfolio_snapshot_id report) = Inr pf"
    and "conn_open s" and "order_by_client_id (order_id_of L cfg p (candidate_id cand)) (db s) = None"
  shows "broker_calls (snd (execute_candidate L cfg ctx br lease p report cand t s)) = broker_calls s @
    (if risk_ok L (cfg_executor cfg) (clock s (clock_reads s)) cand pf (get_circuit_breaker_state ctx)
     then [(intent_of cfg cand (the (last_price_of cand)), order_id_of L cfg p (candidate_id cand))] else [])"
proof (cases "risk_ok L (cfg_executor cfg) (clock s (clock_reads s)) cand pf (get_circuit_breaker_state ctx)")
  case True
  from execute_candidate_passes [OF assms(2) True, of br lease p t] True assms show ?thesis
    by (auto simp: Let_def submit_order_sends)
next
  case False
  show ?thesis
  proof (cases "last_price_of cand = None \<or> quote_age_of cand = None")
    case True
    then show ?thesis using assms(2)
      by (auto simp: execute_candidate_def from_sum_def risk_evaluate_def op_defs risk_ok_def split: option.splits)
  next
    case none: False
    then obtain x age where x: "last_price_of cand = Some x" "quote_age_of cand = Some age" by auto
    let ?checks = "risk_checks L (cfg_executor cfg) cand pf (get_circuit_breaker_state ctx) (clock s (clock_reads s)) x age"
    have "risk_evaluate L (cfg_executor cfg) cand pf (get_circuit_breaker_state ctx) s = (Inr ?checks, s\<lparr>clock_reads := Suc (clock_reads s)\<rparr>)"
      using x by (simp add: risk_evaluate_def op_defs)
    moreover have "\<not> list_all check_passed ?checks" using risk_checks_passed [OF x] False by blast
    ultimately show ?thesis
      using False assms(2) by (simp add: execute_candidate_def from_sum_def bindM_def ret_def framed_calls_snd framed_finish_rejected)
  qed
qed

lemma executor_sends:
  assumes "due_job L EXECUTION j p s" and "approval_mode (cfg_executor cfg) \<noteq> ''manual_all''"
    and "validate_analysis L (env_payload p) = Some report" and "first_max score (ar_candidates report) = Some cand"
    and "get_portfolio_snapshot ctx (ar_portfolio_snapshot_id report) = Inr pf"
    and "order_by_client_id (order_id_of L cfg p (candidate_id cand)) (db s) = None"
  shows "broker_calls (snd (executor_process_next L cfg ctx br w s)) = broker_calls s @
    (if risk_ok L (cfg_executor cfg) (clock s (Suc (clock_reads s))) cand pf (get_circuit_breaker_state ctx)
     then [(intent_of cfg cand (the (last_price_of cand)), order_id_of L cfg p (candidate_id cand))] else [])"
proof -
  let ?s1 = "leased_world w (lease_sec (cfg_queue cfg)) j s"
  let ?s2 = "?s1\<lparr>perf_reads := Suc (perf_reads ?s1)\<rparr>" and ?t = "perf_source ?s1 (perf_reads ?s1)"
  have get: "get_message L (lease_message_id (run_lease j s)) ?s2 = (Inr p, ?s2)"
    using assms(1) by (intro get_message_reads) (simp_all add: due_job_def leased_world_reads lease_of_def)
  have s2: "conn_open ?s2" "order_by_client_id (order_id_of L cfg p (candidate_id cand)) (db ?s2) = None"
    "clock ?s2 (clock_reads ?s2) = clock s (Suc (clock_reads s))" "broker_calls ?s2 = broker_calls s"
    using assms(1,6) by (simp_all add: due_job_def leased_world_reads order_by_client_id_def)
      (simp_all add: leased_world_def Let_def)
  have "execute_job L cfg ctx br (run_lease j s) ?t ?s2 = execute_candidate L cfg ctx br (run_lease j s) p report cand ?t ?s2"
    unfolding execute_job_def by (simp add: bindM_def get from_option_def assms(3,4) ret_def)
  with execute_candidate_sends [OF assms(2,5) s2(1,2), of br "run_lease j s" ?t] s2(3,4) show ?thesis
    by (simp add: executor.due_round [OF assms(1)] bindM_def perf_counter_def tryM_framed_calls framed_retry)
qed

text \<open>
  C12 (functional): exactly when an order is sent. Outside manual mode, when the next execution job
  names a message that reads back as an analysis report and no order is recorded for its best
  candidate, the round calls the broker if and only if that candidate passes every risk check at the
  time of the check on the portfolio the report names, and then once, with the candidate's own
  symbol, side and notional, its last price as the limit and the stable identifier of trace and
  candidate.
\<close>

theorem executor_sends_iff:
  assumes "due_job L EXECUTION j p s" and "approval_mode (cfg_executor cfg) \<noteq> ''manual_all''"
    and "validate_analysis L (env_payload p) = Some report" and "first_max score (ar_candidates report) = Some cand"
    and "get_portfolio_snapshot ctx (ar_portfolio_snapshot_id report) = Inr pf"
    and "order_by_client_id (order_id_of L cfg p (candidate_id cand)) (db s) = None"
  shows "broker_calls (snd (executor_process_next L cfg ctx br w s)) = broker_calls s @
    (if risk_ok L (cfg_executor cfg) (clock s (Suc (clock_reads s))) cand pf (get_circuit_breaker_state ctx)
     then [(intent_of cfg cand (the (last_price_of cand)), order_id_of L cfg p (candidate_id cand))] else [])"
  using assms by (rule executor_sends)

section \<open>Evaluated examples\<close>

definition demo_candidate :: trade_candidate where
  "demo_candidate = candidate_of demo_lib id (cfg_analyst demo_config) demo_portfolio demo_hypothesis (snd (hd demo_market)) ''c1'' 0"

definition demo_analysis_report :: analysis_report where
  "demo_analysis_report = analysis_output ''s1'' [demo_candidate]"

definition automatic_config :: pipeline_config where
  "automatic_config = demo_config\<lparr>cfg_executor := (cfg_executor demo_config)\<lparr>approval_mode := ''auto''\<rparr>\<rparr>"

definition execution_lib :: lib where
  "execution_lib = demo_lib\<lparr>validate_analysis := (\<lambda>_. Some demo_analysis_report)\<rparr>"

definition demo_context :: context_provider where
  "demo_context = static_context_provider [(''s1'', demo_portfolio)] None"

lemma demo_candidate_passes: "list_all filter_passed (filters demo_candidate)"
proof -
  have "filters demo_candidate = evaluate_filters demo_lib (snd (hd demo_market)) (cfg_analyst demo_config)"
    by (simp add: demo_candidate_def candidate_of_def Let_def)
  then show ?thesis by (simp add: filters_passed demo_market_def demo_config_def spread_bps_def)
qed

lemma demo_report_simps:
  "ar_candidates demo_analysis_report = [demo_candidate]" "ar_status demo_analysis_report = AS_PASS"
  "ar_portfolio_snapshot_id demo_analysis_report = ''s1''"
  using demo_candidate_passes by (simp_all add: demo_analysis_report_def analysis_output_def Let_def best_first_def)

lemma demo_price_text: "parse_decimal ''1'' = Some 1"
  by code_simp

lemma demo_snapshot:
  "market_snapshot demo_candidate = market_snapshot_of demo_lib (snd (hd demo_market))"
  by (simp add: demo_candidate_def candidate_of_def Let_def)

lemma demo_snapshot_values:
  "dict_get (market_snapshot demo_candidate) ''last_price'' = Some (JStr ''1'')"
  "dict_get (market_snapshot demo_candidate) ''quote_age_sec'' = Some (JInt 1)"
  unfolding demo_snapshot by (simp_all add: market_snapshot_of_def demo_market_def demo_lib_def)

lemma demo_candidate_values: "last_price_of demo_candidate = Some 1" "quote_age_of demo_candidate = Some 1"
  by (simp_all add: last_price_of_def quote_age_of_def jget_def jget_default_def jor_def demo_snapshot_values demo_price_text)

lemma demo_risk_ok:
  "risk_ok L (cfg_executor automatic_config) (minutes 10) demo_candidate demo_portfolio (get_circuit_breaker_state demo_context)"
proof -
  have c: "broker_eligible demo_candidate" "expiry_at demo_candidate = minutes 15" "max_notional demo_candidate = 5000"
    by (simp_all add: demo_candidate_def candidate_of_def Let_def demo_market_def demo_portfolio_def)
  have e: "max_position_pct (cfg_executor automatic_config) = 1 / 20" "max_sector_exposure_pct (cfg_executor automatic_config) = 1 / 5"
    "max_gross_invested_pct (cfg_executor automatic_config) = 4 / 5" "stale_quote_sec (cfg_executor automatic_config) = 30"
    "max_daily_drawdown_pct (cfg_executor automatic_config) = 1 / 50" "consecutive_loss_limit (cfg_executor automatic_config) = 3"
    by (simp_all add: automatic_config_def demo_config_def)
  show ?thesis
    by (simp add: risk_ok_def demo_candidate_values c e within_limits_def buy_def demo_portfolio_def sector_exposure_of_def
        demo_context_def static_context_provider_def breaker_default_def minutes_def seconds_def)
qed

theorem executor_sends_iff_witness:
  "broker_calls (snd (executor_process_next execution_lib automatic_config demo_context (paper_broker_client execution_lib) ''w''
     (demo_world (demo_db EXECUTION)))) =
   [(intent_of automatic_config demo_candidate 1, build_stable_order_id execution_lib ''t1'' ''c1'' ''v1'')]"
proof -
  let ?p = "envelope_of demo_message demo_trace (JDict [])" and ?s = "demo_world (demo_db EXECUTION)"
  have j: "json_loads execution_lib ''{}'' = Some (JDict [])" by (simp add: execution_lib_def demo_lib_def)
  have a: "approval_mode (cfg_executor automatic_config) \<noteq> ''manual_all''" by (simp add: automatic_config_def)
  have v: "validate_analysis execution_lib (env_payload ?p) = Some demo_analysis_report" by (simp add: execution_lib_def)
  have f: "first_max score (ar_candidates demo_analysis_report) = Some demo_candidate" by (simp add: demo_report_simps)
  have pf: "get_portfolio_snapshot demo_context (ar_portfolio_snapshot_id demo_analysis_report) = Inr demo_portfolio"
    by (simp add: demo_context_def static_context_provider_def demo_report_simps)
  have n: "order_by_client_id (order_id_of execution_lib automatic_config ?p (candidate_id demo_candidate)) (db ?s) = None"
    by (simp add: order_by_client_id_def demo_defs)
  have "clock ?s (Suc (clock_reads ?s)) = minutes 10" "broker_calls ?s = []" by (simp_all add: demo_world_def)
  moreover have "order_id_of execution_lib automatic_config ?p (candidate_id demo_candidate) = build_stable_order_id execution_lib ''t1'' ''c1'' ''v1''"
    by (simp add: order_id_of_def envelope_of_def demo_candidate_def candidate_of_def Let_def automatic_config_def demo_defs)
  ultimately show ?thesis
    using executor_sends_iff [OF demo_due [OF j] a v f pf n, of "paper_broker_client execution_lib" "''w''"] demo_risk_ok
    by (simp add: demo_candidate_values)
qed

end
