(* ===== verification/Analyst_Round.thy ===== *)
theory Analyst_Round
  imports Round_Evaluation
begin

text \<open>
  A whole round of the analyst, from the lease to the saved candidates, on a database whose next
  analysis job can be read, with a market that quotes every symbol of the report.
\<close>

section \<open>Candidates\<close>

definition quoted_candidates ::
  "lib \<Rightarrow> (rat \<Rightarrow> rat) \<Rightarrow> analyst_section \<Rightarrow> (string \<Rightarrow> market_data_snapshot) \<Rightarrow> portfolio_snapshot \<Rightarrow> asset_hypothesis list
    \<Rightarrow> world \<Rightarrow> trade_candidate list" where
  "quoted_candidates L fsqrt cfg quote p hs s =
     map (\<lambda>(k, h). candidate_of L fsqrt cfg p h (quote (hyp_symbol h)) (uuid_source s (uuid_draws s + k)) (clock s (clock_reads s + k)))
       (enumerate 0 hs)"

lemma quoted_candidates_Cons:
  "quoted_candidates L fsqrt cfg quote p (h # hs) s =
     candidate_of L fsqrt cfg p h (quote (hyp_symbol h)) (uuid_source s (uuid_draws s)) (clock s (clock_reads s)) #
     quoted_candidates L fsqrt cfg quote p hs (s\<lparr>uuid_draws := Suc (uuid_draws s), clock_reads := Suc (clock_reads s)\<rparr>)"
  by (auto simp: quoted_candidates_def enumerate_Suc_eq)

lemma analyze_all_eq:
  assumes "\<And>h. h \<in> set hs \<Longrightarrow> market (hyp_symbol h) = Inr (quote (hyp_symbol h))"
  shows "mapM (analyze_hypothesis L fsqrt cfg market p) hs s = (Inr (quoted_candidates L fsqrt cfg quote p hs s),
    s\<lparr>uuid_draws := uuid_draws s + length hs, clock_reads := clock_reads s + length hs\<rparr>)"
  using assms
proof (induction hs arbitrary: s)
  case Nil
  then show ?case by (simp add: quoted_candidates_def ret_def)
next
  case (Cons h hs)
  let ?s1 = "s\<lparr>uuid_draws := Suc (uuid_draws s), clock_reads := Suc (clock_reads s)\<rparr>"
  have "analyze_hypothesis L fsqrt cfg market p h s =
      (Inr (candidate_of L fsqrt cfg p h (quote (hyp_symbol h)) (uuid_source s (uuid_draws s)) (clock s (clock_reads s))), ?s1)"
    using Cons.prems by (simp add: analyze_hypothesis_def from_sum_def op_defs)
  moreover have "mapM (analyze_hypothesis L fsqrt cfg market p) hs ?s1 = (Inr (quoted_candidates L fsqrt cfg quote p hs ?s1),
    ?s1\<lparr>uuid_draws := uuid_draws ?s1 + length hs, clock_reads := clock_reads ?s1 + length hs\<rparr>)"
    using Cons.prems by (intro Cons.IH) simp
  ultimately show ?case by (simp add: bindM_def ret_def quoted_candidates_Cons)
qed

lemma quoted_ids:
  "map candidate_id (quoted_candidates L fsqrt cfg quote p hs s) = map (\<lambda>k. uuid_source s (uuid_draws s + k)) [0..<length hs]"
proof (induction hs arbitrary: s)
  case Nil
  then show ?case by (simp add: quoted_candidates_def)
next
  case (Cons h hs)
  then show ?case
    unfolding quoted_candidates_Cons by (simp del: upt_Suc add: map_upt_Suc candidate_of_def Let_def)
qed

lemma quoted_symbols: "map cand_symbol (quoted_candidates L fsqrt cfg quote p hs s) = map hyp_symbol hs"
  by (induction hs arbitrary: s) (simp_all add: quoted_candidates_Cons candidate_of_def Let_def, simp add: quoted_candidates_def)

section \<open>Saving them\<close>

definition candidate_rows :: "uuid \<Rightarrow> string \<Rightarrow> trade_candidate list \<Rightarrow> candidate_row list" where
  "candidate_rows mid status cs = map (\<lambda>c. \<lparr>cr_message_id = mid, cr_status = status, cr_item = c\<rparr>) cs"

lemma insert_candidates_eq:
  assumes "distinct (map candidate_id cs)" and "\<forall>c\<in>set cs. \<forall>r\<in>set (analysis_candidates (db s)). candidate_id (cr_item r) \<noteq> candidate_id c"
    and "find_message mid (db s) \<noteq> None"
  shows "forM cs (\<lambda>item. insert_candidate mid status item) s =
    (Inr (), s\<lparr>db := (db s)\<lparr>analysis_candidates := analysis_candidates (db s) @ candidate_rows mid status cs\<rparr>\<rparr>)"
  using assms
proof (induction cs arbitrary: s)
  case Nil
  then show ?case by (simp add: ret_def candidate_rows_def)
next
  case (Cons c cs)
  let ?s1 = "s\<lparr>db := (db s)\<lparr>analysis_candidates := analysis_candidates (db s) @ candidate_rows mid status [c]\<rparr>\<rparr>"
  have "insert_candidate mid status c s = (Inr (), ?s1)"
    using Cons.prems by (auto simp: insert_candidate_def insert_row_def message_exists_def candidate_rows_def)
  moreover have "forM cs (\<lambda>item. insert_candidate mid status item) ?s1 =
    (Inr (), ?s1\<lparr>db := (db ?s1)\<lparr>analysis_candidates := analysis_candidates (db ?s1) @ candidate_rows mid status cs\<rparr>\<rparr>)"
    using Cons.prems by (intro Cons.IH) (auto simp: candidate_rows_def find_message_def image_iff)
  ultimately show ?case by (simp add: bindM_def candidate_rows_def)
qed

definition candidates_world :: "uuid \<Rightarrow> trade_candidate list \<Rightarrow> trade_candidate list \<Rightarrow> world \<Rightarrow> world" where
  "candidates_world mid cs rs s = s\<lparr>db := (db s)\<lparr>analysis_candidates := analysis_candidates (db s) @
     candidate_rows mid ''candidate'' cs @ candidate_rows mid ''rejected'' rs\<rparr>\<rparr>"

lemma save_candidates_eq:
  assumes "conn_open s" and "distinct (map candidate_id (cs @ rs))"
    and "\<forall>c\<in>set (cs @ rs). \<forall>r\<in>set (analysis_candidates (db s)). candidate_id (cr_item r) \<noteq> candidate_id c"
    and "find_message mid (db s) \<noteq> None"
  shows "save_analysis_candidates mid cs rs s = (Inr (), candidates_world mid cs rs s)"
proof -
  let ?s1 = "s\<lparr>db := (db s)\<lparr>analysis_candidates := analysis_candidates (db s) @ candidate_rows mid ''candidate'' cs\<rparr>\<rparr>"
  have c: "forM cs (insert_candidate mid ''candidate'') s = (Inr (), ?s1)"
    using insert_candidates_eq [of cs s mid "''candidate''"] assms by simp
  have "\<forall>c\<in>set rs. \<forall>r\<in>set (analysis_candidates (db ?s1)). candidate_id (cr_item r) \<noteq> candidate_id c"
    using assms(2,3) by (auto simp: candidate_rows_def)
  then have "forM rs (insert_candidate mid ''rejected'') ?s1 = (Inr (), candidates_world mid cs rs s)"
    using insert_candidates_eq [of rs ?s1 mid "''rejected''"] assms(2,4) by (simp add: candidates_world_def find_message_def)
  with c assms(1) show ?thesis
    by (simp add: save_analysis_candidates_def tx_def bindM_def ret_def)
qed

lemma output_candidates:
  "mset (ar_candidates (analysis_output sid cs) @ ar_rejected_candidates (analysis_output sid cs)) = mset cs"
  by (simp add: analysis_output_def Let_def)

lemma output_ids:
  assumes "distinct (map candidate_id cs)"
  shows "distinct (map candidate_id (ar_candidates (analysis_output sid cs) @ ar_rejected_candidates (analysis_output sid cs)))"
proof -
  have "mset (map candidate_id (ar_candidates (analysis_output sid cs) @ ar_rejected_candidates (analysis_output sid cs))) = mset (map candidate_id cs)"
    using output_candidates [of sid cs] by (metis mset_map)
  with assms show ?thesis by (metis mset_eq_imp_distinct_iff)
qed

section \<open>The round\<close>

lemma quoted_fresh:
  assumes "fresh_ids s"
  shows "distinct (map candidate_id (quoted_candidates L fsqrt cfg quote p hs s))"
    and "c \<in> set (quoted_candidates L fsqrt cfg quote p hs s) \<Longrightarrow> r \<in> set (analysis_candidates (db s)) \<Longrightarrow>
      candidate_id (cr_item r) \<noteq> candidate_id c"
proof -
  have inj: "inj (uuid_source s)" using assms by (simp add: fresh_ids_def)
  have "inj_on (\<lambda>k. uuid_source s (uuid_draws s + k)) (set [0..<length hs])"
    by (rule inj_onI) (metis add_left_cancel injD [OF inj])
  then show "distinct (map candidate_id (quoted_candidates L fsqrt cfg quote p hs s))"
    unfolding quoted_ids by (simp add: distinct_map)
next
  assume "c \<in> set (quoted_candidates L fsqrt cfg quote p hs s)" "r \<in> set (analysis_candidates (db s))"
  then have "candidate_id c \<in> set (map candidate_id (quoted_candidates L fsqrt cfg quote p hs s))" by simp
  then obtain k where "candidate_id c = uuid_source s (uuid_draws s + k)" unfolding quoted_ids by auto
  with fresh_idsD(6) [OF assms, of "uuid_draws s + k" r] \<open>r \<in> _\<close> show "candidate_id (cr_item r) \<noteq> candidate_id c" by simp
qed

text \<open>Reading, drawing and analysing, up to the output: the job in front of its shared tail.\<close>

lemma analyst_job_eq:
  assumes "conn_open s" and "reads L (lease_message_id l) (db s) p" and "validate_research L (env_payload p) = Some report"
    and "\<forall>x\<in>set (portfolio_snapshots (db s)). snapshot_id x \<noteq> snapshot_id pf"
    and "\<forall>h\<in>set (rr_asset_hypotheses report). market (hyp_symbol h) = Inr (quote (hyp_symbol h))"
  shows "\<exists>s2 s3. s2 = s\<lparr>db := (db s)\<lparr>portfolio_snapshots := portfolio_snapshots (db s) @ [pf]\<rparr>\<rparr> \<and> moved_on s2 s3 \<and>
    uuid_draws s3 = uuid_draws s + length (rr_asset_hypotheses report) \<and>
    analyst_job L fsqrt cfg market (Inr pf) l t s =
      (let output = analysis_output (snapshot_id pf)
             (quoted_candidates L fsqrt (cfg_analyst cfg) quote pf (rr_asset_hypotheses report) s2) in
       bindM (child_envelope p ANALYSIS
              (build_analysis_key (env_message_id p) (ruleset_version (cfg_analyst cfg)) (iso_time L (captured_at pf)))
              (dump_analysis L output)) (\<lambda>envelope.
       bindM (timed_audit envelope t) (\<lambda>audit0.
       bindM (complete_job_success L l (Some envelope) (Some (audit0\<lparr>audit_prompt_version := Some (ruleset_version (cfg_analyst cfg))\<rparr>))
              (if ar_status output = AS_PASS then Some EXECUTION else None) 100 None
              (analysis_status_value (ar_status output))) (\<lambda>message_id.
       bindM (case message_id of
           None \<Rightarrow> ret ()
         | Some mid \<Rightarrow> save_analysis_candidates mid (ar_candidates output) (ar_rejected_candidates output)) (\<lambda>_.
       ret True))))) s3"
proof -
  let ?s2 = "s\<lparr>db := (db s)\<lparr>portfolio_snapshots := portfolio_snapshots (db s) @ [pf]\<rparr>\<rparr>"
  let ?hs = "rr_asset_hypotheses report"
  let ?s3 = "?s2\<lparr>uuid_draws := uuid_draws ?s2 + length ?hs, clock_reads := clock_reads ?s2 + length ?hs\<rparr>"
  have get: "get_message L (lease_message_id l) s = (Inr p, s)" by (rule get_message_reads [OF assms(1,2)])
  have snap: "save_portfolio_snapshot pf s = (Inr (snapshot_id pf), ?s2)"
    using assms(1,4) by (auto simp: save_portfolio_snapshot_def tx_def insert_row_def op_defs)
  have analysed: "mapM (analyze_hypothesis L fsqrt (cfg_analyst cfg) market pf) ?hs ?s2 =
      (Inr (quoted_candidates L fsqrt (cfg_analyst cfg) quote pf ?hs ?s2), ?s3)"
    by (intro analyze_all_eq assms(5) [rule_format])
  show ?thesis
    unfolding analyst_job_def Let_def
    by (rule exI [of _ ?s2], rule exI [of _ ?s3])
      (simp only: bindM_Inr [where m = "get_message L i" for i, OF get] from_option_def assms(3) option.case bindM_ret from_sum_def sum.case
        bindM_Inr [where m = "save_portfolio_snapshot pf", OF snap]
        bindM_Inr [where m = "mapM (analyze_hypothesis L fsqrt (cfg_analyst cfg) market pf) hs" for hs, OF analysed],
       simp add: moved_on_def)
qed

lemma analyst_round_eq:
  assumes due: "due_job L ANALYSIS j p s" and fresh: "fresh_ids s" and valid: "validate_research L (env_payload p) = Some report"
    and snap: "\<forall>x\<in>set (portfolio_snapshots (db s)). snapshot_id x \<noteq> snapshot_id pf"
    and quotes: "\<forall>h\<in>set (rr_asset_hypotheses report). market (hyp_symbol h) = Inr (quote (hyp_symbol h))"
    and new: "message_by_key (build_analysis_key (env_message_id p) (ruleset_version (cfg_analyst cfg)) (iso_time L (captured_at pf))) (db s) = None"
  shows "\<exists>cs out e s3 s4 g. out = analysis_output (snapshot_id pf) cs \<and>
     analyst_process_next L fsqrt cfg market (Inr pf) w s =
       (Inr True, candidates_world (env_message_id e) (ar_candidates out) (ar_rejected_candidates out)
         (finished_world L (run_lease j s) e (if ar_status out = AS_PASS then Some EXECUTION else None) 100 None
           (analysis_status_value (ar_status out)) g s4)) \<and>
     (\<exists>s2. cs = quoted_candidates L fsqrt (cfg_analyst cfg) quote pf (rr_asset_hypotheses report) s2 \<and> clock s2 = clock s \<and>
        clock_reads s2 = Suc (clock_reads s) \<and> uuid_source s2 = uuid_source s \<and>
        uuid_draws s3 = uuid_draws s2 + length (rr_asset_hypotheses report)) \<and>
     moved_on ((leased_world w (lease_sec (cfg_queue cfg)) j s)\<lparr>db := (db (leased_world w (lease_sec (cfg_queue cfg)) j s))
        \<lparr>portfolio_snapshots := portfolio_snapshots (db s) @ [pf]\<rparr>\<rparr>) s4 \<and>
     uuid_draws s \<le> uuid_draws s4 \<and> uuid_draws s4 = Suc (uuid_draws s3) \<and>
     e = drawn_envelope p ANALYSIS (build_analysis_key (env_message_id p) (ruleset_version (cfg_analyst cfg)) (iso_time L (captured_at pf)))
           (dump_analysis L out) s3 \<and> uuid_source s3 = uuid_source s \<and> uuid_draws s \<le> uuid_draws s3 \<and> same_run g"
proof -
  let ?n = "lease_sec (cfg_queue cfg)" and ?hs = "rr_asset_hypotheses report" and ?l = "run_lease j s"
  let ?k = "build_analysis_key (env_message_id p) (ruleset_version (cfg_analyst cfg)) (iso_time L (captured_at pf))"
  let ?sl = "leased_world w ?n j s"
  define sp where "sp = ?sl\<lparr>perf_reads := Suc (perf_reads ?sl)\<rparr>"
  have sp: "conn_open sp" "reads L (lease_message_id ?l) (db sp) p" "fresh_ids sp" "message_by_key ?k (db sp) = None"
    "\<forall>x\<in>set (portfolio_snapshots (db sp)). snapshot_id x \<noteq> snapshot_id pf" "db sp = db ?sl" "clock sp = clock s"
    "clock_reads sp = Suc (clock_reads s)" "uuid_source sp = uuid_source s" "uuid_draws sp = Suc (uuid_draws s)"
    using due fresh_leased [OF fresh, of w ?n j] new snap
    by (simp_all add: sp_def due_job_def leased_world_reads message_by_key_def lease_of_def fresh_ids_def)
      (simp_all add: leased_world_def Let_def update_job_def)
  from analyst_job_eq [OF sp(1,2) valid sp(5) quotes, of fsqrt cfg "perf_source ?sl (perf_reads ?sl)"] obtain s2 s3 where
      s2: "s2 = sp\<lparr>db := (db sp)\<lparr>portfolio_snapshots := portfolio_snapshots (db sp) @ [pf]\<rparr>\<rparr>" and m3: "moved_on s2 s3"
    and d3: "uuid_draws s3 = uuid_draws sp + length ?hs"
    and job: "analyst_job L fsqrt cfg market (Inr pf) ?l (perf_source ?sl (perf_reads ?sl)) sp =
      (let output = analysis_output (snapshot_id pf) (quoted_candidates L fsqrt (cfg_analyst cfg) quote pf ?hs s2) in
       bindM (child_envelope p ANALYSIS ?k (dump_analysis L output)) (\<lambda>envelope.
       bindM (timed_audit envelope (perf_source ?sl (perf_reads ?sl))) (\<lambda>audit0.
       bindM (complete_job_success L ?l (Some envelope) (Some (audit0\<lparr>audit_prompt_version := Some (ruleset_version (cfg_analyst cfg))\<rparr>))
              (if ar_status output = AS_PASS then Some EXECUTION else None) 100 None
              (analysis_status_value (ar_status output))) (\<lambda>message_id.
       bindM (case message_id of None \<Rightarrow> ret ()
         | Some mid \<Rightarrow> save_analysis_candidates mid (ar_candidates output) (ar_rejected_candidates output)) (\<lambda>_.
       ret True))))) s3"
    by blast
  define cs where "cs = quoted_candidates L fsqrt (cfg_analyst cfg) quote pf ?hs s2"
  define out where "out = analysis_output (snapshot_id pf) cs"
  have f2: "fresh_ids s2" using sp(3) by (simp add: s2 fresh_ids_def used_ids_def)
  have s3: "conn_open s3" "reads L (lease_message_id ?l) (db s3) p" "fresh_ids s3" "message_by_key ?k (db s3) = None"
    using sp m3 fresh_moved_on [OF f2 m3]
    by (simp_all add: s2 moved_on_def reads_def find_message_def find_trace_def message_by_key_def)
  let ?h = "\<lambda>e au message_id. bindM (case message_id of None \<Rightarrow> ret ()
         | Some mid \<Rightarrow> save_analysis_candidates mid (ar_candidates out) (ar_rejected_candidates out)) (\<lambda>_. ret True)"
  let ?next = "if ar_status out = AS_PASS then Some EXECUTION else None"
  from output_stage_eq [OF s3, of ANALYSIS "dump_analysis L out" "perf_source ?sl (perf_reads ?sl)" ?l
      "\<lambda>a. a\<lparr>audit_prompt_version := Some (ruleset_version (cfg_analyst cfg))\<rparr>" ?next 100 None "analysis_status_value (ar_status out)" ?h]
  obtain e s4 g where tail: "bindM (child_envelope p ANALYSIS ?k (dump_analysis L out)) (\<lambda>e.
      bindM (timed_audit e (perf_source ?sl (perf_reads ?sl))) (\<lambda>au.
      bindM (complete_job_success L ?l (Some e) (Some (au\<lparr>audit_prompt_version := Some (ruleset_version (cfg_analyst cfg))\<rparr>)) ?next 100 None
        (analysis_status_value (ar_status out))) (?h e au))) s3 =
      ?h e () (Some (env_message_id e)) (finished_world L ?l e ?next 100 None (analysis_status_value (ar_status out)) g s4)"
    and e: "moved_on s3 s4" "uuid_draws s4 = Suc (uuid_draws s3)" "e = drawn_envelope p ANALYSIS ?k (dump_analysis L out) s3" "same_run g"
    by blast
  let ?fw = "finished_world L ?l e ?next 100 None (analysis_status_value (ar_status out)) g s4"
  have "find_message (env_message_id e) (db ?fw) \<noteq> None"
    by (auto simp: find_message_def find_None_all finished_world_simps message_of_def)
  moreover have "conn_open ?fw" using s3(1) e(1) by (simp add: finished_world_simps moved_on_def)
  moreover have "analysis_candidates (db ?fw) = analysis_candidates (db s2)"
    using m3 e(1) by (simp add: finished_world_simps moved_on_def)
  moreover have "set (ar_candidates out @ ar_rejected_candidates out) = set cs"
    unfolding out_def by (metis output_candidates set_mset_mset)
  moreover have "candidate_id (cr_item r) \<noteq> candidate_id c" if "c \<in> set cs" "r \<in> set (analysis_candidates (db s2))" for c r
    using quoted_fresh(2) [OF f2] that unfolding cs_def by blast
  moreover have "distinct (map candidate_id (ar_candidates out @ ar_rejected_candidates out))"
    unfolding out_def cs_def by (intro output_ids quoted_fresh(1) f2)
  ultimately have save: "save_analysis_candidates (env_message_id e) (ar_candidates out) (ar_rejected_candidates out) ?fw =
      (Inr (), candidates_world (env_message_id e) (ar_candidates out) (ar_rejected_candidates out) ?fw)"
    by (intro save_candidates_eq) auto
  have "analyst_job L fsqrt cfg market (Inr pf) ?l (perf_source ?sl (perf_reads ?sl)) sp =
      (Inr True, candidates_world (env_message_id e) (ar_candidates out) (ar_rejected_candidates out) ?fw)"
    unfolding job Let_def cs_def [symmetric] out_def [symmetric] tail option.case
    by (simp only: bindM_Inr [where m = "save_analysis_candidates i x y" for i x y, OF save]) (simp add: ret_def)
  then have "analyst_process_next L fsqrt cfg market (Inr pf) w s =
      (Inr True, candidates_world (env_message_id e) (ar_candidates out) (ar_rejected_candidates out) ?fw)"
    by (simp add: analyst.due_round [OF due] bindM_def perf_counter_def tryM_def sp_def)
  moreover have "moved_on (?sl\<lparr>db := (db ?sl)\<lparr>portfolio_snapshots := portfolio_snapshots (db s) @ [pf]\<rparr>\<rparr>) s4"
    using m3 e(1) by (auto simp: s2 sp_def moved_on_def leased_world_def Let_def update_job_def)
  moreover have "uuid_source s3 = uuid_source s" using m3 sp by (simp add: moved_on_def s2)
  ultimately show ?thesis
    using d3 e sp(7,8,9,10) by (intro exI [of _ cs] exI [of _ out] exI [of _ e] exI [of _ s3] exI [of _ s4] exI [of _ g])
      (auto simp: out_def cs_def s2)
qed

definition tradable_quote :: "analyst_section \<Rightarrow> market_data_snapshot \<Rightarrow> bool" where
  "tradable_quote cfg m \<longleftrightarrow> mds_tradable m \<and> \<not> mds_halted m \<and> mds_session m = ''regular'' \<and>
     min_price cfg \<le> mds_last_price m \<and> mds_last_price m \<le> max_price cfg \<and>
     spread_bps m \<le> of_int (max_spread_bps cfg) \<and> min_avg_dollar_volume cfg \<le> mds_avg_daily_dollar_volume m"

definition report_of_quotes ::
  "analyst_section \<Rightarrow> (string \<Rightarrow> market_data_snapshot) \<Rightarrow> portfolio_snapshot \<Rightarrow> asset_hypothesis list \<Rightarrow> analysis_report \<Rightarrow> bool" where
  "report_of_quotes cfg quote pf hs out \<longleftrightarrow>
     (let all = ar_candidates out @ ar_rejected_candidates out in
      mset (map cand_symbol all) = mset (map hyp_symbol hs) \<and>
      (\<forall>c\<in>set (ar_candidates out). tradable_quote cfg (quote (cand_symbol c))) \<and>
      (\<forall>c\<in>set (ar_rejected_candidates out). \<not> tradable_quote cfg (quote (cand_symbol c))) \<and>
      sorted (rev (map score (ar_candidates out))) \<and> sorted (rev (map score (ar_rejected_candidates out))) \<and>
      (\<forall>c\<in>set all. max_notional c \<le> equity pf / 20 \<and> max_notional c \<le> cash pf * 95 / 100) \<and>
      (ar_status out = AS_PASS \<longleftrightarrow> ar_candidates out \<noteq> []))"

lemma quoted_report:
  "report_of_quotes (cfg_analyst cfg) quote pf hs (analysis_output sid (quoted_candidates L fsqrt (cfg_analyst cfg) quote pf hs s))"
proof -
  have "mapM (analyze_hypothesis L fsqrt (cfg_analyst cfg) (\<lambda>x. Inr (quote x)) pf) hs s =
      (Inr (quoted_candidates L fsqrt (cfg_analyst cfg) quote pf hs s),
       s\<lparr>uuid_draws := uuid_draws s + length hs, clock_reads := clock_reads s + length hs\<rparr>)"
    by (rule analyze_all_eq) simp
  from analysis_report_correct [OF this, of sid] show ?thesis
    by (simp add: report_of_quotes_def tradable_quote_def Let_def)
qed

text \<open>
  C17 (functional): a round of the analyst. When the next analysis job names a message that reads back
  as a research report, every symbol of which the market quotes, the portfolio snapshot is new and no
  report is stored for it yet, the round returns and has stored one analysis report as the child of
  that message on its trace. The report lists every hypothesis' symbol once, with the candidates whose
  quote is tradable, not halted, in the regular session, inside the price band and the spread limit
  and liquid enough, best score first, apart from the rejected ones; no notional exceeds a twentieth of
  the equity or 95 percent of the cash. The snapshot and all candidates are saved, the job has succeeded
  and is free, no other job has changed, and an execution job is queued if and only if a candidate is left.
\<close>

theorem analyst_round_correct:
  assumes "due_job L ANALYSIS j p s" and "fresh_ids s" and "validate_research L (env_payload p) = Some report"
    and "\<forall>x\<in>set (portfolio_snapshots (db s)). snapshot_id x \<noteq> snapshot_id pf"
    and "\<forall>h\<in>set (rr_asset_hypotheses report). market (hyp_symbol h) = Inr (quote (hyp_symbol h))"
    and "message_by_key (build_analysis_key (env_message_id p) (ruleset_version (cfg_analyst cfg)) (iso_time L (captured_at pf))) (db s) = None"
  shows "\<exists>s' out m new rows. analyst_process_next L fsqrt cfg market (Inr pf) w s = (Inr True, s') \<and>
     report_of_quotes (cfg_analyst cfg) quote pf (rr_asset_hypotheses report) out \<and> ar_portfolio_snapshot_id out = snapshot_id pf \<and>
     stage_messages (db s') = stage_messages (db s) @ [m] \<and> msg_parent_message_id m = Some (job_message_id j) \<and>
     msg_trace_id m = env_trace_id p \<and> msg_stage m = ANALYSIS \<and> msg_payload_jsonb m = json_dumps L (dump_analysis L out) \<and>
     portfolio_snapshots (db s') = portfolio_snapshots (db s) @ [pf] \<and>
     analysis_candidates (db s') = analysis_candidates (db s) @ rows \<and> map cr_item rows = ar_candidates out @ ar_rejected_candidates out \<and>
     (\<forall>r\<in>set rows. cr_message_id r = msg_message_id m) \<and>
     filter (\<lambda>x. job_id x \<noteq> job_id j) (stage_jobs (db s')) = filter (\<lambda>x. job_id x \<noteq> job_id j) (stage_jobs (db s)) @ new \<and>
     (\<forall>x\<in>set (stage_jobs (db s')). job_id x = job_id j \<longrightarrow> job_state x = Succeeded \<and> job_leased_until x = None) \<and>
     map (\<lambda>x. (job_stage x, job_message_id x, job_trace_id x, job_state x)) new =
       (if ar_candidates out \<noteq> [] then [(EXECUTION, msg_message_id m, env_trace_id p, Queued)] else [])"
proof -
  let ?sl = "leased_world w (lease_sec (cfg_queue cfg)) j s"
  let ?k = "build_analysis_key (env_message_id p) (ruleset_version (cfg_analyst cfg)) (iso_time L (captured_at pf))"
  from analyst_round_eq [OF assms, of fsqrt w] obtain cs out e s3 s4 g s2 where out: "out = analysis_output (snapshot_id pf) cs"
      "cs = quoted_candidates L fsqrt (cfg_analyst cfg) quote pf (rr_asset_hypotheses report) s2"
    and round: "analyst_process_next L fsqrt cfg market (Inr pf) w s =
       (Inr True, candidates_world (env_message_id e) (ar_candidates out) (ar_rejected_candidates out)
         (finished_world L (run_lease j s) e (if ar_status out = AS_PASS then Some EXECUTION else None) 100 None
           (analysis_status_value (ar_status out)) g s4))"
    and m4: "moved_on (?sl\<lparr>db := (db ?sl)\<lparr>portfolio_snapshots := portfolio_snapshots (db s) @ [pf]\<rparr>\<rparr>) s4" "uuid_draws s \<le> uuid_draws s4"
    and e: "e = drawn_envelope p ANALYSIS ?k (dump_analysis L out) s3"
    by blast
  let ?fw = "finished_world L (run_lease j s) e (if ar_status out = AS_PASS then Some EXECUTION else None) 100 None (analysis_status_value (ar_status out)) g s4"
  have db4: "stage_messages (db s4) = stage_messages (db s)" "analysis_candidates (db s4) = analysis_candidates (db s)"
    "portfolio_snapshots (db s4) = portfolio_snapshots (db s) @ [pf]"
    using m4(1) by (simp_all add: moved_on_def leased_world_def Let_def update_job_def)
  have "env_message_id p = job_message_id j" using assms(1) reads_id by (auto simp: due_job_def)
  then have m: "msg_parent_message_id (message_of L e) = Some (job_message_id j)" "msg_trace_id (message_of L e) = env_trace_id p"
    "msg_stage (message_of L e) = ANALYSIS" "msg_payload_jsonb (message_of L e) = json_dumps L (dump_analysis L out)"
    "msg_message_id (message_of L e) = env_message_id e" "env_trace_id e = env_trace_id p"
    by (simp_all add: e message_of_def drawn_envelope_def)
  have report: "report_of_quotes (cfg_analyst cfg) quote pf (rr_asset_hypotheses report) out"
    unfolding out by (rule quoted_report)
  have sid: "ar_portfolio_snapshot_id out = snapshot_id pf" by (simp add: out analysis_output_def Let_def)
  from report have status: "ar_status out = AS_PASS \<longleftrightarrow> ar_candidates out \<noteq> []" by (simp add: report_of_quotes_def Let_def)
  have "uuid_source s4 = uuid_source s" "stage_jobs (db s4) = stage_jobs (db ?sl)"
    using m4(1) by (simp_all add: moved_on_def leased_world_def Let_def)
  note jobs = finished_jobs [OF this assms(2) m4(2) conjunct1 [OF due_job_in [OF assms(1)]], of L e
      "if ar_status out = AS_PASS then Some EXECUTION else None" 100 None "analysis_status_value (ar_status out)" g]
  show ?thesis
    by (rule exI, rule exI [of _ out], rule exI [of _ "message_of L e"],
        rule exI [of _ "queued_after e (if ar_status out = AS_PASS then Some EXECUTION else None) 100 None s4"],
        rule exI [of _ "candidate_rows (env_message_id e) ''candidate'' (ar_candidates out) @ candidate_rows (env_message_id e) ''rejected'' (ar_rejected_candidates out)"],
        intro conjI, rule round)
      (use report sid status m db4 jobs m4 in \<open>auto simp: candidates_world_def candidate_rows_def o_def finished_world_simps(1,10,11) queued_after_def Let_def queued_job_def\<close>)
qed

section \<open>Evaluated examples\<close>

definition demo_report :: research_report where
  "demo_report =
     \<lparr>rr_status = RS_PASS, rr_catalyst_type = CT_POLICY, rr_catalyst_summary = ''c'', rr_catalyst_started_at = None,
      rr_freshness_sec = Some 0,
      rr_evidence = [\<lparr>ev_url = ''u'', ev_title = ''t'', ev_publisher = ''Polymarket'', ev_published_at = None,
        ev_retrieved_at = 0, ev_source_tier = ST_SECONDARY, ev_relevance_score = 1 / 4, ev_claim_tag = ''market_context''\<rparr>],
      rr_asset_hypotheses = [demo_hypothesis], rr_unsupported_claims = [], rr_stage_summary = ''s''\<rparr>"

definition analysis_lib :: lib where
  "analysis_lib = demo_lib\<lparr>validate_research := (\<lambda>_. Some demo_report)\<rparr>"

theorem analyst_round_correct_witness:
  "\<exists>s' (out :: analysis_report). analyst_process_next analysis_lib id demo_config (static_market_data demo_market) (Inr demo_portfolio) ''w''
       (demo_world (demo_db ANALYSIS)) = (Inr True, s') \<and>
     map msg_stage (stage_messages (db s')) = [INGEST, ANALYSIS] \<and> portfolio_snapshots (db s') = [demo_portfolio] \<and>
     mset (map cand_symbol (ar_candidates out @ ar_rejected_candidates out)) = {#''XLE''#}"
proof -
  let ?p = "envelope_of demo_message demo_trace (JDict [])" and ?s = "demo_world (demo_db ANALYSIS)"
  have j: "json_loads analysis_lib ''{}'' = Some (JDict [])" by (simp add: analysis_lib_def demo_lib_def)
  have v: "validate_research analysis_lib (env_payload ?p) = Some demo_report" by (simp add: analysis_lib_def)
  have pf: "\<forall>x\<in>set (portfolio_snapshots (db ?s)). snapshot_id x \<noteq> snapshot_id demo_portfolio" by (simp add: demo_defs)
  have q: "\<forall>h\<in>set (rr_asset_hypotheses demo_report).
      static_market_data demo_market (hyp_symbol h) = Inr ((\<lambda>_. snd (hd demo_market)) (hyp_symbol h))"
    by (simp add: demo_report_def demo_hypothesis_def static_market_data_def demo_market_def)
  have k: "message_by_key (build_analysis_key (env_message_id ?p) (ruleset_version (cfg_analyst demo_config))
      (iso_time analysis_lib (captured_at demo_portfolio))) (db ?s) = None"
    by (simp add: message_by_key_def build_analysis_key_def demo_defs)
  from analyst_round_correct [OF demo_due [OF j] demo_fresh v pf q k, of id "''w''"] obtain s' out m where
      round: "analyst_process_next analysis_lib id demo_config (static_market_data demo_market) (Inr demo_portfolio) ''w'' ?s = (Inr True, s')"
    and report: "report_of_quotes (cfg_analyst demo_config) (\<lambda>_. snd (hd demo_market)) demo_portfolio (rr_asset_hypotheses demo_report) out"
    and rows: "stage_messages (db s') = stage_messages (db ?s) @ [m]" "msg_stage m = ANALYSIS"
      "portfolio_snapshots (db s') = portfolio_snapshots (db ?s) @ [demo_portfolio]"
    by blast
  from report have symbols: "mset (map cand_symbol (ar_candidates out @ ar_rejected_candidates out)) = {#''XLE''#}"
    by (simp add: report_of_quotes_def Let_def demo_report_def demo_hypothesis_def)
  from rows have rows': "map msg_stage (stage_messages (db s')) = [INGEST, ANALYSIS]" "portfolio_snapshots (db s') = [demo_portfolio]"
    by (simp_all add: demo_defs)
  show ?thesis by (intro exI conjI) (rule round rows' symbols)+
qed

end
