(* ===== verification/Provenance.thy ===== *)
theory Provenance
  imports Message_Lineage Executor_Round Analyst_Round
begin

text \<open>
  Every worker, the ingress and the decisions keep the chain of custody, and with it every order
  sent to the broker is followed back to an alert that the ingress accepted.
\<close>

section \<open>The workers\<close>

lemma fallback_then:
  assumes "\<And>r. (rr_status r = RS_PASS \<Longrightarrow> rr_asset_hypotheses r \<noteq> [] \<and> rr_evidence r \<noteq> []) \<Longrightarrow>
      hoare (held L cfg i m) (f r) (\<lambda>_. intact L cfg) (\<lambda>_. intact L cfg)"
  shows "hoare (held L cfg i m) (bindM (fallback_analyze L a) f) (\<lambda>_. intact L cfg) (\<lambda>_. intact L cfg)"
  unfolding fallback_analyze_def evidence_of_def Let_def
proof (rule hoare_bindM [where Q = "\<lambda>r s. held L cfg i m s \<and>
    (rr_status r = RS_PASS \<longrightarrow> rr_asset_hypotheses r \<noteq> [] \<and> rr_evidence r \<noteq> [])"], goal_cases)
  case 1
  show ?case by (auto simp: hoare_def op_defs)
next
  case (2 r)
  show ?case by (rule hoare_pure) (simp add: assms)
qed

lemma success_finish:
  assumes "written_for L m st pl (message_of L e)" and "hands_on L m st" and "\<And>x. preserves (intact L cfg) (f x)"
    and "\<And>ns. next = Some ns \<Longrightarrow> hands_on L (message_of L e) ns"
  shows "hoare (held L cfg i m) (bindM (complete_job_success L l (Some e) au next p av ts) f) (\<lambda>_. intact L cfg) (\<lambda>_. intact L cfg)"
  by (rule finish_then [OF success_then [OF assms(1,2,4)] assms(3)])

lemmas custody_rules = read_then option_then fallback_then child_then success_finish

lemmas kept_rules = holding.stage_kept holding.rows_kept custody.stage_kept custody.rows_kept

lemma researcher_intact:
  assumes "hands_on L m RESEARCH"
  shows "hoare (held L cfg (lease_message_id l) m) (researcher_job L cfg l t) (\<lambda>_. intact L cfg) (\<lambda>_. intact L cfg)"
  unfolding researcher_job_def Let_def
  by (rule custody_rules assms | assumption | rule keep_then | rule kept_rules)+
    (auto simp: written_for_def split: if_splits)

lemma analyst_intact:
  assumes "hands_on L m ANALYSIS"
  shows "hoare (held L cfg (lease_message_id l) m) (analyst_job L fsqrt cfg market portfolio l t) (\<lambda>_. intact L cfg) (\<lambda>_. intact L cfg)"
  unfolding analyst_job_def analyze_hypothesis_def Let_def
  by (rule custody_rules assms | assumption | rule keep_then | rule kept_rules preserves_mapM)+
    (auto simp: written_for_def analysis_output_def Let_def split: if_splits)

lemma submit_intact:
  assumes "read_from L m parent" and "hands_on L m stage" and "stage \<in> {EXECUTION, APPROVAL}"
  shows "hoare (held L cfg i m) (submit_order L cfg br l parent intent cand checks t stage) (\<lambda>_. intact L cfg) (\<lambda>_. intact L cfg)"
  unfolding submit_order_def Let_def
  by (rule custody_rules assms | assumption | rule keep_then | rule kept_rules holding.executor_parts_kept custody.executor_parts_kept)+
    (use assms(3) in \<open>auto simp: written_for_def decision_default_def\<close>)

lemma rejected_intact:
  assumes "read_from L m parent" and "hands_on L m EXECUTION"
  shows "hoare (held L cfg i m) (finish_rejected L cfg l parent d t) (\<lambda>_. intact L cfg) (\<lambda>_. intact L cfg)"
  unfolding finish_rejected_def
  by (rule custody_rules assms | assumption | rule keep_then | rule kept_rules)+ auto

lemma request_intact:
  assumes "read_from L m parent" and "hands_on L m EXECUTION" and "list_all check_passed checks"
  shows "hoare (held L cfg i m) (request_approval L cfg l parent intent cand checks t) (\<lambda>_. intact L cfg) (\<lambda>_. intact L cfg)"
  unfolding request_approval_def Let_def
proof (rule child_then [OF assms(1)], rule keep_then, rule holding.rows_kept, goal_cases)
  case (1 preview x)
  obtain aid tok ex where x: "x = (aid, tok, ex)" by (cases x)
  define d where "d = (decision_default AWAITING_APPROVAL ''Execution passed risk checks and is awaiting manual approval.'')
      \<lparr>ed_selected_candidate_id := Some cand, ed_intent := Some intent, ed_risk_checks := checks, ed_approval_id := Some aid\<rparr>"
  from 1 have w: "written_for L m EXECUTION (dump_decision L d) (message_of L (preview\<lparr>env_payload := dump_decision L d\<rparr>))"
    by (simp add: written_for_def message_of_def)
  have d: "ed_status d = AWAITING_APPROVAL" "ed_intent d = Some intent" "ed_risk_checks d = checks"
    by (simp_all add: d_def decision_default_def)
  show ?case
    unfolding x prod.case d_def [symmetric]
    by (rule custody_rules w assms | assumption | rule keep_then | rule kept_rules)+
      (use w d assms(3) in \<open>auto simp: written_for_def\<close>)
qed

lemma cases_intact:
  "(b \<Longrightarrow> hoare P m Q E) \<Longrightarrow> (\<not> b \<Longrightarrow> hoare P n Q E) \<Longrightarrow> hoare P (if b then m else n) Q E"
  "(x = None \<Longrightarrow> hoare P m Q E) \<Longrightarrow> (\<And>y. x = Some y \<Longrightarrow> hoare P (f y) Q E) \<Longrightarrow> hoare P (case x of None \<Rightarrow> m | Some y \<Rightarrow> f y) Q E"
  by (auto split: option.split)

lemma execute_intact:
  assumes "hands_on L m EXECUTION"
  shows "hoare (held L cfg (lease_message_id l) m) (execute_job L cfg ctx br l t) (\<lambda>_. intact L cfg) (\<lambda>_. intact L cfg)"
  unfolding execute_job_def execute_candidate_def Let_def
  by (rule read_then option_then cases_intact rejected_intact request_intact submit_intact insertI1 assms | assumption | rule notnotD, assumption
    | rule keep_then | rule kept_rules holding.executor_parts_kept)+

lemma ended_intact:
  assumes "read_from L m parent" and "hands_on L m APPROVAL"
  shows "hoare (held L cfg i m) (approval_ended L l parent pl status) (\<lambda>_. intact L cfg) (\<lambda>_. intact L cfg)"
  unfolding approval_ended_def Let_def
  by (rule custody_rules assms | assumption | rule keep_then | rule kept_rules)+ auto

lemma approval_intact:
  assumes "hands_on L m APPROVAL"
  shows "hoare (held L cfg (lease_message_id l) m) (approval_job L cfg br l) (\<lambda>_. intact L cfg) (\<lambda>_. intact L cfg)"
  unfolding approval_job_def
  by (rule read_then option_then cases_intact held_kept [OF holding.approval_pending_kept] ended_intact submit_intact assms | assumption
    | rule keep_then | rule held_kept kept_rules holding.expire_if_due_kept)+ auto

lemma finish_ret: "hoare P op (\<lambda>_. intact L cfg) (\<lambda>_. intact L cfg) \<Longrightarrow>
   hoare P (bindM op (\<lambda>_. ret x)) (\<lambda>_. intact L cfg) (\<lambda>_. intact L cfg)"
  by (rule finish_then) (auto intro: preserves_ret)

lemma observe_intact:
  assumes "read_from L m parent" and "hands_on L m OUTCOME"
  shows "hoare (held L cfg i m) (outcome_observe L pp l parent intent now due) (\<lambda>_. intact L cfg) (\<lambda>_. intact L cfg)"
  unfolding outcome_observe_def observe_row_def earliest_def Let_def
  by (rule custody_rules finish_ret cases_intact success_then assms | assumption | rule keep_then | rule kept_rules
    | force simp: written_for_def)+

context pdb_rows
begin

lemma finish_without_output_kept: "kept (complete_job_success L l None au ns np na ts)"
  unfolding complete_job_success_def option.case
  by (intro preserves_bindM preserves_env preserves_tx preserves_modify_db preserves_ret release_job finish_run)
    (simp_all add: releases_def same_run_def succeeded_job_def)

end

lemma outcome_intact:
  assumes "hands_on L m OUTCOME"
  shows "hoare (held L cfg (lease_message_id l) m) (outcome_job L pp l) (\<lambda>_. intact L cfg) (\<lambda>_. intact L cfg)"
  unfolding outcome_job_def outcome_wait_def earliest_def Let_def
  by (rule read_then option_then observe_intact cases_intact assms | assumption | rule keep_then
    | rule held_kept kept_rules holding.finish_without_output_kept)+

lemma workers_intact:
  "preserves (intact L cfg) (researcher_process_next L cfg w)"
  "preserves (intact L cfg) (analyst_process_next L fsqrt cfg market portfolio w)"
  "preserves (intact L cfg) (executor_process_next L cfg ctx br w)"
  "preserves (intact L cfg) (approval_process_next L cfg br w)"
  "preserves (intact L cfg) (outcome_process_next L cfg pp w)"
  by (rule round_intact [OF researcher.stage_worker_axioms] round_intact [OF analyst.stage_worker_axioms]
      round_intact [OF executor.stage_worker_axioms] round_intact [OF approval.stage_worker_axioms]
      round_intact [OF outcome.stage_worker_axioms] preserves_env preserves_ret
      researcher_intact analyst_intact execute_intact approval_intact outcome_intact, assumption?)+

section \<open>The ingress\<close>

lemma ensure_trace_ids:
  assumes "custody L cfg (db s)" and "ensure_trace aid a b c st status s = (Inr t, s1)"
  shows "custody L cfg (db s1) \<and> (t, aid) \<in> trace_ids (db s1)"
proof
  show "custody L cfg (db s1)"
    by (rule preservesD [OF custody.ensure_trace_kept, OF assms])
  from ensure_trace_InrD [OF assms(2)] show "(t, aid) \<in> trace_ids (db s1)"
    by (auto simp: trace_ids_def trace_of_alert_def dest!: find_Some_in)
qed

definition root_envelope :: "lib \<Rightarrow> shift_alert_mirror \<Rightarrow> uuid \<Rightarrow> pipeline_envelope \<Rightarrow> bool" where
  "root_envelope L a t e \<longleftrightarrow> env_trace_id e = t \<and> env_stage e = INGEST \<and> env_parent_message_id e = None \<and>
     (\<exists>now src. env_payload e = dump_ingested L
        \<lparr>ing_shift_alert = a, ing_received_at = now, ing_signature_verified = True,
         ing_replay_source = src, ing_priority = 100\<rparr>)"

lemma upsert_root:
  assumes "accepted L cfg body headers = Some a" and "root_envelope L a t e"
  shows "hoare (\<lambda>s. custody L cfg (db s) \<and> (t, mirror_alert_id a) \<in> trace_ids (db s)) (upsert_message L e)
    (\<lambda>x s. custody L cfg (db s) \<and> (snd x \<longrightarrow> find_message (fst x) (db s) = Some (message_of L e))) (\<lambda>_. intact L cfg)"
proof (rule hoareI)
  fix s err s' assume "custody L cfg (db s) \<and> (t, mirror_alert_id a) \<in> trace_ids (db s)" "upsert_message L e s = (Inl err, s')"
  then show "intact L cfg s'" using tx_InlD [of "upsert_message_conn L e" s err s'] by (simp add: upsert_message_def)
next
  fix s x s'
  assume P: "custody L cfg (db s) \<and> (t, mirror_alert_id a) \<in> trace_ids (db s)" and u: "upsert_message L e s = (Inr x, s')"
  obtain mid ins where x: "x = (mid, ins)" by (cases x)
  note up = upsert_message_conn_InrD [OF conjunct2 [OF upsert_message_InrD [OF u [unfolded x]]]]
  let ?new = "(db s)\<lparr>stage_messages := stage_messages (db s) @ [message_of L e]\<rparr>"
  have "custody L cfg (db s') \<and> (ins \<longrightarrow> find_message mid (db s') = Some (message_of L e))"
  proof (cases "message_by_key (env_idempotency_key e) (db s)")
    case (Some r)
    with up P show ?thesis by simp
  next
    case None
    with up have new: "mid = env_message_id e" "find_message mid (db s) = None" "db s' = ?new" by auto
    have "(\<exists>body headers. accepted L cfg body headers = Some a)" using assms(1) by blast
    moreover have "\<exists>now src. env_payload e = dump_ingested L \<lparr>ing_shift_alert = a, ing_received_at = now,
        ing_signature_verified = True, ing_replay_source = src, ing_priority = 100\<rparr>"
      using assms(2) by (simp add: root_envelope_def)
    ultimately have "ingested_from L cfg ?new a (message_of L e)"
      using P assms(2) by (auto simp: ingested_from_def root_envelope_def trace_ids_def message_of_def) (rule exI, rule exI, rule refl)
    then have "custody L cfg ?new"
      by (intro custody_new_message conjunct1 [OF P] descends.delivered) auto
    with new show ?thesis by (simp add: find_message_snoc message_of_def)
  qed
  then show "custody L cfg (db s') \<and> (snd x \<longrightarrow> find_message (fst x) (db s') = Some (message_of L e))"
    by (simp add: x)
qed

lemma enqueue_intact:
  assumes "hands_on L m st"
  shows "hoare (held L cfg mid m) (enqueue_job t st mid p av) (\<lambda>_. intact L cfg) (\<lambda>_. intact L cfg)"
  unfolding enqueue_job_def
proof (rule hoare_tx)
  fix s s' x assume "holding L cfg mid m (db s)" "enqueue_job_conn t st mid p av s = (Inr x, s')"
  with assms show "custody L cfg (db s')"
    by (auto simp: holding_def Let_def queued_job_def intro!: custody_new_job dest!: enqueue_job_conn_InrD split: option.splits)
qed (simp add: holding_def)

lemma store_alert_intact:
  assumes acc: "accepted L cfg body headers = Some a"
  shows "hoare (intact L cfg) (store_alert L sv a src) (\<lambda>_. intact L cfg) (\<lambda>_. intact L cfg)"
  unfolding store_alert_def Let_def
proof (rule hoare_bindM [where Q = "\<lambda>t s. custody L cfg (db s) \<and> (t, mirror_alert_id a) \<in> trace_ids (db s)"], goal_cases)
  case 1
  show ?case
    by (rule hoareI) (auto dest: ensure_trace_ids preservesD [OF custody.ensure_trace_kept])
next
  case (2 t)
  let ?P = "\<lambda>s. custody L cfg (db s) \<and> (t, mirror_alert_id a) \<in> trace_ids (db s)"
  have envelope: "hoare ?P (new_envelope t aid None INGEST sv k (dump_ingested L
       \<lparr>ing_shift_alert = a, ing_received_at = now, ing_signature_verified = True, ing_replay_source = src, ing_priority = 100\<rparr>))
      (\<lambda>e s. ?P s \<and> root_envelope L a t e) (\<lambda>_. intact L cfg)" for aid k now
    by (auto simp: hoare_def new_envelope_def op_defs root_envelope_def)
  have queue: "hoare (\<lambda>s. custody L cfg (db s) \<and> (snd x \<longrightarrow> find_message (fst x) (db s) = Some (message_of L e)))
      (case x of (mid, ins) \<Rightarrow> bindM (if ins then bindM (enqueue_job t RESEARCH mid pr None) (\<lambda>_. ret ()) else ret ())
         (\<lambda>_. ret (resp mid ins))) (\<lambda>_. intact L cfg) (\<lambda>_. intact L cfg)"
    if "root_envelope L a t e" for x pr e and resp :: "uuid \<Rightarrow> bool \<Rightarrow> ingress_response"
  proof (cases x)
    case (Pair mid ins)
    have h: "hands_on L (message_of L e) RESEARCH" using that by (simp add: root_envelope_def message_of_def)
    show ?thesis
    proof (cases ins)
      case True
      then have "hoare (held L cfg mid (message_of L e)) (bindM (if ins then bindM (enqueue_job t RESEARCH mid pr None) (\<lambda>_. ret ()) else ret ())
         (\<lambda>_. ret (resp mid ins))) (\<lambda>_. intact L cfg) (\<lambda>_. intact L cfg)"
        by (auto intro!: finish_ret enqueue_intact h)
      with True Pair show ?thesis by (simp add: holding_def)
    next
      case False
      with Pair show ?thesis by (simp add: hoare_ret)
    qed
  qed
  show ?case
  proof (rule hoare_bindM [where Q = "\<lambda>_. ?P"], goal_cases)
    case 1
    show ?case by (simp add: hoare_def op_defs)
  next
    case (2 now)
    show ?case
      by (rule hoare_bindM [OF envelope], rule hoare_pure, rule hoare_bindM [OF upsert_root [OF acc]], assumption)
        (erule queue)
  qed
qed

lemma pipeline_step_intact:
  assumes "pipeline_step L cfg s s'" and "custody L cfg (db s)"
  shows "custody L cfg (db s')"
  using assms(1)
proof (cases rule: pipeline_step.cases)
  case (ingest ve sv body headers src)
  show ?thesis
  proof (cases "accepted L cfg body headers")
    case None
    then have "snd (handle_alert L ve cfg sv body headers src s) = s"
      by (auto simp: accepted_def handle_alert_def error_response_def ret_def Let_def split: if_splits option.splits)
    with ingest assms(2) show ?thesis by simp
  next
    case (Some a)
    from hoare_fst_snd [OF store_alert_intact [OF Some] assms(2) prod.collapse [symmetric]] ingest show ?thesis
      by (simp add: handle_alert_accepted [OF Some])
  qed
next
  case (decide status token who why)
  with custody.decide_with_kept assms(2) show ?thesis by (auto simp: preserves_def)
qed (use workers_intact assms(2) in \<open>auto simp: preserves_def\<close>)

lemma pipeline_run_intact: "(pipeline_step L cfg)\<^sup>*\<^sup>* s s' \<Longrightarrow> custody L cfg (db s) \<Longrightarrow> custody L cfg (db s')"
  by (induction rule: rtranclp_induct) (auto intro: pipeline_step_intact)

lemma empty_custody: "custody L cfg empty_pdb"
  by (simp add: custody_def empty_pdb_def)

text \<open>
  C15 (invariant): no message without its origin, no job without its warrant. Whatever the deliveries,
  rounds and decisions from an empty database on, every message descends from an alert that the
  ingress accepted, on that alert's trace and one permitted stage at a time, and every job was
  queued for a stored message whose content permits the job's stage: a research job for an ingested
  alert, an analysis job for a report that passed with evidence and hypotheses, an execution job for
  a report whose candidates passed every filter, an approval job for a decision with an intent and
  passed risk checks, an outcome job for a submitted order or an earlier outcome round.
\<close>

theorem pipeline_custody:
  assumes "(pipeline_step L cfg)\<^sup>*\<^sup>* s s'" and "db s = empty_pdb"
  shows "custody L cfg (db s')"
  by (rule pipeline_run_intact [OF assms(1)]) (simp add: assms(2) empty_custody)

section \<open>Orders\<close>

text \<open>The chain that a message in custody hangs on, read off stage by stage.\<close>

lemma descends_stage:
  assumes "descends L cfg d a m" and "msg_stage m \<noteq> INGEST"
  shows "\<exists>p. descends L cfg d a p \<and> follows L p m"
  using assms by (cases rule: descends.cases) (auto simp: ingested_from_def)

lemma descends_in: "descends L cfg d a m \<Longrightarrow> m \<in> set (stage_messages d)"
  by (cases rule: descends.cases) auto

lemma descends_ingest:
  assumes "descends L cfg d a m" and "msg_stage m = INGEST"
  shows "ingested_from L cfg d a m"
  using assms by (cases rule: descends.cases) (auto simp: follows_def)

definition analysed_from :: "lib \<Rightarrow> pipeline_config \<Rightarrow> pdb \<Rightarrow> shift_alert_mirror \<Rightarrow> message_row \<Rightarrow> bool" where
  "analysed_from L cfg d a m \<longleftrightarrow> m \<in> set (stage_messages d) \<and> hands_on L m EXECUTION \<and>
     (\<exists>research\<in>set (stage_messages d). \<exists>alert\<in>set (stage_messages d).
        ingested_from L cfg d a alert \<and> follows L alert research \<and> follows L research m)"

lemma descends_analysed:
  assumes "descends L cfg d a m" and "hands_on L m EXECUTION"
  shows "analysed_from L cfg d a m"
proof -
  from descends_stage [OF assms(1)] assms(2) obtain r where r: "descends L cfg d a r" "follows L r m" by auto
  with assms(2) have "msg_stage r = RESEARCH" by (auto simp: follows_def)
  with descends_stage [OF r(1)] obtain i where i: "descends L cfg d a i" "follows L i r" by auto
  with \<open>msg_stage r = RESEARCH\<close> have "ingested_from L cfg d a i" by (auto simp: follows_def intro: descends_ingest)
  with assms r i show ?thesis unfolding analysed_from_def by (auto dest: descends_in)
qed

lemma handed_over_custody:
  assumes "custody L cfg (db t)" and "handed_over st t m"
  shows "hands_on L m st \<and> (\<exists>a. descends L cfg (db t) a m)"
proof -
  from assms(2) obtain j where j: "j \<in> set (stage_jobs (db t))" "job_stage j = st" "find_message (job_message_id j) (db t) = Some m"
    by (auto simp: handed_over_def)
  then have "m \<in> set (stage_messages (db t))" by (auto simp: find_message_def dest: find_Some_in)
  with j assms(1) show ?thesis by (auto simp: custody_def)
qed


section \<open>Evaluated examples\<close>

definition custody_lib :: lib where
  "custody_lib = approved_lib\<lparr>validate_mirror_json := (\<lambda>_. Some demo_mirror)\<rparr>"

definition chain_messages :: "message_row list" where
  "chain_messages =
     [demo_message\<lparr>msg_message_id := ''a'', msg_idempotency_key := ''ka''\<rparr>,
      demo_message\<lparr>msg_message_id := ''r'', msg_idempotency_key := ''kr'', msg_stage := RESEARCH, msg_parent_message_id := Some ''a''\<rparr>,
      demo_message\<lparr>msg_message_id := ''n'', msg_idempotency_key := ''kn'', msg_stage := ANALYSIS, msg_parent_message_id := Some ''r''\<rparr>,
      demo_message\<lparr>msg_stage := EXECUTION, msg_parent_message_id := Some ''n''\<rparr>]"

definition chain_db :: pdb where
  "chain_db = approved_db\<lparr>stage_messages := chain_messages\<rparr>"

lemma demo_report_hands_on:
  "hands_on custody_lib (chain_messages ! 1) ANALYSIS"
proof -
  have "rr_status demo_report = RS_PASS" "rr_asset_hypotheses demo_report \<noteq> []" "rr_evidence demo_report \<noteq> []"
    by (simp_all add: demo_report_def)
  moreover have "msg_stage (chain_messages ! 1) = RESEARCH" "msg_payload_jsonb (chain_messages ! 1) = json_dumps custody_lib v" for v
    by (simp_all add: chain_messages_def demo_message_def custody_lib_def approved_lib_def demo_lib_def)
  ultimately show ?thesis by auto
qed

lemma demo_analysis_hands_on:
  "hands_on custody_lib (chain_messages ! 2) EXECUTION"
proof -
  have "ar_status demo_analysis_report = AS_PASS" "ar_candidates demo_analysis_report \<noteq> []"
    "\<forall>c\<in>set (ar_candidates demo_analysis_report). list_all filter_passed (filters c)"
    using demo_candidate_passes by (simp_all add: demo_report_simps)
  moreover have "msg_stage (chain_messages ! 2) = ANALYSIS" "msg_payload_jsonb (chain_messages ! 2) = json_dumps custody_lib v" for v
    by (simp_all add: chain_messages_def demo_message_def custody_lib_def approved_lib_def demo_lib_def)
  ultimately show ?thesis by auto
qed

lemma demo_decision_hands_on:
  "hands_on custody_lib (chain_messages ! 3) APPROVAL"
proof -
  let ?d = "demo_decision\<lparr>ed_status := AWAITING_APPROVAL\<rparr>"
  have "ed_status ?d = AWAITING_APPROVAL" "ed_intent ?d \<noteq> None" "list_all check_passed (ed_risk_checks ?d)"
    by (simp_all add: demo_decision_def)
  moreover have "msg_stage (chain_messages ! 3) = EXECUTION" "msg_payload_jsonb (chain_messages ! 3) = json_dumps custody_lib v" for v
    by (simp_all add: chain_messages_def demo_message_def custody_lib_def approved_lib_def demo_lib_def)
  ultimately show ?thesis by (auto intro!: exI [of _ ?d])
qed

lemma chain_custody: "custody custody_lib demo_config chain_db"
proof -
  have len: "length chain_messages = 4" by (simp add: chain_messages_def)
  have mem: "chain_messages ! i \<in> set (stage_messages chain_db)" if "i < 4" for i
    using that len by (simp add: chain_db_def)
  have "accepted custody_lib demo_config ''{}'' [] = Some demo_mirror"
    by (simp add: accepted_def custody_lib_def approved_lib_def demo_defs authorize_def verify_signature_def lower_headers_def
        header_or_empty_def)
  then have "ingested_from custody_lib demo_config chain_db demo_mirror (chain_messages ! 0)"
    unfolding ingested_from_def
    by (auto simp: chain_messages_def chain_db_def trace_ids_def approved_db_def demo_defs demo_mirror_def custody_lib_def approved_lib_def)
  then have d0: "descends custody_lib demo_config chain_db demo_mirror (chain_messages ! 0)"
    using mem [of 0] by (intro delivered) auto
  have "follows custody_lib (chain_messages ! 0) (chain_messages ! 1)"
    by (simp add: follows_def chain_messages_def demo_message_def)
  with d0 mem [of 1] have d1: "descends custody_lib demo_config chain_db demo_mirror (chain_messages ! 1)"
    by (auto intro: handed)
  have "follows custody_lib (chain_messages ! 1) (chain_messages ! 2)"
    using demo_report_hands_on by (simp add: follows_def chain_messages_def demo_message_def)
  with d1 mem [of 2] have d2: "descends custody_lib demo_config chain_db demo_mirror (chain_messages ! 2)"
    by (auto intro: handed)
  have "follows custody_lib (chain_messages ! 2) (chain_messages ! 3)"
    using demo_analysis_hands_on by (simp add: follows_def chain_messages_def demo_message_def)
  with d2 mem [of 3] have d3: "descends custody_lib demo_config chain_db demo_mirror (chain_messages ! 3)"
    by (auto intro: handed)
  have all: "stage_messages chain_db = [chain_messages ! 0, chain_messages ! 1, chain_messages ! 2, chain_messages ! 3]"
    by (simp add: chain_db_def chain_messages_def)
  have "find_message ''m1'' chain_db = Some (chain_messages ! 3)" "stage_jobs chain_db = [demo_job APPROVAL]"
    by (simp_all add: find_message_def chain_db_def chain_messages_def demo_defs approved_db_def)
  moreover have "job_message_id (demo_job APPROVAL) = ''m1''" "job_stage (demo_job APPROVAL) = APPROVAL" by (simp_all add: demo_job_def)
  ultimately show ?thesis
    using d0 d1 d2 d3 demo_decision_hands_on unfolding custody_def all by auto
qed

lemma chain_round:
  "broker_calls (snd (approval_process_next custody_lib demo_config (paper_broker_client custody_lib) ''w'' (demo_world chain_db))) =
     [(demo_intent, build_stable_order_id custody_lib ''t1'' ''c1'' ''v1'')]"
proof -
  let ?p = "envelope_of (chain_messages ! 3) demo_trace (JDict [(''intent'', JStr ''i'')])" and ?s = "demo_world chain_db"
  let ?a = "demo_approval\<lparr>ap_status := ''approved''\<rparr>"
  have "due_job custody_lib APPROVAL (demo_job APPROVAL) ?p ?s"
    by (simp add: due_job_def reads_def next_ready_def ready_def custody_lib_def approved_lib_def chain_db_def chain_messages_def
        approved_db_def demo_defs find_message_def find_trace_def minutes_def seconds_def)
  moreover have "env_payload ?p = JDict [(''intent'', JStr ''i'')]" "validate_intent custody_lib (JStr ''i'') = Some demo_intent"
    "approval_by_message (job_message_id (demo_job APPROVAL)) (db ?s) = Some ?a" "ap_status ?a = ''approved''"
    "order_by_client_id c (db ?s) = None" for c
    by (simp_all add: envelope_of_def custody_lib_def approved_lib_def chain_db_def approved_db_def demo_defs approval_by_message_def
        demo_approval_def order_by_client_id_def)
  ultimately show ?thesis
    using approved_job_sends [where cfg = demo_config and br = "paper_broker_client custody_lib" and w = "''w''"]
    by (simp add: order_id_of_def envelope_of_def demo_defs chain_messages_def)
qed


theorem pipeline_custody_witness:
  "custody ingress_lib demo_config (db (snd (handle_alert ingress_lib (\<lambda>_. JNull) demo_config ''v1'' ''{}'' [] None (demo_world empty_pdb))))"
proof (rule pipeline_custody)
  show "(pipeline_step ingress_lib demo_config)\<^sup>*\<^sup>* (demo_world empty_pdb)
      (snd (handle_alert ingress_lib (\<lambda>_. JNull) demo_config ''v1'' ''{}'' [] None (demo_world empty_pdb)))"
    by (intro r_into_rtranclp ingest)
qed (simp add: demo_world_def)

end
