(* ===== verification/Handover.thy ===== *)
theory Handover
  imports Round_Evaluation
begin

text \<open>
  What a stage leaves for the next one: the identifiers drawn later are still new, and the job it
  queued is due and reads its output back.
\<close>

section \<open>Fresh identifiers after a round\<close>

lemma update_run_image:
  assumes "same_run g"
  shows "run_id ` set (stage_runs (update_run rid g d)) = run_id ` set (stage_runs d)"
proof -
  have "map run_id (stage_runs (update_run rid g d)) = map run_id (stage_runs d)"
    using assms by (simp add: update_run_def same_run_def)
  from arg_cong [OF this, of set] show ?thesis by (simp only: set_map)
qed

lemma used_ids_finished:
  assumes "same_run g"
  shows "used_ids (db (finished_world L l e next p av ts g s)) =
    insert (env_message_id e) (job_id ` set (queued_after e next p av s) \<union> used_ids (db s))"
proof -
  let ?fw = "finished_world L l e next p av ts g s"
  have keep: "h ` set (stage_jobs (db ?fw)) = h ` set (stage_jobs (db s)) \<union> h ` set (queued_after e next p av s)"
    if "\<And>x t. h (succeeded_job t x) = h x" for h :: "job_row \<Rightarrow> uuid"
  proof -
    have "map h (stage_jobs (db ?fw)) = map h (stage_jobs (db s) @ queued_after e next p av s)"
      using that by (simp add: finished_world_simps)
    from arg_cong [OF this, of set] show ?thesis by (simp only: set_map set_append image_Un)
  qed
  have "job_id ` set (stage_jobs (db ?fw)) = job_id ` set (stage_jobs (db s)) \<union> job_id ` set (queued_after e next p av s)"
    "job_message_id ` set (stage_jobs (db ?fw)) = job_message_id ` set (stage_jobs (db s)) \<union> job_message_id ` set (queued_after e next p av s)"
    by (rule keep, simp add: succeeded_job_def)+
  moreover have "job_message_id ` set (queued_after e next p av s) \<subseteq> {env_message_id e}"
    by (auto simp: queued_after_def Let_def queued_job_def split: option.splits)
  moreover have "run_id ` set (stage_runs (db ?fw)) = run_id ` set (stage_runs (db s))"
    by (simp add: finished_world_def output_world_def Let_def update_run_image [OF assms] split: option.split)
  moreover have "msg_message_id ` set (stage_messages (db ?fw)) = insert (env_message_id e) (msg_message_id ` set (stage_messages (db s)))"
    by (simp add: finished_world_simps message_of_def)
  ultimately show ?thesis
    unfolding used_ids_def finished_world_simps(9,10) by auto
qed

lemma fresh_finished:
  assumes "same_run g" and "fresh_ids s" and "env_message_id e = uuid_source s k" and "k < uuid_draws s"
  shows "fresh_ids (finished_world L l e next p av ts g s)"
proof -
  let ?fw = "finished_world L l e next p av ts g s"
  have inj: "inj (uuid_source s)" using assms(2) by (simp add: fresh_ids_def)
  have "uuid_source s i \<notin> used_ids (db ?fw)" if "uuid_draws ?fw \<le> i" for i
  proof -
    from that have i: "uuid_draws s + length (queued_after e next p av s) \<le> i" by (simp add: finished_world_simps)
    then have "uuid_source s i \<noteq> env_message_id e" using assms(3,4) injD [OF inj, of i k] by auto
    moreover have "uuid_source s i \<notin> job_id ` set (queued_after e next p av s)"
      using i injD [OF inj, of i "uuid_draws s"] by (auto simp: queued_after_def Let_def queued_job_def split: option.splits)
    moreover have "uuid_source s i \<notin> used_ids (db s)" using assms(2) i by (simp add: fresh_ids_def)
    ultimately show ?thesis unfolding used_ids_finished [OF assms(1)] by blast
  qed
  with inj show ?thesis by (simp add: fresh_ids_def finished_world_simps)
qed

section \<open>From one stage's output to the next stage's job\<close>

lemma find_trace_known: "find_trace i d \<noteq> None \<longleftrightarrow> i \<in> set (map tr_trace_id (pipeline_traces d))"
  by (auto simp: find_trace_def find_None_all)

lemma finished_world_traces:
  "map tr_trace_id (pipeline_traces (db (finished_world L l e next p av ts g s))) = map tr_trace_id (pipeline_traces (db s))"
  using arg_cong [OF finished_world_simps(13) [of L l e "next" p av ts g s], of "map fst"] by (simp add: o_def)

text \<open>The next stage's job is due as soon as the output is stored, and reads the output back.\<close>

lemma queued_due:
  assumes s: "conn_open s" "find_message (env_message_id e) (db s) = None" "find_trace (env_trace_id e) (db s) = Some t"
    and none: "\<forall>x\<in>set (stage_jobs (db s)). job_stage x \<noteq> st"
    and fresh: "\<forall>x\<in>set (stage_jobs (db s)). job_id x \<noteq> uuid_source s (uuid_draws s)"
    and l: "\<exists>x\<in>set (stage_jobs (db s)). job_id x = lease_job_id l"
    and runs: "fresh_ids (finished_world L l e (Some st) pr None ts g s)"
    and clock: "clock s (Suc (clock_reads s)) \<le> clock s (Suc (Suc (clock_reads s)))"
    and json: "json_loads L (json_dumps L (env_payload e)) = Some v"
  shows "\<exists>j p. queued_after e (Some st) pr None s = [j] \<and> due_job L st j p (finished_world L l e (Some st) pr None ts g s) \<and>
    env_payload p = v \<and> env_message_id p = env_message_id e \<and> env_trace_id p = env_trace_id e \<and>
    (\<forall>x\<in>set (stage_jobs (db (finished_world L l e (Some st) pr None ts g s))). job_stage x = st \<longrightarrow> x = j)"
proof -
  let ?fw = "finished_world L l e (Some st) pr None ts g s"
  define j where "j = queued_job (uuid_source s (uuid_draws s)) (env_trace_id e) st (env_message_id e) pr
      (clock s (Suc (clock_reads s))) (clock s (Suc (clock_reads s)))"
  have q: "queued_after e (Some st) pr None s = [j]" by (simp add: queued_after_def j_def Let_def)
  have jf: "job_id j \<noteq> lease_job_id l" using fresh l by (auto simp: j_def queued_job_def)
  have jobs: "stage_jobs (db ?fw) = map (\<lambda>x. if job_id x = lease_job_id l then succeeded_job (clock s (clock_reads s)) x else x) (stage_jobs (db s)) @ [j]"
    using jf by (simp add: finished_world_simps q)
  have "ready st t j" if "clock s (Suc (clock_reads s)) \<le> t" for t using that by (simp add: ready_def j_def queued_job_def)
  moreover have "filter (ready st t) (map (\<lambda>x. if job_id x = lease_job_id l then succeeded_job u x else x) (stage_jobs (db s))) = []" for t u
    using none by (auto simp: filter_empty_conv ready_def succeeded_job_def)
  ultimately have "next_ready st (clock ?fw (clock_reads ?fw)) (db ?fw) = Some j"
    using clock by (simp add: next_ready_def jobs) (simp add: finished_world_simps q)
  moreover have "find_trace (env_trace_id e) (db ?fw) \<noteq> None"
    using s(3) unfolding find_trace_known finished_world_traces by (metis find_trace_known option.distinct(1))
  then obtain t' where "find_trace (env_trace_id e) (db ?fw) = Some t'" by blast
  moreover have "find_message (env_message_id e) (db ?fw) = Some (message_of L e)"
    using s(2) by (simp add: find_message_def finished_world_simps find_append message_of_def)
  ultimately have due: "due_job L st j (envelope_of (message_of L e) t' v) ?fw"
    using s(1) json fresh_idsD(4) [OF runs order_refl]
    by (auto simp: due_job_def reads_def finished_world_simps(3) message_of_def j_def queued_job_def)
  have only: "\<forall>x\<in>set (stage_jobs (db ?fw)). job_stage x = st \<longrightarrow> x = j"
    using none by (auto simp: jobs succeeded_job_def)
  have "env_payload (envelope_of (message_of L e) t' v) = v"
    "env_message_id (envelope_of (message_of L e) t' v) = env_message_id e"
    "env_trace_id (envelope_of (message_of L e) t' v) = env_trace_id e"
    by (simp_all add: envelope_of_def message_of_def)
  with q due only show ?thesis by blast
qed

text \<open>
  The same for a round that leased the job itself: the output it stores under an identifier it drew
  leaves the identifiers fresh, one more message and one more job, which is due.
\<close>

lemma finished_hands_over:
  fixes pr :: int and ts :: string
  assumes due: "due_job L st0 j p s" and fresh: "fresh_ids s" "fresh_ids s1" and g: "same_run g"
    and s1: "conn_open s1 = conn_open s" "uuid_source s1 = uuid_source s" "clock s1 = clock s" "stage_messages (db s1) = stage_messages (db s)"
      "pipeline_traces (db s1) = pipeline_traces (db s)" "stage_jobs (db s1) = stage_jobs (db (leased_world w n j s))"
    and e: "env_message_id e = uuid_source s k" "uuid_draws s \<le> k" "k < uuid_draws s1" "env_trace_id e = env_trace_id p"
    and none: "\<forall>x\<in>set (stage_jobs (db s)). job_stage x \<noteq> st" and clock: "\<And>i. clock s i \<le> clock s (Suc i)"
    and json: "json_loads L (json_dumps L (env_payload e)) = Some v"
  defines "fw \<equiv> finished_world L (run_lease j s) e (Some st) pr None ts g s1"
  shows "\<exists>j' p'. due_job L st j' p' fw \<and> env_payload p' = v \<and> env_trace_id p' = env_trace_id p \<and> fresh_ids fw \<and>
    map msg_idempotency_key (stage_messages (db fw)) = map msg_idempotency_key (stage_messages (db s)) @ [env_idempotency_key e] \<and>
    map job_stage (stage_jobs (db fw)) = map job_stage (stage_jobs (db s)) @ [st]"
proof -
  have ff: "fresh_ids fw" unfolding fw_def by (rule fresh_finished [OF g fresh(2), of e k]) (simp_all add: e s1)
  have jobs: "map job_stage (stage_jobs (db s1)) = map job_stage (stage_jobs (db s))" "map job_id (stage_jobs (db s1)) = map job_id (stage_jobs (db s))"
    unfolding s1 by (simp_all add: leased_world_def Let_def update_job_def lease_update_def)
  obtain t where "find_trace (env_trace_id e) (db s1) = Some t" using due by (auto simp: due_job_def reads_def envelope_of_def find_trace_def s1 e)
  moreover have "find_message (env_message_id e) (db s1) = None"
    using fresh_idsD(1) [OF fresh(1) e(2)] by (auto simp: find_message_def find_None_all e s1)
  moreover have "st \<notin> set (map job_stage (stage_jobs (db s1)))" unfolding jobs(1) using none by auto
  then have "\<forall>x\<in>set (stage_jobs (db s1)). job_stage x \<noteq> st" by (metis imageI set_map)
  moreover have "\<forall>x\<in>set (stage_jobs (db s1)). job_id x \<noteq> uuid_source s1 (uuid_draws s1)" using fresh_idsD(2) [OF fresh(2) order_refl] by blast
  moreover have "lease_job_id (run_lease j s) \<in> set (map job_id (stage_jobs (db s1)))"
    unfolding jobs(2) using due_job_in [OF due] by (simp add: lease_of_def)
  then have "\<exists>x\<in>set (stage_jobs (db s1)). job_id x = lease_job_id (run_lease j s)" by (metis imageE set_map)
  moreover have "conn_open s1" using due by (simp add: s1 due_job_def)
  moreover have "clock s1 (Suc (clock_reads s1)) \<le> clock s1 (Suc (Suc (clock_reads s1)))" using clock by (simp add: s1)
  ultimately obtain j' p' where q: "queued_after e (Some st) pr None s1 = [j']" "due_job L st j' p' fw" "env_payload p' = v" "env_trace_id p' = env_trace_id e"
    using queued_due [of s1 e t st "run_lease j s" L pr ts g] ff json unfolding fw_def by blast
  have "map job_stage (stage_jobs (db fw)) = map job_stage (stage_jobs (db s1)) @ [st]"
    using due_job_in [OF q(2)] unfolding fw_def by (simp add: finished_world_simps q(1) o_def if_distrib succeeded_job_def cong: if_cong)
  moreover have "map msg_idempotency_key (stage_messages (db fw)) = map msg_idempotency_key (stage_messages (db s)) @ [env_idempotency_key e]"
    unfolding fw_def by (simp add: finished_world_simps s1 message_of_def)
  ultimately show ?thesis using q(2-4) ff e(4) jobs(1) by auto
qed

text \<open>A due job that is the only one of its stage stays due while time passes.\<close>

lemma due_job_later:
  assumes "due_job L st j p s" and "\<forall>x\<in>set (stage_jobs (db s)). job_stage x = st \<longrightarrow> x = j"
    and "conn_open s'" and "clock s (clock_reads s) \<le> clock s' (clock_reads s')"
    and "stage_jobs (db s') = stage_jobs (db s)" "stage_messages (db s') = stage_messages (db s)"
      "pipeline_traces (db s') = pipeline_traces (db s)" "stage_runs (db s') = stage_runs (db s)"
      "uuid_source s' = uuid_source s" "uuid_draws s' = uuid_draws s"
  shows "due_job L st j p s'"
proof -
  have j: "j \<in> set (stage_jobs (db s))" "ready st (clock s (clock_reads s)) j"
    using assms(1) by (auto simp: due_job_def next_ready_def dest!: first_min_in)
  then have "ready st (clock s' (clock_reads s')) j" using assms(4) by (simp add: ready_def)
  with j(1) have "filter (ready st (clock s' (clock_reads s'))) (stage_jobs (db s)) \<noteq> []" by (auto simp: filter_empty_conv)
  then have "next_ready st (clock s' (clock_reads s')) (db s') \<noteq> None" unfolding next_ready_def assms(5) by simp
  then obtain x where x: "next_ready st (clock s' (clock_reads s')) (db s') = Some x" by blast
  then have "x \<in> set (stage_jobs (db s))" "job_stage x = st"
    by (auto simp: next_ready_def assms(5) ready_def dest!: first_min_in)
  with assms(2) x have "next_ready st (clock s' (clock_reads s')) (db s') = Some j" by blast
  with assms show ?thesis by (simp add: due_job_def reads_def find_message_def find_trace_def)
qed

end
