(* ===== verification/Model_Codecs.thy ===== *)
theory Model_Codecs
  imports Researcher "HOL-Library.Countable"
begin

text \<open>
  What the stages rely on when they hand a model over: it survives being dumped, written as JSON,
  read and validated again. The models are countable, so there is a library for which this holds.
\<close>

section \<open>Countable models\<close>

instance json :: countable by countable_datatype

instance research_status :: countable by countable_datatype

instance catalyst_type :: countable by countable_datatype

instance instrument_type :: countable by countable_datatype

instance direction :: countable by countable_datatype

instance horizon :: countable by countable_datatype

instance source_tier :: countable by countable_datatype

instance linkage_type :: countable by countable_datatype

instance confidence :: countable by countable_datatype

instance analysis_status :: countable by countable_datatype

instance trade_side :: countable by countable_datatype

instance thesis_horizon :: countable by countable_datatype

instance signal_quality_model_ext :: (countable) countable
  by (rule countable_classI [of "\<lambda>r. to_nat (sqm_signal_source r, sqm_best_bid r, sqm_best_ask r, sqm_spread r, sqm_quote_age_sec r, sqm_liquidity_bucket r, sqm_confidence r, signal_quality_model.more r)"]) simp

instance shift_summary_model_ext :: (countable) countable
  by (rule countable_classI [of "\<lambda>r. to_nat (ssm_direction r, ssm_delta_pct r, ssm_signed_delta_pct r, ssm_price_start r, ssm_price_end r, ssm_price_current r, ssm_window_sec r, ssm_ticks_in_window r, shift_summary_model.more r)"]) simp

instance before_state_window_model_ext :: (countable) countable
  by (rule countable_classI [of "\<lambda>r. to_nat (bwm_window_sec r, bwm_price_start r, bwm_price_end r, bwm_net_delta_pct r, bwm_high r, bwm_low r, bwm_range_pct r, bwm_position_in_range r, bwm_tick_count r, bwm_avg_spread r, before_state_window_model.more r)"]) simp

instance before_state_activity_model_ext :: (countable) countable
  by (rule countable_classI [of "\<lambda>r. to_nat (bam_last_5m_tick_count r, bam_prior_30m_avg_5m_tick_count r, bam_tick_activity_ratio r, bam_last_5m_avg_spread r, bam_prior_30m_avg_spread r, bam_spread_change_pct r, before_state_activity_model.more r)"]) simp

instance before_state_model_ext :: (countable) countable
  by (rule countable_classI [of "\<lambda>r. to_nat (bsm_lookback_30m r, bsm_lookback_60m r, bsm_activity r, bsm_regime_label r, before_state_model.more r)"]) simp

instance shift_alert_mirror_ext :: (countable) countable
  by (rule countable_classI [of "\<lambda>r. to_nat (mirror_alert_id r, mirror_alert_level r, mirror_alert_level_label r, mirror_timestamp_iso r, mirror_timestamp_ms r, mirror_market r, mirror_shift r, mirror_signal_quality r, mirror_before_state r, mirror_metadata r, shift_alert_mirror.more r)"]) simp

instance ingested_alert_ext :: (countable) countable
  by (rule countable_classI [of "\<lambda>r. to_nat (ing_shift_alert r, ing_received_at r, ing_signature_verified r, ing_replay_source r, ing_priority r, ingested_alert.more r)"]) simp

instance evidence_item_ext :: (countable) countable
  by (rule countable_classI [of "\<lambda>r. to_nat (ev_url r, ev_title r, ev_publisher r, ev_published_at r, ev_retrieved_at r, ev_source_tier r, ev_relevance_score r, ev_claim_tag r, evidence_item.more r)"]) simp

instance asset_hypothesis_ext :: (countable) countable
  by (rule countable_classI [of "\<lambda>r. to_nat (hyp_symbol r, hyp_instrument_type r, hyp_direction r, hyp_horizon r, hyp_linkage_type r, hyp_confidence r, hyp_tradable_universe r, hyp_rationale_summary r, asset_hypothesis.more r)"]) simp

instance research_report_ext :: (countable) countable
  by (rule countable_classI [of "\<lambda>r. to_nat (rr_status r, rr_catalyst_type r, rr_catalyst_summary r, rr_catalyst_started_at r, rr_freshness_sec r, rr_evidence r, rr_asset_hypotheses r, rr_unsupported_claims r, rr_stage_summary r, research_report.more r)"]) simp

instance filter_result_ext :: (countable) countable
  by (rule countable_classI [of "\<lambda>r. to_nat (filter_name r, filter_passed r, filter_value r, filter_reason r, filter_result.more r)"]) simp

instance trade_candidate_ext :: (countable) countable
  by (rule countable_classI [of "\<lambda>r. to_nat (candidate_id r, cand_symbol r, cand_side r, cand_thesis_horizon r, broker_eligible r, market_snapshot r, features r, filters r, score r, max_notional r, stop_loss_pct r, expiry_at r, trade_candidate.more r)"]) simp

instance analysis_report_ext :: (countable) countable
  by (rule countable_classI [of "\<lambda>r. to_nat (ar_status r, ar_candidates r, ar_rejected_candidates r, ar_portfolio_snapshot_id r, ar_stage_summary r, analysis_report.more r)"]) simp

instance order_type :: countable by countable_datatype

instance time_in_force :: countable by countable_datatype

instance trade_intent_ext :: (countable) countable
  by (rule countable_classI [of "\<lambda>r. to_nat (intent_candidate_id r, intent_symbol r, intent_side r, intent_order_type r, intent_tif r, intent_max_notional r, intent_limit_price r, intent_stop_loss_pct r, intent_max_slippage_bps r, intent_thesis_horizon r, trade_intent.more r)"]) simp

section \<open>Reading a dumped model back\<close>

definition read_back :: "lib \<Rightarrow> ('a \<Rightarrow> json) \<Rightarrow> (json \<Rightarrow> 'a option) \<Rightarrow> bool" where
  "read_back L dump validate \<longleftrightarrow>
     (\<forall>x. case json_loads L (json_dumps L (dump x)) of None \<Rightarrow> False | Some v \<Rightarrow> validate v = Some x)"

lemma read_backD:
  assumes "read_back L dump validate"
  obtains v where "json_loads L (json_dumps L (dump x)) = Some v" "validate v = Some x"
  using assms by (force simp: read_back_def split: option.splits dest: spec [of _ x])

definition chain_mirror :: shift_alert_mirror where
  "chain_mirror = demo_mirror\<lparr>mirror_market := [(''polymarket_url'', JStr ''https://polymarket.com/e'')],
     mirror_metadata := [(''asset_hypotheses'', JList [JDict [(''symbol'', JStr ''xle'')]])]\<rparr>"

definition number_json :: "'a :: countable \<Rightarrow> json" where
  "number_json x = JInt (int (to_nat x))"

definition json_number :: "json \<Rightarrow> 'a :: countable option" where
  "json_number v = (case v of JInt n \<Rightarrow> Some (from_nat (nat n)) | _ \<Rightarrow> None)"

definition lossless_lib :: lib where
  "lossless_lib = demo_lib\<lparr>json_dumps := (\<lambda>v. replicate (to_nat v) CHR ''1''), json_loads := (\<lambda>t. Some (from_nat (length t))),
     dump_ingested := number_json, validate_ingested := json_number, dump_research := number_json, validate_research := json_number,
     dump_analysis := number_json, validate_analysis := json_number, validate_mirror_json := (\<lambda>_. Some chain_mirror)\<rparr>"

lemma lossless_models:
  "read_back lossless_lib (dump_ingested lossless_lib) (validate_ingested lossless_lib)"
  "read_back lossless_lib (dump_research lossless_lib) (validate_research lossless_lib)"
  "read_back lossless_lib (dump_analysis lossless_lib) (validate_analysis lossless_lib)"
  by (simp_all add: read_back_def lossless_lib_def number_json_def json_number_def)

end
