(* ===== verification/Researcher_Round.thy ===== *)
theory Researcher_Round
  imports Round_Evaluation
begin

text \<open>
  A whole round of the researcher, from the lease to the saved evidence, on a database whose next
  research job can be read.
\<close>

section \<open>The researcher\<close>

text \<open>Evidence rows for the items, under the identifiers drawn next.\<close>

definition evidence_rows :: "uuid \<Rightarrow> evidence_item list \<Rightarrow> world \<Rightarrow> evidence_row list" where
  "evidence_rows mid items s =
     map (\<lambda>(k, item). \<lparr>er_evidence_id = uuid_source s (uuid_draws s + k), er_message_id = mid, er_item = item\<rparr>)
       (enumerate 0 items)"

definition evidence_world :: "uuid \<Rightarrow> evidence_item list \<Rightarrow> world \<Rightarrow> world" where
  "evidence_world mid items s = s\<lparr>uuid_draws := uuid_draws s + length items,
     db := (db s)\<lparr>research_evidence := research_evidence (db s) @ evidence_rows mid items s\<rparr>\<rparr>"

lemma evidence_world_Nil: "evidence_world mid [] s = s"
  by (simp add: evidence_world_def evidence_rows_def)

lemma evidence_world_Cons:
  "evidence_world mid items (evidence_world mid [x] s) = evidence_world mid (x # items) s"
proof -
  have "enumerate (Suc 0) items = map (\<lambda>(k, y). (Suc k, y)) (enumerate 0 items)"
    by (auto simp: enumerate_Suc_eq)
  then show ?thesis by (simp add: evidence_world_def evidence_rows_def case_prod_beta o_def)
qed

lemma save_evidence_fresh:
  assumes "inj (uuid_source s)" and "\<forall>i\<ge>uuid_draws s. uuid_source s i \<notin> er_evidence_id ` set (research_evidence (db s))"
    and "find_message mid (db s) \<noteq> None"
  shows "forM items (\<lambda>item. bindM uuid4 (\<lambda>eid. insert_row
       (\<lambda>d. \<forall>r\<in>set (research_evidence d). er_evidence_id r \<noteq> eid) (message_exists mid)
       (\<lambda>d. d\<lparr>research_evidence := research_evidence d @ [\<lparr>er_evidence_id = eid, er_message_id = mid, er_item = item\<rparr>]\<rparr>))) s =
     (Inr (), evidence_world mid items s)"
  using assms
proof (induction items arbitrary: s)
  case Nil
  then show ?case by (simp add: ret_def evidence_world_Nil)
next
  case (Cons x items)
  let ?s1 = "evidence_world mid [x] s"
  have "\<forall>r\<in>set (research_evidence (db s)). er_evidence_id r \<noteq> uuid_source s (uuid_draws s)"
    using Cons.prems(2) [rule_format, OF order_refl] by (metis imageI)
  then have "bindM uuid4 (\<lambda>eid. insert_row
       (\<lambda>d. \<forall>r\<in>set (research_evidence d). er_evidence_id r \<noteq> eid) (message_exists mid)
       (\<lambda>d. d\<lparr>research_evidence := research_evidence d @ [\<lparr>er_evidence_id = eid, er_message_id = mid, er_item = x\<rparr>]\<rparr>)) s = (Inr (), ?s1)"
    using Cons.prems(3) by (auto simp: bindM_def uuid4_def insert_row_def evidence_world_def evidence_rows_def message_exists_def)
  moreover have "inj (uuid_source ?s1)" "find_message mid (db ?s1) \<noteq> None"
    using Cons.prems by (simp_all add: evidence_world_def find_message_def)
  moreover have "\<forall>i\<ge>uuid_draws ?s1. uuid_source ?s1 i \<notin> er_evidence_id ` set (research_evidence (db ?s1))"
    using Cons.prems(1,2) by (auto simp: evidence_world_def evidence_rows_def dest: injD)
  ultimately show ?case
    using Cons.IH [of ?s1] by (simp add: bindM_def evidence_world_Cons)
qed

lemma save_research_evidence_fresh:
  assumes "conn_open s" and "inj (uuid_source s)"
    and "\<forall>i\<ge>uuid_draws s. uuid_source s i \<notin> er_evidence_id ` set (research_evidence (db s))" and "find_message mid (db s) \<noteq> None"
  shows "save_research_evidence mid items s = (Inr (), evidence_world mid items s)"
  using save_evidence_fresh [OF assms(2,3,4)] assms(1)
  by (simp add: save_research_evidence_def tx_def ret_def evidence_world_Nil)

lemma fallback_analyze_eq:
  "\<exists>r n. fallback_analyze L a s = (Inr r, s\<lparr>clock_reads := clock_reads s + n\<rparr>) \<and> n \<le> 1 \<and>
     rr_asset_hypotheses r = hypotheses_of L (mirror_metadata (ing_shift_alert a)) \<and>
     map ev_url (rr_evidence r) =
       (if market_url L (mirror_market (ing_shift_alert a)) = [] then [] else [market_url L (mirror_market (ing_shift_alert a))]) \<and>
     (rr_status r = RS_PASS \<longleftrightarrow> rr_asset_hypotheses r \<noteq> [] \<and> rr_evidence r \<noteq> [])"
  by (cases "market_url L (mirror_market (ing_shift_alert a)) = []")
    (auto simp: fallback_analyze_def evidence_of_def Let_def op_defs intro: exI [of _ 0] exI [of _ 1])

lemma researcher_round_eq:
  assumes due: "due_job L RESEARCH j p s" and fresh: "fresh_ids s"
    and valid: "validate_ingested L (env_payload p) = Some ing"
    and new: "message_by_key (build_research_key (env_message_id p) (rs_prompt_version (cfg_researcher cfg))) (db s) = None"
  shows "\<exists>r e s1 g. researcher_process_next L cfg w s = (Inr True, evidence_world (env_message_id e) (rr_evidence r)
       (finished_world L (run_lease j s) e (if rr_status r = RS_PASS then Some ANALYSIS else None) 100 None
          (research_status_value (rr_status r)) g s1)) \<and>
     rr_asset_hypotheses r = hypotheses_of L (mirror_metadata (ing_shift_alert ing)) \<and>
     map ev_url (rr_evidence r) =
       (if market_url L (mirror_market (ing_shift_alert ing)) = [] then [] else [market_url L (mirror_market (ing_shift_alert ing))]) \<and>
     (rr_status r = RS_PASS \<longleftrightarrow> rr_asset_hypotheses r \<noteq> [] \<and> rr_evidence r \<noteq> []) \<and>
     moved_on (leased_world w (lease_sec (cfg_queue cfg)) j s) s1 \<and> uuid_draws s1 = Suc (Suc (uuid_draws s)) \<and>
     (\<exists>s0. moved_on (leased_world w (lease_sec (cfg_queue cfg)) j s) s0 \<and> uuid_draws s0 = Suc (uuid_draws s) \<and>
       e = drawn_envelope p RESEARCH (build_research_key (env_message_id p) (rs_prompt_version (cfg_researcher cfg))) (dump_research L r) s0) \<and>
     same_run g"
proof -
  let ?n = "lease_sec (cfg_queue cfg)" and ?k = "build_research_key (env_message_id p) (rs_prompt_version (cfg_researcher cfg))"
  define sl where "sl = leased_world w ?n j s"
  have sl: "conn_open sl" "reads L (job_message_id j) (db sl) p" "fresh_ids sl" "message_by_key ?k (db sl) = None"
    "uuid_draws sl = Suc (uuid_draws s)"
    using due fresh_leased [OF fresh] new
    by (simp_all add: sl_def due_job_def leased_world_reads message_by_key_def) (simp add: leased_world_def Let_def)
  let ?sp = "sl\<lparr>perf_reads := Suc (perf_reads sl)\<rparr>"
  obtain r n where fb: "fallback_analyze L ing ?sp = (Inr r, ?sp\<lparr>clock_reads := clock_reads ?sp + n\<rparr>)"
    and r: "rr_asset_hypotheses r = hypotheses_of L (mirror_metadata (ing_shift_alert ing))"
      "map ev_url (rr_evidence r) =
       (if market_url L (mirror_market (ing_shift_alert ing)) = [] then [] else [market_url L (mirror_market (ing_shift_alert ing))])"
      "rr_status r = RS_PASS \<longleftrightarrow> rr_asset_hypotheses r \<noteq> [] \<and> rr_evidence r \<noteq> []"
    using fallback_analyze_eq [of L ing ?sp] by blast
  define s0 where "s0 = ?sp\<lparr>clock_reads := clock_reads ?sp + n\<rparr>"
  have m0: "moved_on sl s0" "uuid_draws s0 = uuid_draws sl" by (simp_all add: moved_on_def s0_def)
  with sl have s0: "conn_open s0" "reads L (job_message_id j) (db s0) p" "fresh_ids s0" "message_by_key ?k (db s0) = None"
    using fresh_moved_on by (auto simp: moved_on_def)
  let ?next = "if rr_status r = RS_PASS then Some ANALYSIS else None"
  let ?h = "\<lambda>e au message_id. bindM (case message_id of None \<Rightarrow> ret () | Some mid \<Rightarrow> save_research_evidence mid (rr_evidence r)) (\<lambda>_. ret True)"
  from output_stage_eq [OF s0, of RESEARCH "dump_research L r" "perf_source sl (perf_reads sl)" "run_lease j s"
      "\<lambda>a. a\<lparr>audit_model_name := None, audit_prompt_version := Some (rs_prompt_version (cfg_researcher cfg))\<rparr>" ?next 100 None
      "research_status_value (rr_status r)" ?h]
  obtain e s1 g where tail: "bindM (child_envelope p RESEARCH ?k (dump_research L r)) (\<lambda>e. bindM (timed_audit e (perf_source sl (perf_reads sl))) (\<lambda>au.
      bindM (complete_job_success L (run_lease j s) (Some e)
        (Some (au\<lparr>audit_model_name := None, audit_prompt_version := Some (rs_prompt_version (cfg_researcher cfg))\<rparr>)) ?next 100 None
        (research_status_value (rr_status r))) (?h e au))) s0 =
      ?h e () (Some (env_message_id e)) (finished_world L (run_lease j s) e ?next 100 None (research_status_value (rr_status r)) g s1)"
    and e: "moved_on s0 s1" "uuid_draws s1 = Suc (uuid_draws s0)"
      "e = drawn_envelope p RESEARCH ?k (dump_research L r) s0" "same_run g"
    by blast
  let ?fw = "finished_world L (run_lease j s) e ?next 100 None (research_status_value (rr_status r)) g s1"
  have "find_message (env_message_id e) (db ?fw) \<noteq> None"
    by (auto simp: find_message_def find_None_all finished_world_simps message_of_def)
  moreover have "fresh_ids s1" using fresh_moved_on s0(3) e(1) by blast
  then have "inj (uuid_source ?fw)"
    "\<forall>i\<ge>uuid_draws ?fw. uuid_source ?fw i \<notin> er_evidence_id ` set (research_evidence (db ?fw))"
    by (auto simp: finished_world_simps fresh_ids_def used_ids_def)
  moreover have "conn_open ?fw" using s0(1) e(1) by (simp add: finished_world_simps moved_on_def)
  ultimately have ev: "save_research_evidence (env_message_id e) (rr_evidence r) ?fw = (Inr (), evidence_world (env_message_id e) (rr_evidence r) ?fw)"
    by (simp add: save_research_evidence_fresh)
  have lease_message: "lease_message_id (run_lease j s) = job_message_id j" by (simp add: lease_of_def)
  have get: "get_message L (job_message_id j) ?sp = (Inr p, ?sp)"
    by (rule get_message_reads) (use sl in simp_all)
  have "researcher_job L cfg (run_lease j s) (perf_source sl (perf_reads sl)) ?sp = (Inr True, evidence_world (env_message_id e) (rr_evidence r) ?fw)"
    unfolding researcher_job_def lease_message Let_def
    by (simp only: bindM_Inr [where m = "get_message L i" for i, OF get] from_option_def valid option.case bindM_ret
        bindM_Inr [where m = "fallback_analyze L ing", OF fb] s0_def [symmetric] tail
        bindM_Inr [where m = "save_research_evidence i es" for i es, OF ev])
      (simp add: ret_def)
  then have "researcher_process_next L cfg w s = (Inr True, evidence_world (env_message_id e) (rr_evidence r) ?fw)"
    by (simp add: researcher.due_round [OF due] bindM_def perf_counter_def tryM_def sl_def)
  moreover have "moved_on sl s1" using m0 e(1) by (auto simp: moved_on_def)
  ultimately show ?thesis using r e m0 sl(5) unfolding sl_def by (metis (no_types, lifting))
qed

lemma evidence_world_simps:
  "stage_messages (db (evidence_world mid es s)) = stage_messages (db s)"
  "stage_jobs (db (evidence_world mid es s)) = stage_jobs (db s)"
  "research_evidence (db (evidence_world mid es s)) = research_evidence (db s) @ evidence_rows mid es s"
  "map er_item (evidence_rows mid es s) = es" "\<forall>r\<in>set (evidence_rows mid es s). er_message_id r = mid"
  by (auto simp: evidence_world_def evidence_rows_def case_prod_beta o_def)

text \<open>
  C16 (functional): a round of the researcher. When the next research job names a message that reads
  back as an ingested alert and no report is stored for it yet, the round returns and has stored one
  report as the child of that message on its trace: the hypotheses are the well-formed ones of the
  alert, the evidence is the market's page where it has one, and the report passes if and only if it
  has both. The evidence is saved with the report, the job has succeeded and is free, no other job
  has changed, and an analysis job for the report is queued if and only if it passed.
\<close>

theorem researcher_round_correct:
  assumes "due_job L RESEARCH j p s" and "fresh_ids s" and "validate_ingested L (env_payload p) = Some ing"
    and "message_by_key (build_research_key (env_message_id p) (rs_prompt_version (cfg_researcher cfg))) (db s) = None"
  shows "\<exists>s' r m new rows. researcher_process_next L cfg w s = (Inr True, s') \<and>
     rr_asset_hypotheses r = hypotheses_of L (mirror_metadata (ing_shift_alert ing)) \<and>
     map ev_url (rr_evidence r) =
       (if market_url L (mirror_market (ing_shift_alert ing)) = [] then [] else [market_url L (mirror_market (ing_shift_alert ing))]) \<and>
     (rr_status r = RS_PASS \<longleftrightarrow> rr_asset_hypotheses r \<noteq> [] \<and> rr_evidence r \<noteq> []) \<and>
     stage_messages (db s') = stage_messages (db s) @ [m] \<and> msg_parent_message_id m = Some (job_message_id j) \<and>
     msg_trace_id m = env_trace_id p \<and> msg_stage m = RESEARCH \<and> msg_payload_jsonb m = json_dumps L (dump_research L r) \<and>
     research_evidence (db s') = research_evidence (db s) @ rows \<and> map er_item rows = rr_evidence r \<and>
     (\<forall>x\<in>set rows. er_message_id x = msg_message_id m) \<and>
     filter (\<lambda>x. job_id x \<noteq> job_id j) (stage_jobs (db s')) = filter (\<lambda>x. job_id x \<noteq> job_id j) (stage_jobs (db s)) @ new \<and>
     (\<forall>x\<in>set (stage_jobs (db s')). job_id x = job_id j \<longrightarrow> job_state x = Succeeded \<and> job_leased_until x = None) \<and>
     map (\<lambda>x. (job_stage x, job_message_id x, job_trace_id x, job_state x)) new =
       (if rr_status r = RS_PASS then [(ANALYSIS, msg_message_id m, env_trace_id p, Queued)] else [])"
proof -
  let ?n = "lease_sec (cfg_queue cfg)"
  from researcher_round_eq [OF assms] obtain r e s1 g s0 where r: "researcher_process_next L cfg w s =
      (Inr True, evidence_world (env_message_id e) (rr_evidence r)
       (finished_world L (run_lease j s) e (if rr_status r = RS_PASS then Some ANALYSIS else None) 100 None
          (research_status_value (rr_status r)) g s1))"
    "rr_asset_hypotheses r = hypotheses_of L (mirror_metadata (ing_shift_alert ing))"
    "map ev_url (rr_evidence r) =
       (if market_url L (mirror_market (ing_shift_alert ing)) = [] then [] else [market_url L (mirror_market (ing_shift_alert ing))])"
    "rr_status r = RS_PASS \<longleftrightarrow> rr_asset_hypotheses r \<noteq> [] \<and> rr_evidence r \<noteq> []"
    and m1: "moved_on (leased_world w ?n j s) s1" "uuid_draws s1 = Suc (Suc (uuid_draws s))"
    and e: "e = drawn_envelope p RESEARCH (build_research_key (env_message_id p) (rs_prompt_version (cfg_researcher cfg))) (dump_research L r) s0"
    by blast
  let ?fw = "finished_world L (run_lease j s) e (if rr_status r = RS_PASS then Some ANALYSIS else None) 100 None (research_status_value (rr_status r)) g s1"
  have db1: "stage_messages (db s1) = stage_messages (db s)" "research_evidence (db s1) = research_evidence (db s)"
    using m1(1) by (simp_all add: moved_on_def leased_world_def Let_def update_job_def)
  have "env_message_id p = job_message_id j" using assms(1) reads_id by (auto simp: due_job_def)
  then have m: "msg_parent_message_id (message_of L e) = Some (job_message_id j)" "msg_trace_id (message_of L e) = env_trace_id p"
    "msg_stage (message_of L e) = RESEARCH" "msg_payload_jsonb (message_of L e) = json_dumps L (dump_research L r)"
    "msg_message_id (message_of L e) = env_message_id e" "env_trace_id e = env_trace_id p"
    by (simp_all add: e message_of_def drawn_envelope_def)
  have "uuid_source s1 = uuid_source s" "stage_jobs (db s1) = stage_jobs (db (leased_world w ?n j s))"
    using m1(1) by (simp_all add: moved_on_def leased_world_def Let_def)
  note jobs = finished_jobs [OF this assms(2) _ conjunct1 [OF due_job_in [OF assms(1)]], of L e
      "if rr_status r = RS_PASS then Some ANALYSIS else None" 100 None "research_status_value (rr_status r)" g]
  show ?thesis
    by (rule exI, rule exI [of _ r], rule exI [of _ "message_of L e"],
        rule exI [of _ "queued_after e (if rr_status r = RS_PASS then Some ANALYSIS else None) 100 None s1"],
        rule exI [of _ "evidence_rows (env_message_id e) (rr_evidence r) ?fw"], intro conjI, rule r(1))
      (use r(2-4) m db1 jobs m1(2) in \<open>simp_all add: evidence_world_simps finished_world_simps(1,9) queued_after_def Let_def queued_job_def\<close>)
qed

section \<open>Evaluated examples\<close>

definition demo_ingested :: ingested_alert where
  "demo_ingested =
     \<lparr>ing_shift_alert = demo_mirror, ing_received_at = 0, ing_signature_verified = True, ing_replay_source = None, ing_priority = 100\<rparr>"

definition research_lib :: lib where
  "research_lib = demo_lib\<lparr>validate_ingested := (\<lambda>_. Some demo_ingested)\<rparr>"

theorem researcher_round_correct_witness:
  "\<exists>s'. researcher_process_next research_lib demo_config ''w'' (demo_world (demo_db RESEARCH)) = (Inr True, s') \<and>
     map msg_stage (stage_messages (db s')) = [INGEST, RESEARCH]"
proof -
  let ?p = "envelope_of demo_message demo_trace (JDict [])"
  have j: "json_loads research_lib ''{}'' = Some (JDict [])" by (simp add: research_lib_def demo_lib_def)
  have v: "validate_ingested research_lib (env_payload ?p) = Some demo_ingested" by (simp add: research_lib_def)
  have k: "message_by_key (build_research_key (env_message_id ?p) (rs_prompt_version (cfg_researcher demo_config)))
      (db (demo_world (demo_db RESEARCH))) = None"
    by (simp add: message_by_key_def build_research_key_def demo_defs)
  from researcher_round_correct [OF demo_due [OF j] demo_fresh v k, of "''w''"] obtain s' m where
    "researcher_process_next research_lib demo_config ''w'' (demo_world (demo_db RESEARCH)) = (Inr True, s')"
    "stage_messages (db s') = stage_messages (db (demo_world (demo_db RESEARCH))) @ [m]" "msg_stage m = RESEARCH"
    by blast
  then show ?thesis by (simp add: demo_defs)
qed

end
