(* ===== verification/Alert_To_Order.thy ===== *)
theory Alert_To_Order
  imports Handover Model_Codecs Researcher_Round Analyst_Round Executor_Round
begin

text \<open>
  The stages one after the other: an alert delivered to an empty database, then one round each of
  the researcher, the analyst and the executor outside manual mode.
\<close>

section \<open>Rows saved after the output\<close>

lemma fresh_evidence:
  assumes "fresh_ids s"
  shows "fresh_ids (evidence_world mid items s)"
proof -
  have inj: "inj (uuid_source s)" using assms by (simp add: fresh_ids_def)
  have "uuid_source s i \<notin> used_ids (db (evidence_world mid items s))" if i: "uuid_draws s + length items \<le> i" for i
  proof -
    have "uuid_source s i \<notin> er_evidence_id ` set (evidence_rows mid items s)"
      using i injD [OF inj] by (fastforce simp: evidence_rows_def enumerate_eq_zip dest: set_zip_leftD)
    moreover have "uuid_source s i \<notin> used_ids (db s)" using assms i by (simp add: fresh_ids_def)
    ultimately show ?thesis by (simp add: used_ids_def evidence_world_def image_Un)
  qed
  with inj show ?thesis by (simp add: fresh_ids_def evidence_world_def)
qed

text \<open>Rows saved after it do not matter to a due job.\<close>

lemma due_job_evidence:
  assumes "due_job L st j p s" and "fresh_ids (evidence_world mid items s)"
  shows "due_job L st j p (evidence_world mid items s)"
  using assms(1) fresh_idsD(4) [OF assms(2) order_refl]
  by (simp add: due_job_def evidence_world_def next_ready_def reads_def find_message_def find_trace_def)

lemma fresh_candidates:
  assumes "fresh_ids s" and "\<forall>c\<in>set (cs @ rs). \<exists>i<uuid_draws s. candidate_id c = uuid_source s i"
  shows "fresh_ids (candidates_world mid cs rs s)"
proof -
  have inj: "inj (uuid_source s)" using assms(1) by (simp add: fresh_ids_def)
  have "uuid_source s i \<notin> used_ids (db (candidates_world mid cs rs s))" if i: "uuid_draws s \<le> i" for i
  proof -
    have "uuid_source s i \<notin> candidate_id ` set (cs @ rs)"
      using assms(2) i injD [OF inj] by fastforce
    moreover have "uuid_source s i \<notin> used_ids (db s)" using assms(1) i by (simp add: fresh_ids_def)
    ultimately show ?thesis by (simp add: used_ids_def candidates_world_def candidate_rows_def image_Un image_image)
  qed
  with inj show ?thesis by (simp add: fresh_ids_def candidates_world_def)
qed

lemma due_job_candidates:
  "due_job L st j p s \<Longrightarrow> due_job L st j p (candidates_world mid cs rs s)"
  by (simp add: due_job_def candidates_world_def next_ready_def reads_def find_message_def find_trace_def)

section \<open>The first delivery\<close>

definition empty_start :: "world \<Rightarrow> bool" where
  "empty_start s \<longleftrightarrow> db s = empty_pdb \<and> conn_open s \<and> inj (uuid_source s) \<and> (\<forall>i. clock s i \<le> clock s (Suc i))"

lemma first_delivery:
  assumes "empty_start s" and "read_back L (dump_ingested L) (validate_ingested L)"
  shows "\<exists>r s' j p i. store_alert L sv a src s = (Inr r, s') \<and> status_code r = 202 \<and> jget (response_body r) ''trace_id'' = JStr (env_trace_id p) \<and> due_job L RESEARCH j p s' \<and> fresh_ids s' \<and>
    ing_shift_alert i = a \<and> validate_ingested L (env_payload p) = Some i \<and> stage_jobs (db s') = [j] \<and>
    map msg_idempotency_key (stage_messages (db s')) = [build_ingest_key (mirror_alert_id a)] \<and>
    portfolio_snapshots (db s') = [] \<and> broker_orders (db s') = [] \<and> broker_calls s' = broker_calls s \<and>
    clock s' = clock s \<and> approval_requests (db s') = [] \<and> dialect s' = dialect s"
proof -
  let ?n = "clock_reads s" and ?u = "uuid_draws s" and ?aid = "mirror_alert_id a"
  let ?t = "uuid_source s ?u" and ?m = "uuid_source s (Suc ?u)" and ?j = "uuid_source s (Suc (Suc ?u))"
  let ?text = "\<lambda>k. Some (py_str (py_repr L) (jor (jget (mirror_market a) k) (JStr [])))"
  define trace where "trace = \<lparr>tr_trace_id = ?t, tr_source_alert_id = ?aid, tr_market_asset_id = ?text ''asset_id'',
      tr_market_slug = ?text ''market_slug'', tr_event_slug = ?text ''event_slug'', tr_current_stage = INGEST,
      tr_status = ''persisted'', tr_created_at = clock s ?n, tr_updated_at = clock s ?n\<rparr>"
  define i where "i = \<lparr>ing_shift_alert = a, ing_received_at = clock s (Suc ?n), ing_signature_verified = True,
      ing_replay_source = src, ing_priority = 100\<rparr>"
  obtain v where v: "json_loads L (json_dumps L (dump_ingested L i)) = Some v" "validate_ingested L v = Some i"
    using read_backD [OF assms(2)] by blast
  define e where "e = \<lparr>env_message_id = ?m, env_trace_id = ?t, env_source_alert_id = ?aid, env_parent_message_id = None,
      env_stage = INGEST, env_schema_version = sv, env_idempotency_key = build_ingest_key ?aid,
      env_created_at = clock s (Suc (Suc ?n)), env_payload = dump_ingested L i\<rparr>"
  define j where "j = queued_job ?j ?t RESEARCH ?m 100 (clock s (Suc (Suc (Suc ?n)))) (clock s (Suc (Suc (Suc ?n))))"
  define s' where "s' = s\<lparr>clock_reads := Suc (Suc (Suc (Suc ?n))), uuid_draws := Suc (Suc (Suc ?u)),
      db := empty_pdb\<lparr>pipeline_traces := [trace], stage_messages := [message_of L e], stage_jobs := [j]\<rparr>\<rparr>"
  have "\<exists>r. store_alert L sv a src s = (Inr r, s') \<and> status_code r = 202 \<and> jget (response_body r) ''trace_id'' = JStr ?t"
    using assms(1)
    by (simp add: empty_start_def store_alert_def Let_def ensure_trace_def upsert_message_def upsert_message_conn_def enqueue_job_def
        enqueue_job_conn_def new_envelope_def op_defs tx_def insert_row_def empty_pdb_def message_by_key_def find_trace_def find_message_def
        message_of_def s'_def trace_def i_def e_def j_def)
  then obtain r where r: "store_alert L sv a src s = (Inr r, s')" "status_code r = 202" "jget (response_body r) ''trace_id'' = JStr ?t" by blast
  have trace: "env_trace_id (envelope_of (message_of L e) trace v) = ?t" by (simp add: envelope_of_def message_of_def e_def)
  have due: "due_job L RESEARCH j (envelope_of (message_of L e) trace v) s'"
    using assms(1) v(1) by (simp add: empty_start_def due_job_def next_ready_def ready_def s'_def j_def queued_job_def reads_def find_message_def
        find_trace_def message_of_def e_def trace_def empty_pdb_def)
  have fresh: "fresh_ids s'"
    using assms(1) by (auto simp: empty_start_def fresh_ids_def used_ids_def s'_def empty_pdb_def message_of_def e_def j_def queued_job_def dest: injD)
  have rest: "ing_shift_alert i = a" "validate_ingested L (env_payload (envelope_of (message_of L e) trace v)) = Some i"
    "stage_jobs (db s') = [j]" "map msg_idempotency_key (stage_messages (db s')) = [build_ingest_key ?aid]"
    "portfolio_snapshots (db s') = []" "broker_orders (db s') = []"
    "broker_calls s' = broker_calls s" "clock s' = clock s" "approval_requests (db s') = []" "dialect s' = dialect s"
    using v(2) by (simp_all add: s'_def i_def empty_pdb_def message_of_def e_def envelope_of_def)
  show ?thesis by (intro exI conjI) (rule r r(3) [folded trace] due fresh rest)+
qed

section \<open>The researcher hands over\<close>

lemma researcher_hands_over:
  assumes due: "due_job L RESEARCH j p s" and fresh: "fresh_ids s" and valid: "validate_ingested L (env_payload p) = Some ing"
    and key: "message_by_key (build_research_key (env_message_id p) (rs_prompt_version (cfg_researcher cfg))) (db s) = None"
    and none: "\<forall>x\<in>set (stage_jobs (db s)). job_stage x \<noteq> ANALYSIS" and clock: "\<And>i. clock s i \<le> clock s (Suc i)"
    and codec: "read_back L (dump_research L) (validate_research L)"
    and pass: "hypotheses_of L (mirror_metadata (ing_shift_alert ing)) \<noteq> []" "market_url L (mirror_market (ing_shift_alert ing)) \<noteq> []"
  shows "\<exists>s' r j' p'. researcher_process_next L cfg w s = (Inr True, s') \<and> due_job L ANALYSIS j' p' s' \<and> fresh_ids s' \<and>
    rr_asset_hypotheses r = hypotheses_of L (mirror_metadata (ing_shift_alert ing)) \<and> validate_research L (env_payload p') = Some r \<and>
    env_trace_id p' = env_trace_id p \<and>
    map msg_idempotency_key (stage_messages (db s')) = map msg_idempotency_key (stage_messages (db s)) @
      [build_research_key (env_message_id p) (rs_prompt_version (cfg_researcher cfg))] \<and>
    map job_stage (stage_jobs (db s')) = map job_stage (stage_jobs (db s)) @ [ANALYSIS] \<and>
    portfolio_snapshots (db s') = portfolio_snapshots (db s) \<and> broker_orders (db s') = broker_orders (db s) \<and>
    broker_calls s' = broker_calls s \<and> clock s' = clock s \<and> approval_requests (db s') = approval_requests (db s) \<and> dialect s' = dialect s"
proof -
  let ?k = "build_research_key (env_message_id p) (rs_prompt_version (cfg_researcher cfg))" and ?sl = "leased_world w (lease_sec (cfg_queue cfg)) j s"
  from researcher_round_eq [OF due fresh valid key, of w] obtain r e s1 g s0 where
    round: "researcher_process_next L cfg w s = (Inr True, evidence_world (env_message_id e) (rr_evidence r)
       (finished_world L (run_lease j s) e (if rr_status r = RS_PASS then Some ANALYSIS else None) 100 None (research_status_value (rr_status r)) g s1))"
    and r: "rr_asset_hypotheses r = hypotheses_of L (mirror_metadata (ing_shift_alert ing))"
      "map ev_url (rr_evidence r) = (if market_url L (mirror_market (ing_shift_alert ing)) = [] then [] else [market_url L (mirror_market (ing_shift_alert ing))])"
      "rr_status r = RS_PASS \<longleftrightarrow> rr_asset_hypotheses r \<noteq> [] \<and> rr_evidence r \<noteq> []"
    and m1: "moved_on ?sl s1" "uuid_draws s1 = Suc (Suc (uuid_draws s))"
    and m0: "moved_on ?sl s0" "uuid_draws s0 = Suc (uuid_draws s)"
    and e: "e = drawn_envelope p RESEARCH ?k (dump_research L r) s0" and g: "same_run g"
    by blast
  have "rr_evidence r \<noteq> []" using r(2) pass(2) by auto
  with r pass(1) have status: "rr_status r = RS_PASS" by simp
  let ?fw = "finished_world L (run_lease j s) e (Some ANALYSIS) 100 None (research_status_value (rr_status r)) g s1"
  have f1: "fresh_ids s1" using fresh_moved_on fresh_leased fresh m1(1) by blast
  have src: "uuid_source s1 = uuid_source s" "uuid_source s0 = uuid_source s" "clock s1 = clock s" "conn_open s1 = conn_open s"
    "stage_messages (db s1) = stage_messages (db s)" "pipeline_traces (db s1) = pipeline_traces (db s)"
    "stage_jobs (db s1) = stage_jobs (db ?sl)" "portfolio_snapshots (db s1) = portfolio_snapshots (db s)"
    "broker_orders (db s1) = broker_orders (db s)" "broker_calls s1 = broker_calls s"
    "approval_requests (db s1) = approval_requests (db s)" "dialect s1 = dialect s"
    using m1(1) m0(1) by (simp_all add: moved_on_def leased_world_reads) (simp_all add: leased_world_def Let_def update_job_def)
  have id: "env_message_id e = uuid_source s (Suc (uuid_draws s))" "env_trace_id e = env_trace_id p" "env_payload e = dump_research L r"
    "env_idempotency_key e = ?k"
    using m0(2) src(2) by (simp_all add: e drawn_envelope_def)
  from read_backD [OF codec] obtain v where v: "json_loads L (json_dumps L (env_payload e)) = Some v" "validate_research L v = Some r"
    unfolding id by blast
  from finished_hands_over [OF due fresh f1 g src(4,1,3,5,6,7) id(1) _ _ id(2) none clock v(1), of 100 "research_status_value (rr_status r)"]
  obtain j' p' where q: "due_job L ANALYSIS j' p' ?fw" "env_payload p' = v" "env_trace_id p' = env_trace_id p" "fresh_ids ?fw"
    "map msg_idempotency_key (stage_messages (db ?fw)) = map msg_idempotency_key (stage_messages (db s)) @ [?k]"
    "map job_stage (stage_jobs (db ?fw)) = map job_stage (stage_jobs (db s)) @ [ANALYSIS]"
    using m1(2) id(4) by auto
  let ?s' = "evidence_world (env_message_id e) (rr_evidence r) ?fw"
  have round': "researcher_process_next L cfg w s = (Inr True, ?s')" using round status by simp
  note fresh' = fresh_evidence [OF q(4)]
  note due' = due_job_evidence [OF q(1) fresh']
  have rest: "validate_research L (env_payload p') = Some r" "env_trace_id p' = env_trace_id p"
    "map msg_idempotency_key (stage_messages (db ?s')) = map msg_idempotency_key (stage_messages (db s)) @ [?k]"
    "map job_stage (stage_jobs (db ?s')) = map job_stage (stage_jobs (db s)) @ [ANALYSIS]"
    "portfolio_snapshots (db ?s') = portfolio_snapshots (db s)" "broker_orders (db ?s') = broker_orders (db s)"
    "broker_calls ?s' = broker_calls s" "clock ?s' = clock s" "approval_requests (db ?s') = approval_requests (db s)" "dialect ?s' = dialect s"
    using q v(2) by (simp_all add: evidence_world_def finished_world_simps src)
  show ?thesis by (intro exI conjI) (rule round' due' fresh' r(1) rest)+
qed

section \<open>The analyst hands over\<close>

definition made_from ::
  "lib \<Rightarrow> (rat \<Rightarrow> rat) \<Rightarrow> analyst_section \<Rightarrow> (string \<Rightarrow> market_data_snapshot) \<Rightarrow> portfolio_snapshot \<Rightarrow> asset_hypothesis list
    \<Rightarrow> (nat \<Rightarrow> timestamp) \<Rightarrow> trade_candidate \<Rightarrow> bool" where
  "made_from L fsqrt cfg quote pf hs now c \<longleftrightarrow>
     (\<exists>h\<in>set hs. \<exists>i k. c = candidate_of L fsqrt cfg pf h (quote (hyp_symbol h)) i (now k))"

lemma quoted_made_from:
  "c \<in> set (quoted_candidates L fsqrt cfg quote pf hs s) \<Longrightarrow> made_from L fsqrt cfg quote pf hs (clock s) c"
  by (auto simp: quoted_candidates_def made_from_def enumerate_eq_zip dest: set_zip_rightD)

lemma tradable_reported:
  assumes "report_of_quotes cfg quote pf hs out" and "\<exists>h\<in>set hs. tradable_quote cfg (quote (hyp_symbol h))"
  shows "ar_candidates out \<noteq> []"
proof -
  from assms(2) obtain h where h: "h \<in> set hs" "tradable_quote cfg (quote (hyp_symbol h))" by blast
  from assms(1) have "set_mset (mset (map cand_symbol (ar_candidates out @ ar_rejected_candidates out))) = set_mset (mset (map hyp_symbol hs))"
    by (simp only: report_of_quotes_def Let_def)
  with h(1) obtain c where "c \<in> set (ar_candidates out @ ar_rejected_candidates out)" "cand_symbol c = hyp_symbol h"
    unfolding set_mset_mset set_map by (metis imageE imageI)
  with assms(1) h(2) show ?thesis by (auto simp: report_of_quotes_def Let_def)
qed

lemma analyst_hands_over:
  assumes due: "due_job L ANALYSIS j p s" and fresh: "fresh_ids s" and valid: "validate_research L (env_payload p) = Some report"
    and snap: "\<forall>x\<in>set (portfolio_snapshots (db s)). snapshot_id x \<noteq> snapshot_id pf"
    and quotes: "\<forall>h\<in>set (rr_asset_hypotheses report). market (hyp_symbol h) = Inr (quote (hyp_symbol h))"
    and key: "message_by_key (build_analysis_key (env_message_id p) (ruleset_version (cfg_analyst cfg)) (iso_time L (captured_at pf))) (db s) = None"
    and none: "\<forall>x\<in>set (stage_jobs (db s)). job_stage x \<noteq> EXECUTION" and clock: "\<And>i. clock s i \<le> clock s (Suc i)"
    and codec: "read_back L (dump_analysis L) (validate_analysis L)"
    and pass: "\<exists>h\<in>set (rr_asset_hypotheses report). tradable_quote (cfg_analyst cfg) (quote (hyp_symbol h))"
  shows "\<exists>s' out j' p'. analyst_process_next L fsqrt cfg market (Inr pf) w s = (Inr True, s') \<and> due_job L EXECUTION j' p' s' \<and>
    report_of_quotes (cfg_analyst cfg) quote pf (rr_asset_hypotheses report) out \<and> ar_portfolio_snapshot_id out = snapshot_id pf \<and>
    (\<forall>c\<in>set (ar_candidates out). made_from L fsqrt (cfg_analyst cfg) quote pf (rr_asset_hypotheses report) (clock s) c) \<and>
    ar_candidates out \<noteq> [] \<and> validate_analysis L (env_payload p') = Some out \<and> env_trace_id p' = env_trace_id p \<and>
    fresh_ids s' \<and> map msg_idempotency_key (stage_messages (db s')) = map msg_idempotency_key (stage_messages (db s)) @
      [build_analysis_key (env_message_id p) (ruleset_version (cfg_analyst cfg)) (iso_time L (captured_at pf))] \<and>
    map job_stage (stage_jobs (db s')) = map job_stage (stage_jobs (db s)) @ [EXECUTION] \<and>
    broker_orders (db s') = broker_orders (db s) \<and> broker_calls s' = broker_calls s \<and> clock s' = clock s \<and>
    approval_requests (db s') = approval_requests (db s) \<and> dialect s' = dialect s"
proof -
  let ?sl = "leased_world w (lease_sec (cfg_queue cfg)) j s"
  let ?k = "build_analysis_key (env_message_id p) (ruleset_version (cfg_analyst cfg)) (iso_time L (captured_at pf))"
  from analyst_round_eq [OF due fresh valid snap quotes key, of fsqrt w] obtain cs out e s3 s4 g s2 where
      out: "out = analysis_output (snapshot_id pf) cs" "cs = quoted_candidates L fsqrt (cfg_analyst cfg) quote pf (rr_asset_hypotheses report) s2"
    and round: "analyst_process_next L fsqrt cfg market (Inr pf) w s =
       (Inr True, candidates_world (env_message_id e) (ar_candidates out) (ar_rejected_candidates out)
         (finished_world L (run_lease j s) e (if ar_status out = AS_PASS then Some EXECUTION else None) 100 None
           (analysis_status_value (ar_status out)) g s4))"
    and s2: "clock s2 = clock s" "uuid_source s2 = uuid_source s" "uuid_draws s3 = uuid_draws s2 + length (rr_asset_hypotheses report)"
    and m4: "moved_on (?sl\<lparr>db := (db ?sl)\<lparr>portfolio_snapshots := portfolio_snapshots (db s) @ [pf]\<rparr>\<rparr>) s4" "uuid_draws s \<le> uuid_draws s3"
      "uuid_draws s4 = Suc (uuid_draws s3)" "uuid_source s3 = uuid_source s"
    and e: "e = drawn_envelope p ANALYSIS ?k (dump_analysis L out) s3" and g: "same_run g"
    by blast
  have report: "report_of_quotes (cfg_analyst cfg) quote pf (rr_asset_hypotheses report) out" unfolding out by (rule quoted_report)
  have "set_mset (mset (ar_candidates out @ ar_rejected_candidates out)) = set_mset (mset cs)" by (simp only: out(1) output_candidates)
  then have cands: "set (ar_candidates out @ ar_rejected_candidates out) = set cs" unfolding set_mset_mset .
  then have "\<forall>c\<in>set (ar_candidates out). c \<in> set cs" by auto
  then have made: "\<forall>c\<in>set (ar_candidates out). made_from L fsqrt (cfg_analyst cfg) quote pf (rr_asset_hypotheses report) (clock s) c"
    using quoted_made_from unfolding out(2) s2(1) [symmetric] by blast
  have sid: "ar_portfolio_snapshot_id out = snapshot_id pf" by (simp add: out analysis_output_def Let_def)
  have some: "ar_candidates out \<noteq> []" by (rule tradable_reported [OF report pass])
  with report have status: "ar_status out = AS_PASS" by (simp add: report_of_quotes_def Let_def)
  let ?fw = "finished_world L (run_lease j s) e (Some EXECUTION) 100 None (analysis_status_value (ar_status out)) g s4"
  have fsl: "fresh_ids ?sl" by (rule fresh_leased [OF fresh])
  have "fresh_ids (?sl\<lparr>db := (db ?sl)\<lparr>portfolio_snapshots := portfolio_snapshots (db s) @ [pf]\<rparr>\<rparr>)"
    using fsl by (simp add: fresh_ids_def used_ids_def)
  then have f4: "fresh_ids s4" using fresh_moved_on m4(1) by blast
  have src: "uuid_source s4 = uuid_source s" "clock s4 = clock s" "conn_open s4 = conn_open s"
    "stage_messages (db s4) = stage_messages (db s)" "pipeline_traces (db s4) = pipeline_traces (db s)"
    "stage_jobs (db s4) = stage_jobs (db ?sl)" "broker_orders (db s4) = broker_orders (db s)" "broker_calls s4 = broker_calls s"
    "approval_requests (db s4) = approval_requests (db s)" "dialect s4 = dialect s"
    using m4(1) by (simp_all add: moved_on_def leased_world_reads) (simp_all add: leased_world_def Let_def update_job_def)
  have id: "env_message_id e = uuid_source s (uuid_draws s3)" "env_trace_id e = env_trace_id p" "env_payload e = dump_analysis L out"
    using m4(4) by (simp_all add: e drawn_envelope_def)
  from read_backD [OF codec] obtain v where v: "json_loads L (json_dumps L (env_payload e)) = Some v" "validate_analysis L v = Some out"
    unfolding id by blast
  from finished_hands_over [OF due fresh f4 g src(3,1,2,4,5,6) id(1) m4(2) _ id(2) none clock v(1), of 100 "analysis_status_value (ar_status out)"]
  obtain j' p' where q: "due_job L EXECUTION j' p' ?fw" "env_payload p' = v" "env_trace_id p' = env_trace_id p" "fresh_ids ?fw"
    "map msg_idempotency_key (stage_messages (db ?fw)) = map msg_idempotency_key (stage_messages (db s)) @ [?k]"
    "map job_stage (stage_jobs (db ?fw)) = map job_stage (stage_jobs (db s)) @ [EXECUTION]"
    using m4(3) by (auto simp: e drawn_envelope_def)
  let ?s' = "candidates_world (env_message_id e) (ar_candidates out) (ar_rejected_candidates out) ?fw"
  have due': "due_job L EXECUTION j' p' ?s'" by (rule due_job_candidates [OF q(1)])
  have round': "analyst_process_next L fsqrt cfg market (Inr pf) w s = (Inr True, ?s')" using round status by simp
  have rest: "validate_analysis L (env_payload p') = Some out" "env_trace_id p' = env_trace_id p"
    "map msg_idempotency_key (stage_messages (db ?s')) = map msg_idempotency_key (stage_messages (db s)) @ [?k]"
    "map job_stage (stage_jobs (db ?s')) = map job_stage (stage_jobs (db s)) @ [EXECUTION]"
    "broker_orders (db ?s') = broker_orders (db s)" "broker_calls ?s' = broker_calls s" "clock ?s' = clock s"
    "approval_requests (db ?s') = approval_requests (db s)" "dialect ?s' = dialect s"
    using q v(2) by (simp_all add: candidates_world_def finished_world_simps src)
  have "\<exists>k<length (rr_asset_hypotheses report). candidate_id c = uuid_source s2 (uuid_draws s2 + k)" if "c \<in> set cs" for c
    using that by (auto simp: out(2) quoted_candidates_def candidate_of_def Let_def enumerate_eq_zip dest!: set_zip_leftD)
  moreover have "uuid_draws s2 + k < uuid_draws ?fw" "uuid_source ?fw = uuid_source s2" if "k < length (rr_asset_hypotheses report)" for k
    using that s2(2,3) m4(3) by (simp_all add: finished_world_simps src(1))
  ultimately have "\<forall>c\<in>set cs. \<exists>i<uuid_draws ?fw. candidate_id c = uuid_source ?fw i" by metis
  with q(4) have fresh': "fresh_ids ?s'" using fresh_candidates cands by simp
  show ?thesis by (intro exI conjI) (rule round' due' report sid made some fresh' rest)+
qed

section \<open>All stages\<close>

text \<open>Three stages on: the analyst's report waits for the executor, under the trace the sender was told.\<close>

lemma alert_reaches_executor:
  assumes "empty_start s" and "accepted L cfg body headers = Some a"
    and "read_back L (dump_ingested L) (validate_ingested L)" and "read_back L (dump_research L) (validate_research L)"
    and "read_back L (dump_analysis L) (validate_analysis L)"
    and "hypotheses_of L (mirror_metadata a) \<noteq> []" and "market_url L (mirror_market a) \<noteq> []"
    and "\<forall>h\<in>set (hypotheses_of L (mirror_metadata a)). market (hyp_symbol h) = Inr (quote (hyp_symbol h))"
    and "\<exists>h\<in>set (hypotheses_of L (mirror_metadata a)). tradable_quote (cfg_analyst cfg) (quote (hyp_symbol h))"
  shows "\<exists>r s1 s2 s3 out trace_id j p.
    handle_alert L ve cfg sv body headers src s = (Inr r, s1) \<and> status_code r = 202 \<and>
    jget (response_body r) ''trace_id'' = JStr trace_id \<and>
    researcher_process_next L cfg w1 s1 = (Inr True, s2) \<and>
    analyst_process_next L fsqrt cfg market (Inr pf) w2 s2 = (Inr True, s3) \<and>
    report_of_quotes (cfg_analyst cfg) quote pf (hypotheses_of L (mirror_metadata a)) out \<and>
    (\<forall>c\<in>set (ar_candidates out). made_from L fsqrt (cfg_analyst cfg) quote pf (hypotheses_of L (mirror_metadata a)) (clock s) c) \<and>
    ar_candidates out \<noteq> [] \<and> ar_portfolio_snapshot_id out = snapshot_id pf \<and>
    due_job L EXECUTION j p s3 \<and> validate_analysis L (env_payload p) = Some out \<and> env_trace_id p = trace_id \<and>
    broker_orders (db s3) = [] \<and> broker_calls s3 = broker_calls s \<and> clock s3 = clock s \<and> fresh_ids s3 \<and>
    message_by_key (execution_key cfg p) (db s3) = None \<and> (\<forall>x\<in>set (stage_jobs (db s3)). job_stage x \<noteq> APPROVAL) \<and>
    approval_requests (db s3) = [] \<and> dialect s3 = dialect s"
proof -
  from first_delivery [OF assms(1,3), of sv a src] obtain r s1 j1 p1 i where
      one: "store_alert L sv a src s = (Inr r, s1)" "status_code r = 202" "jget (response_body r) ''trace_id'' = JStr (env_trace_id p1)"
      "due_job L RESEARCH j1 p1 s1" "fresh_ids s1" "ing_shift_alert i = a" "validate_ingested L (env_payload p1) = Some i"
      "stage_jobs (db s1) = [j1]" "map msg_idempotency_key (stage_messages (db s1)) = [build_ingest_key (mirror_alert_id a)]"
      "portfolio_snapshots (db s1) = []" "broker_orders (db s1) = []" "broker_calls s1 = broker_calls s" "clock s1 = clock s"
      "approval_requests (db s1) = []" "dialect s1 = dialect s"
    by (elim exE conjE) (rule that)
  have clock: "clock s k \<le> clock s (Suc k)" for k using assms(1) by (simp add: empty_start_def)
  have no_key: "message_by_key k (db x) = None" if "k \<notin> set (map msg_idempotency_key (stage_messages (db x)))" for k x
    using that by (auto simp: message_by_key_def find_None_all)
  let ?rk = "build_research_key (env_message_id p1) (rs_prompt_version (cfg_researcher cfg))"
  have stage1: "job_stage j1 = RESEARCH" using due_job_in [OF one(4)] by simp
  have "message_by_key ?rk (db s1) = None"
    by (rule no_key) (simp add: one(9) build_research_key_def build_ingest_key_def)
  moreover have "\<forall>x\<in>set (stage_jobs (db s1)). job_stage x \<noteq> ANALYSIS" using stage1 by (simp add: one(8))
  ultimately obtain s2 rr j2 p2 where
      two: "researcher_process_next L cfg w1 s1 = (Inr True, s2)" "due_job L ANALYSIS j2 p2 s2" "fresh_ids s2"
      "rr_asset_hypotheses rr = hypotheses_of L (mirror_metadata a)" "validate_research L (env_payload p2) = Some rr"
      "env_trace_id p2 = env_trace_id p1"
      "map msg_idempotency_key (stage_messages (db s2)) = map msg_idempotency_key (stage_messages (db s1)) @ [?rk]"
      "map job_stage (stage_jobs (db s2)) = map job_stage (stage_jobs (db s1)) @ [ANALYSIS]"
      "portfolio_snapshots (db s2) = portfolio_snapshots (db s1)" "broker_orders (db s2) = broker_orders (db s1)"
      "broker_calls s2 = broker_calls s1" "clock s2 = clock s1" "approval_requests (db s2) = approval_requests (db s1)" "dialect s2 = dialect s1"
    using researcher_hands_over [OF one(4,5,7), of cfg w1] clock assms(4,6,7) one(6,13) by fastforce
  let ?ak = "build_analysis_key (env_message_id p2) (ruleset_version (cfg_analyst cfg)) (iso_time L (captured_at pf))"
  have "message_by_key (build_analysis_key (env_message_id p2) (ruleset_version (cfg_analyst cfg)) (iso_time L (captured_at pf))) (db s2) = None"
    by (rule no_key) (simp add: two(7) one(9) build_research_key_def build_ingest_key_def build_analysis_key_def)
  moreover have "\<forall>x\<in>set (stage_jobs (db s2)). job_stage x \<noteq> EXECUTION"
  proof -
    have "EXECUTION \<notin> set (map job_stage (stage_jobs (db s2)))" unfolding two(8) one(8) using stage1 by simp
    then show ?thesis by (metis imageI set_map)
  qed
  moreover have "\<forall>x\<in>set (portfolio_snapshots (db s2)). snapshot_id x \<noteq> snapshot_id pf" by (simp add: two(9) one(10))
  moreover have "\<And>k. clock s2 k \<le> clock s2 (Suc k)" using clock by (simp add: two(12) one(13))
  moreover note assms(5) and assms(8,9) [folded two(4)]
  ultimately obtain s3 out j3 p3 where
      three: "analyst_process_next L fsqrt cfg market (Inr pf) w2 s2 = (Inr True, s3)" "due_job L EXECUTION j3 p3 s3"
      "report_of_quotes (cfg_analyst cfg) quote pf (rr_asset_hypotheses rr) out" "ar_portfolio_snapshot_id out = snapshot_id pf"
      "\<forall>c\<in>set (ar_candidates out). made_from L fsqrt (cfg_analyst cfg) quote pf (rr_asset_hypotheses rr) (clock s2) c"
      "ar_candidates out \<noteq> []" "validate_analysis L (env_payload p3) = Some out" "env_trace_id p3 = env_trace_id p2"
      "fresh_ids s3" "map msg_idempotency_key (stage_messages (db s3)) = map msg_idempotency_key (stage_messages (db s2)) @ [?ak]"
      "map job_stage (stage_jobs (db s3)) = map job_stage (stage_jobs (db s2)) @ [EXECUTION]"
      "broker_orders (db s3) = broker_orders (db s2)" "broker_calls s3 = broker_calls s2" "clock s3 = clock s2"
      "approval_requests (db s3) = approval_requests (db s2)" "dialect s3 = dialect s2"
    using analyst_hands_over [OF two(2,3,5), of pf market quote cfg fsqrt w2] by blast
  have sent: "handle_alert L ve cfg sv body headers src s = (Inr r, s1)" using one(1) handle_alert_accepted [OF assms(2)] by simp
  have rest: "env_trace_id p3 = env_trace_id p1" "broker_orders (db s3) = []" "broker_calls s3 = broker_calls s" "clock s3 = clock s"
    "approval_requests (db s3) = []" "dialect s3 = dialect s"
    by (simp_all add: three(8,12-16) two(6,10-14) one(11-15))
  have key: "message_by_key (execution_key cfg p3) (db s3) = None"
    by (rule no_key) (simp add: three(10) two(7) one(9) build_research_key_def build_ingest_key_def build_analysis_key_def execution_key_def build_execution_key_def)
  have "APPROVAL \<notin> set (map job_stage (stage_jobs (db s3)))" unfolding three(11) two(8) one(8) using stage1 by simp
  then have none: "\<forall>x\<in>set (stage_jobs (db s3)). job_stage x \<noteq> APPROVAL" by (metis imageI set_map)
  have made: "\<forall>c\<in>set (ar_candidates out). made_from L fsqrt (cfg_analyst cfg) quote pf (hypotheses_of L (mirror_metadata a)) (clock s) c"
    using three(5) by (simp add: two(4,12) one(13))
  show ?thesis
    by (intro exI conjI) (rule sent one(2,3) two(1) three(1) three(3) [unfolded two(4)] made three(6,4,2,7) rest(1-4) three(9) key none rest(5,6))+
qed

text \<open>
  C3 (liveness): an alert becomes an order. On an empty database, an accepted alert with at least one
  well-formed hypothesis and a market page is answered with 202; one round of the researcher and one
  of the analyst then return having done a job each, provided the market quotes every symbol, at least
  one of them tradably. The next round of the executor, outside manual mode, calls the broker if and
  only if the analyst's best candidate passes every risk check at that time, and then once, with that
  candidate's symbol, side and notional under the identifier of the trace that was returned to the sender.
\<close>

theorem alert_becomes_order:
  assumes "empty_start s" and "accepted L cfg body headers = Some a"
    and "read_back L (dump_ingested L) (validate_ingested L)" and "read_back L (dump_research L) (validate_research L)"
    and "read_back L (dump_analysis L) (validate_analysis L)" and "approval_mode (cfg_executor cfg) \<noteq> ''manual_all''"
    and "hypotheses_of L (mirror_metadata a) \<noteq> []" and "market_url L (mirror_market a) \<noteq> []"
    and "\<forall>h\<in>set (hypotheses_of L (mirror_metadata a)). market (hyp_symbol h) = Inr (quote (hyp_symbol h))"
    and "\<exists>h\<in>set (hypotheses_of L (mirror_metadata a)). tradable_quote (cfg_analyst cfg) (quote (hyp_symbol h))"
    and "get_portfolio_snapshot ctx (snapshot_id pf) = Inr pf"
  shows "\<exists>r s1 s2 s3 out cand trace_id.
    handle_alert L ve cfg sv body headers src s = (Inr r, s1) \<and> status_code r = 202 \<and>
    jget (response_body r) ''trace_id'' = JStr trace_id \<and>
    researcher_process_next L cfg w1 s1 = (Inr True, s2) \<and>
    analyst_process_next L fsqrt cfg market (Inr pf) w2 s2 = (Inr True, s3) \<and>
    report_of_quotes (cfg_analyst cfg) quote pf (hypotheses_of L (mirror_metadata a)) out \<and>
    first_max score (ar_candidates out) = Some cand \<and>
    made_from L fsqrt (cfg_analyst cfg) quote pf (hypotheses_of L (mirror_metadata a)) (clock s) cand \<and>
    broker_calls (snd (executor_process_next L cfg ctx br w3 s3)) = broker_calls s @
      (if risk_ok L (cfg_executor cfg) (clock s (Suc (clock_reads s3))) cand pf (get_circuit_breaker_state ctx)
       then [(intent_of cfg cand (the (last_price_of cand)),
              build_stable_order_id L trace_id (candidate_id cand) (risk_ruleset_version (cfg_executor cfg)))] else [])"
proof -
  from alert_reaches_executor [OF assms(1-5,7-10), of ve sv src w1 fsqrt pf w2] obtain r s1 s2 s3 out trace_id j p where
      sent: "handle_alert L ve cfg sv body headers src s = (Inr r, s1)" "status_code r = 202" "jget (response_body r) ''trace_id'' = JStr trace_id"
    and rounds: "researcher_process_next L cfg w1 s1 = (Inr True, s2)" "analyst_process_next L fsqrt cfg market (Inr pf) w2 s2 = (Inr True, s3)"
    and report: "report_of_quotes (cfg_analyst cfg) quote pf (hypotheses_of L (mirror_metadata a)) out"
      "\<forall>c\<in>set (ar_candidates out). made_from L fsqrt (cfg_analyst cfg) quote pf (hypotheses_of L (mirror_metadata a)) (clock s) c"
      "ar_candidates out \<noteq> []" "ar_portfolio_snapshot_id out = snapshot_id pf"
    and job: "due_job L EXECUTION j p s3" "validate_analysis L (env_payload p) = Some out" "env_trace_id p = trace_id"
    and rest: "broker_orders (db s3) = []" "broker_calls s3 = broker_calls s" "clock s3 = clock s"
    by (elim exE conjE) (rule that)
  obtain cand where cand: "first_max score (ar_candidates out) = Some cand" using report(3) by (metis first_max_None not_Some_eq)
  have made: "made_from L fsqrt (cfg_analyst cfg) quote pf (hypotheses_of L (mirror_metadata a)) (clock s) cand"
    using report(2) first_max_in [OF cand] by simp
  have "order_by_client_id k (db s3) = None" for k by (simp add: order_by_client_id_def rest(1))
  from executor_sends [OF job(1) assms(6) job(2) cand, of ctx pf br w3] this
  have "broker_calls (snd (executor_process_next L cfg ctx br w3 s3)) = broker_calls s @
      (if risk_ok L (cfg_executor cfg) (clock s (Suc (clock_reads s3))) cand pf (get_circuit_breaker_state ctx)
       then [(intent_of cfg cand (the (last_price_of cand)),
              build_stable_order_id L trace_id (candidate_id cand) (risk_ruleset_version (cfg_executor cfg)))] else [])"
    using assms(11) by (simp add: report(4) rest(2,3) job(3) order_id_of_def)
  then show ?thesis by (intro exI conjI) (rule sent rounds report(1) cand made | assumption)+
qed

section \<open>Evaluated examples\<close>

definition chain_world :: world where
  "chain_world = (demo_world empty_pdb)\<lparr>clock := \<lambda>_. 0\<rparr>"

lemma chain_start: "empty_start chain_world" "broker_calls chain_world = []" "clock chain_world n = 0"
  by (simp_all add: chain_world_def empty_start_def demo_world_def demo_uuid_inj del: replicate.simps)

lemma chain_accepted: "accepted lossless_lib automatic_config ''{}'' [] = Some chain_mirror"
  by (simp add: accepted_def lossless_lib_def automatic_config_def demo_config_def authorize_def verify_signature_def lower_headers_def
      header_or_empty_def chain_mirror_def demo_mirror_def)

lemma chain_upper: "map upper_char ''xle'' = ''XLE''"
  by code_simp

lemma chain_alert:
  "map hyp_symbol (hypotheses_of lossless_lib (mirror_metadata chain_mirror)) = [''XLE'']"
  "market_url lossless_lib (mirror_market chain_mirror) \<noteq> []"
  by (simp_all add: hypotheses_of_def hypothesis_of_def chain_mirror_def market_url_def jget_def jget_default_def jor_def py_str_def
      List.map_filter_simps str_upper_def chain_upper [simplified] Let_def)

lemma chain_risk_ok:
  assumes "made_from lossless_lib id (cfg_analyst automatic_config) (\<lambda>_. snd (hd demo_market)) demo_portfolio hs (\<lambda>_. 0) c"
  shows "risk_ok L (cfg_executor automatic_config) 0 c demo_portfolio (get_circuit_breaker_state demo_context) \<and> last_price_of c = Some 1"
proof -
  from assms obtain h i where c: "c = candidate_of lossless_lib id (cfg_analyst automatic_config) demo_portfolio h (snd (hd demo_market)) i 0"
    by (auto simp: made_from_def)
  have v: "dict_get (market_snapshot c) ''last_price'' = Some (JStr ''1'')" "dict_get (market_snapshot c) ''quote_age_sec'' = Some (JInt 1)"
    "broker_eligible c" "expiry_at c = minutes 15" "max_notional c = 5000"
    by (simp_all add: c candidate_of_def Let_def market_snapshot_of_def demo_market_def demo_portfolio_def lossless_lib_def demo_lib_def)
  then have p: "last_price_of c = Some 1" "quote_age_of c = Some 1"
    by (simp_all add: last_price_of_def quote_age_of_def jget_def jget_default_def jor_def demo_price_text)
  have e: "max_position_pct (cfg_executor automatic_config) = 1 / 20" "max_sector_exposure_pct (cfg_executor automatic_config) = 1 / 5"
    "max_gross_invested_pct (cfg_executor automatic_config) = 4 / 5" "stale_quote_sec (cfg_executor automatic_config) = 30"
    "max_daily_drawdown_pct (cfg_executor automatic_config) = 1 / 50" "consecutive_loss_limit (cfg_executor automatic_config) = 3"
    by (simp_all add: automatic_config_def demo_config_def)
  show ?thesis
    by (simp add: risk_ok_def v p e within_limits_def buy_def demo_portfolio_def sector_exposure_of_def
        demo_context_def static_context_provider_def breaker_default_def minutes_def seconds_def)
qed

theorem alert_becomes_order_witness:
  "\<exists>r s1 s2 s3 cand trace_id.
     handle_alert lossless_lib (\<lambda>_. JNull) automatic_config ''v1'' ''{}'' [] None chain_world = (Inr r, s1) \<and> status_code r = 202 \<and>
     researcher_process_next lossless_lib automatic_config ''r'' s1 = (Inr True, s2) \<and>
     analyst_process_next lossless_lib id automatic_config (static_market_data demo_market) (Inr demo_portfolio) ''a'' s2 = (Inr True, s3) \<and>
     broker_calls (snd (executor_process_next lossless_lib automatic_config demo_context (paper_broker_client lossless_lib) ''e'' s3)) =
       [(intent_of automatic_config cand 1, build_stable_order_id lossless_lib trace_id (candidate_id cand) ''v1'')]"
proof -
  let ?hs = "hypotheses_of lossless_lib (mirror_metadata chain_mirror)"
  have a: "approval_mode (cfg_executor automatic_config) \<noteq> ''manual_all''" by (simp add: automatic_config_def)
  have h: "?hs \<noteq> []" using chain_alert(1) by auto
  have "set (map hyp_symbol ?hs) = {''XLE''}" unfolding chain_alert(1) by simp
  then have sy: "\<forall>h\<in>set ?hs. hyp_symbol h = ''XLE''" by auto
  then have q: "\<forall>h\<in>set ?hs. static_market_data demo_market (hyp_symbol h) = Inr ((\<lambda>_. snd (hd demo_market)) (hyp_symbol h))"
    by (simp add: static_market_data_def demo_market_def)
  have "tradable_quote (cfg_analyst automatic_config) (snd (hd demo_market))"
    by (simp add: tradable_quote_def demo_market_def automatic_config_def demo_config_def spread_bps_def)
  with h have t: "\<exists>h\<in>set ?hs. tradable_quote (cfg_analyst automatic_config) ((\<lambda>_. snd (hd demo_market)) (hyp_symbol h))"
    using hd_in_set by blast
  have pf: "get_portfolio_snapshot demo_context (snapshot_id demo_portfolio) = Inr demo_portfolio"
    by (simp add: demo_context_def static_context_provider_def demo_portfolio_def)
  from alert_becomes_order [OF chain_start(1) chain_accepted lossless_models a h chain_alert(2) q t pf,
      of "\<lambda>_. JNull" "''v1''" None "''r''" id "''a''" "paper_broker_client lossless_lib" "''e''"]
  obtain r s1 s2 s3 out cand trace_id where
      sent: "handle_alert lossless_lib (\<lambda>_. JNull) automatic_config ''v1'' ''{}'' [] None chain_world = (Inr r, s1)" "status_code r = 202"
    and rounds: "researcher_process_next lossless_lib automatic_config ''r'' s1 = (Inr True, s2)"
      "analyst_process_next lossless_lib id automatic_config (static_market_data demo_market) (Inr demo_portfolio) ''a'' s2 = (Inr True, s3)"
    and made: "made_from lossless_lib id (cfg_analyst automatic_config) (\<lambda>_. snd (hd demo_market)) demo_portfolio ?hs (clock chain_world) cand"
    and calls: "broker_calls (snd (executor_process_next lossless_lib automatic_config demo_context (paper_broker_client lossless_lib) ''e'' s3)) =
      broker_calls chain_world @
      (if risk_ok lossless_lib (cfg_executor automatic_config) (clock chain_world (Suc (clock_reads s3))) cand demo_portfolio
            (get_circuit_breaker_state demo_context)
       then [(intent_of automatic_config cand (the (last_price_of cand)),
              build_stable_order_id lossless_lib trace_id (candidate_id cand) (risk_ruleset_version (cfg_executor automatic_config)))] else [])"
    by (elim exE conjE) (rule that)
  have "clock chain_world = (\<lambda>_. 0)" by (rule ext) (rule chain_start(3))
  with made have ok: "risk_ok lossless_lib (cfg_executor automatic_config) 0 cand demo_portfolio (get_circuit_breaker_state demo_context)"
    "last_price_of cand = Some 1" using chain_risk_ok by simp_all
  have "risk_ruleset_version (cfg_executor automatic_config) = ''v1''" by (simp add: automatic_config_def demo_config_def)
  with calls ok have calls': "broker_calls (snd (executor_process_next lossless_lib automatic_config demo_context (paper_broker_client lossless_lib) ''e'' s3)) =
      [(intent_of automatic_config cand 1, build_stable_order_id lossless_lib trace_id (candidate_id cand) ''v1'')]"
    by (simp add: chain_start)
  show ?thesis by (intro exI conjI) (rule sent rounds calls')+
qed

end
