(* ===== verification/Http_Services.thy ===== *)
theory Http_Services
  imports Operations Researcher
begin

text \<open>
  The two HTTP services (\<open>create_app\<close> and \<open>run_server\<close> of
  \<open>src/src/researcher/server.py\<close> and \<open>src/src/executor/server.py\<close>) as functions of
  a parsed request, with the payload of \<open>src/src/pipeline/health.py\<close> and the search clients of
  \<open>src/src/researcher/tools\<close>. Matching of path templates, query parsing and the answers to
  requests without a route are the web framework's: such requests have no value here.
\<close>

section \<open>Routes\<close>

datatype http_method = GET | POST

record http_request =
  req_method :: http_method
  req_path :: "string list"
  req_query :: "string dict"
  req_headers :: "string dict"
  req_body :: string

definition health_response :: http_response where
  "health_response = \<lparr>http_status = 200, http_body = [(''status'', JStr ''ok'')]\<rparr>"

definition receive_alert ::
  "lib \<Rightarrow> (string \<Rightarrow> json) \<Rightarrow> pipeline_config \<Rightarrow> string \<Rightarrow> http_request \<Rightarrow> http_response op" where
  "receive_alert L validation_errors cfg schema_version req =
     bindM (handle_alert L validation_errors cfg schema_version (req_body req) (req_headers req) None) (\<lambda>result.
     ret \<lparr>http_status = status_code result, http_body = response_body result\<rparr>)"

definition researcher_app ::
  "lib \<Rightarrow> (string \<Rightarrow> json) \<Rightarrow> pipeline_config \<Rightarrow> string \<Rightarrow> http_request \<Rightarrow> http_response op option" where
  "researcher_app L validation_errors cfg schema_version req =
     (if req_method req = POST \<and> req_path req = [''webhook'', ''alert'']
      then Some (receive_alert L validation_errors cfg schema_version req)
      else if req_method req = GET \<and> req_path req = [''health''] then Some (ret health_response)
      else None)"

text \<open>\<open>approver_id\<close> is a required query parameter, \<open>reason\<close> an optional one.\<close>

definition executor_app :: "http_request \<Rightarrow> http_response op option" where
  "executor_app req =
     (case (req_method req, req_path req) of
        (GET, [p]) \<Rightarrow> if p = ''health'' then Some (ret health_response) else None
      | (POST, [p, token, action]) \<Rightarrow>
          if p = ''approval'' \<and> action \<in> {''approve'', ''reject''}
          then map_option (\<lambda>approver_id.
                 if action = ''approve'' then approve_endpoint token approver_id (dict_get (req_query req) ''reason'')
                 else reject_endpoint token approver_id (dict_get (req_query req) ''reason''))
               (dict_get (req_query req) ''approver_id'')
          else None
      | _ \<Rightarrow> None)"

text \<open>
  A server from its start: it opens the database and answers one request after the other. An
  exception that a handler raises ends that request only.
\<close>

fun serve :: "(http_request \<Rightarrow> http_response op option) \<Rightarrow> http_request list \<Rightarrow> world \<Rightarrow> (py_error + http_response) option list \<times> world" where
  "serve app [] s = ([], s)"
| "serve app (req # reqs) s =
     (case app req of
        None \<Rightarrow> apfst (Cons None) (serve app reqs s)
      | Some handler \<Rightarrow> (case handler s of (r, s') \<Rightarrow> apfst (Cons (Some r)) (serve app reqs s')))"

definition run_server :: "(http_request \<Rightarrow> http_response op option) \<Rightarrow> http_request list \<Rightarrow> world
    \<Rightarrow> (py_error + http_response) option list \<times> world" where
  "run_server app reqs s = serve app reqs (snd (initialize s))"

definition build_health_payload :: "string \<Rightarrow> json dict \<Rightarrow> json dict" where
  "build_health_payload service extra =
     foldl (\<lambda>d kv. dict_set (fst kv) (snd kv) d) [(''service'', JStr service), (''status'', JStr ''ok'')] extra"

definition build_execution_stage_summary :: "string \<Rightarrow> string option \<Rightarrow> string" where
  "build_execution_stage_summary status symb =
     (case symb of
        Some x \<Rightarrow> if x \<noteq> [] then ''Execution status for '' @ x @ '': '' @ status else ''Execution status: '' @ status
      | None \<Rightarrow> ''Execution status: '' @ status)"

section \<open>Search clients\<close>

text \<open>
  The HTTP library is an argument: method, address, parameters or JSON body, and headers to the parsed
  body, or the exception of the call, the status check or the parser.
\<close>

type_synonym http_call = "http_method \<Rightarrow> string \<Rightarrow> json dict \<Rightarrow> string dict \<Rightarrow> py_error + json"

definition get_member :: "json \<Rightarrow> string \<Rightarrow> json \<Rightarrow> py_error + json" where
  "get_member v k fallback = (case as_dict v of None \<Rightarrow> Inl (OtherError ''AttributeError'') | Some d \<Rightarrow> Inr (jget_default d k fallback))"

definition brave_search :: "http_call \<Rightarrow> string \<Rightarrow> string \<Rightarrow> string \<Rightarrow> int \<Rightarrow> py_error + json" where
  "brave_search http api_key base_url query cnt =
     (if api_key = [] then Inl (RuntimeError ''Brave search API key is required'')
      else case http GET base_url [(''q'', JStr query), (''count'', JInt cnt)] [(''X-Subscription-Token'', api_key)] of
        Inl e \<Rightarrow> Inl e
      | Inr payload \<Rightarrow>
          (case get_member payload ''web'' (JDict []) of
             Inl e \<Rightarrow> Inl e
           | Inr web \<Rightarrow> get_member web ''results'' (JList [])))"

definition serper_search :: "http_call \<Rightarrow> string \<Rightarrow> string \<Rightarrow> string \<Rightarrow> int \<Rightarrow> py_error + json" where
  "serper_search http api_key base_url query num =
     (if api_key = [] then Inl (RuntimeError ''Serper API key is required'')
      else case http POST base_url [(''q'', JStr query), (''num'', JInt num)]
          [(''X-API-KEY'', api_key), (''Content-Type'', ''application/json'')] of
        Inl e \<Rightarrow> Inl e
      | Inr payload \<Rightarrow> get_member payload ''organic'' (JList []))"

definition strip_slashes :: "string \<Rightarrow> string" where
  "strip_slashes s = rev (dropWhile (\<lambda>c. c = CHR ''/'') (rev s))"

definition polymarket_event :: "http_call \<Rightarrow> string \<Rightarrow> string \<Rightarrow> py_error + json" where
  "polymarket_event http base_url slug =
     (case http GET (strip_slashes base_url @ ''/events'') [(''slug'', JStr slug), (''limit'', JInt 1)] [] of
        Inl e \<Rightarrow> Inl e
      | Inr payload \<Rightarrow> (case payload of JList (x # xs) \<Rightarrow> Inr x | _ \<Rightarrow> Inr (JDict [])))"

section \<open>What requests can change\<close>

definition trades_kept :: "(trade_intent \<times> string) list \<Rightarrow> order_row list \<Rightarrow> world \<Rightarrow> bool" where
  "trades_kept calls orders s \<longleftrightarrow> broker_calls s = calls \<and> broker_orders (db s) = orders"

lemma keeps_trades:
  assumes "framed m" and "preserves (\<lambda>s. broker_orders (db s) = orders) m"
  shows "preserves (trades_kept calls orders) m"
  using assms by (auto simp: preserves_def trades_kept_def framed_def env_of_def)

lemma decide_orders: "preserves (\<lambda>s. broker_orders (db s) = orders) (decide_with st token approver reason)"
  unfolding decide_with_def decide_approval_def Let_def
  by (intro keeps preserves_env) (auto simp: update_approval_def)

lemma decision_trades: "preserves (trades_kept calls orders) (decision_endpoint (decide_with st token who reason))"
proof -
  have p: "preserves (trades_kept calls orders) (decide_with st token who reason)"
    by (intro keeps_trades framed_approval decide_orders)
  have q: "preserves P (case e of KeyError m \<Rightarrow> ret (f m) | _ \<Rightarrow> raise e)" for P e and f :: "string \<Rightarrow> http_response"
    by (simp split: py_error.split add: preserves_ret preserves_raise)
  show ?thesis
    unfolding decision_endpoint_def by (intro preserves_tryM preserves_bindM p q preserves_ret)
qed

lemma ingest_trades: "preserves (trades_kept calls orders) (handle_alert L ve cfg sv body headers src)"
proof (rule keeps_trades [OF framed_handle_alert])
  have rows: "preserves (\<lambda>s. broker_orders (db s) = orders) (ensure_trace a b c d st f)"
    "preserves (\<lambda>s. broker_orders (db s) = orders) (upsert_message L e)"
    "preserves (\<lambda>s. broker_orders (db s) = orders) (enqueue_job t st m p av)" for a b c d st f e t m p av
    unfolding ensure_trace_def upsert_message_def upsert_message_conn_def enqueue_job_def enqueue_job_conn_def Let_def
    by (intro keeps preserves_env preserves_asks preserves_ret; simp add: update_trace_def)+
  show "preserves (\<lambda>s. broker_orders (db s) = orders) (handle_alert L ve cfg sv body headers src)"
    unfolding handle_alert_def store_alert_def new_envelope_def Let_def
    by (intro keeps preserves_env rows preserves_asks preserves_ret; simp)
qed

lemma request_trades:
  assumes "app \<in> {researcher_app L ve cfg sv, executor_app}" and "app req = Some h"
  shows "preserves (trades_kept calls orders) h"
proof -
  have "preserves (trades_kept calls orders) (receive_alert L ve cfg sv req)"
    unfolding receive_alert_def by (intro preserves_bindM ingest_trades preserves_ret)
  with assms show ?thesis
    by (auto simp: researcher_app_def executor_app_def approve_endpoint_def reject_endpoint_def approve_def reject_def
        intro!: decision_trades preserves_ret split: if_splits http_method.splits list.splits)
qed

text \<open>
  C37 (safety): no request to the HTTP services trades. Whatever requests the researcher's or the
  executor's server has answered since it was started, the broker was not called and no order was
  recorded, changed or removed.
\<close>

theorem requests_never_trade:
  assumes "app \<in> {researcher_app L ve cfg sv, executor_app}"
  shows "broker_calls (snd (run_server app reqs s)) = broker_calls s \<and>
    broker_orders (db (snd (run_server app reqs s))) = broker_orders (db s)"
proof -
  have "trades_kept calls orders (snd (serve app reqs s))" if "trades_kept calls orders s" for calls orders and s :: world
    using that
  proof (induction reqs arbitrary: s)
    case (Cons req reqs)
    show ?case
    proof (cases "app req")
      case (Some h)
      obtain r s' where h: "h s = (r, s')" by fastforce
      with request_trades [OF assms Some] Cons.prems have "trades_kept calls orders s'" by (blast dest: preservesD)
      with Cons.IH Some h show ?thesis by simp
    qed (use Cons in simp)
  qed simp
  moreover have "trades_kept (broker_calls s) (broker_orders (db s)) (snd (initialize s))"
    by (simp add: trades_kept_def initialize_def)
  ultimately have "trades_kept (broker_calls s) (broker_orders (db s)) (snd (run_server app reqs s))"
    by (simp add: run_server_def)
  then show ?thesis by (simp add: trades_kept_def)
qed

text \<open>
  What a decision at the executor's API does. A known callback token is answered with
  200 and the decision, which is then in the rows of that token and in no other; an unknown one is
  answered with 404 and changes no row.
\<close>

theorem decision_answered:
  assumes "conn_open s" and "req_method req = POST" and "req_path req = [''approval'', token, action]"
    and "action \<in> {''approve'', ''reject''}" and "dict_get (req_query req) ''approver_id'' = Some who"
  shows "\<exists>h r s'. executor_app req = Some h \<and> h s = (Inr r, s') \<and>
    (let status = (if action = ''approve'' then ''approved'' else ''rejected'') in
     case List.find (\<lambda>a. ap_callback_token a = token) (approval_requests (db s)) of
       None \<Rightarrow> http_status r = 404 \<and> db s' = db s
     | Some a \<Rightarrow> http_status r = 200 \<and>
         http_body r = [(''approval_id'', JStr (ap_approval_id a)), (''status'', JStr status)] \<and>
         db s' = (db s)\<lparr>approval_requests := map (\<lambda>x. if ap_callback_token x = token
            then x\<lparr>ap_status := status, ap_decided_at := Some (clock s (clock_reads s)), ap_approver_id := Some who,
                 ap_decision_reason := dict_get (req_query req) ''reason''\<rparr> else x) (approval_requests (db s))\<rparr>)"
proof -
  let ?status = "if action = ''approve'' then ''approved'' else ''rejected''"
  have app: "executor_app req = Some (decision_endpoint (decide_with ?status token who (dict_get (req_query req) ''reason'')))"
    using assms(2-5) by (auto simp: executor_app_def approve_endpoint_def reject_endpoint_def approve_def reject_def)
  show ?thesis
    using assms(1)
    by (cases "List.find (\<lambda>a. ap_callback_token a = token) (approval_requests (db s))")
      (simp_all add: app Let_def decision_endpoint_def decide_with_def decide_approval_def op_defs tx_def update_approval_def)
qed

text \<open>A search client never reaches the network without its key.\<close>

lemma search_needs_key:
  "brave_search http [] base q n = Inl (RuntimeError ''Brave search API key is required'')"
  "serper_search http [] base q n = Inl (RuntimeError ''Serper API key is required'')"
  by (simp_all add: brave_search_def serper_search_def)

section \<open>Evaluated examples\<close>

definition demo_decision_request :: http_request where
  "demo_decision_request = \<lparr>req_method = POST, req_path = [''approval'', ''t'', ''approve''],
     req_query = [(''approver_id'', ''ann'')], req_headers = [], req_body = []\<rparr>"

theorem decision_answered_witness:
  "\<exists>h r s'. executor_app demo_decision_request = Some h \<and> h (demo_world (demo_db EXECUTION)) = (Inr r, s') \<and>
     http_status r = 404 \<and> db s' = demo_db EXECUTION"
proof -
  have "conn_open (demo_world (demo_db EXECUTION))" by (simp add: demo_world_def)
  moreover have "List.find (\<lambda>a. ap_callback_token a = ''t'') (approval_requests (db (demo_world (demo_db EXECUTION)))) = None"
    "db (demo_world (demo_db EXECUTION)) = demo_db EXECUTION"
    by (simp_all add: demo_world_def demo_db_def empty_pdb_def)
  ultimately show ?thesis
    using decision_answered [of "demo_world (demo_db EXECUTION)" demo_decision_request "''t''" "''approve''" "''ann''"]
    by (simp add: demo_decision_request_def)
qed

theorem requests_never_trade_witness:
  "broker_orders (db (snd (run_server executor_app [demo_decision_request] (demo_world (demo_db EXECUTION))))) = []"
  using requests_never_trade [of executor_app demo_lib "\<lambda>_. JNull" demo_config "''v1''" "[demo_decision_request]" "demo_world (demo_db EXECUTION)"]
  by (simp add: demo_world_def demo_db_def empty_pdb_def)

end
