(* ===== verification/Manual_Approval.thy ===== *)
theory Manual_Approval
  imports Handover Executor_Round Http_Services Model_Codecs
begin

text \<open>
  Manual mode from end to end, on SQLite: the executor's round asks for an approval, somebody decides
  at the executor's API, and the approval worker's round sends the order or does not.
\<close>

section \<open>The executor asks\<close>

text \<open>Identifiers and tokens not drawn yet are in no approval request.\<close>

definition fresh_approvals :: "world \<Rightarrow> bool" where
  "fresh_approvals s \<longleftrightarrow>
     (\<forall>a\<in>set (approval_requests (db s)). (\<forall>i\<ge>uuid_draws s. ap_approval_id a \<noteq> uuid_source s i \<and> ap_message_id a \<noteq> uuid_source s i) \<and>
        (\<forall>i\<ge>token_draws s. ap_callback_token a \<noteq> token_source s i))"

text \<open>The request made for message \<open>e\<close>, and the world that holds it.\<close>

definition requested_row :: "pipeline_config \<Rightarrow> pipeline_envelope \<Rightarrow> pipeline_envelope \<Rightarrow> uuid \<Rightarrow> world \<Rightarrow> approval_row" where
  "requested_row cfg p e cand s =
     \<lparr>ap_approval_id = uuid_source s (uuid_draws s), ap_trace_id = env_trace_id p, ap_message_id = env_message_id e,
      ap_candidate_id = cand, ap_channel = ''manual'', ap_status = ''requested'', ap_requested_at = clock s (Suc (clock_reads s)),
      ap_expires_at = clock s (clock_reads s) + minutes (approval_timeout_minutes (cfg_executor cfg)),
      ap_decided_at = None, ap_approver_id = None, ap_decision_reason = None, ap_callback_token = token_source s (token_draws s)\<rparr>"

definition requested_world :: "pipeline_config \<Rightarrow> pipeline_envelope \<Rightarrow> pipeline_envelope \<Rightarrow> uuid \<Rightarrow> world \<Rightarrow> world" where
  "requested_world cfg p e cand s = s\<lparr>clock_reads := Suc (Suc (clock_reads s)), uuid_draws := Suc (uuid_draws s),
     token_draws := Suc (token_draws s),
     db := (db s)\<lparr>approval_requests := approval_requests (db s) @ [requested_row cfg p e cand s]\<rparr>\<rparr>"

lemma approval_request_eq:
  assumes "conn_open s" and "dialect s = Sqlite" and "fresh_approvals s"
  shows "approval_request_op (env_trace_id p) (env_message_id e) cand ''manual'' (approval_timeout_minutes (cfg_executor cfg)) s =
    (Inr (uuid_source s (uuid_draws s), token_source s (token_draws s),
       clock s (clock_reads s) + minutes (approval_timeout_minutes (cfg_executor cfg))), requested_world cfg p e cand s)"
proof -
  have "\<forall>a\<in>set (approval_requests (db s)). ap_approval_id a \<noteq> uuid_source s (uuid_draws s) \<and> ap_callback_token a \<noteq> token_source s (token_draws s)"
    using assms(3) by (auto simp: fresh_approvals_def)
  with assms(1,2) show ?thesis
    by (simp add: approval_request_op_def create_approval_request_def op_defs tx_def insert_row_def Let_def requested_world_def requested_row_def)
qed

lemma request_approval_eq:
  assumes s: "conn_open s" "reads L i (db s) p" "fresh_ids s" "message_by_key (execution_key cfg p) (db s) = None"
    and "dialect s = Sqlite" and "fresh_approvals s"
  shows "\<exists>e s1 g decision. request_approval L cfg l p intent cand checks t s =
      (Inr True, finished_world L l e (Some APPROVAL) 100 None ''awaiting_approval'' g s1) \<and>
    e = (drawn_envelope p EXECUTION (execution_key cfg p) (JDict []) s)\<lparr>env_payload := dump_decision L decision\<rparr> \<and>
    ed_intent decision = Some intent \<and> same_run g \<and>
    s1 = (requested_world cfg p e cand (s\<lparr>uuid_draws := Suc (uuid_draws s), clock_reads := Suc (clock_reads s)\<rparr>))\<lparr>perf_reads := Suc (perf_reads s)\<rparr>"
proof -
  let ?k = "execution_key cfg p"
  let ?e0 = "drawn_envelope p EXECUTION ?k (JDict []) s" and ?s0 = "s\<lparr>uuid_draws := Suc (uuid_draws s), clock_reads := Suc (clock_reads s)\<rparr>"
  define decision where "decision = (decision_default AWAITING_APPROVAL ''Execution passed risk checks and is awaiting manual approval.'')
    \<lparr>ed_selected_candidate_id := Some cand, ed_intent := Some intent, ed_risk_checks := checks,
      ed_approval_id := Some (uuid_source ?s0 (uuid_draws ?s0))\<rparr>"
  define e where "e = ?e0\<lparr>env_payload := dump_decision L decision\<rparr>"
  let ?s2 = "requested_world cfg p e cand ?s0"
  let ?s1 = "?s2\<lparr>perf_reads := Suc (perf_reads s)\<rparr>"
  have "fresh_approvals ?s0" using assms(6) by (simp add: fresh_approvals_def)
  then have ask: "approval_request_op (env_trace_id p) (env_message_id ?e0) cand ''manual'' (approval_timeout_minutes (cfg_executor cfg)) ?s0 =
      (Inr (uuid_source ?s0 (uuid_draws ?s0), token_source ?s0 (token_draws ?s0),
         clock ?s0 (clock_reads ?s0) + minutes (approval_timeout_minutes (cfg_executor cfg))), requested_world cfg p ?e0 cand ?s0)"
    using s(1) assms(5) by (intro approval_request_eq) simp_all
  have row: "requested_world cfg p ?e0 cand ?s0 = ?s2" by (simp add: requested_world_def requested_row_def e_def)
  obtain au where au: "timed_audit e t ?s2 = (Inr au, ?s2\<lparr>perf_reads := Suc (perf_reads ?s2)\<rparr>)" using timed_audit_eq by blast
  have p2: "?s2\<lparr>perf_reads := Suc (perf_reads ?s2)\<rparr> = ?s1" by (simp add: requested_world_def)
  have "storable ?e0 s" by (rule drawn_storable [OF s(2,3,4)])
  then have st: "storable e ?s1"
    by (simp add: storable_def e_def requested_world_def message_by_key_def find_message_def find_trace_def split: option.splits)
  have "\<forall>x\<in>set (stage_jobs (db ?s1)). job_id x \<noteq> uuid_source ?s1 (uuid_draws ?s1)"
    using fresh_idsD(2) [OF s(3), of "Suc (Suc (uuid_draws s))"] by (simp add: requested_world_def)
  from complete_success_storable [OF _ st this, of L l "Some au" "Some APPROVAL" 100 None "''awaiting_approval''"] obtain g where g: "same_run g"
    "complete_job_success L l (Some e) (Some au) (Some APPROVAL) 100 None ''awaiting_approval'' ?s1 =
       (Inr (Some (env_message_id e)), finished_world L l e (Some APPROVAL) 100 None ''awaiting_approval'' g ?s1)"
    using s(1) by (auto simp: requested_world_def)
  have child: "child_envelope p EXECUTION ?k (JDict []) s = (Inr ?e0, ?s0)" by (rule child_envelope_eq)
  have status: "execution_status_value (ed_status decision) = ''awaiting_approval''" by (simp add: decision_def decision_default_def)
  have "request_approval L cfg l p intent cand checks t s = (Inr True, finished_world L l e (Some APPROVAL) 100 None ''awaiting_approval'' g ?s1)"
    unfolding request_approval_def
    by (simp only: bindM_Inr [where m = "child_envelope p EXECUTION k pl" for k pl, OF child] bindM_Inr [where m = "approval_request_op a b c d m" for a b c d m, OF ask] row prod.case Let_def
        decision_def [symmetric] e_def [symmetric] bindM_Inr [where m = "timed_audit x t" for x, OF au] p2 status 
        bindM_Inr [where m = "complete_job_success L x y z a b c d" for x y z a b c d, OF g(2)])
      (simp add: ret_def)
  moreover have "ed_intent decision = Some intent" by (simp add: decision_def)
  ultimately show ?thesis using g(1) e_def by blast
qed


text \<open>The intent inside a decision survives being dumped, written as JSON and read back.\<close>

definition intent_read_back :: "lib \<Rightarrow> bool" where
  "intent_read_back L \<longleftrightarrow> (\<forall>d i. ed_intent d = Some i \<longrightarrow>
     (\<exists>o' raw. json_loads L (json_dumps L (dump_decision L d)) = Some (JDict o') \<and> dict_get o' ''intent'' = Some raw \<and>
        validate_intent L raw = Some i))"

text \<open>The only approval job is due, carries the intent, and its message has one request, with that token.\<close>

definition awaiting :: "lib \<Rightarrow> job_row \<Rightarrow> pipeline_envelope \<Rightarrow> trade_intent \<Rightarrow> string \<Rightarrow> string \<Rightarrow> world \<Rightarrow> bool" where
  "awaiting L j p intent token status s \<longleftrightarrow> due_job L APPROVAL j p s \<and> (\<forall>x\<in>set (stage_jobs (db s)). job_stage x = APPROVAL \<longrightarrow> x = j) \<and>
     (\<exists>d raw. env_payload p = JDict d \<and> dict_get d ''intent'' = Some raw \<and> validate_intent L raw = Some intent) \<and>
     (\<exists>a. filter (\<lambda>r. ap_message_id r = job_message_id j) (approval_requests (db s)) = [a] \<and> ap_status a = status \<and> ap_callback_token a = token)"

lemma request_approval_awaiting:
  assumes s: "conn_open s" "reads L i (db s) p" "fresh_ids s" "message_by_key (execution_key cfg p) (db s) = None"
    and "dialect s = Sqlite" and "fresh_approvals s" and none: "\<forall>x\<in>set (stage_jobs (db s)). job_stage x \<noteq> APPROVAL"
    and l: "\<exists>x\<in>set (stage_jobs (db s)). job_id x = lease_job_id l" and clock: "\<And>i. clock s i \<le> clock s (Suc i)"
    and codec: "intent_read_back L"
  shows "\<exists>s' j' p'. request_approval L cfg l p intent cand checks t s = (Inr True, s') \<and>
    awaiting L j' p' intent (token_source s (token_draws s)) ''requested'' s' \<and> env_trace_id p' = env_trace_id p \<and>
    broker_calls s' = broker_calls s \<and> broker_orders (db s') = broker_orders (db s) \<and> clock s' = clock s"
proof -
  from request_approval_eq [OF assms(1-6), of l intent cand checks t] obtain e s1 g decision where
    eq: "request_approval L cfg l p intent cand checks t s = (Inr True, finished_world L l e (Some APPROVAL) 100 None ''awaiting_approval'' g s1)"
    and e: "e = (drawn_envelope p EXECUTION (execution_key cfg p) (JDict []) s)\<lparr>env_payload := dump_decision L decision\<rparr>"
    and d: "ed_intent decision = Some intent" and g: "same_run g"
    and s1: "s1 = (requested_world cfg p e cand (s\<lparr>uuid_draws := Suc (uuid_draws s), clock_reads := Suc (clock_reads s)\<rparr>))\<lparr>perf_reads := Suc (perf_reads s)\<rparr>"
    by blast
  let ?fw = "finished_world L l e (Some APPROVAL) 100 None ''awaiting_approval'' g s1"
  have id: "env_message_id e = uuid_source s (uuid_draws s)" "env_trace_id e = env_trace_id p" "env_payload e = dump_decision L decision"
    by (simp_all add: e drawn_envelope_def)
  have w: "conn_open s1" "uuid_source s1 = uuid_source s" "clock s1 = clock s" "uuid_draws s1 = Suc (Suc (uuid_draws s))"
    "stage_messages (db s1) = stage_messages (db s)" "pipeline_traces (db s1) = pipeline_traces (db s)" "stage_jobs (db s1) = stage_jobs (db s)"
    "broker_orders (db s1) = broker_orders (db s)" "broker_calls s1 = broker_calls s"
    using s(1) by (simp_all add: s1 requested_world_def)
  have f1: "fresh_ids s1" using s(3) by (simp add: fresh_ids_def used_ids_def s1 requested_world_def)
  have ff: "fresh_ids ?fw" by (rule fresh_finished [OF g f1, of e "uuid_draws s"]) (simp_all add: id w)
  obtain tr where tr: "find_trace (env_trace_id e) (db s1) = Some tr"
    using s(2) by (auto simp: reads_def envelope_of_def find_trace_def id w)
  have new: "find_message (env_message_id e) (db s1) = None"
    using fresh_idsD(1) [OF s(3) order_refl] by (auto simp: find_message_def find_None_all id w)
  from codec d obtain v raw where v: "json_loads L (json_dumps L (env_payload e)) = Some (JDict v)" "dict_get v ''intent'' = Some raw"
    "validate_intent L raw = Some intent"
    unfolding intent_read_back_def id by blast
  have jobs: "\<forall>x\<in>set (stage_jobs (db s1)). job_id x \<noteq> uuid_source s1 (uuid_draws s1)" using fresh_idsD(2) [OF f1 order_refl] by blast
  have "clock s1 (Suc (clock_reads s1)) \<le> clock s1 (Suc (Suc (clock_reads s1)))" using clock by (simp add: w)
  from queued_due [OF w(1) new tr none [folded w(7)] jobs l [folded w(7)] ff this v(1)] obtain j' p' where
    j: "due_job L APPROVAL j' p' ?fw" "env_payload p' = JDict v" "env_message_id p' = env_message_id e" "env_trace_id p' = env_trace_id p"
      "\<forall>x\<in>set (stage_jobs (db ?fw)). job_stage x = APPROVAL \<longrightarrow> x = j'"
    by (auto simp: id)
  have mid: "job_message_id j' = env_message_id e" using j(1,3) reads_id by (auto simp: due_job_def)
  let ?row = "requested_row cfg p e cand (s\<lparr>uuid_draws := Suc (uuid_draws s), clock_reads := Suc (clock_reads s)\<rparr>)"
  have "approval_requests (db ?fw) = approval_requests (db s) @ [?row]" by (simp add: finished_world_simps s1 requested_world_def)
  moreover have "\<forall>a\<in>set (approval_requests (db s)). ap_message_id a \<noteq> job_message_id j'" using assms(6) by (simp add: fresh_approvals_def mid id)
  ultimately have "filter (\<lambda>r. ap_message_id r = job_message_id j') (approval_requests (db ?fw)) = [?row]"
    by (simp add: filter_empty_conv requested_row_def mid)
  then have "awaiting L j' p' intent (token_source s (token_draws s)) ''requested'' ?fw"
    using j v by (simp add: awaiting_def requested_row_def)
  with eq j(4) show ?thesis
    by (intro exI conjI) (assumption | simp add: finished_world_simps w)+
qed

lemma executor_asks:
  assumes due: "due_job L EXECUTION j p s" and mode: "approval_mode (cfg_executor cfg) = ''manual_all''"
    and valid: "validate_analysis L (env_payload p) = Some report" "first_max score (ar_candidates report) = Some cand"
    and pf: "get_portfolio_snapshot ctx (ar_portfolio_snapshot_id report) = Inr pf"
    and ok: "risk_ok L (cfg_executor cfg) (clock s (Suc (clock_reads s))) cand pf (get_circuit_breaker_state ctx)"
    and fresh: "fresh_ids s" "fresh_approvals s" and "dialect s = Sqlite"
    and key: "message_by_key (execution_key cfg p) (db s) = None"
    and none: "\<forall>x\<in>set (stage_jobs (db s)). job_stage x \<noteq> APPROVAL" and clock: "\<And>i. clock s i \<le> clock s (Suc i)"
    and codec: "intent_read_back L"
  shows "\<exists>s' j' p'. executor_process_next L cfg ctx br w s = (Inr True, s') \<and>
    awaiting L j' p' (intent_of cfg cand (the (last_price_of cand))) (token_source s (token_draws s)) ''requested'' s' \<and>
    env_trace_id p' = env_trace_id p \<and> broker_calls s' = broker_calls s \<and> broker_orders (db s') = broker_orders (db s) \<and> clock s' = clock s"
proof -
  let ?s1 = "leased_world w (lease_sec (cfg_queue cfg)) j s"
  let ?s2 = "?s1\<lparr>perf_reads := Suc (perf_reads ?s1)\<rparr>" and ?t = "perf_source ?s1 (perf_reads ?s1)"
  let ?s3 = "?s2\<lparr>clock_reads := Suc (clock_reads ?s2)\<rparr>"
  let ?intent = "intent_of cfg cand (the (last_price_of cand))"
  have lw: "clock ?s1 = clock s" "clock_reads ?s1 = Suc (clock_reads s)" "dialect ?s1 = dialect s" "token_source ?s1 = token_source s"
    "token_draws ?s1 = token_draws s" "uuid_source ?s1 = uuid_source s" "uuid_draws ?s1 = Suc (uuid_draws s)"
    "map job_stage (stage_jobs (db ?s1)) = map job_stage (stage_jobs (db s))" "map job_id (stage_jobs (db ?s1)) = map job_id (stage_jobs (db s))"
    by (simp_all add: leased_world_def Let_def update_job_def lease_update_def)
  have get: "get_message L (lease_message_id (run_lease j s)) ?s2 = (Inr p, ?s2)"
    using due by (intro get_message_reads) (simp_all add: due_job_def leased_world_reads lease_of_def)
  from ok obtain checks where checks: "execute_candidate L cfg ctx br (run_lease j s) p report cand ?t ?s2 =
      request_approval L cfg (run_lease j s) p ?intent (candidate_id cand) checks ?t ?s3"
    using execute_candidate_passes [OF pf, of L cfg ?s2 cand br "run_lease j s" p ?t] mode by (auto simp: lw Let_def)
  have "execute_job L cfg ctx br (run_lease j s) ?t ?s2 = execute_candidate L cfg ctx br (run_lease j s) p report cand ?t ?s2"
    unfolding execute_job_def by (simp add: bindM_def get from_option_def valid ret_def)
  note exec = this [unfolded checks]
  have reads: "reads L (job_message_id j) (db ?s3) p" "conn_open ?s3" using due by (simp_all add: due_job_def leased_world_reads)
  have f3: "fresh_ids ?s3" using fresh_leased [OF fresh(1)] by (simp add: fresh_ids_def)
  have a3: "fresh_approvals ?s3" using fresh(2) by (simp add: fresh_approvals_def leased_world_reads lw)
  have k3: "message_by_key (execution_key cfg p) (db ?s3) = None" using key by (simp add: message_by_key_def leased_world_reads)
  have n3: "\<forall>x\<in>set (stage_jobs (db ?s3)). job_stage x \<noteq> APPROVAL"
    using none arg_cong [OF lw(8), of set] by (auto simp: set_map) (metis imageE imageI)
  have j3: "\<exists>x\<in>set (stage_jobs (db ?s3)). job_id x = lease_job_id (run_lease j s)"
    using due_job_in [OF due] arg_cong [OF lw(9), of set] by (simp add: lease_of_def set_map) (metis imageE imageI)
  have "dialect ?s3 = Sqlite" "\<And>i. clock ?s3 i \<le> clock ?s3 (Suc i)" using assms(9) clock by (simp_all add: lw)
  from request_approval_awaiting [OF reads(2,1) f3 k3 this(1) a3 n3 j3 this(2) codec, of ?intent "candidate_id cand" checks ?t]
  obtain s' j' p' where s': "request_approval L cfg (run_lease j s) p ?intent (candidate_id cand) checks ?t ?s3 = (Inr True, s')"
    "awaiting L j' p' ?intent (token_source s (token_draws s)) ''requested'' s'" "env_trace_id p' = env_trace_id p"
    "broker_calls s' = broker_calls s" "broker_orders (db s') = broker_orders (db s)" "clock s' = clock s"
    by (auto simp: lw leased_world_reads)
  have "execute_job L cfg ctx br (run_lease j s) ?t ?s2 = (Inr True, s')" unfolding exec by (rule s'(1))
  then have "executor_process_next L cfg ctx br w s = (Inr True, s')"
    by (simp add: executor.due_round [OF due] bindM_def perf_counter_def tryM_def)
  with s' show ?thesis by blast
qed


section \<open>Somebody decides\<close>

definition decided_row :: "string \<Rightarrow> string \<Rightarrow> string option \<Rightarrow> timestamp \<Rightarrow> approval_row \<Rightarrow> approval_row" where
  "decided_row status who reason now a =
     a\<lparr>ap_status := status, ap_decided_at := Some now, ap_approver_id := Some who, ap_decision_reason := reason\<rparr>"

lemma decide_known:
  assumes "conn_open s" and "List.find (\<lambda>a. ap_callback_token a = token) (approval_requests (db s)) = Some a"
  shows "\<exists>r. decision_endpoint (decide_with status token who reason) s = (Inr r, s\<lparr>clock_reads := Suc (Suc (clock_reads s)),
      db := update_approval token (decided_row status who reason (clock s (clock_reads s))) (db s)\<rparr>) \<and> http_status r = 200"
  using assms by (simp add: decision_endpoint_def decide_with_def decide_approval_def op_defs tx_def update_approval_def decided_row_def)

lemma awaiting_decided:
  assumes wait: "awaiting L j p intent token status s" and "clock s (clock_reads s) \<le> clock s (Suc (Suc (clock_reads s)))"
  shows "\<exists>r s'. decision_endpoint (decide_with status' token who reason) s = (Inr r, s') \<and> http_status r = 200 \<and>
    awaiting L j p intent token status' s' \<and> broker_calls s' = broker_calls s \<and> broker_orders (db s') = broker_orders (db s)"
proof -
  from wait obtain a where a: "filter (\<lambda>r. ap_message_id r = job_message_id j) (approval_requests (db s)) = [a]" "ap_callback_token a = token"
    by (auto simp: awaiting_def)
  have "a \<in> set (filter (\<lambda>r. ap_message_id r = job_message_id j) (approval_requests (db s)))" unfolding a(1) by simp
  then have "a \<in> set (approval_requests (db s))" by simp
  then obtain a' where "List.find (\<lambda>a. ap_callback_token a = token) (approval_requests (db s)) = Some a'"
    using a(2) by (cases "List.find (\<lambda>a. ap_callback_token a = token) (approval_requests (db s))") (auto simp: find_None_all)
  moreover have "conn_open s" using wait by (simp add: awaiting_def due_job_def)
  ultimately obtain r where r: "decision_endpoint (decide_with status' token who reason) s = (Inr r, s\<lparr>clock_reads := Suc (Suc (clock_reads s)),
      db := update_approval token (decided_row status' who reason (clock s (clock_reads s))) (db s)\<rparr>)" "http_status r = 200"
    using decide_known by blast
  let ?s' = "s\<lparr>clock_reads := Suc (Suc (clock_reads s)), db := update_approval token (decided_row status' who reason (clock s (clock_reads s))) (db s)\<rparr>"
  have "due_job L APPROVAL j p ?s'"
    by (rule due_job_later [of L APPROVAL j p s]) (use wait assms(2) \<open>conn_open s\<close> in \<open>auto simp: awaiting_def update_approval_def\<close>)
  moreover have "filter (\<lambda>r. ap_message_id r = m) (map (\<lambda>r. if ap_callback_token r = token then decided_row status' who reason t r else r) xs) =
      map (\<lambda>r. if ap_callback_token r = token then decided_row status' who reason t r else r) (filter (\<lambda>r. ap_message_id r = m) xs)" for m t xs
    by (induction xs) (auto simp: decided_row_def)
  ultimately have "awaiting L j p intent token status' ?s'"
    using wait a by (auto simp: awaiting_def update_approval_def decided_row_def)
  with r show ?thesis by (auto simp: update_approval_def)
qed

lemma awaiting_request:
  assumes "awaiting L j p intent token status s"
  shows "\<exists>a. approval_by_message (job_message_id j) (db s) = Some a \<and> ap_status a = status"
  using assms by (auto simp: awaiting_def approval_by_message_def)

section \<open>The approval worker carries the decision out\<close>

lemma refused_job_quiet:
  assumes due: "due_job L APPROVAL j p s" and "approval_by_message (job_message_id j) (db s) = Some a"
    and "ap_status a \<notin> {''approved'', ''requested''}"
  shows "broker_calls (snd (approval_process_next L cfg br w s)) = broker_calls s"
proof -
  let ?s1 = "leased_world w (lease_sec (cfg_queue cfg)) j s"
  have "get_approval_request_by_message (env_message_id p) ?s1 = (Inr (Some a), ?s1)"
    using assms(2) reads_id due
    by (auto simp: due_job_def get_approval_request_by_message_def tx_def op_defs approval_by_message_def leased_world_reads)
  moreover have "get_message L (lease_message_id (run_lease j s)) ?s1 = (Inr p, ?s1)"
    using due_job_reads [OF due] by (simp add: lease_of_def)
  ultimately have "approval_job L cfg br (run_lease j s) ?s1 = bindM (from_option (ValidationError ''payload'') (as_dict (env_payload p)))
      (\<lambda>payload. approval_ended L (run_lease j s) p payload (ap_status a)) ?s1"
    using assms(3) by (simp add: approval_job_def bindM_def expire_if_due_def ret_def)
  moreover have "framed (bindM (from_option (ValidationError ''payload'') (as_dict (env_payload p)))
      (\<lambda>payload. approval_ended L (run_lease j s) p payload (ap_status a)))"
    by (intro frame framed_approval_parts framed_from_option)
  ultimately show ?thesis
    by (simp add: approval.due_round [OF due] tryM_framed_calls framed_retry framed_calls_snd leased_world_reads)
qed

text \<open>A decision at the API, and then the approval worker's round.\<close>

lemma decision_carried_out:
  assumes wait: "awaiting L j p intent token status s" and clock: "\<And>i. clock s i \<le> clock s (Suc i)"
    and new: "order_by_client_id (order_id_of L cfg p (intent_candidate_id intent)) (db s) = None"
    and req: "req_method req = POST" "req_path req = [''approval'', token, action]"
      "action \<in> {''approve'', ''reject''}" "dict_get (req_query req) ''approver_id'' = Some who"
  shows "\<exists>h r s'. executor_app req = Some h \<and> h s = (Inr r, s') \<and> http_status r = 200 \<and>
    broker_calls (snd (approval_process_next L cfg br w s')) = broker_calls s @
      (if action = ''approve'' then [(intent, order_id_of L cfg p (intent_candidate_id intent))] else [])"
proof -
  let ?status = "if action = ''approve'' then ''approved'' else ''rejected''"
  have app: "executor_app req = Some (decision_endpoint (decide_with ?status token who (dict_get (req_query req) ''reason'')))"
    using req by (auto simp: executor_app_def approve_endpoint_def reject_endpoint_def approve_def reject_def)
  have "clock s (clock_reads s) \<le> clock s (Suc (Suc (clock_reads s)))" using clock order_trans by blast
  from awaiting_decided [OF wait this, of ?status who "dict_get (req_query req) ''reason''"] obtain r s2 where
    s2: "decision_endpoint (decide_with ?status token who (dict_get (req_query req) ''reason'')) s = (Inr r, s2)" "http_status r = 200"
      "awaiting L j p intent token ?status s2" "broker_calls s2 = broker_calls s" "broker_orders (db s2) = broker_orders (db s)" by blast
  from awaiting_request [OF s2(3)] obtain a where a: "approval_by_message (job_message_id j) (db s2) = Some a" "ap_status a = ?status" by blast
  from s2(3) obtain d raw where due: "due_job L APPROVAL j p s2"
    and d: "env_payload p = JDict d" "dict_get d ''intent'' = Some raw" "validate_intent L raw = Some intent"
    by (auto simp: awaiting_def)
  have none: "order_by_client_id (order_id_of L cfg p (intent_candidate_id intent)) (db s2) = None"
    using new by (simp add: order_by_client_id_def s2(5))
  have "broker_calls (snd (approval_process_next L cfg br w s2)) = broker_calls s @
      (if action = ''approve'' then [(intent, order_id_of L cfg p (intent_candidate_id intent))] else [])"
    using approved_job_sends [OF due d a(1) _ none, of br w] refused_job_quiet [OF due a(1), of cfg br w] a(2) s2(4)
    by (cases "action = ''approve''") auto
  with app s2(1,2) show ?thesis by blast
qed

text \<open>
  In that world the approver decides: any request to approve or reject with that token is answered
  with 200, and the approval worker's next round then makes exactly that call if it was to approve,
  and none otherwise.
\<close>

definition approver_decides ::
  "lib \<Rightarrow> pipeline_config \<Rightarrow> broker_client \<Rightarrow> string \<Rightarrow> string \<Rightarrow> trade_intent \<times> string \<Rightarrow> world \<Rightarrow> bool" where
  "approver_decides L cfg br w token call s \<longleftrightarrow>
     (\<forall>req action who. req_method req = POST \<longrightarrow> req_path req = [''approval'', token, action] \<longrightarrow> action \<in> {''approve'', ''reject''} \<longrightarrow>
        dict_get (req_query req) ''approver_id'' = Some who \<longrightarrow>
        (\<exists>h r s'. executor_app req = Some h \<and> h s = (Inr r, s') \<and> http_status r = 200 \<and>
           broker_calls (snd (approval_process_next L cfg br w s')) = broker_calls s @ (if action = ''approve'' then [call] else [])))"

lemma executor_round_decided:
  assumes "due_job L EXECUTION j p s" and "approval_mode (cfg_executor cfg) = ''manual_all''"
    and "validate_analysis L (env_payload p) = Some report" and "first_max score (ar_candidates report) = Some cand"
    and "get_portfolio_snapshot ctx (ar_portfolio_snapshot_id report) = Inr pf"
    and "risk_ok L (cfg_executor cfg) (clock s (Suc (clock_reads s))) cand pf (get_circuit_breaker_state ctx)"
    and "fresh_ids s" and "fresh_approvals s" and "dialect s = Sqlite"
    and "message_by_key (execution_key cfg p) (db s) = None"
    and "\<forall>x\<in>set (stage_jobs (db s)). job_stage x \<noteq> APPROVAL" and "\<And>i. clock s i \<le> clock s (Suc i)"
    and "intent_read_back L" and new: "order_by_client_id (order_id_of L cfg p (candidate_id cand)) (db s) = None"
  shows "\<exists>s'. executor_process_next L cfg ctx br w s = (Inr True, s') \<and> broker_calls s' = broker_calls s \<and>
    approver_decides L cfg br w' (token_source s (token_draws s))
      (intent_of cfg cand (the (last_price_of cand)), order_id_of L cfg p (candidate_id cand)) s'"
proof -
  let ?intent = "intent_of cfg cand (the (last_price_of cand))"
  from executor_asks [OF assms(1-13), of br w] obtain s1 j' p' where s1: "executor_process_next L cfg ctx br w s = (Inr True, s1)"
    "awaiting L j' p' ?intent (token_source s (token_draws s)) ''requested'' s1" "env_trace_id p' = env_trace_id p"
    "broker_calls s1 = broker_calls s" "broker_orders (db s1) = broker_orders (db s)" "clock s1 = clock s" by blast
  have id: "order_id_of L cfg p' (intent_candidate_id ?intent) = order_id_of L cfg p (candidate_id cand)"
    by (simp add: order_id_of_def s1(3) intent_of_def)
  have "order_by_client_id (order_id_of L cfg p' (intent_candidate_id ?intent)) (db s1) = None"
    using new unfolding id by (simp add: order_by_client_id_def s1(5))
  moreover have "clock s1 i \<le> clock s1 (Suc i)" for i using assms(12) by (simp add: s1(6))
  ultimately have "approver_decides L cfg br w' (token_source s (token_draws s)) (?intent, order_id_of L cfg p (candidate_id cand)) s1"
    using decision_carried_out [OF s1(2), of cfg _ _ _ br w'] unfolding id approver_decides_def by blast
  with s1(1,4) show ?thesis by blast
qed


section \<open>Evaluated examples\<close>

definition decision_lib :: lib where
  "decision_lib = lossless_lib\<lparr>
     dump_decision := (\<lambda>d. JDict [(''intent'', case ed_intent d of None \<Rightarrow> JNull | Some i \<Rightarrow> number_json i)]),
     validate_intent := json_number\<rparr>"

definition manual_lib :: lib where
  "manual_lib = decision_lib\<lparr>validate_analysis := (\<lambda>_. Some demo_analysis_report)\<rparr>"

lemmas decision_lib_defs = manual_lib_def decision_lib_def lossless_lib_def

lemma decision_intents: "intent_read_back decision_lib" "intent_read_back manual_lib"
  by (simp_all add: intent_read_back_def decision_lib_defs number_json_def json_number_def)

lemma risk_ok_mode: "risk_ok L (cfg\<lparr>approval_mode := m\<rparr>) = risk_ok L cfg"
  by (intro ext) (simp add: risk_ok_def within_limits_def)

lemma automatic_risk_ok: "risk_ok L (cfg_executor automatic_config) = risk_ok L (cfg_executor demo_config)"
  by (simp add: automatic_config_def risk_ok_mode)


end
