(* ===== verification/Alert_To_Approval.thy ===== *)
theory Alert_To_Approval
  imports Alert_To_Order Manual_Approval
begin

text \<open>
  The pipeline from an alert to a decision in manual mode, the mode the configuration defaults to,
  on SQLite: the rounds of the researcher, the analyst and the executor, a request to the executor's
  API, and the round of the approval worker.
\<close>


section \<open>Evaluated examples\<close>

lemma decision_chain:
  "hypotheses_of decision_lib = hypotheses_of lossless_lib" "market_url decision_lib = market_url lossless_lib"
  "candidate_of decision_lib = candidate_of lossless_lib"
  "accepted decision_lib demo_config = accepted lossless_lib automatic_config"
proof -
  have l: "py_repr decision_lib = py_repr lossless_lib" "str_decimal decision_lib = str_decimal lossless_lib"
    "str_float decision_lib = str_float lossless_lib" "iso_time decision_lib = iso_time lossless_lib"
    "hmac_sha256_hexdigest decision_lib = hmac_sha256_hexdigest lossless_lib"
    "validate_mirror_json decision_lib = validate_mirror_json lossless_lib" "cfg_researcher demo_config = cfg_researcher automatic_config"
    by (simp_all add: decision_lib_def automatic_config_def)
  note same = hypotheses_of_def hypothesis_of_def market_url_def evaluate_filters_def market_snapshot_of_def candidate_of_def
    features_of_def str_or_null_def str_or_empty_def
    accepted_def authorize_def verify_signature_def l
  show "hypotheses_of decision_lib = hypotheses_of lossless_lib" "market_url decision_lib = market_url lossless_lib"
    "candidate_of decision_lib = candidate_of lossless_lib" "accepted decision_lib demo_config = accepted lossless_lib automatic_config"
    by ((intro ext)?; simp only: same)+
qed

lemma decision_models:
  "read_back decision_lib (dump_ingested decision_lib) (validate_ingested decision_lib)"
  "read_back decision_lib (dump_research decision_lib) (validate_research decision_lib)"
  "read_back decision_lib (dump_analysis decision_lib) (validate_analysis decision_lib)"
  using lossless_models by (simp_all add: read_back_def decision_lib_def)


end
