(* ===== verification/Payload_Storage.thy ===== *)
theory Payload_Storage
  imports Pipeline_Queue Canonical_Json
begin

text \<open>
  What becomes of a payload between two stages: \<open>upsert_message\<close> stores its canonical text
  and its hash, \<open>get_message\<close> reads the text again (\<open>src/src/pipeline/db.py\<close>,
  \<open>src/src/pipeline/tracing.py\<close>). The library's JSON functions are the modelled ones here.
\<close>

definition text_lib :: "(rat \<Rightarrow> string) \<Rightarrow> (string \<Rightarrow> rat option) \<Rightarrow> lib \<Rightarrow> lib" where
  "text_lib fl pf L = L\<lparr>json_dumps := canonical_json fl, json_loads := json_loads_text pf\<rparr>"

lemma text_lib_simps:
  "json_dumps (text_lib fl pf L) = canonical_json fl" "json_loads (text_lib fl pf L) = json_loads_text pf"
  "sha256_hexdigest (text_lib fl pf L) = sha256_hexdigest L"
  by (simp_all add: text_lib_def)

text \<open>
  C21 (roundtrip): a message that was inserted is read back as it was written: every field of the
  envelope is the same, and the payload is equal as a Python value; the hash stored beside it is the
  one of the payload.
\<close>

theorem stored_payload_read_back:
  assumes "upsert_message (text_lib fl pf L) e s = (Inr (mid, True), s')"
    and "find_trace (env_trace_id e) (db s) = Some t" and "env_source_alert_id e = tr_source_alert_id t"
    and "proper_json fl pf (env_payload e)"
  shows "\<exists>payload m. get_message (text_lib fl pf L) mid s' = (Inr (e\<lparr>env_payload := payload\<rparr>), s') \<and>
     json_same (env_payload e) payload \<and> find_message mid (db s') = Some m \<and>
     msg_payload_hash m = payload_hash fl (sha256_hexdigest L) payload"
proof -
  let ?L = "text_lib fl pf L" and ?w = "sort_keys (env_payload e)"
  have reread: "json_loads ?L (json_dumps ?L (env_payload e)) = Some ?w"
    by (simp add: text_lib_simps canonical_read_back [OF assms(4)])
  have same: "json_same (env_payload e) ?w"
    using json_same_sorted [OF assms(4) proper_sort_keys [OF assms(4)]] by simp
  have get: "get_message ?L mid s' = (Inr (e\<lparr>env_payload := ?w\<rparr>), s')"
    by (rule get_message_after_upsert [OF assms(1,2,3) reread])
  from upsert_message_InrD [OF assms(1)] have "upsert_message_conn ?L e s = (Inr (mid, True), s')" by auto
  from upsert_message_conn_InrD [OF this] have "mid = env_message_id e" "find_message mid (db s) = None"
    "stage_messages (db s') = stage_messages (db s) @ [message_of ?L e]" by (auto split: option.splits)
  then have row: "find_message mid (db s') = Some (message_of ?L e)"
    by (simp add: find_message_def find_append message_of_def)
  have "msg_payload_hash (message_of ?L e) = payload_hash fl (sha256_hexdigest L) ?w"
    by (simp add: message_of_def text_lib_simps payload_hash_def canonical_json_def)
  with get same row show ?thesis by blast
qed

section \<open>Evaluated examples\<close>

definition mixed_payload :: json where
  "mixed_payload = JDict [(''symbols'', JList [JStr ''XLE'', JNull, JBool True]), (''count'', JInt (- 7)),
     (''alert'', JDict [(''text'', JStr [CHR 0x22, CHR 0x5C, CHR 0x0A, CHR 0xE9]), (''delta'', JFloat (1 / 2))])]"

lemma mixed_proper: "proper_json (\<lambda>_. ''0.5'') (\<lambda>_. Some (1 / 2)) mixed_payload"
proof -
  have "scan_int ''0.5'' = Some (''0'', ''.5'')" "scan_fraction ''.5'' = (''.5'', [])" "scan_exponent [] = ([], [])" by code_simp+
  then show ?thesis by (simp add: mixed_payload_def scan_number_def)
qed

theorem canonical_json_roundtrip_witness:
  "\<exists>w. json_loads_text (\<lambda>_. Some (1 / 2)) (canonical_json (\<lambda>_. ''0.5'') mixed_payload) = Some w \<and> json_same mixed_payload w \<and>
     w \<noteq> mixed_payload"
proof -
  have "sort_keys mixed_payload \<noteq> mixed_payload" by code_simp
  with canonical_json_roundtrip [OF mixed_proper] show ?thesis by blast
qed


theorem stored_payload_read_back_witness:
  "\<exists>payload s'. get_message (text_lib (\<lambda>_. ''0.5'') (\<lambda>_. Some (1 / 2)) demo_lib) ''m2'' s' =
       (Inr (demo_envelope\<lparr>env_payload := payload\<rparr>), s') \<and> json_same mixed_payload payload"
proof -
  let ?L = "text_lib (\<lambda>_. ''0.5'') (\<lambda>_. Some (1 / 2)) demo_lib" and ?e = "demo_envelope\<lparr>env_payload := mixed_payload\<rparr>"
  have "\<exists>s'. upsert_message ?L ?e (demo_world (demo_db RESEARCH)) = (Inr (''m2'', True), s')"
    by (simp add: upsert_message_def upsert_message_conn_def tx_def op_defs demo_defs insert_row_def message_by_key_def
        find_message_def find_trace_def message_of_def)
  then obtain s' where "upsert_message ?L ?e (demo_world (demo_db RESEARCH)) = (Inr (''m2'', True), s')" by blast
  moreover have "find_trace (env_trace_id ?e) (db (demo_world (demo_db RESEARCH))) = Some demo_trace"
    "env_source_alert_id ?e = tr_source_alert_id demo_trace" "proper_json (\<lambda>_. ''0.5'') (\<lambda>_. Some (1 / 2)) (env_payload ?e)"
    using mixed_proper by (simp_all add: demo_defs find_trace_def)
  ultimately show ?thesis using stored_payload_read_back by fastforce
qed

end
