(* ===== verification/Processes.thy ===== *)
theory Processes
  imports Entry_Points Http_Services
begin

text \<open>
  The pipeline's processes from their start (\<open>main\<close> of
  \<open>src/src/researcher/__main__.py\<close>, \<open>src/src/analyst/__main__.py\<close>,
  \<open>src/src/executor/__main__.py\<close> and \<open>src/src/outcome/__main__.py\<close>): the choice
  of the mode, the database opened, and the loop, the single round or the server that follows. The
  command line is an argument, and so are the requests a server answers and the number of passes a
  loop gets to make.
\<close>

section \<open>The entry points\<close>

definition researcher_process ::
  "lib \<Rightarrow> (string \<Rightarrow> json) \<Rightarrow> pipeline_config \<Rightarrow> string \<Rightarrow> string \<Rightarrow> http_request list \<Rightarrow> nat \<Rightarrow> world \<Rightarrow> world" where
  "researcher_process L validation_errors cfg schema_version mode reqs k s =
     (if mode = ''server'' then snd (run_server (researcher_app L validation_errors cfg schema_version) reqs s)
      else snd (snd (researcher_main L cfg k (snd (initialize s)))))"

definition analyst_process ::
  "lib \<Rightarrow> (rat \<Rightarrow> rat) \<Rightarrow> pipeline_config \<Rightarrow> uuid \<Rightarrow> timestamp \<Rightarrow> bool \<Rightarrow> nat \<Rightarrow> world \<Rightarrow> world" where
  "analyst_process L fsqrt cfg sid now once k s =
     (if once then snd (analyst_worker L fsqrt cfg sid now (snd (initialize s)))
      else snd (snd (analyst_main L fsqrt cfg sid now k (snd (initialize s)))))"

definition executor_process ::
  "lib \<Rightarrow> pipeline_config \<Rightarrow> uuid \<Rightarrow> timestamp \<Rightarrow> string \<Rightarrow> http_request list \<Rightarrow> nat \<Rightarrow> world \<Rightarrow> world" where
  "executor_process L cfg sid now mode reqs k s =
     (if mode = ''server'' then snd (run_server executor_app reqs s)
      else if mode = ''approval'' then snd (snd (approval_main L cfg k (snd (initialize s))))
      else snd (snd (executor_main L cfg sid now k (snd (initialize s)))))"

definition outcome_process :: "lib \<Rightarrow> pipeline_config \<Rightarrow> bool \<Rightarrow> nat \<Rightarrow> world \<Rightarrow> world" where
  "outcome_process L cfg once k s =
     (if once then snd (outcome_process_next L cfg (static_price_provider L [] None) ''outcome-1'' (snd (initialize s)))
      else snd (snd (outcome_main L cfg k (snd (initialize s)))))"

text \<open>
  The processes side by side: one round of a worker as its entry point builds it, or one request to
  one of the servers, in any order.
\<close>

inductive process_step :: "lib \<Rightarrow> pipeline_config \<Rightarrow> world \<Rightarrow> world \<Rightarrow> bool" for L cfg where
  start: "process_step L cfg s (snd (initialize s))"
| webhook: "researcher_app L ve cfg sv req = Some h \<Longrightarrow> process_step L cfg s (snd (h s))"
| approver: "executor_app req = Some h \<Longrightarrow> process_step L cfg s (snd (h s))"
| researching: "process_step L cfg s (snd (researcher_process_next L cfg ''researcher-1'' s))"
| analysing: "process_step L cfg s (snd (analyst_worker L fsqrt cfg sid now s))"
| executing: "process_step L cfg s (snd (executor_worker L cfg sid now s))"
| approving: "process_step L cfg s (snd (approval_process_next L cfg (paper_broker_client L) ''approval-1'' s))"
| observing: "process_step L cfg s (snd (outcome_process_next L cfg (static_price_provider L [] None) ''outcome-1'' s))"

section \<open>Processes are sequences of their steps\<close>

lemma loop_steps:
  assumes "\<And>s. R s (snd (process_next s))"
  shows "R\<^sup>*\<^sup>* s (snd (snd (run_forever k process_next s)))"
proof (induction k arbitrary: s)
  case (Suc k)
  obtain r s' where m: "process_next s = (r, s')" by fastforce
  with assms [of s] have "R s s'" by simp
  with Suc [of s'] m show ?case by (auto split: sum.split prod.split intro: converse_rtranclp_into_rtranclp)
qed simp

lemma serve_steps:
  assumes "\<And>req h s. app req = Some h \<Longrightarrow> R s (snd (h s))"
  shows "R\<^sup>*\<^sup>* s (snd (serve app reqs s))"
proof (induction reqs arbitrary: s)
  case (Cons req reqs)
  show ?case
  proof (cases "app req")
    case (Some h)
    obtain r s' where m: "h s = (r, s')" by fastforce
    with assms [OF Some, of s] have "R s s'" by simp
    with Cons.IH [of s'] m Some show ?thesis by (auto intro: converse_rtranclp_into_rtranclp)
  qed (use Cons in simp)
qed simp

lemma started_steps: "(process_step L cfg)\<^sup>*\<^sup>* (snd (initialize s)) s' \<Longrightarrow> (process_step L cfg)\<^sup>*\<^sup>* s s'"
  by (blast intro: converse_rtranclp_into_rtranclp process_step.start)

lemma process_run_steps:
  "(process_step L cfg)\<^sup>*\<^sup>* s (researcher_process L ve cfg sv mode reqs k s)"
  "(process_step L cfg)\<^sup>*\<^sup>* s (analyst_process L fsqrt cfg sid now once k s)"
  "(process_step L cfg)\<^sup>*\<^sup>* s (executor_process L cfg sid now mode reqs k s)"
  "(process_step L cfg)\<^sup>*\<^sup>* s (outcome_process L cfg once k s)"
proof -
  let ?R = "process_step L cfg" and ?s = "snd (initialize s)"
  note loop = started_steps [OF loop_steps [where R = ?R]] and once = started_steps [OF r_into_rtranclp]
    and serve = started_steps [OF serve_steps [where R = ?R]]
  have r: "?R\<^sup>*\<^sup>* s (snd (run_server (researcher_app L ve cfg sv) reqs s))" "?R\<^sup>*\<^sup>* s (snd (run_server executor_app reqs s))"
    unfolding run_server_def by (rule serve, erule process_step.webhook, rule serve, erule process_step.approver)
  have l: "?R\<^sup>*\<^sup>* s (snd (snd (researcher_main L cfg k ?s)))" "?R\<^sup>*\<^sup>* s (snd (snd (analyst_main L fsqrt cfg sid now k ?s)))"
    "?R\<^sup>*\<^sup>* s (snd (snd (executor_main L cfg sid now k ?s)))" "?R\<^sup>*\<^sup>* s (snd (snd (approval_main L cfg k ?s)))"
    "?R\<^sup>*\<^sup>* s (snd (snd (outcome_main L cfg k ?s)))"
    unfolding researcher_main_def analyst_main_def executor_main_def approval_main_def outcome_main_def
    by (rule loop, rule process_step.researching, rule loop, rule process_step.analysing, rule loop, rule process_step.executing,
        rule loop, rule process_step.approving, rule loop, rule process_step.observing)
  have o: "?R\<^sup>*\<^sup>* s (snd (analyst_worker L fsqrt cfg sid now ?s))"
    "?R\<^sup>*\<^sup>* s (snd (outcome_process_next L cfg (static_price_provider L [] None) ''outcome-1'' ?s))"
    by (rule once, rule process_step.analysing, rule once, rule process_step.observing)
  show "?R\<^sup>*\<^sup>* s (researcher_process L ve cfg sv mode reqs k s)" using r l by (simp add: researcher_process_def)
  show "?R\<^sup>*\<^sup>* s (analyst_process L fsqrt cfg sid now once k s)" using o l by (simp add: analyst_process_def)
  show "?R\<^sup>*\<^sup>* s (executor_process L cfg sid now mode reqs k s)" using r l by (simp add: executor_process_def)
  show "?R\<^sup>*\<^sup>* s (outcome_process L cfg once k s)" using o l by (simp add: outcome_process_def)
qed

section \<open>Their steps are steps of the pipeline\<close>

lemma open_framed: "framed m \<Longrightarrow> preserves conn_open m"
  by (rule framed_preserves) (simp_all add: env_of_def)

lemmas open_rules = preserves_bindM preserves_tryM preserves_option preserves_if preserves_forM preserves_from_option
  framed_basic [THEN open_framed] framed_ops [THEN open_framed] framed_child_envelope [THEN open_framed]
  framed_timed_audit [THEN open_framed] framed_schedule [THEN open_framed] framed_risk_evaluate [THEN open_framed]
  framed_finish_rejected [THEN open_framed] framed_request_approval [THEN open_framed] framed_approval_parts [THEN open_framed]
  framed_retry [THEN open_framed]

lemma submit_order_open: "preserves conn_open (submit_order L cfg br l p i c ch t st)"
proof -
  have "preserves conn_open (broker_place br i c)" for c by (simp add: preserves_def broker_place_def op_defs)
  then show ?thesis unfolding submit_order_def Let_def by (intro open_rules)
qed

lemma execute_job_open: "preserves conn_open (execute_job L cfg ctx br l t)"
proof -
  have "preserves conn_open (from_sum x)" for x :: "py_error + portfolio_snapshot"
    by (cases x) (simp_all add: from_sum_def preserves_ret preserves_raise)
  then show ?thesis unfolding execute_job_def execute_candidate_def Let_def by (intro open_rules submit_order_open)
qed

lemma approval_job_open: "preserves conn_open (approval_job L cfg br l)"
  unfolding approval_job_def expire_if_due_def by (intro open_rules submit_order_open)

lemma rounds_open:
  "preserves conn_open (executor_process_next L cfg ctx br w)" "preserves conn_open (approval_process_next L cfg br w)"
  unfolding executor_process_next_def approval_process_next_def by (intro open_rules execute_job_open approval_job_open)+

lemma open_after: "preserves conn_open m \<Longrightarrow> conn_open s \<Longrightarrow> conn_open (snd (m s))"
  by (simp add: preserves_def)

lemma pipeline_step_open:
  assumes "pipeline_step L cfg s s'" and "conn_open s"
  shows "conn_open s'"
  using assms
  by (cases rule: pipeline_step.cases)
    (simp_all add: rounds_open [THEN open_after] framed_handle_alert [THEN open_framed, THEN open_after]
      framed_researcher_process_next [THEN open_framed, THEN open_after] framed_analyst_process_next [THEN open_framed, THEN open_after]
      framed_approval(2) [THEN open_framed, THEN open_after] framed_outcome_process_next [THEN open_framed, THEN open_after])

lemma endpoint_world: "snd (decision_endpoint (decide_with st token who why) s) = snd (decide_with st token who why s)"
  by (auto simp: decision_endpoint_def tryM_def bindM_def ret_def raise_def split: prod.split sum.split py_error.split)

lemma request_steps:
  "researcher_app L ve cfg sv req = Some h \<Longrightarrow> (pipeline_step L cfg)\<^sup>*\<^sup>* s (snd (h s))"
  "executor_app req = Some h \<Longrightarrow> (pipeline_step L cfg)\<^sup>*\<^sup>* s (snd (h s))"
proof -
  assume "researcher_app L ve cfg sv req = Some h"
  then have "h = receive_alert L ve cfg sv req \<or> h = ret health_response" by (auto simp: researcher_app_def split: if_splits)
  moreover have "snd (receive_alert L ve cfg sv req s) = snd (handle_alert L ve cfg sv (req_body req) (req_headers req) None s)"
    by (simp add: receive_alert_def bindM_def ret_def split: prod.split sum.split)
  ultimately show "(pipeline_step L cfg)\<^sup>*\<^sup>* s (snd (h s))"
    using ingest [of L cfg s ve sv "req_body req" "req_headers req" None] by (auto simp: ret_def)
next
  assume "executor_app req = Some h"
  then have "(\<exists>st token who why. h = decision_endpoint (decide_with st token who why)) \<or> h = ret health_response"
    by (auto simp: executor_app_def approve_endpoint_def reject_endpoint_def approve_def reject_def
        split: if_splits http_method.splits list.splits)
  then show "(pipeline_step L cfg)\<^sup>*\<^sup>* s (snd (h s))" using decide [of L cfg s] by (auto simp: endpoint_world ret_def)
qed

lemma process_step_steps:
  assumes "process_step L cfg s s'" and "conn_open s"
  shows "(pipeline_step L cfg)\<^sup>*\<^sup>* s s'"
  using assms
  by (cases rule: process_step.cases)
    (auto simp: initialize_def analyst_worker_def executor_worker_def intro: request_steps r_into_rtranclp pipeline_step.intros)

lemma pipeline_steps_open: "(pipeline_step L cfg)\<^sup>*\<^sup>* s s' \<Longrightarrow> conn_open s \<Longrightarrow> conn_open s'"
  by (induction rule: rtranclp_induct) (auto intro: pipeline_step_open)

lemma process_steps_refine:
  assumes "(process_step L cfg)\<^sup>*\<^sup>* s s'" and "conn_open s"
  shows "(pipeline_step L cfg)\<^sup>*\<^sup>* s s'"
  using assms
proof (induction rule: rtranclp_induct)
  case (step t u)
  then show ?case using process_step_steps [OF step(2)] pipeline_steps_open rtranclp_trans by metis
qed simp



end
