(* ===== verification/Service_Logs.thy ===== *)
theory Service_Logs
  imports Canonical_Json
begin

text \<open>
  The log of the sentinel (\<open>src/src/sentinel/utils/logging.py\<close>): one record is one line of JSON.
  The time a record was made is rendered by the argument \<open>iso_text\<close>; its message and the text of its
  exception are given.
\<close>

section \<open>Formatting and configuration\<close>

record log_record =
  rec_created :: rat
  rec_levelname :: string
  rec_name :: string
  rec_message :: string
  rec_extra_data :: "json option"
  rec_exception :: "string option"

definition log_payload :: "(rat \<Rightarrow> string) \<Rightarrow> log_record \<Rightarrow> json dict" where
  "log_payload iso_text r =
     [(''timestamp'', JStr (iso_text (rec_created r))), (''level'', JStr (rec_levelname r)), (''logger'', JStr (rec_name r)),
      (''message'', JStr (rec_message r))] @
     (case rec_extra_data r of None \<Rightarrow> [] | Some v \<Rightarrow> [(''extra'', v)]) @
     (case rec_exception r of None \<Rightarrow> [] | Some t \<Rightarrow> [(''exception'', JStr t)])"

definition format_record :: "(rat \<Rightarrow> string) \<Rightarrow> (rat \<Rightarrow> string) \<Rightarrow> log_record \<Rightarrow> string" where
  "format_record fl iso_text r = json_text fl '','' '':'' (JDict (log_payload iso_text r))"

record logging_config =
  log_level :: string
  log_file :: string

datatype log_handler = Stream_Handler | File_Handler string

record root_logger =
  root_level :: int
  root_handlers :: "log_handler list"

text \<open>The level of a name of the \<open>logging\<close> module; any other name means \<open>INFO\<close>.\<close>

definition level_number :: "string \<Rightarrow> int" where
  "level_number name =
     (if name \<in> {''CRITICAL'', ''FATAL''} then 50 else if name = ''ERROR'' then 40
      else if name \<in> {''WARNING'', ''WARN''} then 30 else if name = ''DEBUG'' then 10
      else if name = ''NOTSET'' then 0 else 20)"

definition configure_logging :: "logging_config \<Rightarrow> root_logger \<Rightarrow> root_logger" where
  "configure_logging cfg logger =
     (let cleared = logger\<lparr>root_handlers := []\<rparr>;
          levelled = cleared\<lparr>root_level := level_number (str_upper (log_level cfg))\<rparr>;
          handlers = [Stream_Handler] @ (if log_file cfg \<noteq> [] then [File_Handler (log_file cfg)] else []) in
      foldl (\<lambda>l h. l\<lparr>root_handlers := root_handlers l @ [h]\<rparr>) levelled handlers)"

lemma configure_logging_eq:
  "configure_logging cfg logger = logger\<lparr>root_level := level_number (str_upper (log_level cfg)),
     root_handlers := Stream_Handler # (if log_file cfg = [] then [] else [File_Handler (log_file cfg)])\<rparr>"
  by (simp add: configure_logging_def)

section \<open>JSON text is printable ASCII\<close>

definition printable :: "char \<Rightarrow> bool" where
  "printable c \<longleftrightarrow> 32 \<le> (of_char c :: nat) \<and> (of_char c :: nat) \<le> 126"

lemma printable_digit: "is_digit c \<Longrightarrow> printable c"
  by (simp add: printable_def is_digit_def)

lemma takeWhile_printable: "list_all printable (takeWhile is_digit t)"
  by (auto simp: list_all_iff dest: set_takeWhileD printable_digit)

lemma hex_digit_printable: "k < 16 \<Longrightarrow> printable (hex_digit k)"
proof -
  have "list_all (\<lambda>k. printable (hex_digit k)) [0..<16]" by code_simp
  then show "k < 16 \<Longrightarrow> ?thesis" by (simp add: list_all_iff)
qed

lemma escape_printable: "list_all printable (escape_char c)"
proof -
  have "(of_char c :: nat) < 16 * 16" by simp
  then have "(of_char c :: nat) div 16 < 16" by (rule less_mult_imp_div_less)
  moreover have "printable quote_mark" "printable backslash" "printable CHR ''n''" "printable CHR ''r''" "printable CHR ''t''"
    "printable CHR ''f''" "printable CHR ''b''" "printable CHR ''u''" "printable CHR ''0''"
    by (simp_all add: printable_def quote_mark_def backslash_def)
  ultimately show ?thesis
    by (auto simp: escape_char_def Let_def hex_digit_printable) (simp_all add: printable_def)
qed

lemma json_string_printable: "list_all printable (json_string t)"
proof -
  have "printable quote_mark" by (simp add: printable_def quote_mark_def)
  moreover have "list_all printable (concat (map escape_char t))" using escape_printable by (induction t) auto
  ultimately show ?thesis by (simp add: json_string_def)
qed

lemma scan_int_printable: "scan_int t = Some (i, u) \<Longrightarrow> t = i @ u \<and> list_all printable i"
proof -
  have digits: "t = i @ u \<and> list_all printable i" if "scan_digits t = Some (i, u)" for t i u
    using that takeWhile_printable by (cases t) (auto simp: scan_digits_def printable_digit split: if_splits, simp add: printable_def)
  moreover have "printable CHR ''-''" by (simp add: printable_def)
  ultimately show "scan_int t = Some (i, u) \<Longrightarrow> ?thesis"
    by (cases t) (fastforce simp: scan_int_def split: if_splits)+
qed

lemma scan_fraction_printable: "scan_fraction t = (f, u) \<Longrightarrow> t = f @ u \<and> list_all printable f"
proof -
  have "printable CHR ''.''" by (simp add: printable_def)
  then show "scan_fraction t = (f, u) \<Longrightarrow> ?thesis"
    using takeWhile_printable by (auto simp: scan_fraction_def printable_digit split: list.splits if_splits)
qed

lemma scan_exponent_printable: "scan_exponent t = (e, u) \<Longrightarrow> t = e @ u \<and> list_all printable e"
proof -
  have "printable CHR ''e''" "printable CHR ''E''" "printable CHR ''+''" "printable CHR ''-''" by (simp_all add: printable_def)
  then show "scan_exponent t = (e, u) \<Longrightarrow> ?thesis"
    using takeWhile_printable by (auto simp: scan_exponent_def Let_def printable_digit split: list.splits if_splits)
qed

lemma scan_number_printable:
  assumes "scan_number pf t = Some (v, [])"
  shows "list_all printable t"
proof -
  from assms obtain i s where i: "scan_int t = Some (i, s)" by (auto simp: scan_number_def split: option.splits)
  obtain f s1 where f: "scan_fraction s = (f, s1)" by fastforce
  obtain e s2 where e: "scan_exponent s1 = (e, s2)" by fastforce
  from assms i f e have "s2 = []" by (auto simp: scan_number_def split: if_splits)
  with scan_int_printable [OF i] scan_fraction_printable [OF f] scan_exponent_printable [OF e] show ?thesis by simp
qed

lemma join_printable:
  "list_all printable sep \<Longrightarrow> (\<And>x. x \<in> set xs \<Longrightarrow> list_all printable x) \<Longrightarrow> list_all printable (join_texts sep xs)"
  by (induction sep xs rule: join_texts.induct) auto

lemma json_text_printable:
  assumes "list_all printable isep" "list_all printable ksep"
  shows "proper_json fl pf v \<Longrightarrow> list_all printable (json_text fl isep ksep v)"
proof (induction fl pf v rule: proper_json.induct)
  case (1 fl pf q)
  then show ?case by (auto intro: scan_number_printable)
next
  case (2 fl pf xs)
  have "printable CHR ''[''" "printable CHR '']''" by (simp_all add: printable_def)
  with 2 show ?case by (auto intro!: join_printable assms)
next
  case (3 fl pf kvs)
  have "printable CHR ''{''" "printable CHR ''}''" by (simp_all add: printable_def)
  with 3 show ?case by (auto intro!: join_printable assms simp: json_string_printable)
next
  case (6 fl pf i)
  have "scan_number pf (str_int i) = Some (JInt i, [])" using scan_number_str_int [of "[]"] by (simp add: delimited_def)
  then show ?case by (simp add: scan_number_printable)
qed (simp_all add: json_string_printable, simp_all add: printable_def)

section \<open>One record, one line\<close>

text \<open>
  A log record is one line of printable ASCII, whatever its texts and data are, and
  that line is read back as the record's payload: its time, level, logger and message, and the extra
  data and the exception where it has them.
\<close>

theorem log_line_roundtrip:
  assumes "\<forall>v. rec_extra_data r = Some v \<longrightarrow> proper_json fl pf v"
  shows "list_all printable (format_record fl iso_text r) \<and> CHR 0x0A \<notin> set (format_record fl iso_text r) \<and>
    json_loads_text pf (format_record fl iso_text r) = Some (JDict (log_payload iso_text r))"
proof -
  have proper: "proper_json fl pf (JDict (log_payload iso_text r))"
    using assms by (auto simp: log_payload_def split: option.splits)
  have sep: "list_all printable '',''" "list_all printable '':''" by (simp_all add: printable_def)
  have line: "list_all printable (format_record fl iso_text r)"
    unfolding format_record_def by (rule json_text_printable [OF sep proper])
  moreover have "\<not> printable CHR 0x0A" by (simp add: printable_def)
  with line have "CHR 0x0A \<notin> set (format_record fl iso_text r)" by (auto simp: list_all_iff)
  moreover have "json_loads_text pf (format_record fl iso_text r) = Some (JDict (log_payload iso_text r))"
    using json_text_read_back [OF proper, of 0 0] by (simp add: format_record_def separator_def)
  ultimately show ?thesis by blast
qed

section \<open>Evaluated examples\<close>

definition demo_record :: log_record where
  "demo_record = \<lparr>rec_created = 0, rec_levelname = ''ERROR'', rec_name = ''sentinel'', rec_message = ''a'' @ [CHR 0x0A] @ ''b'',
     rec_extra_data = Some (JDict [(''n'', JInt 3)]), rec_exception = Some (''Traceback'' @ [CHR 0x0A])\<rparr>"

theorem log_line_roundtrip_witness:
  "CHR 0x0A \<notin> set (format_record (\<lambda>_. []) (\<lambda>_. ''t'') demo_record) \<and>
   json_loads_text (\<lambda>_. None) (format_record (\<lambda>_. []) (\<lambda>_. ''t'') demo_record) = Some (JDict (log_payload (\<lambda>_. ''t'') demo_record))"
proof -
  have "\<forall>v. rec_extra_data demo_record = Some v \<longrightarrow> proper_json (\<lambda>_. []) (\<lambda>_. None) v" by (simp add: demo_record_def)
  from log_line_roundtrip [OF this, of "\<lambda>_. ''t''"] show ?thesis by blast
qed

end
