(* ===== verification/Websocket_Session.thy ===== *)
theory Websocket_Session
  imports Market_Feed
begin

text \<open>
  The websocket client over its connections (\<open>run_forever\<close>, \<open>_run_connection\<close>,
  \<open>_heartbeat_loop\<close> and \<open>_command_loop\<close> of
  \<open>src/src/sentinel/ingestion/ws_client.py\<close>) as a function of what happens to it. The
  websocket library is the source of the events: a connection opens or is refused, a frame can be
  sent or not, messages arrive, the connection ends. The callback for resolved markets is taken not
  to raise; the random jitter is left out of the delays.
\<close>

section \<open>State and events\<close>

datatype ws_frame = Ping | Subscription json

text \<open>
  \<open>channel\<close> holds the frames sent on the connection that is open, if one is. A background task
  whose \<open>send\<close> raised is gone until the next connection; the message loop does not notice.
\<close>

record ws_session =
  client :: ws_client
  channel :: "ws_frame list option"
  command_task :: bool
  heartbeat_task :: bool
  reconnect_delay :: int
  slept :: "int list"
  callbacks :: "market_resolved_event list"

datatype ws_event =
    Opened bool
  | Refused
  | Beat bool
  | Command subscription_command bool
  | Received string
  | Ended
  | Broken

definition new_session :: "websocket_config \<Rightarrow> metrics \<Rightarrow> ws_session" where
  "new_session cfg m =
     \<lparr>client = \<lparr>ws_assets = {}, sent = [], output_queue = [], ws_metrics = m\<rparr>, channel = None, command_task = False,
      heartbeat_task = False, reconnect_delay = reconnect_base_delay_sec cfg, slept = [], callbacks = []\<rparr>"

section \<open>Steps\<close>

text \<open>The two ways out of \<open>_run_connection\<close>: an exception, or the end of the messages.\<close>

definition after_failure :: "websocket_config \<Rightarrow> ws_session \<Rightarrow> ws_session" where
  "after_failure cfg s =
     s\<lparr>client := (client s)\<lparr>ws_metrics := increment ''ws_reconnects'' 1 (ws_metrics (client s))\<rparr>, channel := None,
       command_task := False, heartbeat_task := False, slept := slept s @ [reconnect_delay s],
       reconnect_delay := min (reconnect_delay s * 2) (reconnect_max_delay_sec cfg)\<rparr>"

definition after_end :: "websocket_config \<Rightarrow> ws_session \<Rightarrow> ws_session" where
  "after_end cfg s =
     s\<lparr>channel := None, command_task := False, heartbeat_task := False, reconnect_delay := reconnect_base_delay_sec cfg\<rparr>"

definition opened :: "websocket_config \<Rightarrow> bool \<Rightarrow> ws_session \<Rightarrow> ws_session" where
  "opened cfg ok s =
     (if ws_assets (client s) \<noteq> {} \<and> \<not> ok then after_failure cfg s
      else s\<lparr>client := on_connect cfg (client s), command_task := True, heartbeat_task := True,
        channel := Some (if ws_assets (client s) \<noteq> {} then [Subscription (subscription_payload cfg (ws_assets (client s)))] else [])\<rparr>)"

definition commanded :: "websocket_config \<Rightarrow> subscription_command \<Rightarrow> bool \<Rightarrow> ws_frame list \<Rightarrow> ws_session \<Rightarrow> ws_session" where
  "commanded cfg c ok frames s =
     (if ok
      then s\<lparr>client := on_command cfg c (client s),
        channel := Some (frames @ [Subscription (subscription_payload cfg (apply_command c (ws_assets (client s))))])\<rparr>
      else s\<lparr>client := (client s)\<lparr>ws_assets := apply_command c (ws_assets (client s))\<rparr>, command_task := False\<rparr>)"

definition received :: "slib \<Rightarrow> websocket_config \<Rightarrow> string \<Rightarrow> ws_session \<Rightarrow> ws_session" where
  "received SL cfg raw s =
     (case on_message SL cfg raw (client s) of (resolved, w) \<Rightarrow> s\<lparr>client := w, callbacks := callbacks s @ resolved\<rparr>)"

text \<open>\<open>None\<close> where the event cannot happen in that state.\<close>

definition ws_step :: "slib \<Rightarrow> websocket_config \<Rightarrow> ws_event \<Rightarrow> ws_session \<Rightarrow> ws_session option" where
  "ws_step SL cfg ev s =
     (case channel s of
        None \<Rightarrow> (case ev of
            Opened ok \<Rightarrow> Some (opened cfg ok s)
          | Refused \<Rightarrow> Some (after_failure cfg s)
          | _ \<Rightarrow> None)
      | Some frames \<Rightarrow> (case ev of
            Beat ok \<Rightarrow> if heartbeat_task s
              then Some (if ok then s\<lparr>channel := Some (frames @ [Ping])\<rparr> else s\<lparr>heartbeat_task := False\<rparr>) else None
          | Command c ok \<Rightarrow> if command_task s then Some (commanded cfg c ok frames s) else None
          | Received raw \<Rightarrow> Some (received SL cfg raw s)
          | Ended \<Rightarrow> Some (after_end cfg s)
          | Broken \<Rightarrow> Some (after_failure cfg s)
          | _ \<Rightarrow> None))"

fun ws_run :: "slib \<Rightarrow> websocket_config \<Rightarrow> ws_event list \<Rightarrow> ws_session \<Rightarrow> ws_session option" where
  "ws_run SL cfg [] s = Some s"
| "ws_run SL cfg (ev # evs) s = Option.bind (ws_step SL cfg ev s) (ws_run SL cfg evs)"

section \<open>What every run keeps\<close>

definition last_subscription :: "ws_frame list \<Rightarrow> ws_frame option" where
  "last_subscription frames = List.find (\<lambda>f. f \<noteq> Ping) (rev frames)"

lemma last_subscription_simps [simp]:
  "last_subscription [] = None" "last_subscription [Subscription v] = Some (Subscription v)"
  "last_subscription (frames @ [Subscription v]) = Some (Subscription v)" "last_subscription (frames @ [Ping]) = last_subscription frames"
  by (simp_all add: last_subscription_def)

fun commands_of :: "ws_event list \<Rightarrow> subscription_command list" where
  "commands_of [] = []"
| "commands_of (Command c ok # evs) = c # commands_of evs"
| "commands_of (_ # evs) = commands_of evs"

definition informed :: "websocket_config \<Rightarrow> ws_session \<Rightarrow> bool" where
  "informed cfg s \<longleftrightarrow> (\<forall>frames. channel s = Some frames \<longrightarrow> command_task s \<longrightarrow>
     (case last_subscription frames of
        None \<Rightarrow> ws_assets (client s) = {}
      | Some f \<Rightarrow> f = Subscription (subscription_payload cfg (ws_assets (client s)))))"

definition patient :: "websocket_config \<Rightarrow> ws_session \<Rightarrow> bool" where
  "patient cfg s \<longleftrightarrow> set (reconnect_delay s # slept s) \<subseteq> {reconnect_base_delay_sec cfg..reconnect_max_delay_sec cfg} \<and>
     counters (ws_metrics (client s)) ''ws_reconnects'' = int (length (slept s))"

lemma message_keeps:
  assumes "on_message SL cfg raw w = (evs, w')"
  shows "ws_assets w' = ws_assets w" "counters (ws_metrics w') ''ws_reconnects'' = counters (ws_metrics w) ''ws_reconnects''"
proof -
  have "counters (fold (\<lambda>_. increment ''market_resolved_ws_events'' 1) xs m) ''ws_reconnects'' = counters m ''ws_reconnects''" for xs and m :: metrics
    by (induction xs arbitrary: m) (simp_all add: increment_def)
  with assms show "ws_assets w' = ws_assets w" "counters (ws_metrics w') ''ws_reconnects'' = counters (ws_metrics w) ''ws_reconnects''"
    by (auto simp: on_message_def increment_def split: option.splits)
qed

lemma step_informed:
  assumes "ws_step SL cfg ev s = Some s'" and "informed cfg s"
  shows "informed cfg s'"
  using assms
  by (cases ev) (auto simp: ws_step_def informed_def opened_def after_failure_def after_end_def commanded_def received_def
      on_connect_def on_command_def send_subscription_def message_keeps simp del: apply_command.simps
      split: option.splits if_splits prod.splits)

lemma step_patient:
  assumes "ws_step SL cfg ev s = Some s'" and "patient cfg s"
    and "0 \<le> reconnect_base_delay_sec cfg" "reconnect_base_delay_sec cfg \<le> reconnect_max_delay_sec cfg"
  shows "patient cfg s'"
  using assms
  by (cases ev) (auto simp: ws_step_def patient_def opened_def after_failure_def after_end_def commanded_def received_def
      on_connect_def on_command_def send_subscription_def message_keeps increment_def simp del: apply_command.simps
      split: option.splits if_splits prod.splits)

lemma step_assets:
  assumes "ws_step SL cfg ev s = Some s'"
  shows "ws_assets (client s') = fold apply_command (commands_of [ev]) (ws_assets (client s))"
  using assms
  by (cases ev) (auto simp: ws_step_def opened_def after_failure_def after_end_def commanded_def received_def
      on_connect_def on_command_def send_subscription_def message_keeps simp del: apply_command.simps
      split: option.splits if_splits prod.splits)

lemma commands_of_Cons: "commands_of (ev # evs) = commands_of [ev] @ commands_of evs"
  by (cases ev) simp_all

lemma run_keeps:
  assumes "ws_run SL cfg evs s = Some s'" and "informed cfg s" "patient cfg s"
    and "0 \<le> reconnect_base_delay_sec cfg" "reconnect_base_delay_sec cfg \<le> reconnect_max_delay_sec cfg"
  shows "ws_assets (client s') = fold apply_command (commands_of evs) (ws_assets (client s)) \<and> informed cfg s' \<and> patient cfg s'"
  using assms
proof (induction evs arbitrary: s)
  case (Cons ev evs)
  then obtain s1 where "ws_step SL cfg ev s = Some s1" "ws_run SL cfg evs s1 = Some s'" by (auto simp: bind_eq_Some_conv)
  with Cons step_informed step_patient step_assets [of SL cfg ev s s1] show ?case
    unfolding commands_of_Cons [of ev evs] fold_append by fastforce
qed simp


section \<open>Evaluated examples\<close>

text \<open>A command whose send fails, a broken connection, and the subscription sent on the next one.\<close>

definition demo_session_events :: "ws_event list" where
  "demo_session_events = [Opened True, Beat True, Command \<lparr>sub_operation = Subscribe, sub_asset_ids = [''a'']\<rparr> False, Broken,
     Refused, Opened True]"


end
