(* ===== verification/Spec2Isabelle.thy ===== *)
theory Spec2Isabelle
  imports Entry_Points Outcome_Requeue Sentinel_App Ingress_Handoff Operations Configuration
    Market_Rows Provenance Alert_To_Approval Payload_Storage Processes Service_Logs Websocket_Session
begin

text \<open>
  Polymarket Sentinel: a verification development.

  \<^bold>\<open>The program.\<close> The sentinel (\<open>src/src/sentinel\<close>) watches prediction markets. Its
  gatekeeper polls an events API and decides which markets are tracked; the websocket client
  subscribes to them and turns messages into price ticks; the shift detector folds the ticks into
  one-second bars and raises alerts on three levels; the dispatcher filters, deduplicates, enriches
  and sends them to notifiers; the store keeps ticks, alerts and markets, the archiver and the
  retention manager move them to files and delete them. An alert posted to the researcher's ingress
  starts a trace in the pipeline (\<open>src/src/pipeline\<close>, \<open>researcher\<close>, \<open>analyst\<close>,
  \<open>executor\<close>, \<open>outcome\<close>): every stage is a worker that leases a job from the
  database's queue, reads the message it names, writes its own message and the job of the next
  stage, and ends or retries its job; the executor places orders, under manual approval where it is
  configured, and the outcome worker scores them later.

  \<^bold>\<open>The theories.\<close>

  \<^item> \<open>Sentinel_Prelude\<close>, \<open>Json_Values\<close>, \<open>Python_Numbers\<close>, \<open>Civil_Time\<close>: the
    pieces of Python used everywhere: dicts as association lists in insertion order, rounding, JSON
    values and truth values, parsing of numbers, the proleptic Gregorian calendar.
  \<^item> \<open>Contracts\<close>: \<open>src/src/contracts\<close> as records and datatypes, and the record
    \<open>lib\<close> of the third-party functions the pipeline calls (JSON, hashing, pydantic).
  \<^item> \<open>Pipeline_World\<close>: the tables as lists of row records, the world with its clock and
    identifier sources, and operations as functions from a world to an exception or a value and the
    next world. \<open>Pipeline_DB\<close>, \<open>Pipeline_Records\<close>: \<open>db.py\<close>,
    \<open>queue.py\<close>, \<open>approvals.py\<close>, \<open>idempotency.py\<close>, method by method.
  \<^item> \<open>Pipeline_Invariants\<close>: interfaces for a predicate on the tables that the elementary
    changes keep, and hence every operation and worker built from them. \<open>pdb_rows\<close> asks for the
    changes to rows that are not jobs; \<open>pdb_unleased\<close> and \<open>pdb_leasing\<close> extend it by the
    changes to jobs without and with leasing, and \<open>pdb_invariant\<close> is both. They are interpreted
    on keys, leases, runs and recorded orders, and, where leases are excluded, on the set of running
    jobs. \<open>Pipeline_Queue\<close>: the queue's contract. \<open>Worker_Rules\<close>, \<open>Stage_Worker\<close>:
    triples over operations, the loop of a worker, and the interface \<open>stage_worker\<close>, interpreted
    by each of the five workers.
  \<^item> \<open>Researcher\<close>, \<open>Analyst_Tools\<close>, \<open>Analyst_Worker\<close>, \<open>Executor_Risk\<close>,
    \<open>Executor_Worker\<close>, \<open>Executor_Safety\<close>, \<open>Outcomes\<close>, \<open>Outcome_Worker\<close>,
    \<open>Outcome_Requeue\<close>: the stages. \<open>Round_Evaluation\<close>, \<open>Researcher_Round\<close>,
    \<open>Analyst_Round\<close>, \<open>Executor_Round\<close>: what a whole round computes when the job it leases
    can be read and the identifiers it draws are new. \<open>Handover\<close>: that the output's job is due
    for the next stage and reads the output back; \<open>Model_Codecs\<close>: the law of the JSON codec this
    rests on, with a library that satisfies it.
  \<^item> \<open>Pipeline_System\<close>: the step relations of the whole pipeline, every database operation
    and every worker's round in any order. \<open>Message_Lineage\<close>, \<open>Provenance\<close>: where messages,
    jobs and orders come from in its runs. \<open>Alert_To_Order\<close>, \<open>Manual_Approval\<close>,
    \<open>Alert_To_Approval\<close>: the stages one after the other, outside manual mode and in it.
  \<^item> \<open>Http_Services\<close>: the routes of the two web services and a server as the sequence of the
    requests it answers, the search clients of \<open>researcher/tools\<close>, \<open>pipeline/health.py\<close>.
    \<open>Entry_Points\<close>, \<open>Processes\<close>: the processes as their \<open>__main__\<close> modules start them.
  \<^item> \<open>Canonical_Json\<close>, \<open>Payload_Storage\<close>: \<open>pipeline/tracing.py\<close> with
    \<open>json.dumps\<close> and \<open>json.loads\<close> written out, and stored payloads through them.
  \<^item> \<open>Sentinel_Models\<close>, \<open>Sentinel_Store\<close>: \<open>ingestion/models.py\<close>,
    \<open>processing/alerts.py\<close>, \<open>utils/metrics.py\<close>, \<open>config.py\<close> and
    \<open>storage/sqlite_store.py\<close>, tables and in-memory cache; \<open>Market_Rows\<close>: the columns a
    market is written to and read from.
  \<^item> \<open>Gatekeeper\<close>, \<open>Market_Feed\<close>, \<open>Subscriptions\<close>: \<open>ingestion/gatekeeper.py\<close>,
    \<open>ingestion/ws_client.py\<close> and when their subscriptions agree; \<open>Websocket_Session\<close>: the
    client over its connections, as a function of what happens to them.
  \<^item> \<open>Cooldown_Gate\<close>: the interface of a table of times until which a key is closed, provided
    by a dict and used by \<open>Shift_Detector\<close>, \<open>Detector_Bars\<close>, \<open>Detector_Alerts\<close>
    (\<open>processing/detector.py\<close>) and by \<open>Alert_Dispatcher\<close> (\<open>notifications/base.py\<close>).
  \<^item> \<open>Enrichment\<close>: \<open>processing/enrichment.py\<close>. \<open>Notifications\<close>: the four notifiers.
    \<open>Archive\<close>: \<open>storage/archiver.py\<close>, \<open>storage/retention.py\<close>. \<open>Backtest\<close>:
    \<open>processing/stream.py\<close> and \<open>scripts/backtest.py\<close>.
  \<^item> \<open>Sentinel_App\<close>: \<open>app.py\<close>, the sentinel as a whole: one state, a step for a round of each
    task, and runs in which the steps interleave in any order.
  \<^item> \<open>Ingress_Handoff\<close>: the sentinel's webhook meets the researcher's ingress, and
    \<open>scripts/replay_alert.py\<close>. \<open>Operations\<close>: the approval endpoints,
    \<open>scripts/healthcheck.py\<close>. \<open>Configuration\<close>: \<open>sentinel/config.py\<close>,
    \<open>pipeline/config.py\<close>: environment substitution and the loading of both files.
    \<open>Service_Logs\<close>: \<open>sentinel/utils/logging.py\<close>, one JSON object per line.

  \<^bold>\<open>What is shown.\<close> Of the pipeline's database: from empty tables every sequence of
  operations keeps identifiers unique, running jobs leased and runs in step with their jobs; a lease
  is the ready job first in priority and age; a message is stored once under its idempotency key and
  read back as it was; a job that keeps failing is retried exactly as often as configured and then
  dead-lettered. Of its rounds: what the researcher and the analyst store and queue; that the
  executor calls the broker exactly when its best candidate passes every risk check, and at most
  once; that the approval worker sends an approved intent and nothing else. Of its runs: every order
  goes back through a report and an analysis to an alert that was accepted; an order once recorded
  is never sent again by any worker; every message is in the custody of its trace; a round that ends
  leaves no job of its own running; a repeated alert changes nothing. From end to end: an accepted
  alert on an empty database becomes an order in four rounds if the market quotes its symbols and the
  risk checks pass, and in manual mode, the default, exactly if the approver says so; no request to
  the web services trades by itself; and the processes as shipped only take the pipeline's steps.
  Of stored text: the canonical JSON of a payload identifies it, and a payload read from the
  database is the one stored.

  Of the sentinel as a whole: whatever the tasks' interleaving, the notifiers are called only for
  alerts that the configuration lets through and, per event, only after the configured span; and
  subscriptions follow the active markets, across lost connections too. Of its parts: the bars give
  the same price move as the ticks themselves (the detector refines a specification on tick lists); a
  scan raises exactly the due alerts, at least a cooldown apart; the dispatcher sends for each event
  the best allowed alert, at most one per deduplication time; every page of events is fetched and the
  tracked markets are admissible, distinct, the most traded and at most as many as allowed; cache
  and table agree, and a cache read from saved rows is the one that wrote them; ticks are archived
  before they are deleted; archive paths give back their hour; retention deletes exactly what is too
  old; what the webhook sends the ingress accepts; a backtest completes.

  Some theorems state behaviour that differs from the intention: leases that are never reclaimed,
  outcome jobs that cannot be read back, approvals that fail on Postgres or can be overturned, an
  analyst and an executor started without the data they need, markets not subscribed after a restart
  or kept after their resolution, archive files overwritten by incomplete ones.

  \<^bold>\<open>Modelling decisions.\<close> \<open>float\<close> and \<open>Decimal\<close> are exact rationals. Times of
  the pipeline are microseconds, of the sentinel milliseconds. Clocks, random identifiers, HTTP
  replies and the events API are arbitrary sequences or functions, arguments of the definitions.
  Exceptions are values; a transaction that raises leaves the tables as they were. Threads and
  asyncio tasks are interleavings of whole operations: the database takes its lock for each
  transaction; a round of a sentinel task is one step, although it may yield at the awaits of the
  store and the notifiers. Loops: paging may run for ever on a server that always has another page, and
  is a partial function whose result is proved to exist for a server with finitely many events; the
  webhook's retries are bounded by their count; a worker's endless loop is taken for its first rounds,
  and what is shown of it holds for every number of them; a server answers a finite list of requests.
  The JSON reader recurs with fuel, twice the length of the text: more fuel gives no other result, and
  every text the writer makes is read within it. Everything else recurs on data.
  JSON strings are those over the first 256 code points; the reader does not accept \<open>NaN\<close>,
  \<open>Infinity\<close> or escapes of other code points.
  Where SQL leaves the order of equal rows open the row inserted first comes first.

  \<^bold>\<open>Not modelled.\<close> The SQL engines, pydantic, parquet, duckdb, the websocket and HTTP
  libraries, FastAPI's matching of paths and query strings, and hashing are parameters or left out;
  so are the YAML parser and \<open>.env\<close> files, the parsing of command lines, the rendering of times in
  logs, the periodic logging of metrics, the shutdown of the sentinel's tasks, the printing of the
  dead letters by \<open>scripts/replay_stage.py\<close>, and the prompts, which are constant texts.
\<close>

end
